(* ===== verification/Prelude.thy ===== *)
theory Prelude
  imports Complex_Main "HOL-Library.AList" "HOL-Library.Multiset" "HOL-Library.Char_ord"
    "HOL-Library.List_Lexorder"
begin

text \<open>
  The vocabulary every component of the server shares: Go maps, the clock, 64-bit counters,
  \<open>fmt.Sprintf("%d")\<close>, UTF-8 text and \<open>strings.TrimSpace\<close>, decoded JSON, \<open>sort.Slice\<close>,
  and the two interfaces several components implement: an invariant system (a step relation
  with an invariant) and an idempotent ledger (an operation keyed by a client-chosen
  identifier, replayed without a second effect).
\<close>

named_theorems go_simps \<open>unfolding rules of the small Go helpers\<close>

section \<open>Go maps\<close>

text \<open>
  A Go map is an association list with distinct keys. The order of the list stands for the
  order one \<open>range\<close> loop would visit the entries in, which Go leaves open; results that are
  claimed of the program are stated so that they do not depend on it. A \<open>nil\<close> map and an
  empty map read alike (every lookup gives the zero value), so both are \<open>[]\<close>.
\<close>

type_synonym ('k, 'v) gomap = "('k \<times> 'v) list"

abbreviation gm_get :: "('k, 'v) gomap \<Rightarrow> 'k \<Rightarrow> 'v option" where
  "gm_get m k \<equiv> map_of m k"

abbreviation gm_set :: "'k \<Rightarrow> 'v \<Rightarrow> ('k, 'v) gomap \<Rightarrow> ('k, 'v) gomap" where
  "gm_set k v m \<equiv> AList.update k v m"

abbreviation gm_del :: "'k \<Rightarrow> ('k, 'v) gomap \<Rightarrow> ('k, 'v) gomap" where
  "gm_del k m \<equiv> AList.delete k m"

definition gm_wf :: "('k, 'v) gomap \<Rightarrow> bool" where
  "gm_wf m \<longleftrightarrow> distinct (map fst m)"

text \<open>\<open>m[k]\<close> for a map whose values are themselves maps or slices: the zero value is \<open>[]\<close>.\<close>

definition gm_list :: "('k, 'a list) gomap \<Rightarrow> 'k \<Rightarrow> 'a list" where
  "gm_list m k = (case gm_get m k of None \<Rightarrow> [] | Some xs \<Rightarrow> xs)"

definition gm_has :: "('k, 'v) gomap \<Rightarrow> 'k \<Rightarrow> bool" where
  "gm_has m k \<longleftrightarrow> gm_get m k \<noteq> None"

section \<open>Slices\<close>

text \<open>
  The loops over slices the store uses: the index a search loop stops at (the length when it
  finds nothing), \<open>append(xs[:i], xs[i+1:]...)\<close> at that index, and an assignment through the
  first element a loop finds.
\<close>

definition first_index :: "('a \<Rightarrow> bool) \<Rightarrow> 'a list \<Rightarrow> nat" where
  "first_index P xs = length (takeWhile (\<lambda>x. \<not> P x) xs)"

fun remove_first :: "('a \<Rightarrow> bool) \<Rightarrow> 'a list \<Rightarrow> 'a list" where
  "remove_first P [] = []"
| "remove_first P (x # xs) = (if P x then xs else x # remove_first P xs)"

fun update_first :: "('a \<Rightarrow> bool) \<Rightarrow> ('a \<Rightarrow> 'a) \<Rightarrow> 'a list \<Rightarrow> 'a list" where
  "update_first P f [] = []"
| "update_first P f (x # xs) = (if P x then f x # xs else x # update_first P f xs)"

text \<open>The last element a loop without \<open>break\<close> remembers.\<close>

definition update_last :: "('a \<Rightarrow> bool) \<Rightarrow> ('a \<Rightarrow> 'a) \<Rightarrow> 'a list \<Rightarrow> 'a list" where
  "update_last P f xs = rev (update_first P f (rev xs))"

definition find_last :: "('a \<Rightarrow> bool) \<Rightarrow> 'a list \<Rightarrow> 'a option" where
  "find_last P xs = List.find P (rev xs)"

section \<open>Time, counters and decimal printing\<close>

text \<open>
  A \<open>time.Time\<close> is the number of nanoseconds since 1 January of year 1, UTC, so that the
  zero \<open>time.Time\<close> is 0. \<open>Unix\<close>, \<open>UnixMilli\<close> and \<open>UnixNano\<close> shift to the Unix epoch.
\<close>

type_synonym gotime = int

definition zero_time :: gotime where "zero_time = 0"

definition unix_epoch :: gotime where "unix_epoch = 62135596800 * 10 ^ 9"

definition second :: int where "second = 10 ^ 9"

definition Unix :: "gotime \<Rightarrow> int" where "Unix t = (t - unix_epoch) div 10 ^ 9"
definition UnixMilli :: "gotime \<Rightarrow> int" where "UnixMilli t = (t - unix_epoch) div 10 ^ 6"
definition UnixNano :: "gotime \<Rightarrow> int" where "UnixNano t = t - unix_epoch"

text \<open>Two's complement wrap-around of \<open>int64\<close> arithmetic.\<close>

definition wrap64 :: "int \<Rightarrow> int" where
  "wrap64 x = (x + 2 ^ 63) mod 2 ^ 64 - 2 ^ 63"

definition max_int64 :: int where "max_int64 = 2 ^ 63 - 1"

fun show_nat :: "nat \<Rightarrow> string" where
  "show_nat n =
     (if n < 10 then [''0123456789'' ! n]
      else show_nat (n div 10) @ [''0123456789'' ! (n mod 10)])"

declare show_nat.simps [simp del]

definition show_int :: "int \<Rightarrow> string" where
  "show_int i = (if i < 0 then CHR ''-'' # show_nat (nat (- i)) else show_nat (nat i))"

definition parse_nat :: "string \<Rightarrow> nat" where
  "parse_nat s = foldl (\<lambda>a c. 10 * a + (of_char c - 48)) 0 s"

section \<open>UTF-8 text\<close>

text \<open>
  A Go string is a byte string. \<open>rune_split\<close> cuts it into runes the way \<open>range\<close> over a
  string does: a well-formed UTF-8 sequence is one rune, every other byte is the rune U+FFFD
  of width one. Each rune is kept with the bytes it came from.
\<close>

definition cont_byte :: "nat \<Rightarrow> bool" where
  "cont_byte b \<longleftrightarrow> 128 \<le> b \<and> b < 192"

fun decode_rune :: "nat list \<Rightarrow> nat \<times> nat" where
  "decode_rune [] = (65533, 1)"
| "decode_rune (b0 # rest) =
     (if b0 < 128 then (b0, 1)
      else if 194 \<le> b0 \<and> b0 < 224 then
        (case rest of
           b1 # _ \<Rightarrow> if cont_byte b1 then ((b0 - 192) * 64 + (b1 - 128), 2) else (65533, 1)
         | [] \<Rightarrow> (65533, 1))
      else if 224 \<le> b0 \<and> b0 < 240 then
        (case rest of
           b1 # b2 # _ \<Rightarrow>
             if cont_byte b1 \<and> cont_byte b2 \<and> (b0 = 224 \<longrightarrow> 160 \<le> b1) \<and> (b0 = 237 \<longrightarrow> b1 < 160)
             then ((b0 - 224) * 4096 + (b1 - 128) * 64 + (b2 - 128), 3) else (65533, 1)
         | _ \<Rightarrow> (65533, 1))
      else if 240 \<le> b0 \<and> b0 < 245 then
        (case rest of
           b1 # b2 # b3 # _ \<Rightarrow>
             if cont_byte b1 \<and> cont_byte b2 \<and> cont_byte b3 \<and> (b0 = 240 \<longrightarrow> 144 \<le> b1)
                \<and> (b0 = 244 \<longrightarrow> b1 < 144)
             then ((b0 - 240) * 262144 + (b1 - 128) * 4096 + (b2 - 128) * 64 + (b3 - 128), 4)
             else (65533, 1)
         | _ \<Rightarrow> (65533, 1))
      else (65533, 1))"

fun rune_split :: "string \<Rightarrow> (nat \<times> string) list" where
  "rune_split [] = []"
| "rune_split (c # cs) =
     (case decode_rune (map of_char (c # take 3 cs)) of
        (r, n) \<Rightarrow> (r, c # take (n - 1) cs) # rune_split (drop (n - 1) cs))"

definition rune_count :: "string \<Rightarrow> nat" where
  "rune_count s = length (rune_split s)"

definition utf8_ValidString :: "string \<Rightarrow> bool" where
  "utf8_ValidString s \<longleftrightarrow> list_all (\<lambda>(r, bs). \<not> (r = 65533 \<and> length bs = 1)) (rune_split s)"

definition unicode_IsSpace :: "nat \<Rightarrow> bool" where
  "unicode_IsSpace r \<longleftrightarrow>
     (9 \<le> r \<and> r \<le> 13) \<or> r = 32 \<or> r = 133 \<or> r = 160 \<or> r = 5760 \<or> (8192 \<le> r \<and> r \<le> 8202)
     \<or> r = 8232 \<or> r = 8233 \<or> r = 8239 \<or> r = 8287 \<or> r = 12288"

definition unicode_IsControl :: "nat \<Rightarrow> bool" where
  "unicode_IsControl r \<longleftrightarrow> r < 32 \<or> (127 \<le> r \<and> r < 160)"

definition TrimSpace :: "string \<Rightarrow> string" where
  "TrimSpace s =
     concat (map snd
       (rev (dropWhile (unicode_IsSpace \<circ> fst)
         (rev (dropWhile (unicode_IsSpace \<circ> fst) (rune_split s))))))"

fun HasPrefix :: "string \<Rightarrow> string \<Rightarrow> bool" where
  "HasPrefix s [] = True"
| "HasPrefix [] (p # ps) = False"
| "HasPrefix (c # cs) (p # ps) = (c = p \<and> HasPrefix cs ps)"

text \<open>Text whose bytes are all ASCII, on which runes are bytes.\<close>

definition ascii_text :: "string \<Rightarrow> bool" where
  "ascii_text s \<longleftrightarrow> list_all (\<lambda>c. of_char c < (128::nat)) s"

section \<open>Decoded JSON\<close>

text \<open>
  What \<open>encoding/json\<close> decodes into an \<open>interface{}\<close>. A JSON number is a finite
  \<open>float64\<close>, that is, a rational; the server only compares, truncates and tests them, which
  is exact on finite floats. A missing object key and \<open>null\<close> both read as \<open>nil\<close>.
\<close>

datatype json = JNull | JBool bool | JNum rat | JStr string | JArr "json list"
  | JObj "(string \<times> json) list"

type_synonym jobject = "(string, json) gomap"

text \<open>The \<open>v, ok := m[k].(T)\<close> type assertions; the \<open>_str\<close> form drops \<open>ok\<close>.\<close>

definition jget :: "jobject \<Rightarrow> string \<Rightarrow> json" where
  "jget m k = (case gm_get m k of None \<Rightarrow> JNull | Some v \<Rightarrow> v)"

fun as_str :: "json \<Rightarrow> string option" where
  "as_str (JStr s) = Some s" | "as_str _ = None"

fun as_bool :: "json \<Rightarrow> bool option" where
  "as_bool (JBool b) = Some b" | "as_bool _ = None"

fun as_num :: "json \<Rightarrow> rat option" where
  "as_num (JNum r) = Some r" | "as_num _ = None"

fun as_arr :: "json \<Rightarrow> json list option" where
  "as_arr (JArr xs) = Some xs" | "as_arr _ = None"

fun as_obj :: "json \<Rightarrow> jobject option" where
  "as_obj (JObj m) = Some m" | "as_obj _ = None"

definition jstr :: "jobject \<Rightarrow> string \<Rightarrow> string" where
  "jstr m k = (case as_str (jget m k) of None \<Rightarrow> [] | Some s \<Rightarrow> s)"

definition jbool :: "jobject \<Rightarrow> string \<Rightarrow> bool" where
  "jbool m k = (case as_bool (jget m k) of None \<Rightarrow> False | Some b \<Rightarrow> b)"

text \<open>
  \<open>int64(f)\<close>: truncation toward zero when the result fits; amd64 gives the minimum integer
  when it does not.
\<close>

definition trunc_rat :: "rat \<Rightarrow> int" where
  "trunc_rat r = (if 0 \<le> r then \<lfloor>r\<rfloor> else \<lceil>r\<rceil>)"

definition float_to_int64 :: "rat \<Rightarrow> int" where
  "float_to_int64 r =
     (let i = trunc_rat r in if - (2 ^ 63) \<le> i \<and> i < 2 ^ 63 then i else - (2 ^ 63))"

section \<open>Sorting\<close>

text \<open>
  \<open>sort.Slice\<close> and \<open>sort.SliceStable\<close> over a comparison \<open>less\<close>. The model is a stable
  insertion sort; where \<open>less\<close> ties, \<open>sort.Slice\<close> may order the tied elements differently,
  so theorems speak of a sorted permutation only.
\<close>

fun go_insert :: "('a \<Rightarrow> 'a \<Rightarrow> bool) \<Rightarrow> 'a \<Rightarrow> 'a list \<Rightarrow> 'a list" where
  "go_insert lt x [] = [x]"
| "go_insert lt x (y # ys) = (if lt y x then y # go_insert lt x ys else x # y # ys)"

definition go_sort :: "('a \<Rightarrow> 'a \<Rightarrow> bool) \<Rightarrow> 'a list \<Rightarrow> 'a list" where
  "go_sort lt xs = foldr (go_insert lt) xs []"

text \<open>\<open>if limit > 0 && len(result) > limit { result = result[:limit] }\<close>\<close>

definition truncate_limit :: "int \<Rightarrow> 'a list \<Rightarrow> 'a list" where
  "truncate_limit limit xs =
     (if 0 < limit \<and> limit < int (length xs) then take (nat limit) xs else xs)"

section \<open>Lemmas on maps\<close>

lemma gm_wf_Nil [simp]: "gm_wf []"
  by (simp add: gm_wf_def)

lemma gm_wf_set [simp]: "gm_wf m \<Longrightarrow> gm_wf (gm_set k v m)"
  by (simp add: gm_wf_def distinct_update)

lemma gm_wf_del [simp]: "gm_wf m \<Longrightarrow> gm_wf (gm_del k m)"
  by (simp add: gm_wf_def distinct_delete)

lemma gm_get_set: "gm_get (gm_set k v m) k' = (if k' = k then Some v else gm_get m k')"
  by (simp add: update_conv')

lemma gm_get_del: "gm_get (gm_del k m) k' = (if k' = k then None else gm_get m k')"
  by (simp add: delete_conv')

lemmas gm_upd_simps [simp] = gm_get_set gm_get_del

lemma gm_list_set [simp]: "gm_list (gm_set k v m) k' = (if k' = k then v else gm_list m k')"
  by (simp add: gm_list_def)

lemma gm_list_del [simp]: "gm_list (gm_del k m) k' = (if k' = k then [] else gm_list m k')"
  by (simp add: gm_list_def)

lemma gm_list_Nil [simp]: "gm_list [] k = []"
  by (simp add: gm_list_def)

lemma gm_list_Cons [go_simps]: "gm_list ((k, v) # m) k' = (if k' = k then v else gm_list m k')"
  by (simp add: gm_list_def)

lemma gm_wf_Cons [go_simps]: "gm_wf ((k, v) # m) \<longleftrightarrow> k \<notin> fst ` set m \<and> gm_wf m"
  by (simp add: gm_wf_def)

lemma gm_has_set [simp]: "gm_has (gm_set k v m) k' \<longleftrightarrow> k' = k \<or> gm_has m k'"
  by (simp add: gm_has_def)

lemma gm_has_del [simp]: "gm_has (gm_del k m) k' \<longleftrightarrow> k' \<noteq> k \<and> gm_has m k'"
  by (simp add: gm_has_def)

lemma gm_has_Nil [simp]: "\<not> gm_has [] k"
  by (simp add: gm_has_def)

lemma gm_wf_filter [simp]: "gm_wf m \<Longrightarrow> gm_wf (filter P m)"
  by (simp add: gm_wf_def distinct_map_filter)

lemma gm_get_mem: "gm_wf m \<Longrightarrow> (k, v) \<in> set m \<longleftrightarrow> gm_get m k = Some v"
  by (simp add: gm_wf_def)

lemma gm_get_filter:
  "gm_wf m \<Longrightarrow>
   gm_get (filter (\<lambda>(k, v). P k v) m) k =
     (case gm_get m k of Some v \<Rightarrow> if P k v then Some v else None | None \<Rightarrow> None)"
  by (induction m) (auto simp: gm_wf_def map_of_eq_None_iff image_iff split: option.splits)

lemma gm_get_filter_key: "gm_get (filter (\<lambda>(k, v). P k) m) k = (if P k then gm_get m k else None)"
  by (induction m) auto

lemma gm_get_map_val:
  "gm_get (map (\<lambda>(k, v). (k, f k v)) m) k = map_option (f k) (gm_get m k)"
  by (induction m) auto

lemma gm_wf_map_val [simp]: "gm_wf (map (\<lambda>(k, v). (k, f k v)) m) = gm_wf m"
  by (simp add: gm_wf_def comp_def case_prod_beta)

lemma gm_list_mem: "gm_wf m \<Longrightarrow> (k, v) \<in> set m \<Longrightarrow> gm_list m k = v"
  by (simp add: gm_list_def gm_get_mem)

section \<open>Lemmas on slices\<close>

lemma first_index_le: "first_index P xs \<le> length xs"
  by (simp add: first_index_def length_takeWhile_le)

lemma first_index_less_iff: "first_index P xs < length xs \<longleftrightarrow> (\<exists>x\<in>set xs. P x)"
  by (induction xs) (auto simp: first_index_def)

lemma first_index_hit: "first_index P xs < length xs \<Longrightarrow> P (xs ! first_index P xs)"
  by (metis (no_types, lifting) first_index_def nth_length_takeWhile)

lemma first_index_unique:
  assumes "i < length xs" "P (xs ! i)" "\<And>j. j < length xs \<Longrightarrow> P (xs ! j) \<Longrightarrow> j = i"
  shows "first_index P xs = i"
  using assms first_index_hit [of P xs] first_index_less_iff [of P xs] by (metis nth_mem)

lemma first_index_none: "(\<And>x. x \<in> set xs \<Longrightarrow> \<not> P x) \<Longrightarrow> first_index P xs = length xs"
  by (metis first_index_le first_index_less_iff nat_less_le)

lemma set_remove_first_subset: "set (remove_first P xs) \<subseteq> set xs"
  by (induction xs) auto

lemma sorted_wrt_remove_first: "sorted_wrt R xs \<Longrightarrow> sorted_wrt R (remove_first P xs)"
  using set_remove_first_subset by (induction xs) fastforce+

lemma set_remove_first:
  assumes "distinct xs" and "\<And>x y. x \<in> set xs \<Longrightarrow> y \<in> set xs \<Longrightarrow> P x \<Longrightarrow> P y \<Longrightarrow> x = y"
  shows "set (remove_first P xs) = {x \<in> set xs. \<not> P x}"
  using assms by (induction xs) auto

lemma remove_first_id: "\<not> list_ex P xs \<Longrightarrow> remove_first P xs = xs"
  by (induction xs) auto

lemma length_update_first [simp]: "length (update_first P f xs) = length xs"
  by (induction xs) auto

lemma map_update_first: "(\<And>x. h (f x) = h x) \<Longrightarrow> map h (update_first P f xs) = map h xs"
  by (induction xs) auto

lemma map_update_last: "(\<And>x. h (f x) = h x) \<Longrightarrow> map h (update_last P f xs) = map h xs"
  by (simp add: update_last_def map_update_first rev_map [symmetric])

lemma update_first_eq_map:
  assumes "distinct (map h xs)"
  shows "update_first (\<lambda>x. h x = k) f xs = map (\<lambda>x. if h x = k then f x else x) xs"
  using assms by (induction xs) (auto intro!: map_idI [symmetric] simp: image_iff)

lemma update_last_eq_map:
  assumes "distinct (map h xs)"
  shows "update_last (\<lambda>x. h x = k) f xs = map (\<lambda>x. if h x = k then f x else x) xs"
proof -
  from assms have "distinct (map h (rev xs))" by (metis distinct_rev rev_map)
  then show ?thesis by (simp add: update_last_def update_first_eq_map rev_map)
qed

lemma find_last_Some: "find_last P xs = Some x \<Longrightarrow> x \<in> set xs \<and> P x"
  by (auto simp: find_last_def find_Some_iff) (metis nth_mem length_rev set_rev)

lemma find_last_None: "find_last P xs = None \<longleftrightarrow> (\<forall>x\<in>set xs. \<not> P x)"
  by (auto simp: find_last_def find_None_iff)

lemma find_Some_unique:
  assumes "x \<in> set xs" "P x" "\<And>y. y \<in> set xs \<Longrightarrow> P y \<Longrightarrow> y = x"
  shows "List.find P xs = Some x"
  using assms by (metis (no_types, lifting) find_None_iff find_Some_iff not_None_eq nth_mem)

lemma list_all_gm_set:
  "list_all P m \<Longrightarrow> P (k, v) \<Longrightarrow> list_all P (gm_set k v m)"
  by (induction m) auto

lemma list_all_gm_del: "list_all P m \<Longrightarrow> list_all P (gm_del k m)"
  by (induction m) auto

lemma foldl_del_get:
  "gm_get (foldl (\<lambda>m x. gm_del (g x) m) m xs) k = (if k \<in> g ` set xs then None else gm_get m k)"
  by (induction xs arbitrary: m) auto

lemma map_remove_first_distinct: "distinct (map h xs) \<Longrightarrow> distinct (map h (remove_first P xs))"
  using set_remove_first_subset [of P] by (induction xs) (auto simp: image_iff)

lemma set_remove_member:
  "distinct (map h xs) \<Longrightarrow> set (remove_first (\<lambda>x. h x = k) xs) = {x \<in> set xs. h x \<noteq> k}"
  by (rule set_remove_first) (auto simp: distinct_map inj_on_def)

section \<open>Lemmas on counters and printing\<close>

lemma wrap64_id: "- (2 ^ 63) \<le> x \<Longrightarrow> x < 2 ^ 63 \<Longrightarrow> wrap64 x = x"
  by (simp add: wrap64_def)

lemma wrap64_range: "- (2 ^ 63) \<le> wrap64 x \<and> wrap64 x < 2 ^ 63"
  by (simp add: wrap64_def)

lemma wrap64_succ: "0 \<le> x \<Longrightarrow> x < max_int64 \<Longrightarrow> wrap64 (x + 1) = x + 1"
  by (rule wrap64_id) (auto simp: max_int64_def)

lemma digit_code: "d < 10 \<Longrightarrow> of_char (''0123456789'' ! d) = (48 + d :: nat)"
proof -
  assume "d < 10"
  then have "d \<in> {0, 1, 2, 3, 4, 5, 6, 7, 8, 9}" by auto
  then show ?thesis by auto
qed

lemma parse_show_nat: "parse_nat (show_nat n) = n"
proof (induction n rule: show_nat.induct)
  case (1 n)
  show ?case
  proof (cases "n < 10")
    case True
    then show ?thesis by (subst show_nat.simps) (simp add: parse_nat_def digit_code)
  next
    case False
    with 1 have "parse_nat (show_nat (n div 10)) = n div 10" by simp
    with False show ?thesis
      by (subst show_nat.simps) (simp add: parse_nat_def digit_code)
  qed
qed

lemma show_nat_inject [simp]: "show_nat a = show_nat b \<longleftrightarrow> a = b"
  by (metis parse_show_nat)

lemma show_nat_nonempty [simp]: "show_nat n \<noteq> []"
  by (subst show_nat.simps) simp

lemma show_nat_hd: "hd (show_nat n) \<noteq> CHR ''-''"
proof (induction n rule: show_nat.induct)
  case (1 n)
  show ?case
  proof (cases "n < 10")
    case True
    then have "n \<in> {0, 1, 2, 3, 4, 5, 6, 7, 8, 9}" by auto
    with True show ?thesis by (subst show_nat.simps) auto
  next
    case False
    with 1 show ?thesis by (subst show_nat.simps) simp
  qed
qed

lemma show_int_inject [simp]: "show_int a = show_int b \<longleftrightarrow> a = b"
proof
  assume eq: "show_int a = show_int b"
  have pos: "hd (show_int x) \<noteq> CHR ''-''" if "0 \<le> x" for x
    using that by (simp add: show_int_def show_nat_hd)
  have neg: "hd (show_int x) = CHR ''-''" if "x < 0" for x
    using that by (simp add: show_int_def)
  have "(a < 0) = (b < 0)"
    using eq pos [of a] pos [of b] neg [of a] neg [of b] by (metis linorder_not_less)
  with eq show "a = b" by (auto simp: show_int_def split: if_splits)
qed simp

lemma show_nat_digits: "c \<in> set (show_nat n) \<Longrightarrow> c \<in> set ''0123456789''"
proof (induction n rule: show_nat.induct)
  case (1 n)
  have digit: "''0123456789'' ! d \<in> set ''0123456789''" if "d < 10" for d
    using that by (intro nth_mem) simp
  show ?case
  proof (cases "n < 10")
    case True
    then have "c = ''0123456789'' ! n" using 1(2) by (subst (asm) show_nat.simps) (simp del: nth_Cons_numeral nth_Cons_0)
    then show ?thesis using digit [OF True] by (simp only:)
  next
    case False
    with 1(2) have "c \<in> set (show_nat (n div 10)) \<or> c = ''0123456789'' ! (n mod 10)"
      by (subst (asm) show_nat.simps) (auto simp del: nth_Cons_numeral nth_Cons_0)
    then show ?thesis using 1(1) [OF False] digit [of "n mod 10"] by (metis mod_less_divisor zero_less_numeral)
  qed
qed

lemma show_int_no_underscore: "CHR ''_'' \<notin> set (show_int i)"
  using show_nat_digits [of "CHR ''_''"] by (auto simp: show_int_def)

section \<open>Lemmas on text\<close>

lemma rune_split_Cons:
  assumes "decode_rune (of_char c # map of_char (take 3 cs)) = (r, n)"
  shows "rune_split (c # cs) = (r, c # take (n - 1) cs) # rune_split (drop (n - 1) cs)"
  using assms by (simp del: decode_rune.simps)

lemma concat_rune_split: "concat (map snd (rune_split s)) = s"
proof (induction s rule: rune_split.induct)
  case (2 c cs)
  obtain r n where d: "decode_rune (of_char c # map of_char (take 3 cs)) = (r, n)" by fastforce
  with 2 have "concat (map snd (rune_split (drop (n - 1) cs))) = drop (n - 1) cs"
    by (metis list.simps(9))
  then show ?case by (simp only: rune_split_Cons [OF d]) simp
qed simp

lemma rune_count_le: "rune_count s \<le> length s"
proof (induction s rule: rune_split.induct)
  case (2 c cs)
  obtain r n where d: "decode_rune (of_char c # map of_char (take 3 cs)) = (r, n)" by fastforce
  with 2 have "rune_count (drop (n - 1) cs) \<le> length (drop (n - 1) cs)"
    by (metis list.simps(9))
  also have "\<dots> \<le> length cs" by simp
  finally show ?case unfolding rune_count_def rune_split_Cons [OF d] by simp
qed (simp add: rune_count_def)

lemma TrimSpace_Nil [simp]: "TrimSpace [] = []"
  by (simp add: TrimSpace_def)

lemma length_concat_dropWhile:
  "length (concat (map f (dropWhile P xs))) \<le> length (concat (map f xs))"
  by (induction xs) auto

lemma length_concat_rev: "length (concat (map f (rev xs))) = length (concat (map f xs))"
  by (induction xs) auto

lemma length_TrimSpace_le: "length (TrimSpace s) \<le> length s"
proof -
  have "length (TrimSpace s) \<le> length (concat (map snd (rune_split s)))"
    unfolding TrimSpace_def
    by (metis (no_types, lifting) length_concat_dropWhile length_concat_rev order_trans)
  then show ?thesis by (simp add: concat_rune_split)
qed

lemma HasPrefix_append [simp]: "HasPrefix (p @ s) p"
  by (induction p) auto

lemma HasPrefix_iff: "HasPrefix s p \<longleftrightarrow> (\<exists>t. s = p @ t)"
  by (induction s p rule: HasPrefix.induct) auto

lemma rune_split_ascii: "ascii_text s \<Longrightarrow> rune_split s = map (\<lambda>c. (of_char c, [c])) s"
proof (induction s)
  case (Cons c cs)
  then have "decode_rune (of_char c # map of_char (take 3 cs)) = (of_char c, 1)" by (simp add: ascii_text_def)
  from rune_split_Cons [OF this] Cons show ?case by (simp add: ascii_text_def)
qed simp

lemma dropWhile_id: "xs = [] \<or> \<not> P (hd xs) \<Longrightarrow> dropWhile P xs = xs"
  by (cases xs) auto

lemma TrimSpace_ascii:
  assumes "ascii_text s" "\<not> unicode_IsSpace (of_char (hd s))" "\<not> unicode_IsSpace (of_char (last s))"
  shows "TrimSpace s = s"
proof (cases "s = []")
  case False
  define rs where "rs = map (\<lambda>c. (of_char c :: nat, [c])) s"
  have rs: "rune_split s = rs" "rs \<noteq> []" using rune_split_ascii [OF assms(1)] False by (simp_all add: rs_def)
  have "dropWhile (unicode_IsSpace \<circ> fst) rs = rs" "dropWhile (unicode_IsSpace \<circ> fst) (rev rs) = rev rs"
    using assms(2,3) False by (simp_all add: dropWhile_id rs_def hd_map hd_rev last_map rev_map [symmetric])
  then show ?thesis using concat_rune_split [of s] by (simp add: TrimSpace_def rs(1))
qed simp

lemma utf8_ascii: "ascii_text s \<Longrightarrow> utf8_ValidString s"
  by (auto simp: utf8_ValidString_def rune_split_ascii list_all_iff ascii_text_def)

lemma rune_count_ascii: "ascii_text s \<Longrightarrow> rune_count s = length s"
  by (simp add: rune_count_def rune_split_ascii)

lemmas ascii_eval = TrimSpace_ascii utf8_ascii rune_count_ascii ascii_text_def unicode_IsSpace_def

section \<open>Lemmas on JSON\<close>

lemma as_obj_iff: "as_obj v = Some m \<longleftrightarrow> v = JObj m"
  by (cases v) auto

lemma as_arr_iff: "as_arr v = Some xs \<longleftrightarrow> v = JArr xs"
  by (cases v) auto

lemma as_str_iff: "as_str v = Some s \<longleftrightarrow> v = JStr s"
  by (cases v) auto

lemma size_gm_get: "gm_get m k = Some v \<Longrightarrow> size v < size (JObj m)"
  by (induction m) (auto split: if_splits)

section \<open>Sorting under a strict weak order\<close>

lemma mset_go_insert: "mset (go_insert lt x ys) = {#x#} + mset ys"
  by (induction ys) auto

lemma mset_go_sort [simp]: "mset (go_sort lt xs) = mset xs"
  by (induction xs) (auto simp: go_sort_def mset_go_insert)

lemma set_go_sort [simp]: "set (go_sort lt xs) = set xs"
  by (metis mset_go_sort set_mset_mset)

lemma length_go_sort [simp]: "length (go_sort lt xs) = length xs"
  by (metis mset_go_sort size_mset)

lemma mset_truncate_sort: "mset (truncate_limit n (go_sort lt xs)) \<subseteq># mset xs"
proof -
  have "mset (take k (go_sort lt xs)) \<subseteq># mset (go_sort lt xs)" for k
    by (metis append_take_drop_id mset_append mset_subset_eq_add_left)
  then show ?thesis by (simp add: truncate_limit_def)
qed

text \<open>The contract of the \<open>less\<close> argument of \<open>sort.Slice\<close>, and what sorting then gives.\<close>

locale strict_weak_order =
  fixes lt :: "'a \<Rightarrow> 'a \<Rightarrow> bool"
  assumes asym: "lt x y \<Longrightarrow> \<not> lt y x"
    and neg_trans: "\<not> lt x y \<Longrightarrow> \<not> lt y z \<Longrightarrow> \<not> lt x z"
begin

lemma insert_sorted:
  "sorted_wrt (\<lambda>x y. \<not> lt y x) ys \<Longrightarrow> sorted_wrt (\<lambda>x y. \<not> lt y x) (go_insert lt x ys)"
proof (induction ys)
  case Nil
  then show ?case by simp
next
  case (Cons y ys)
  have sub: "set (go_insert lt x ys) = insert x (set ys)"
    by (metis mset_go_insert add_mset_add_single set_mset_add_mset_insert set_mset_mset
        union_commute)
  show ?case
  proof (cases "lt y x")
    case True
    with Cons sub show ?thesis by (auto dest: asym)
  next
    case False
    with Cons.prems have "\<not> lt z x" if "z \<in> set ys" for z
      using that neg_trans [of z y x] by auto
    with False Cons.prems show ?thesis by auto
  qed
qed

lemma go_sort_sorted: "sorted_wrt (\<lambda>x y. \<not> lt y x) (go_sort lt xs)"
  by (induction xs) (auto simp: go_sort_def intro: insert_sorted)

lemma truncated_sorted: "sorted_wrt (\<lambda>x y. \<not> lt y x) (truncate_limit n (go_sort lt xs))"
  by (auto simp: truncate_limit_def go_sort_sorted sorted_wrt_take)

text \<open>No element that a limit cuts off comes before one that it keeps.\<close>

lemma truncated_top:
  assumes "x \<in> set (truncate_limit n (go_sort lt xs))"
    and "y \<in># mset xs - mset (truncate_limit n (go_sort lt xs))"
  shows "\<not> lt y x"
proof -
  define zs where "zs = go_sort lt xs"
  have m: "mset xs = mset zs" by (simp add: zs_def)
  show ?thesis
  proof (cases "0 < n \<and> n < int (length zs)")
    case True
    then have tr: "truncate_limit n zs = take (nat n) zs" by (simp add: truncate_limit_def)
    have "mset zs - mset (take (nat n) zs) = mset (drop (nat n) zs)"
      by (metis add_diff_cancel_left' append_take_drop_id mset_append)
    with assms(2) m tr have y: "y \<in> set (drop (nat n) zs)"
      by (simp add: zs_def [symmetric])
    have "sorted_wrt (\<lambda>x y. \<not> lt y x) (take (nat n) zs @ drop (nat n) zs)"
      unfolding append_take_drop_id by (simp add: zs_def go_sort_sorted)
    then have "\<forall>x\<in>set (take (nat n) zs). \<forall>y\<in>set (drop (nat n) zs). \<not> lt y x"
      unfolding sorted_wrt_append by blast
    with assms(1) tr y show ?thesis by (simp add: zs_def [symmetric])
  next
    case False
    then have "truncate_limit n zs = zs" by (auto simp: truncate_limit_def)
    with assms(2) m show ?thesis by (simp add: zs_def [symmetric])
  qed
qed

end

section \<open>Interfaces\<close>

text \<open>
  An invariant system: a start state and a step relation that keep a predicate. A component
  that can be driven by interleaved requests is one; everything reachable satisfies the
  invariant.
\<close>

locale invariant_system =
  fixes init :: 's and step :: "'s \<Rightarrow> 's \<Rightarrow> bool" and inv :: "'s \<Rightarrow> bool"
  assumes inv_init: "inv init"
    and inv_step: "inv s \<Longrightarrow> step s t \<Longrightarrow> inv t"
begin

lemma reachable_inv: "step\<^sup>*\<^sup>* init s \<Longrightarrow> inv s"
  by (induction rule: rtranclp_induct) (auto intro: inv_init inv_step)

lemma reachable_from_inv: "step\<^sup>*\<^sup>* s t \<Longrightarrow> inv s \<Longrightarrow> inv t"
  by (induction rule: rtranclp_induct) (auto intro: inv_step)

end

text \<open>
  An idempotent ledger: requests carry a key and a fingerprint. A key that is already
  recorded is either a replay (same fingerprint) or a conflict (another one), and neither
  changes the state; a new key is recorded with its fingerprint or refused without effect.
\<close>

datatype verdict = Fresh | Replay | Conflict | Refused

fun submit_all :: "('r \<Rightarrow> 's \<Rightarrow> 's \<times> verdict) \<Rightarrow> 'r list \<Rightarrow> 's \<Rightarrow> 's \<times> verdict list" where
  "submit_all submit [] s = (s, [])"
| "submit_all submit (r # rs) s =
     (case submit r s of (s1, v) \<Rightarrow>
        (case submit_all submit rs s1 of (s2, vs) \<Rightarrow> (s2, v # vs)))"

lemma submit_all_Cons:
  "submit_all submit (r # rs) s =
     (fst (submit_all submit rs (fst (submit r s))),
      snd (submit r s) # snd (submit_all submit rs (fst (submit r s))))"
  by (simp add: case_prod_beta)

lemmas submit_all_simps [simp] = submit_all.simps(1) submit_all_Cons
declare submit_all.simps(2) [simp del]

locale idempotent_ledger =
  fixes lookup :: "'s \<Rightarrow> 'k \<Rightarrow> 'f option"
    and key :: "'r \<Rightarrow> 'k" and fp :: "'r \<Rightarrow> 'f"
    and admissible :: "'r \<Rightarrow> bool"
    and submit :: "'r \<Rightarrow> 's \<Rightarrow> 's \<times> verdict"
  assumes replay: "admissible r \<Longrightarrow> lookup s (key r) = Some (fp r) \<Longrightarrow> submit r s = (s, Replay)"
    and conflict:
      "admissible r \<Longrightarrow> lookup s (key r) = Some f \<Longrightarrow> f \<noteq> fp r \<Longrightarrow> submit r s = (s, Conflict)"
    and fresh: "admissible r \<Longrightarrow> lookup s (key r) = None \<Longrightarrow> submit r s = (t, v) \<Longrightarrow>
      (v = Fresh \<and> lookup t = (lookup s)(key r \<mapsto> fp r)) \<or> (v = Refused \<and> t = s)"
begin

lemma recorded_stays:
  assumes "admissible r" "lookup s k = Some f"
  shows "lookup (fst (submit r s)) k = Some f"
proof (cases "lookup s (key r)")
  case None
  obtain t v where "submit r s = (t, v)" by fastforce
  with fresh [OF assms(1) None] None assms(2) show ?thesis by auto
next
  case (Some f')
  with assms show ?thesis by (cases "f' = fp r") (auto simp: replay conflict)
qed

text \<open>A request that was accepted is a replay in the state it produced, whatever comes between.\<close>

lemma recorded_stays_all:
  "list_all admissible rs \<Longrightarrow> lookup s k = Some f \<Longrightarrow> lookup (fst (submit_all submit rs s)) k = Some f"
proof (induction rs arbitrary: s)
  case (Cons r rs)
  then have "lookup (fst (submit r s)) k = Some f" by (simp add: recorded_stays)
  with Cons show ?case by simp
qed simp

lemma accepted_then_replayed:
  assumes "admissible r" "submit r s = (t, Fresh)" "list_all admissible rs"
    and "submit_all submit rs t = (u, vs)"
  shows "submit r u = (u, Replay)"
proof -
  have "lookup s (key r) = None"
  proof (rule ccontr)
    assume "lookup s (key r) \<noteq> None"
    then obtain f where "lookup s (key r) = Some f" by blast
    with assms(1,2) replay [of r s] conflict [of r s f] show False by (cases "f = fp r") auto
  qed
  with fresh [OF assms(1) _ assms(2)] have "lookup t (key r) = Some (fp r)" by auto
  with recorded_stays_all [OF assms(3)] assms(4) have "lookup u (key r) = Some (fp r)"
    by (metis fst_conv)
  with assms(1) show ?thesis by (rule replay)
qed

lemma no_fresh_when_recorded:
  "list_all admissible rs \<Longrightarrow> lookup s k \<noteq> None \<Longrightarrow>
   length (filter (\<lambda>(r, v). key r = k \<and> v = Fresh) (zip rs (snd (submit_all submit rs s)))) = 0"
proof (induction rs arbitrary: s)
  case (Cons r rs)
  obtain f where f: "lookup s k = Some f" using Cons.prems by blast
  obtain t v where t: "submit r s = (t, v)" by fastforce
  have "lookup t k \<noteq> None"
    using recorded_stays [of r s k f] f t Cons.prems by simp
  moreover have "\<not> (key r = k \<and> v = Fresh)"
    using f t Cons.prems replay [of r s] conflict [of r s f] by (cases "f = fp r") auto
  ultimately show ?case using Cons t by auto
qed simp

text \<open>In any run of submissions, each key takes effect at most once.\<close>

lemma at_most_once:
  "list_all admissible rs \<Longrightarrow>
   length (filter (\<lambda>(r, v). key r = k \<and> v = Fresh) (zip rs (snd (submit_all submit rs s)))) \<le> 1"
proof (induction rs arbitrary: s)
  case (Cons r rs)
  obtain t v where t: "submit r s = (t, v)" by fastforce
  show ?case
  proof (cases "key r = k \<and> v = Fresh")
    case True
    have "lookup s (key r) = None"
    proof (rule ccontr)
      assume "lookup s (key r) \<noteq> None"
      then obtain f where "lookup s (key r) = Some f" by blast
      with t True Cons.prems replay [of r s] conflict [of r s f] show False
        by (cases "f = fp r") auto
    qed
    with fresh [of r s t v] t True Cons.prems have "lookup t k \<noteq> None" by auto
    with no_fresh_when_recorded [of rs t k] Cons.prems t True show ?thesis by auto
  next
    case False
    with Cons t show ?thesis by auto
  qed
qed simp

end

end
