(* ===== verification/Store_Types.thy ===== *)
theory Store_Types
  imports Prelude
begin

text \<open>
  The data of the store (\<open>internal/store/store.go\<close>) and the parts of the wire protocol it
  holds (\<open>internal/protocol/protocol.go\<close>): one record per Go struct, with the fields in the
  source's order and a short prefix because record fields are global names. \<open>*time.Time\<close> is
  \<open>gotime option\<close>; pointers to structs are the structs, except where the store keeps two
  pointers to one \<open>Message\<close> (see \<open>Memory_Store\<close>).
\<close>

section \<open>Protocol values held by the store\<close>

record message_segment =
  seg_Type :: string
  seg_Data :: jobject

record reaction =
  r_EmojiID :: string
  r_Count :: nat

section \<open>Store records\<close>

record terminal_vault =
  tv_UserID :: string
  tv_Payload :: string
  tv_Revision :: int
  tv_UpdatedAt :: gotime

record server_stats =
  st_Users :: nat
  st_OnlineUsers :: nat
  st_Groups :: nat
  st_Conversations :: nat
  st_Messages :: nat
  st_ActiveSessions :: nat
  st_MediaFiles :: nat
  st_MediaBytes :: int
  st_PushSubscriptions :: nat

record message =
  m_ID :: string
  m_ConversationID :: string
  m_SenderID :: string
  m_SenderNickname :: string
  m_Segments :: "message_segment list"
  m_Timestamp :: gotime
  m_Recalled :: bool
  m_Reactions :: "reaction list"

record dynamic_interaction_event =
  di_EventID :: string
  di_ConversationID :: string
  di_MessageID :: string
  di_ContentID :: string
  di_NodeID :: string
  di_Event :: string
  di_Action :: string
  di_Payload :: jobject
  di_ActorID :: string
  di_ActorNickname :: string
  di_ActorKind :: string
  di_CreatedAt :: gotime

record read_state =
  rs_ConversationID :: string
  rs_UserID :: string
  rs_LastReadMessageID :: string
  rs_ReadAt :: gotime

record conversation =
  c_ID :: string
  c_Type :: string
  c_Title :: string
  c_Avatar :: string
  c_OwnerID :: string
  c_Participants :: "string list"
  c_CreatedAt :: gotime

record conversation_preference =
  cp_ConversationID :: string
  cp_UserID :: string
  cp_IsPinned :: bool
  cp_NotificationLevel :: string
  cp_IsMuted :: bool
  cp_UpdatedAt :: gotime

record user =
  u_ID :: string
  u_Nickname :: string
  u_Avatar :: string
  u_Bio :: string
  u_CardBackgroundURL :: string
  u_CardBackgroundColor :: string
  u_CardBackgroundSensitive :: bool
  u_ShowMutualGroups :: bool
  u_ShowAccountID :: bool
  u_Online :: bool
  u_PasswordHash :: string
  u_CreatedAt :: gotime

record user_title =
  ut_ID :: string
  ut_UserID :: string
  ut_ScopeType :: string
  ut_ScopeID :: string
  ut_Text :: string
  ut_Style :: string
  ut_GrantedBy :: string
  ut_ExpiresAt :: "gotime option"
  ut_CreatedAt :: gotime

record user_report =
  ur_ID :: string
  ur_ReporterID :: string
  ur_TargetID :: string
  ur_Reason :: string
  ur_Details :: string
  ur_CreatedAt :: gotime

record session =
  ss_TokenHash :: string
  ss_UserID :: string
  ss_ExpiresAt :: gotime
  ss_CreatedAt :: gotime

record terminal_session =
  ts_ID :: string
  ts_UserID :: string
  ts_DeviceID :: string
  ts_ClientType :: string
  ts_Connected :: bool
  ts_LoginAt :: gotime
  ts_LastSeenAt :: gotime
  ts_LogoutAt :: "gotime option"

record group_member =
  mb_UserID :: string
  mb_Role :: string
  mb_JoinedAt :: gotime
  mb_MutedUntil :: gotime

record group =
  g_ID :: string
  g_Name :: string
  g_Avatar :: string
  g_Announcement :: string
  g_OwnerID :: string
  g_MuteAll :: bool
  g_Members :: "group_member list"
  g_CreatedAt :: gotime

record group_announcement =
  an_ID :: string
  an_GroupID :: string
  an_Content :: string
  an_AuthorID :: string
  an_IsPinned :: bool
  an_IsRead :: bool
  an_CreatedAt :: gotime
  an_UpdatedAt :: gotime

record friend_request =
  fr_ID :: string
  fr_FromID :: string
  fr_ToID :: string
  fr_Comment :: string
  fr_Status :: string
  fr_CreatedAt :: gotime

record forward_message =
  fw_ID :: string
  fw_ConversationID :: string
  fw_Messages :: "message list"
  fw_CreatedAt :: gotime

record media_file =
  mf_ID :: string
  mf_FileName :: string
  mf_FileType :: string
  mf_MimeType :: string
  mf_Size :: int
  mf_URL :: string
  mf_ThumbnailURL :: string
  mf_Width :: int
  mf_Height :: int
  mf_UploaderID :: string
  mf_CreatedAt :: gotime

record push_subscription =
  ps_UserID :: string
  ps_Endpoint :: string
  ps_P256DH :: string
  ps_Auth :: string
  ps_CreatedAt :: gotime
  ps_UpdatedAt :: gotime

section \<open>Errors\<close>

text \<open>The store's sentinel errors, and \<open>fmt.Errorf\<close> texts.\<close>

datatype store_error =
    ErrMessageIdempotencyConflict
  | ErrDynamicUpdateIdempotencyConflict
  | ErrDynamicInteractionIdempotencyConflict
  | ErrTerminalVaultConflict
  | ErrActiveTitleLimit
  | ErrNoRows
  | ErrMarshal
  | Errorf string

section \<open>Notification levels\<close>

definition NotificationLevelNormal :: string where "NotificationLevelNormal = ''normal''"
definition NotificationLevelMentionsOnly :: string where
  "NotificationLevelMentionsOnly = ''mentions_only''"
definition NotificationLevelMuted :: string where "NotificationLevelMuted = ''muted''"

definition NormalizeNotificationLevel :: "string \<Rightarrow> bool \<Rightarrow> string" where
  "NormalizeNotificationLevel level legacyMuted =
     (if level = NotificationLevelNormal \<or> level = NotificationLevelMentionsOnly
         \<or> level = NotificationLevelMuted then level
      else if legacyMuted then NotificationLevelMuted
      else NotificationLevelNormal)"

lemmas notification_levels [go_simps] =
  NotificationLevelNormal_def NotificationLevelMentionsOnly_def NotificationLevelMuted_def

lemma NormalizeNotificationLevel_idem:
  "NormalizeNotificationLevel (NormalizeNotificationLevel l b) b' = NormalizeNotificationLevel l b"
  by (simp add: NormalizeNotificationLevel_def)

section \<open>Request fingerprints\<close>

text \<open>
  A request fingerprint is \<open>hex (sha256 (json.Marshal request))\<close>. The digest is a parameter
  \<open>H\<close> on the encoded fields; \<open>None\<close> is the error \<open>json.Marshal\<close> may return. Nothing is
  assumed of \<open>H\<close>: two requests count as the same one exactly when their digests agree.
\<close>

type_synonym msg_digest = "string \<times> message_segment list \<Rightarrow> string option"

definition messageRequestFingerprint ::
  "msg_digest \<Rightarrow> string \<Rightarrow> message_segment list \<Rightarrow> string option" where
  "messageRequestFingerprint H conversationID segments = H (conversationID, segments)"

type_synonym event_digest =
  "string \<times> string \<times> string \<times> string \<times> string \<times> string \<times> jobject \<Rightarrow> string option"

definition dynamicInteractionFingerprint ::
  "event_digest \<Rightarrow> dynamic_interaction_event \<Rightarrow> string option" where
  "dynamicInteractionFingerprint H e =
     H (di_ConversationID e, di_MessageID e, di_ContentID e, di_NodeID e, di_Event e,
        di_Action e, di_Payload e)"

end
