(* ===== verification/Memory_Store.thy ===== *)
theory Memory_Store
  imports Store_Types
begin

text \<open>
  \<open>MemoryStore\<close> (\<open>internal/store/memory.go\<close>): its state, its constructor, and the user,
  conversation and preference operations. Every operation of the source runs under the
  store's mutex, so each is one atomic function of the state; \<open>time.Now()\<close> is an argument.

  The store keeps two pointers to the same \<open>Message\<close>: one in the conversation's slice and one
  in the idempotency table, and it updates messages in place. Messages therefore live in a
  heap \<open>s_heap\<close>; an address is an index, allocation appends, and nothing is ever freed.
  Every other object is reachable through one map only and is stored by value.
\<close>

type_synonym addr = nat

record message_idempotency =
  mi_fingerprint :: string
  mi_message :: addr

record dynamic_update_idempotency =
  du_fingerprint :: string
  du_messageID :: string

record dynamic_interaction_record =
  dr_fingerprint :: string
  dr_event :: dynamic_interaction_event

record memory_store =
  s_users :: "(string, user) gomap"
  s_sessions :: "(string, session) gomap"
  s_groups :: "(string, group) gomap"
  s_conversations :: "(string, conversation) gomap"
  s_preferences :: "(string, (string, conversation_preference) gomap) gomap"
  s_groupAnnouncements :: "(string, group_announcement list) gomap"
  s_announcementReads :: "(string, (string, bool) gomap) gomap"
  s_heap :: "message list"
  s_messages :: "(string, addr list) gomap"
  s_messageIdempotency :: "(string, message_idempotency) gomap"
  s_dynamicUpdateIdempotency :: "(string, dynamic_update_idempotency) gomap"
  s_dynamicInteractionEvents :: "(string, dynamic_interaction_event list) gomap"
  s_dynamicInteractionByID :: "(string, dynamic_interaction_record) gomap"
  s_messageReactions :: "(string, (string, string list) gomap) gomap"
  s_readStates :: "(string, (string, read_state) gomap) gomap"
  s_friendRequests :: "(string, friend_request) gomap"
  s_friendships :: "(string, (string, gotime) gomap) gomap"
  s_userTitles :: "(string, user_title) gomap"
  s_userBlocks :: "(string, (string, gotime) gomap) gomap"
  s_userReports :: "user_report list"
  s_forwards :: "(string, forward_message) gomap"
  s_mediaFiles :: "(string, media_file) gomap"
  s_pushSubscriptions :: "(string, (string, push_subscription) gomap) gomap"
  s_terminalVaults :: "(string, terminal_vault) gomap"
  s_terminalSessions :: "(string, terminal_session) gomap"
  s_msgCounter :: int
  s_announcementCounter :: int
  s_friendReqCounter :: int

definition NewMemoryStore :: memory_store where
  "NewMemoryStore =
     \<lparr> s_users = [], s_sessions = [], s_groups = [], s_conversations = [], s_preferences = [],
       s_groupAnnouncements = [], s_announcementReads = [], s_heap = [], s_messages = [],
       s_messageIdempotency = [], s_dynamicUpdateIdempotency = [],
       s_dynamicInteractionEvents = [], s_dynamicInteractionByID = [], s_messageReactions = [],
       s_readStates = [], s_friendRequests = [], s_friendships = [], s_userTitles = [],
       s_userBlocks = [], s_userReports = [], s_forwards = [], s_mediaFiles = [],
       s_pushSubscriptions = [], s_terminalVaults = [], s_terminalSessions = [],
       s_msgCounter = 0, s_announcementCounter = 0, s_friendReqCounter = 0 \<rparr>"

section \<open>User operations\<close>

definition GetUser :: "memory_store \<Rightarrow> string \<Rightarrow> user option" where
  "GetUser s ident = gm_get (s_users s) ident"

definition SetUser :: "memory_store \<Rightarrow> user \<Rightarrow> memory_store" where
  "SetUser s usr = s\<lparr>s_users := gm_set (u_ID usr) usr (s_users s)\<rparr>"

definition GetUsers :: "memory_store \<Rightarrow> user list" where
  "GetUsers s = map snd (s_users s)"

definition SetUserOnline :: "memory_store \<Rightarrow> string \<Rightarrow> bool \<Rightarrow> memory_store" where
  "SetUserOnline s ident online =
     (case gm_get (s_users s) ident of
        Some usr \<Rightarrow> s\<lparr>s_users := gm_set ident (usr\<lparr>u_Online := online\<rparr>) (s_users s)\<rparr>
      | None \<Rightarrow> s)"

section \<open>Group membership test\<close>

definition isGroupMember :: "memory_store \<Rightarrow> string \<Rightarrow> string \<Rightarrow> bool" where
  "isGroupMember s groupID userID =
     (case gm_get (s_groups s) groupID of
        None \<Rightarrow> False
      | Some grp \<Rightarrow> list_ex (\<lambda>m. mb_UserID m = userID) (g_Members grp))"

section \<open>Conversation operations\<close>

definition GetOrCreateConversation ::
  "memory_store \<Rightarrow> string \<Rightarrow> string \<Rightarrow> string \<Rightarrow> gotime \<Rightarrow> memory_store \<times> conversation" where
  "GetOrCreateConversation s ident convType title now =
     (case gm_get (s_conversations s) ident of
        Some conv \<Rightarrow> (s, conv)
      | None \<Rightarrow>
          (let conv = \<lparr> c_ID = ident, c_Type = convType, c_Title = title, c_Avatar = [],
                        c_OwnerID = [], c_Participants = [], c_CreatedAt = now \<rparr>
           in (s\<lparr>s_conversations := gm_set ident conv (s_conversations s)\<rparr>, conv)))"

definition SaveConversation :: "memory_store \<Rightarrow> conversation \<Rightarrow> memory_store" where
  "SaveConversation s conv =
     s\<lparr>s_conversations := gm_set (c_ID conv) conv (s_conversations s)\<rparr>"

definition GetConversation :: "memory_store \<Rightarrow> string \<Rightarrow> conversation option" where
  "GetConversation s ident = gm_get (s_conversations s) ident"

definition GetConversations :: "memory_store \<Rightarrow> conversation list" where
  "GetConversations s = map snd (s_conversations s)"

definition GetUserConversations :: "memory_store \<Rightarrow> string \<Rightarrow> conversation list" where
  "GetUserConversations s userID =
     filter (\<lambda>conv. if c_Type conv = ''private'' then userID \<in> set (c_Participants conv)
                    else isGroupMember s (c_ID conv) userID)
       (map snd (s_conversations s))"

definition GetConversationPreference ::
  "memory_store \<Rightarrow> string \<Rightarrow> string \<Rightarrow> conversation_preference option" where
  "GetConversationPreference s conversationID userID =
     gm_get (gm_list (s_preferences s) conversationID) userID"

definition SetConversationPreference ::
  "memory_store \<Rightarrow> conversation_preference \<Rightarrow> gotime \<Rightarrow> memory_store" where
  "SetConversationPreference s preference now =
     (let byUser = gm_list (s_preferences s) (cp_ConversationID preference);
          level = NormalizeNotificationLevel (cp_NotificationLevel preference)
                    (cp_IsMuted preference);
          copy = preference\<lparr>cp_NotificationLevel := level,
                            cp_IsMuted := (level = NotificationLevelMuted),
                            cp_UpdatedAt := now\<rparr>
      in s\<lparr>s_preferences := gm_set (cp_ConversationID preference)
             (gm_set (cp_UserID preference) copy byUser) (s_preferences s)\<rparr>)"

lemmas memory_store_defs =
  GetUser_def SetUser_def GetUsers_def SetUserOnline_def isGroupMember_def
  GetOrCreateConversation_def SaveConversation_def GetConversation_def GetConversations_def
  GetUserConversations_def GetConversationPreference_def SetConversationPreference_def

section \<open>Lemmas\<close>

lemma GetUser_SetUser [simp]:
  "GetUser (SetUser s usr) ident = (if ident = u_ID usr then Some usr else GetUser s ident)"
  by (simp add: GetUser_def SetUser_def)

lemma GetUser_SetUserOnline:
  "GetUser (SetUserOnline s ident b) ident' =
     (if ident' = ident then map_option (u_Online_update (\<lambda>_. b)) (GetUser s ident) else GetUser s ident')"
  by (auto simp: GetUser_def SetUserOnline_def split: option.splits)

lemma GetConversation_SaveConversation [simp]:
  "GetConversation (SaveConversation s c) ident = (if ident = c_ID c then Some c else GetConversation s ident)"
  by (simp add: GetConversation_def SaveConversation_def)

text \<open>
  A stored preference always carries one of the three levels, agrees with its legacy mute
  flag, and is what the next read returns.
\<close>

lemma SetConversationPreference_read:
  "GetConversationPreference (SetConversationPreference s p now) c u =
     (if c = cp_ConversationID p \<and> u = cp_UserID p
      then Some (p\<lparr>cp_NotificationLevel :=
                     NormalizeNotificationLevel (cp_NotificationLevel p) (cp_IsMuted p),
                   cp_IsMuted := (NormalizeNotificationLevel (cp_NotificationLevel p) (cp_IsMuted p)
                                    = NotificationLevelMuted),
                   cp_UpdatedAt := now\<rparr>)
      else GetConversationPreference s c u)"
  by (auto simp: GetConversationPreference_def SetConversationPreference_def Let_def)

end
