(* ===== verification/Store_Messages.thy ===== *)
theory Store_Messages
  imports Memory_Store
begin

text \<open>
  The message operations of \<open>MemoryStore\<close> (\<open>memory.go\<close>, \<open>read_state.go\<close>): storing with a
  client-chosen identifier, in-place updates, the interaction ledger, reactions, recall,
  deletion, history pages and read cursors. The theory ends with the message invariant and
  the proofs that every operation keeps it.
\<close>

section \<open>Reactions and lookup\<close>

definition deref :: "memory_store \<Rightarrow> addr \<Rightarrow> message" where
  "deref s a = s_heap s ! a"

definition put_msg :: "memory_store \<Rightarrow> addr \<Rightarrow> message \<Rightarrow> memory_store" where
  "put_msg s a m = s\<lparr>s_heap := (s_heap s)[a := m]\<rparr>"

definition reactionCountsLocked :: "memory_store \<Rightarrow> string \<Rightarrow> reaction list" where
  "reactionCountsLocked s msgID =
     (let byEmoji = gm_list (s_messageReactions s) msgID in
      if byEmoji = [] then []
      else map (\<lambda>e. \<lparr>r_EmojiID = e, r_Count = length (gm_list byEmoji e)\<rparr>)
             (sort (map fst (filter (\<lambda>(e, us). us \<noteq> []) byEmoji))))"

text \<open>\<open>copy := *message; copy.Reactions = s.reactionCountsLocked(message.ID)\<close>\<close>

definition copy_message :: "memory_store \<Rightarrow> addr \<Rightarrow> message" where
  "copy_message s a = (deref s a)\<lparr>m_Reactions := reactionCountsLocked s (m_ID (deref s a))\<rparr>"

definition live_addrs :: "memory_store \<Rightarrow> addr list" where
  "live_addrs s = concat (map snd (s_messages s))"

definition findMessageLocked :: "memory_store \<Rightarrow> string \<Rightarrow> addr option" where
  "findMessageLocked s msgID = List.find (\<lambda>a. m_ID (deref s a) = msgID) (live_addrs s)"

definition GetMessage :: "memory_store \<Rightarrow> string \<Rightarrow> message option" where
  "GetMessage s msgID = map_option (copy_message s) (findMessageLocked s msgID)"

section \<open>Storing messages\<close>

definition idem_key :: "string \<Rightarrow> string \<Rightarrow> string" where
  "idem_key sender ident = sender @ [CHR 0x00] @ ident"

definition msg_id :: "int \<Rightarrow> string" where
  "msg_id n = ''msg_'' @ show_int n"

definition StoreMessageIdempotent ::
  "msg_digest \<Rightarrow> memory_store \<Rightarrow> string \<Rightarrow> string \<Rightarrow> string \<Rightarrow> string \<Rightarrow> message_segment list
     \<Rightarrow> gotime \<Rightarrow> memory_store \<times> (store_error + message \<times> bool)" where
  "StoreMessageIdempotent H s convID senderID senderNickname clientMessageID segments now =
     (case messageRequestFingerprint H convID segments of
        None \<Rightarrow> (s, Inl ErrMarshal)
      | Some fingerprint \<Rightarrow>
          (let key = idem_key senderID clientMessageID in
           case (if clientMessageID \<noteq> [] then gm_get (s_messageIdempotency s) key else None) of
             Some existing \<Rightarrow>
               if mi_fingerprint existing \<noteq> fingerprint
               then (s, Inl ErrMessageIdempotencyConflict)
               else (s, Inr (copy_message s (mi_message existing), True))
           | None \<Rightarrow>
               (let counter = wrap64 (s_msgCounter s + 1);
                    msg = \<lparr> m_ID = msg_id counter, m_ConversationID = convID,
                            m_SenderID = senderID, m_SenderNickname = senderNickname,
                            m_Segments = segments, m_Timestamp = now, m_Recalled = False,
                            m_Reactions = [] \<rparr>;
                    a = length (s_heap s);
                    s1 = s\<lparr>s_msgCounter := counter, s_heap := s_heap s @ [msg],
                           s_messages := gm_set convID (gm_list (s_messages s) convID @ [a])
                                           (s_messages s)\<rparr>;
                    s2 = (if clientMessageID \<noteq> []
                          then s1\<lparr>s_messageIdempotency :=
                                    gm_set key \<lparr>mi_fingerprint = fingerprint, mi_message = a\<rparr>
                                      (s_messageIdempotency s1)\<rparr>
                          else s1)
                in (s2, Inr (msg, False)))))"

definition StoreMessage ::
  "msg_digest \<Rightarrow> memory_store \<Rightarrow> string \<Rightarrow> string \<Rightarrow> string \<Rightarrow> message_segment list \<Rightarrow> gotime
     \<Rightarrow> memory_store \<times> (store_error + message)" where
  "StoreMessage H s convID senderID senderNickname segments now =
     (case StoreMessageIdempotent H s convID senderID senderNickname [] segments now of
        (s', Inl e) \<Rightarrow> (s', Inl e)
      | (s', Inr (m, _)) \<Rightarrow> (s', Inr m))"

definition updateMessageSegmentsLocked ::
  "memory_store \<Rightarrow> string \<Rightarrow> message_segment list \<Rightarrow> memory_store \<times> message option" where
  "updateMessageSegmentsLocked s msgID segments =
     (case findMessageLocked s msgID of
        None \<Rightarrow> (s, None)
      | Some a \<Rightarrow>
          (let s' = put_msg s a ((deref s a)\<lparr>m_Segments := segments\<rparr>)
           in (s', Some (copy_message s' a))))"

definition UpdateMessageSegments ::
  "memory_store \<Rightarrow> string \<Rightarrow> message_segment list \<Rightarrow> memory_store \<times> message option" where
  "UpdateMessageSegments s msgID segments = updateMessageSegmentsLocked s msgID segments"

section \<open>The dynamic interaction ledger\<close>

definition cloneDynamicInteractionEvent ::
  "dynamic_interaction_event option \<Rightarrow> dynamic_interaction_event option" where
  "cloneDynamicInteractionEvent event = event"

definition record_event ::
  "memory_store \<Rightarrow> string \<Rightarrow> string \<Rightarrow> dynamic_interaction_event \<Rightarrow> gotime \<Rightarrow> memory_store" where
  "record_event s key fingerprint event now =
     (let copy = (if di_CreatedAt event = zero_time then event\<lparr>di_CreatedAt := now\<rparr> else event)
      in s\<lparr>s_dynamicInteractionEvents :=
             gm_set (di_MessageID copy)
               (gm_list (s_dynamicInteractionEvents s) (di_MessageID copy) @ [copy])
               (s_dynamicInteractionEvents s),
           s_dynamicInteractionByID :=
             gm_set key \<lparr>dr_fingerprint = fingerprint, dr_event = copy\<rparr>
               (s_dynamicInteractionByID s)\<rparr>)"

definition AppendDynamicInteractionEvent ::
  "event_digest \<Rightarrow> memory_store \<Rightarrow> dynamic_interaction_event option \<Rightarrow> gotime
     \<Rightarrow> memory_store \<times> (store_error + bool)" where
  "AppendDynamicInteractionEvent H s event now =
     (case event of
        None \<Rightarrow> (s, Inl (Errorf ''dynamic interaction event identity is required''))
      | Some ev \<Rightarrow>
          if di_EventID ev = [] \<or> di_ActorID ev = []
          then (s, Inl (Errorf ''dynamic interaction event identity is required''))
          else
            (case dynamicInteractionFingerprint H ev of
               None \<Rightarrow> (s, Inl ErrMarshal)
             | Some fingerprint \<Rightarrow>
                 (let key = idem_key (di_ActorID ev) (di_EventID ev) in
                  case gm_get (s_dynamicInteractionByID s) key of
                    Some existing \<Rightarrow>
                      if dr_fingerprint existing \<noteq> fingerprint
                      then (s, Inl ErrDynamicInteractionIdempotencyConflict)
                      else (s, Inr True)
                  | None \<Rightarrow> (record_event s key fingerprint ev now, Inr False))))"

definition CommitDynamicInteractionEvent ::
  "event_digest \<Rightarrow> memory_store \<Rightarrow> dynamic_interaction_event option \<Rightarrow> message_segment list
     \<Rightarrow> gotime \<Rightarrow> memory_store \<times> (store_error + bool)" where
  "CommitDynamicInteractionEvent H s event segments now =
     (case event of
        None \<Rightarrow> (s, Inl (Errorf ''dynamic interaction event identity is required''))
      | Some ev \<Rightarrow>
          if di_EventID ev = [] \<or> di_ActorID ev = []
          then (s, Inl (Errorf ''dynamic interaction event identity is required''))
          else
            (case dynamicInteractionFingerprint H ev of
               None \<Rightarrow> (s, Inl ErrMarshal)
             | Some fingerprint \<Rightarrow>
                 (let key = idem_key (di_ActorID ev) (di_EventID ev) in
                  case gm_get (s_dynamicInteractionByID s) key of
                    Some existing \<Rightarrow>
                      if dr_fingerprint existing \<noteq> fingerprint
                      then (s, Inl ErrDynamicInteractionIdempotencyConflict)
                      else (s, Inr True)
                  | None \<Rightarrow>
                      if findMessageLocked s (di_MessageID ev) = None
                      then (s, Inl (Errorf ''dynamic interaction target message not found''))
                      else
                        (let s1 = fst (updateMessageSegmentsLocked s (di_MessageID ev) segments)
                         in (record_event s1 key fingerprint ev now, Inr False)))))"

definition GetDynamicInteractionEvents ::
  "memory_store \<Rightarrow> string \<Rightarrow> string \<Rightarrow> string \<Rightarrow> int \<Rightarrow> dynamic_interaction_event list" where
  "GetDynamicInteractionEvents s conversationID messageID contentID limit =
     (let result = filter (\<lambda>ev. di_ConversationID ev = conversationID \<and> di_ContentID ev = contentID)
                     (gm_list (s_dynamicInteractionEvents s) messageID)
      in if 0 < limit \<and> limit < int (length result)
         then drop (length result - nat limit) result else result)"

section \<open>Dynamic updates\<close>

definition LookupDynamicUpdateIdempotency ::
  "memory_store \<Rightarrow> string \<Rightarrow> string \<Rightarrow> string \<Rightarrow> store_error + message option \<times> bool" where
  "LookupDynamicUpdateIdempotency s senderID clientMessageID fingerprint =
     (if clientMessageID = [] then Inr (None, False)
      else
        (case gm_get (s_dynamicUpdateIdempotency s) (idem_key senderID clientMessageID) of
           None \<Rightarrow> Inr (None, False)
         | Some rec \<Rightarrow>
             if du_fingerprint rec \<noteq> fingerprint then Inl ErrDynamicUpdateIdempotencyConflict
             else Inr (GetMessage s (du_messageID rec), True)))"

definition StoreDynamicUpdateIdempotent ::
  "memory_store \<Rightarrow> string \<Rightarrow> string \<Rightarrow> string \<Rightarrow> string \<Rightarrow> message_segment list
     \<Rightarrow> memory_store \<times> (store_error + message option \<times> bool)" where
  "StoreDynamicUpdateIdempotent s senderID clientMessageID fingerprint msgID segments =
     (let key = idem_key senderID clientMessageID in
      case (if clientMessageID \<noteq> [] then gm_get (s_dynamicUpdateIdempotency s) key else None) of
        Some rec \<Rightarrow>
          if du_fingerprint rec \<noteq> fingerprint then (s, Inl ErrDynamicUpdateIdempotencyConflict)
          else (s, Inr (GetMessage s (du_messageID rec), True))
      | None \<Rightarrow>
          (case updateMessageSegmentsLocked s msgID segments of
             (s1, None) \<Rightarrow> (s1, Inr (None, False))
           | (s1, Some m) \<Rightarrow>
               (let s2 = (if clientMessageID \<noteq> []
                          then s1\<lparr>s_dynamicUpdateIdempotency :=
                                    gm_set key \<lparr>du_fingerprint = fingerprint, du_messageID = msgID\<rparr>
                                      (s_dynamicUpdateIdempotency s1)\<rparr>
                          else s1)
                in (s2, Inr (Some m, False)))))"

section \<open>History\<close>

definition GetMessagesBefore :: "memory_store \<Rightarrow> string \<Rightarrow> string \<Rightarrow> int \<Rightarrow> message list" where
  "GetMessagesBefore s convID beforeMessageID limit =
     (let msgs = gm_list (s_messages s) convID;
          end = (if beforeMessageID \<noteq> []
                 then first_index (\<lambda>a. m_ID (deref s a) = beforeMessageID) msgs
                 else length msgs);
          lim = (if limit \<le> 0 \<or> limit > int end then end else nat limit);
          start = end - lim
      in map (copy_message s) (drop start (take end msgs)))"

definition GetMessages :: "memory_store \<Rightarrow> string \<Rightarrow> int \<Rightarrow> message list" where
  "GetMessages s convID limit = GetMessagesBefore s convID [] limit"

text \<open>The comparison of the \<open>sort.Slice\<close> in \<open>GetRecentMessages\<close>.\<close>

definition message_recency :: "message \<Rightarrow> message \<Rightarrow> bool" where
  "message_recency x y =
     (if m_Timestamp x = m_Timestamp y then m_ID y < m_ID x else m_Timestamp y < m_Timestamp x)"

definition GetRecentMessages :: "memory_store \<Rightarrow> int \<Rightarrow> message list" where
  "GetRecentMessages s limit =
     truncate_limit limit (go_sort message_recency (map (copy_message s) (live_addrs s)))"

section \<open>Deletion, reactions and recall\<close>

definition deleteMessageIdempotencyLocked :: "memory_store \<Rightarrow> string \<Rightarrow> memory_store" where
  "deleteMessageIdempotencyLocked s messageID =
     s\<lparr>s_messageIdempotency :=
         filter (\<lambda>(key, rec). m_ID (deref s (mi_message rec)) \<noteq> messageID) (s_messageIdempotency s),
       s_dynamicUpdateIdempotency :=
         filter (\<lambda>(key, rec). du_messageID rec \<noteq> messageID) (s_dynamicUpdateIdempotency s)\<rparr>"

definition deleteDynamicInteractionEventsLocked :: "memory_store \<Rightarrow> string \<Rightarrow> memory_store" where
  "deleteDynamicInteractionEventsLocked s messageID =
     s\<lparr>s_dynamicInteractionByID :=
         foldl (\<lambda>m ev. gm_del (idem_key (di_ActorID ev) (di_EventID ev)) m)
           (s_dynamicInteractionByID s) (gm_list (s_dynamicInteractionEvents s) messageID),
       s_dynamicInteractionEvents := gm_del messageID (s_dynamicInteractionEvents s)\<rparr>"

definition DeleteMessage :: "memory_store \<Rightarrow> string \<Rightarrow> memory_store \<times> bool" where
  "DeleteMessage s msgID =
     (case List.find (\<lambda>(c, as). list_ex (\<lambda>a. m_ID (deref s a) = msgID) as) (s_messages s) of
        None \<Rightarrow> (s, False)
      | Some (conversationID, messages) \<Rightarrow>
          (let s1 = s\<lparr>s_messages :=
                        gm_set conversationID (remove_first (\<lambda>a. m_ID (deref s a) = msgID) messages)
                          (s_messages s),
                      s_messageReactions := gm_del msgID (s_messageReactions s)\<rparr>
           in (deleteMessageIdempotencyLocked (deleteDynamicInteractionEventsLocked s1 msgID) msgID,
               True)))"

text \<open>The body of the loop over the messages of a deleted conversation.\<close>

definition purge_message :: "memory_store \<Rightarrow> string \<Rightarrow> memory_store" where
  "purge_message s mid =
     deleteDynamicInteractionEventsLocked
       (deleteMessageIdempotencyLocked
         (s\<lparr>s_messageReactions := gm_del mid (s_messageReactions s)\<rparr>) mid) mid"

definition DeleteConversation :: "memory_store \<Rightarrow> string \<Rightarrow> memory_store" where
  "DeleteConversation s ident =
     (let s1 = foldl (\<lambda>t a. purge_message t (m_ID (deref t a))) s (gm_list (s_messages s) ident)
      in s1\<lparr>s_conversations := gm_del ident (s_conversations s1),
            s_preferences := gm_del ident (s_preferences s1),
            s_messages := gm_del ident (s_messages s1),
            s_readStates := gm_del ident (s_readStates s1)\<rparr>)"

definition ReactToMessage ::
  "memory_store \<Rightarrow> string \<Rightarrow> string \<Rightarrow> string \<Rightarrow> bool
     \<Rightarrow> memory_store \<times> (store_error + message option)" where
  "ReactToMessage s msgID userID emojiID remove =
     (case findMessageLocked s msgID of
        None \<Rightarrow> (s, Inr None)
      | Some target \<Rightarrow>
          if m_Recalled (deref s target)
          then (s, Inl (Errorf ''message already recalled''))
          else
            (let byEmoji = gm_list (s_messageReactions s) msgID;
                 reactors = gm_list byEmoji emojiID;
                 reactors' = (if remove then removeAll userID reactors else List.insert userID reactors);
                 byEmoji' = (if reactors' = [] then gm_del emojiID byEmoji
                             else gm_set emojiID reactors' byEmoji);
                 s' = s\<lparr>s_messageReactions := gm_set msgID byEmoji' (s_messageReactions s)\<rparr>
             in (s', Inr (Some ((deref s' target)\<lparr>m_Reactions := reactionCountsLocked s' msgID\<rparr>)))))"

definition GetMessageReactionIDs :: "memory_store \<Rightarrow> string \<Rightarrow> string \<Rightarrow> string list" where
  "GetMessageReactionIDs s msgID userID =
     sort (map fst (filter (\<lambda>(e, us). userID \<in> set us) (gm_list (s_messageReactions s) msgID)))"

definition RecallMessage :: "memory_store \<Rightarrow> string \<Rightarrow> memory_store \<times> bool" where
  "RecallMessage s msgID =
     (case findMessageLocked s msgID of
        None \<Rightarrow> (s, False)
      | Some a \<Rightarrow> (put_msg s a ((deref s a)\<lparr>m_Recalled := True\<rparr>), True))"

section \<open>Read cursors\<close>

definition MarkConversationRead ::
  "memory_store \<Rightarrow> string \<Rightarrow> string \<Rightarrow> gotime \<Rightarrow> memory_store \<times> read_state" where
  "MarkConversationRead s conversationID userID now =
     (let messages = gm_list (s_messages s) conversationID;
          base = \<lparr> rs_ConversationID = conversationID, rs_UserID = userID,
                   rs_LastReadMessageID = [], rs_ReadAt = now \<rparr>;
          state = (if messages = [] then base
                   else base\<lparr>rs_LastReadMessageID := m_ID (deref s (last messages)),
                             rs_ReadAt := m_Timestamp (deref s (last messages))\<rparr>)
      in (s\<lparr>s_readStates := gm_set conversationID
              (gm_set userID state (gm_list (s_readStates s) conversationID)) (s_readStates s)\<rparr>,
          state))"

definition GetConversationRead :: "memory_store \<Rightarrow> string \<Rightarrow> string \<Rightarrow> read_state option" where
  "GetConversationRead s conversationID userID =
     gm_get (gm_list (s_readStates s) conversationID) userID"

definition GetConversationReadStates :: "memory_store \<Rightarrow> string \<Rightarrow> read_state list" where
  "GetConversationReadStates s conversationID =
     map snd (gm_list (s_readStates s) conversationID)"

definition unread_start :: "memory_store \<Rightarrow> string \<Rightarrow> string \<Rightarrow> nat" where
  "unread_start s conversationID userID =
     (let messages = gm_list (s_messages s) conversationID in
      case GetConversationRead s conversationID userID of
        None \<Rightarrow> 0
      | Some state \<Rightarrow>
          if rs_LastReadMessageID state \<noteq> []
          then (let i = first_index (\<lambda>a. m_ID (deref s a) = rs_LastReadMessageID state) messages
                in if i < length messages then i + 1 else length messages)
          else first_index (\<lambda>a. rs_ReadAt state < m_Timestamp (deref s a)) messages)"

definition CountUnreadMessages :: "memory_store \<Rightarrow> string \<Rightarrow> string \<Rightarrow> nat" where
  "CountUnreadMessages s conversationID userID =
     length (filter (\<lambda>a. m_SenderID (deref s a) \<noteq> userID)
       (drop (unread_start s conversationID userID) (gm_list (s_messages s) conversationID)))"

section \<open>The message invariant\<close>

text \<open>
  Message identifiers are the counter's values in order, so the heap cell at index \<open>a\<close> holds
  \<open>msg_(a+1)\<close>; a conversation's slice holds addresses of its own messages in creation order;
  every idempotency record points into the heap.
\<close>

definition msg_inv :: "memory_store \<Rightarrow> bool" where
  "msg_inv s \<longleftrightarrow>
     gm_wf (s_messages s) \<and> gm_wf (s_messageIdempotency s)
     \<and> gm_wf (s_dynamicUpdateIdempotency s)
     \<and> s_msgCounter s = int (length (s_heap s)) \<and> s_msgCounter s \<le> max_int64
     \<and> (\<forall>a < length (s_heap s). m_ID (s_heap s ! a) = msg_id (int a + 1))
     \<and> (\<forall>c. \<forall>a \<in> set (gm_list (s_messages s) c).
          a < length (s_heap s) \<and> m_ConversationID (s_heap s ! a) = c)
     \<and> (\<forall>c. sorted_wrt (<) (gm_list (s_messages s) c))
     \<and> (\<forall>k r. gm_get (s_messageIdempotency s) k = Some r \<longrightarrow> mi_message r < length (s_heap s))"

lemma msg_invD:
  assumes "msg_inv s"
  shows "gm_wf (s_messages s)" "gm_wf (s_messageIdempotency s)"
    "gm_wf (s_dynamicUpdateIdempotency s)"
    "s_msgCounter s = int (length (s_heap s))" "s_msgCounter s \<le> max_int64"
    "a < length (s_heap s) \<Longrightarrow> m_ID (s_heap s ! a) = msg_id (int a + 1)"
    "a \<in> set (gm_list (s_messages s) c) \<Longrightarrow> a < length (s_heap s)"
    "a \<in> set (gm_list (s_messages s) c) \<Longrightarrow> m_ConversationID (s_heap s ! a) = c"
    "sorted_wrt (<) (gm_list (s_messages s) c)"
    "gm_get (s_messageIdempotency s) k = Some r \<Longrightarrow> mi_message r < length (s_heap s)"
  using assms unfolding msg_inv_def by blast+

lemma msg_id_inject [simp]: "msg_id a = msg_id b \<longleftrightarrow> a = b"
  by (simp add: msg_id_def)

lemma msg_id_nonempty [simp]: "msg_id a \<noteq> []"
  by (simp add: msg_id_def)

lemma heap_id_inject:
  "msg_inv s \<Longrightarrow> a < length (s_heap s) \<Longrightarrow> b < length (s_heap s) \<Longrightarrow>
   m_ID (deref s a) = m_ID (deref s b) \<longleftrightarrow> a = b"
  by (simp add: deref_def msg_invD(6))

lemma live_iff:
  assumes "gm_wf (s_messages s)"
  shows "a \<in> set (live_addrs s) \<longleftrightarrow> (\<exists>c. a \<in> set (gm_list (s_messages s) c))"
proof
  assume "a \<in> set (live_addrs s)"
  then obtain c as where "(c, as) \<in> set (s_messages s)" "a \<in> set as"
    by (auto simp: live_addrs_def)
  with assms show "\<exists>c. a \<in> set (gm_list (s_messages s) c)" by (metis gm_list_mem)
next
  assume "\<exists>c. a \<in> set (gm_list (s_messages s) c)"
  then obtain c where "a \<in> set (gm_list (s_messages s) c)" ..
  then obtain as where "gm_get (s_messages s) c = Some as" "a \<in> set as"
    by (cases "gm_get (s_messages s) c") (auto simp: gm_list_def)
  then show "a \<in> set (live_addrs s)"
    unfolding live_addrs_def by (auto dest!: map_of_SomeD intro!: bexI [of _ "(c, as)"])
qed

lemma live_in_heap: "msg_inv s \<Longrightarrow> a \<in> set (live_addrs s) \<Longrightarrow> a < length (s_heap s)"
  using live_iff msg_invD(1,7) by metis

text \<open>
  A lookup finds exactly the live message with that identifier: it does not depend on the
  order the map of conversations is visited in.
\<close>

lemma findMessage_iff:
  assumes "msg_inv s"
  shows "findMessageLocked s i = Some a \<longleftrightarrow> a \<in> set (live_addrs s) \<and> m_ID (deref s a) = i"
proof
  assume "findMessageLocked s i = Some a"
  then show "a \<in> set (live_addrs s) \<and> m_ID (deref s a) = i"
    unfolding findMessageLocked_def find_Some_iff by (metis nth_mem)
next
  assume h: "a \<in> set (live_addrs s) \<and> m_ID (deref s a) = i"
  then show "findMessageLocked s i = Some a"
    unfolding findMessageLocked_def
    by (intro find_Some_unique) (use assms live_in_heap heap_id_inject in metis)+
qed

lemma findMessage_None: "findMessageLocked s i = None \<longleftrightarrow> (\<forall>a\<in>set (live_addrs s). m_ID (deref s a) \<noteq> i)"
  by (auto simp: findMessageLocked_def find_None_iff)

lemma msg_inv_cong:
  assumes "msg_inv s" "s_heap t = s_heap s" "s_messages t = s_messages s"
    "s_messageIdempotency t = s_messageIdempotency s"
    "s_dynamicUpdateIdempotency t = s_dynamicUpdateIdempotency s" "s_msgCounter t = s_msgCounter s"
  shows "msg_inv t"
  using assms unfolding msg_inv_def by simp

lemma msg_inv_init: "msg_inv NewMemoryStore"
  by (simp add: msg_inv_def NewMemoryStore_def max_int64_def)

text \<open>An in-place change that keeps the identifier and the conversation keeps the invariant.\<close>

lemma msg_inv_put:
  assumes "msg_inv s" "m_ID m = m_ID (deref s a)" "m_ConversationID m = m_ConversationID (deref s a)"
  shows "msg_inv (put_msg s a m)"
proof -
  have "m_ID ((s_heap s)[a := m] ! x) = m_ID (s_heap s ! x)" for x
    using assms(2) by (cases "x = a"; cases "a < length (s_heap s)") (auto simp: deref_def list_update_beyond)
  moreover have "m_ConversationID ((s_heap s)[a := m] ! x) = m_ConversationID (s_heap s ! x)" for x
    using assms(3) by (cases "x = a"; cases "a < length (s_heap s)") (auto simp: deref_def list_update_beyond)
  ultimately show ?thesis using assms(1) unfolding msg_inv_def put_msg_def by simp
qed

lemma StoreMessageIdempotent_inv:
  assumes inv: "msg_inv s" and room: "s_msgCounter s < max_int64"
    and run: "StoreMessageIdempotent H s c u n k segs now = (s', r)"
  shows "msg_inv s'"
proof -
  define cnt where "cnt = s_msgCounter s + 1"
  have cnt: "wrap64 (s_msgCounter s + 1) = cnt" "cnt = int (length (s_heap s)) + 1"
    using inv room wrap64_succ by (auto simp: cnt_def msg_invD(4))
  define m where "m = \<lparr> m_ID = msg_id cnt, m_ConversationID = c, m_SenderID = u,
      m_SenderNickname = n, m_Segments = segs, m_Timestamp = now, m_Recalled = False, m_Reactions = [] \<rparr>"
  define s1 where "s1 = s\<lparr>s_msgCounter := cnt, s_heap := s_heap s @ [m],
      s_messages := gm_set c (gm_list (s_messages s) c @ [length (s_heap s)]) (s_messages s)\<rparr>"
  have inv1: "msg_inv s1"
    using inv room cnt unfolding msg_inv_def s1_def m_def cnt_def
    by (auto simp: nth_append less_Suc_eq sorted_wrt_append)
  have ins: "msg_inv (s1\<lparr>s_messageIdempotency :=
      gm_set key \<lparr>mi_fingerprint = f, mi_message = length (s_heap s)\<rparr> (s_messageIdempotency s1)\<rparr>)" for key f
    using inv1 unfolding msg_inv_def by (auto simp: s1_def)
  show ?thesis
    using run inv inv1 ins
    unfolding StoreMessageIdempotent_def cnt(1) Let_def
    by (auto simp: s1_def m_def split: option.splits if_splits)
qed

lemma updateMessageSegments_inv:
  "msg_inv s \<Longrightarrow> msg_inv (fst (updateMessageSegmentsLocked s i segs))"
  by (auto simp: updateMessageSegmentsLocked_def Let_def intro: msg_inv_put split: option.splits)

lemma RecallMessage_inv: "msg_inv s \<Longrightarrow> msg_inv (fst (RecallMessage s i))"
  by (auto simp: RecallMessage_def intro: msg_inv_put split: option.splits)

lemma record_event_inv: "msg_inv s \<Longrightarrow> msg_inv (record_event s k f e now)"
  by (erule msg_inv_cong) (simp_all add: record_event_def Let_def)

lemma AppendDynamicInteractionEvent_inv:
  "msg_inv s \<Longrightarrow> msg_inv (fst (AppendDynamicInteractionEvent H s e now))"
  by (auto simp: AppendDynamicInteractionEvent_def Let_def intro: record_event_inv
      split: option.splits)

lemma CommitDynamicInteractionEvent_inv:
  "msg_inv s \<Longrightarrow> msg_inv (fst (CommitDynamicInteractionEvent H s e segs now))"
  by (auto simp: CommitDynamicInteractionEvent_def Let_def
      intro!: record_event_inv updateMessageSegments_inv split: option.splits)

lemma msg_inv_set_du:
  "msg_inv s \<Longrightarrow> gm_wf du \<Longrightarrow> msg_inv (s\<lparr>s_dynamicUpdateIdempotency := du\<rparr>)"
  by (simp add: msg_inv_def)

lemma StoreDynamicUpdateIdempotent_inv:
  assumes "msg_inv s"
  shows "msg_inv (fst (StoreDynamicUpdateIdempotent s u k f i segs))"
proof -
  obtain s1 r where u: "updateMessageSegmentsLocked s i segs = (s1, r)" by fastforce
  with updateMessageSegments_inv [OF assms, of i segs] have s1: "msg_inv s1" by simp
  then have "msg_inv (s1\<lparr>s_dynamicUpdateIdempotency := gm_set x y (s_dynamicUpdateIdempotency s1)\<rparr>)" for x y
    by (simp add: msg_inv_set_du msg_invD(3))
  with assms s1 show ?thesis
    unfolding StoreDynamicUpdateIdempotent_def Let_def u
    by (simp split: option.splits)
qed

lemma ReactToMessage_inv: "msg_inv s \<Longrightarrow> msg_inv (fst (ReactToMessage s i u e rm))"
  by (erule msg_inv_cong) (simp_all add: ReactToMessage_def Let_def split: option.splits)

lemma MarkConversationRead_inv: "msg_inv s \<Longrightarrow> msg_inv (fst (MarkConversationRead s c u now))"
  by (erule msg_inv_cong) (simp_all add: MarkConversationRead_def Let_def)

lemma deleteMessageIdempotency_inv:
  "msg_inv s \<Longrightarrow> msg_inv (deleteMessageIdempotencyLocked s i)"
  by (auto simp: msg_inv_def deleteMessageIdempotencyLocked_def gm_get_filter split: option.splits if_splits)

lemma deleteDynamicInteractionEvents_inv:
  "msg_inv s \<Longrightarrow> msg_inv (deleteDynamicInteractionEventsLocked s i)"
  by (erule msg_inv_cong) (simp_all add: deleteDynamicInteractionEventsLocked_def)

lemma msg_inv_set_messages:
  assumes "msg_inv s" "set as \<subseteq> set (gm_list (s_messages s) c)" "sorted_wrt (<) as"
  shows "msg_inv (s\<lparr>s_messages := gm_set c as (s_messages s)\<rparr>)"
  using assms unfolding msg_inv_def by (auto dest: subsetD)

lemma DeleteMessage_inv:
  assumes "msg_inv s"
  shows "msg_inv (fst (DeleteMessage s i))"
proof (cases "List.find (\<lambda>(c, as). list_ex (\<lambda>a. m_ID (deref s a) = i) as) (s_messages s)")
  case None
  with assms show ?thesis by (simp add: DeleteMessage_def)
next
  case (Some p)
  obtain c as where p: "p = (c, as)" by fastforce
  from Some p have "(c, as) \<in> set (s_messages s)" by (auto simp: find_Some_iff) (metis nth_mem)
  then have as: "as = gm_list (s_messages s) c"
    using msg_invD(1) [OF assms] by (simp add: gm_list_mem)
  define s1 where "s1 = s\<lparr>s_messages := gm_set c (remove_first (\<lambda>a. m_ID (deref s a) = i) as) (s_messages s)\<rparr>"
  have "msg_inv s1" unfolding s1_def as
    by (rule msg_inv_set_messages [OF assms])
      (auto intro: sorted_wrt_remove_first msg_invD(9) [OF assms] dest: set_remove_first_subset [THEN subsetD])
  then have "msg_inv (s1\<lparr>s_messageReactions := gm_del i (s_messageReactions s)\<rparr>)"
    by (rule msg_inv_cong) simp_all
  then show ?thesis
    using Some p by (simp add: DeleteMessage_def Let_def s1_def deleteMessageIdempotency_inv deleteDynamicInteractionEvents_inv)
qed

lemma purge_message_inv: "msg_inv s \<Longrightarrow> msg_inv (purge_message s i)"
  unfolding purge_message_def
  by (intro deleteDynamicInteractionEvents_inv deleteMessageIdempotency_inv)
    (erule msg_inv_cong, simp_all)

lemma purge_fold_inv:
  "msg_inv s \<Longrightarrow> msg_inv (foldl (\<lambda>t a. purge_message t (m_ID (deref t a))) s as)"
  by (induction as arbitrary: s) (auto intro: purge_message_inv)

lemma msg_inv_del_messages:
  "msg_inv s \<Longrightarrow> msg_inv (s\<lparr>s_messages := gm_del c (s_messages s)\<rparr>)"
  unfolding msg_inv_def by auto

lemma DeleteConversation_inv:
  assumes "msg_inv s"
  shows "msg_inv (DeleteConversation s i)"
proof -
  define t where "t = foldl (\<lambda>t a. purge_message t (m_ID (deref t a))) s (gm_list (s_messages s) i)"
  have "msg_inv (t\<lparr>s_messages := gm_del i (s_messages t)\<rparr>)"
    unfolding t_def using assms by (intro msg_inv_del_messages purge_fold_inv)
  then show ?thesis
    unfolding DeleteConversation_def t_def [symmetric] Let_def by (rule msg_inv_cong) simp_all
qed

lemmas message_ops_inv =
  updateMessageSegments_inv RecallMessage_inv AppendDynamicInteractionEvent_inv
  CommitDynamicInteractionEvent_inv StoreDynamicUpdateIdempotent_inv ReactToMessage_inv
  MarkConversationRead_inv DeleteMessage_inv DeleteConversation_inv

end
