(* ===== verification/Message_Ledger.thy ===== *)
theory Message_Ledger
  imports Store_Messages
begin

text \<open>
  The four submissions the store deduplicates by a client-chosen identifier (messages,
  appended and committed interaction events, dynamic updates), each as an instance of the
  idempotent ledger of the prelude: a request record, its key and fingerprint, and the verdict
  the operation's result stands for.
\<close>

section \<open>Idempotent submission\<close>

record msg_request =
  rq_conv :: string
  rq_sender :: string
  rq_nick :: string
  rq_cid :: string
  rq_segs :: "message_segment list"
  rq_now :: gotime

fun message_verdict :: "store_error + message \<times> bool \<Rightarrow> verdict" where
  "message_verdict (Inl e) = (if e = ErrMessageIdempotencyConflict then Conflict else Refused)"
| "message_verdict (Inr (m, dup)) = (if dup then Replay else Fresh)"

definition message_submit ::
  "msg_digest \<Rightarrow> msg_request \<Rightarrow> memory_store \<Rightarrow> memory_store \<times> verdict" where
  "message_submit H r s =
     (case StoreMessageIdempotent H s (rq_conv r) (rq_sender r) (rq_nick r) (rq_cid r) (rq_segs r)
             (rq_now r) of (t, res) \<Rightarrow> (t, message_verdict res))"

definition message_lookup :: "memory_store \<Rightarrow> string \<Rightarrow> string option" where
  "message_lookup s k = map_option mi_fingerprint (gm_get (s_messageIdempotency s) k)"

definition message_key :: "msg_request \<Rightarrow> string" where
  "message_key r = idem_key (rq_sender r) (rq_cid r)"

definition message_fp :: "msg_digest \<Rightarrow> msg_request \<Rightarrow> string option" where
  "message_fp H r = messageRequestFingerprint H (rq_conv r) (rq_segs r)"

definition message_keyed :: "msg_digest \<Rightarrow> msg_request \<Rightarrow> bool" where
  "message_keyed H r \<longleftrightarrow> rq_cid r \<noteq> [] \<and> message_fp H r \<noteq> None"

record event_request =
  eq_event :: dynamic_interaction_event
  eq_segs :: "message_segment list"
  eq_now :: gotime

fun event_verdict :: "store_error + bool \<Rightarrow> verdict" where
  "event_verdict (Inl e) =
     (if e = ErrDynamicInteractionIdempotencyConflict then Conflict else Refused)"
| "event_verdict (Inr dup) = (if dup then Replay else Fresh)"

definition append_submit ::
  "event_digest \<Rightarrow> event_request \<Rightarrow> memory_store \<Rightarrow> memory_store \<times> verdict" where
  "append_submit H r s =
     (case AppendDynamicInteractionEvent H s (Some (eq_event r)) (eq_now r) of
        (t, res) \<Rightarrow> (t, event_verdict res))"

definition commit_submit ::
  "event_digest \<Rightarrow> event_request \<Rightarrow> memory_store \<Rightarrow> memory_store \<times> verdict" where
  "commit_submit H r s =
     (case CommitDynamicInteractionEvent H s (Some (eq_event r)) (eq_segs r) (eq_now r) of
        (t, res) \<Rightarrow> (t, event_verdict res))"

definition event_lookup :: "memory_store \<Rightarrow> string \<Rightarrow> string option" where
  "event_lookup s k = map_option dr_fingerprint (gm_get (s_dynamicInteractionByID s) k)"

definition event_key :: "event_request \<Rightarrow> string" where
  "event_key r = idem_key (di_ActorID (eq_event r)) (di_EventID (eq_event r))"

definition event_fp :: "event_digest \<Rightarrow> event_request \<Rightarrow> string option" where
  "event_fp H r = dynamicInteractionFingerprint H (eq_event r)"

definition event_keyed :: "event_digest \<Rightarrow> event_request \<Rightarrow> bool" where
  "event_keyed H r \<longleftrightarrow>
     di_EventID (eq_event r) \<noteq> [] \<and> di_ActorID (eq_event r) \<noteq> [] \<and> event_fp H r \<noteq> None"

record update_request =
  dq_sender :: string
  dq_cid :: string
  dq_fp :: string
  dq_msg :: string
  dq_segs :: "message_segment list"

fun update_verdict :: "store_error + message option \<times> bool \<Rightarrow> verdict" where
  "update_verdict (Inl e) = (if e = ErrDynamicUpdateIdempotencyConflict then Conflict else Refused)"
| "update_verdict (Inr (m, dup)) = (if dup then Replay else if m = None then Refused else Fresh)"

definition update_submit :: "update_request \<Rightarrow> memory_store \<Rightarrow> memory_store \<times> verdict" where
  "update_submit r s =
     (case StoreDynamicUpdateIdempotent s (dq_sender r) (dq_cid r) (dq_fp r) (dq_msg r) (dq_segs r) of
        (t, res) \<Rightarrow> (t, update_verdict res))"

definition update_lookup :: "memory_store \<Rightarrow> string \<Rightarrow> string option" where
  "update_lookup s k = map_option du_fingerprint (gm_get (s_dynamicUpdateIdempotency s) k)"

lemma updateMessageSegments_frame [simp]:
  "s_dynamicUpdateIdempotency (fst (updateMessageSegmentsLocked s i segs)) = s_dynamicUpdateIdempotency s"
  "s_dynamicInteractionByID (fst (updateMessageSegmentsLocked s i segs)) = s_dynamicInteractionByID s"
  "s_messageIdempotency (fst (updateMessageSegmentsLocked s i segs)) = s_messageIdempotency s"
  "s_messages (fst (updateMessageSegmentsLocked s i segs)) = s_messages s"
  by (simp_all add: updateMessageSegmentsLocked_def Let_def put_msg_def split: option.splits)

lemma record_event_ByID [simp]:
  "s_dynamicInteractionByID (record_event s k f e now) =
     gm_set k \<lparr>dr_fingerprint = f,
       dr_event = (if di_CreatedAt e = zero_time then e\<lparr>di_CreatedAt := now\<rparr> else e)\<rparr>
       (s_dynamicInteractionByID s)"
  by (simp add: record_event_def Let_def)

interpretation message_ledger: idempotent_ledger message_lookup message_key
  "\<lambda>r. the (message_fp H r)" "message_keyed H" "message_submit H" for H
proof
  fix r s
  assume "message_keyed H r" "message_lookup s (message_key r) = Some (the (message_fp H r))"
  then show "message_submit H r s = (s, Replay)"
    by (auto simp: message_submit_def message_keyed_def message_fp_def message_lookup_def
        message_key_def StoreMessageIdempotent_def)
next
  fix r s f
  assume "message_keyed H r" "message_lookup s (message_key r) = Some f" "f \<noteq> the (message_fp H r)"
  then show "message_submit H r s = (s, Conflict)"
    by (auto simp: message_submit_def message_keyed_def message_fp_def message_lookup_def
        message_key_def StoreMessageIdempotent_def)
next
  fix r s t v
  assume "message_keyed H r" "message_lookup s (message_key r) = None" "message_submit H r s = (t, v)"
  then show "(v = Fresh \<and> message_lookup t = (message_lookup s)(message_key r \<mapsto> the (message_fp H r)))
      \<or> (v = Refused \<and> t = s)"
    by (auto simp: message_submit_def message_keyed_def message_fp_def message_lookup_def
        message_key_def StoreMessageIdempotent_def Let_def fun_eq_iff)
qed

interpretation append_ledger: idempotent_ledger event_lookup event_key
  "\<lambda>r. the (event_fp H r)" "event_keyed H" "append_submit H" for H
proof
  fix r s
  assume "event_keyed H r" "event_lookup s (event_key r) = Some (the (event_fp H r))"
  then show "append_submit H r s = (s, Replay)"
    by (auto simp: append_submit_def event_keyed_def event_fp_def event_lookup_def event_key_def
        AppendDynamicInteractionEvent_def)
next
  fix r s f
  assume "event_keyed H r" "event_lookup s (event_key r) = Some f" "f \<noteq> the (event_fp H r)"
  then show "append_submit H r s = (s, Conflict)"
    by (auto simp: append_submit_def event_keyed_def event_fp_def event_lookup_def event_key_def
        AppendDynamicInteractionEvent_def)
next
  fix r s t v
  assume "event_keyed H r" "event_lookup s (event_key r) = None" "append_submit H r s = (t, v)"
  then show "(v = Fresh \<and> event_lookup t = (event_lookup s)(event_key r \<mapsto> the (event_fp H r)))
      \<or> (v = Refused \<and> t = s)"
    by (auto simp: append_submit_def event_keyed_def event_fp_def event_lookup_def event_key_def
        AppendDynamicInteractionEvent_def fun_eq_iff)
qed

interpretation commit_ledger: idempotent_ledger event_lookup event_key
  "\<lambda>r. the (event_fp H r)" "event_keyed H" "commit_submit H" for H
proof
  fix r s
  assume "event_keyed H r" "event_lookup s (event_key r) = Some (the (event_fp H r))"
  then show "commit_submit H r s = (s, Replay)"
    by (auto simp: commit_submit_def event_keyed_def event_fp_def event_lookup_def event_key_def
        CommitDynamicInteractionEvent_def)
next
  fix r s f
  assume "event_keyed H r" "event_lookup s (event_key r) = Some f" "f \<noteq> the (event_fp H r)"
  then show "commit_submit H r s = (s, Conflict)"
    by (auto simp: commit_submit_def event_keyed_def event_fp_def event_lookup_def event_key_def
        CommitDynamicInteractionEvent_def)
next
  fix r s t v
  assume "event_keyed H r" "event_lookup s (event_key r) = None" "commit_submit H r s = (t, v)"
  then show "(v = Fresh \<and> event_lookup t = (event_lookup s)(event_key r \<mapsto> the (event_fp H r)))
      \<or> (v = Refused \<and> t = s)"
    by (auto simp: commit_submit_def event_keyed_def event_fp_def event_lookup_def event_key_def
        CommitDynamicInteractionEvent_def Let_def fun_eq_iff split: if_splits)
qed

interpretation update_ledger: idempotent_ledger update_lookup
  "\<lambda>r. idem_key (dq_sender r) (dq_cid r)" dq_fp "\<lambda>r. dq_cid r \<noteq> []" update_submit
proof
  fix r :: update_request and s
  assume "dq_cid r \<noteq> []" "update_lookup s (idem_key (dq_sender r) (dq_cid r)) = Some (dq_fp r)"
  then show "update_submit r s = (s, Replay)"
    by (auto simp: update_submit_def update_lookup_def StoreDynamicUpdateIdempotent_def)
next
  fix r :: update_request and s f
  assume "dq_cid r \<noteq> []" "update_lookup s (idem_key (dq_sender r) (dq_cid r)) = Some f" "f \<noteq> dq_fp r"
  then show "update_submit r s = (s, Conflict)"
    by (auto simp: update_submit_def update_lookup_def StoreDynamicUpdateIdempotent_def)
next
  fix r :: update_request and s t v
  assume h: "dq_cid r \<noteq> []" "update_lookup s (idem_key (dq_sender r) (dq_cid r)) = None"
    "update_submit r s = (t, v)"
  obtain s1 m where u: "updateMessageSegmentsLocked s (dq_msg r) (dq_segs r) = (s1, m)" by fastforce
  have fr: "s_dynamicUpdateIdempotency s1 = s_dynamicUpdateIdempotency s"
    using updateMessageSegments_frame(1) [of s "dq_msg r" "dq_segs r"] u by simp
  have un: "m = None \<Longrightarrow> s1 = s"
    using u by (auto simp: updateMessageSegmentsLocked_def Let_def split: option.splits)
  show "(v = Fresh \<and> update_lookup t = (update_lookup s)(idem_key (dq_sender r) (dq_cid r) \<mapsto> dq_fp r))
      \<or> (v = Refused \<and> t = s)"
    using h u fr un
    by (cases m) (auto simp: update_submit_def update_lookup_def StoreDynamicUpdateIdempotent_def
        Let_def fun_eq_iff)
qed

end
