(* ===== verification/Message_Log.thy ===== *)
theory Message_Log
  imports Message_Ledger
begin

text \<open>
  What a conversation's message log gives its readers: fresh identifiers, history pages,
  read cursors and unread counts, and reactions.
\<close>

section \<open>What storing a message does\<close>

text \<open>The message and the state an accepted request produces.\<close>

definition new_message ::
  "memory_store \<Rightarrow> string \<Rightarrow> string \<Rightarrow> string \<Rightarrow> message_segment list \<Rightarrow> gotime \<Rightarrow> message" where
  "new_message s c u n segs now =
     \<lparr> m_ID = msg_id (int (length (s_heap s)) + 1), m_ConversationID = c, m_SenderID = u,
       m_SenderNickname = n, m_Segments = segs, m_Timestamp = now, m_Recalled = False,
       m_Reactions = [] \<rparr>"

definition after_store ::
  "memory_store \<Rightarrow> message \<Rightarrow> string \<Rightarrow> string \<Rightarrow> memory_store" where
  "after_store s m k f =
     (let a = length (s_heap s); c = m_ConversationID m;
          t = s\<lparr>s_msgCounter := int a + 1, s_heap := s_heap s @ [m],
                s_messages := gm_set c (gm_list (s_messages s) c @ [a]) (s_messages s)\<rparr>
      in if k = [] then t
         else t\<lparr>s_messageIdempotency :=
                  gm_set (idem_key (m_SenderID m) k) \<lparr>mi_fingerprint = f, mi_message = a\<rparr>
                    (s_messageIdempotency s)\<rparr>)"

lemma store_fresh:
  assumes "msg_inv s" "s_msgCounter s < max_int64" "H (c, segs) = Some f"
    and "k = [] \<or> gm_get (s_messageIdempotency s) (idem_key u k) = None"
  shows "StoreMessageIdempotent H s c u n k segs now =
           (after_store s (new_message s c u n segs now) k f, Inr (new_message s c u n segs now, False))"
proof -
  have "wrap64 (s_msgCounter s + 1) = int (length (s_heap s)) + 1"
    using assms(1,2) wrap64_succ [of "s_msgCounter s"] msg_invD(4) [OF assms(1)] by simp
  then show ?thesis
    using assms(3,4)
    by (auto simp: StoreMessageIdempotent_def messageRequestFingerprint_def Let_def after_store_def
        new_message_def)
qed

lemma after_store_frame [simp]:
  "s_heap (after_store s m k f) = s_heap s @ [m]"
  "s_messages (after_store s m k f) =
     gm_set (m_ConversationID m) (gm_list (s_messages s) (m_ConversationID m) @ [length (s_heap s)])
       (s_messages s)"
  "s_readStates (after_store s m k f) = s_readStates s"
  "s_messageReactions (after_store s m k f) = s_messageReactions s"
  "k \<noteq> [] \<Longrightarrow> s_messageIdempotency (after_store s m k f) =
     gm_set (idem_key (m_SenderID m) k) \<lparr>mi_fingerprint = f, mi_message = length (s_heap s)\<rparr>
       (s_messageIdempotency s)"
  by (simp_all add: after_store_def Let_def)

lemma new_message_simps [simp]:
  "m_ID (new_message s c u n segs now) = msg_id (int (length (s_heap s)) + 1)"
  "m_ConversationID (new_message s c u n segs now) = c"
  "m_SenderID (new_message s c u n segs now) = u"
  "m_Segments (new_message s c u n segs now) = segs"
  "m_Timestamp (new_message s c u n segs now) = now"
  "m_Recalled (new_message s c u n segs now) = False"
  by (simp_all add: new_message_def)

lemma deref_after_store_old: "a < length (s_heap s) \<Longrightarrow> deref (after_store s m k f) a = deref s a"
  by (simp add: deref_def nth_append)

lemma deref_after_store_new: "deref (after_store s m k f) (length (s_heap s)) = m"
  by (simp add: deref_def)

lemma new_id_fresh:
  assumes "msg_inv s" "a < length (s_heap s)"
  shows "m_ID (deref s a) \<noteq> m_ID (new_message s c u n segs now)"
  using assms by (simp add: deref_def msg_invD(6))

text \<open>
  A replay answers with the message the first request stored, as it is now, and changes nothing.
\<close>

lemma store_replay:
  assumes "k \<noteq> []" "H (c, segs) = Some f"
    and "gm_get (s_messageIdempotency s) (idem_key u k) = Some r" "mi_fingerprint r = f"
  shows "StoreMessageIdempotent H s c u n k segs now = (s, Inr (copy_message s (mi_message r), True))"
  using assms by (simp add: StoreMessageIdempotent_def messageRequestFingerprint_def)

lemma store_conflict:
  assumes "k \<noteq> []" "H (c, segs) = Some f"
    and "gm_get (s_messageIdempotency s) (idem_key u k) = Some r" "mi_fingerprint r \<noteq> f"
  shows "StoreMessageIdempotent H s c u n k segs now = (s, Inl ErrMessageIdempotencyConflict)"
  using assms by (simp add: StoreMessageIdempotent_def messageRequestFingerprint_def)

section \<open>History pages\<close>

text \<open>Under the invariant the cursor of a page is the position of its message.\<close>

lemma first_index_msg:
  assumes "msg_inv s" "i < length (gm_list (s_messages s) c)"
  shows "first_index (\<lambda>a. m_ID (deref s a) = m_ID (deref s (gm_list (s_messages s) c ! i)))
           (gm_list (s_messages s) c) = i"
proof (rule first_index_unique [OF assms(2)])
  fix j
  assume j: "j < length (gm_list (s_messages s) c)"
    and eq: "m_ID (deref s (gm_list (s_messages s) c ! j)) = m_ID (deref s (gm_list (s_messages s) c ! i))"
  have "gm_list (s_messages s) c ! j = gm_list (s_messages s) c ! i"
    using eq heap_id_inject [OF assms(1)] msg_invD(7) [OF assms(1)] j assms(2) nth_mem by metis
  moreover have "distinct (gm_list (s_messages s) c)"
    using msg_invD(9) [OF assms(1), of c] by (simp add: strict_sorted_iff)
  ultimately show "j = i" using j assms(2) by (simp add: nth_eq_iff_index_eq)
qed simp

text \<open>
  A page before the message at position \<open>e\<close> (the end of the log when there is no cursor) is
  the slice of the last \<open>limit\<close> messages before it.
\<close>

definition log_of :: "memory_store \<Rightarrow> string \<Rightarrow> message list" where
  "log_of s c = map (copy_message s) (gm_list (s_messages s) c)"

lemma page_newest:
  "0 < limit \<Longrightarrow> GetMessagesBefore s c [] limit =
     drop (length (log_of s c) - nat limit) (log_of s c)"
  by (auto simp: GetMessagesBefore_def log_of_def Let_def drop_map)

lemma page_before:
  assumes "msg_inv s" "e < length (log_of s c)" "0 < limit"
  shows "GetMessagesBefore s c (m_ID (log_of s c ! e)) limit =
           drop (e - nat limit) (take e (log_of s c))"
proof -
  have e: "e < length (gm_list (s_messages s) c)" using assms(2) by (simp add: log_of_def)
  have idn: "m_ID (log_of s c ! e) = m_ID (deref s (gm_list (s_messages s) c ! e))"
    using e by (simp add: log_of_def copy_message_def)
  have "gm_list (s_messages s) c ! e < length (s_heap s)"
    using e msg_invD(7) [OF assms(1)] nth_mem by blast
  then have "m_ID (log_of s c ! e) \<noteq> []"
    using idn msg_invD(6) [OF assms(1)] by (simp add: deref_def)
  then show ?thesis
    using assms(3) e first_index_msg [OF assms(1) e] unfolding idn
    by (auto simp: GetMessagesBefore_def log_of_def Let_def take_map drop_map)
qed

text \<open>Walking back page by page, with the first message of each page as the next cursor.\<close>

function walk_back :: "memory_store \<Rightarrow> string \<Rightarrow> int \<Rightarrow> nat \<Rightarrow> message list" where
  "walk_back s c limit e =
     (if e = 0 \<or> limit \<le> 0 \<or> length (log_of s c) \<le> e then []
      else (let page = GetMessagesBefore s c (m_ID (log_of s c ! e)) limit
            in walk_back s c limit (e - nat limit) @ page))"
  by pat_completeness auto
termination by (relation "measure (\<lambda>(s, c, limit, e). e)") auto

declare walk_back.simps [simp del]

lemma walk_back_complete:
  assumes "msg_inv s" "0 < limit" "e < length (log_of s c)"
  shows "walk_back s c limit e = take e (log_of s c)"
  using assms
proof (induction s c limit e rule: walk_back.induct)
  case (1 s c limit e)
  show ?case
  proof (cases "e = 0")
    case True
    then show ?thesis by (simp add: walk_back.simps)
  next
    case False
    with 1 have ih: "walk_back s c limit (e - nat limit) = take (e - nat limit) (log_of s c)"
      by simp
    have "take (e - nat limit) (log_of s c) @ drop (e - nat limit) (take e (log_of s c))
        = take e (log_of s c)"
      by (metis append_take_drop_id diff_le_self min.absorb2 min.commute take_take)
    with False 1 ih show ?thesis
      by (subst walk_back.simps) (simp add: page_before Let_def)
  qed
qed

section \<open>Read cursors\<close>

lemma unread_after_mark:
  assumes "msg_inv s"
  shows "CountUnreadMessages (fst (MarkConversationRead s c u now)) c u = 0"
proof -
  define t where "t = fst (MarkConversationRead s c u now)"
  have msgs: "gm_list (s_messages t) c = gm_list (s_messages s) c" "deref t = deref s"
    by (auto simp: t_def MarkConversationRead_def Let_def deref_def fun_eq_iff)
  show ?thesis
  proof (cases "gm_list (s_messages s) c = []")
    case True
    then show ?thesis using msgs by (simp add: CountUnreadMessages_def t_def)
  next
    case False
    define i where "i = length (gm_list (s_messages s) c) - 1"
    have i: "i < length (gm_list (s_messages s) c)" "last (gm_list (s_messages s) c) = gm_list (s_messages s) c ! i"
      using False by (auto simp: i_def last_conv_nth)
    have ne: "m_ID (deref s (gm_list (s_messages s) c ! i)) \<noteq> []"
      using i msg_invD(6,7) [OF assms] by (metis deref_def msg_id_nonempty nth_mem)
    have rd: "GetConversationRead t c u = Some \<lparr>rs_ConversationID = c, rs_UserID = u,
        rs_LastReadMessageID = m_ID (deref s (gm_list (s_messages s) c ! i)),
        rs_ReadAt = m_Timestamp (deref s (gm_list (s_messages s) c ! i))\<rparr>"
      using False i by (simp add: t_def GetConversationRead_def MarkConversationRead_def Let_def)
    have "unread_start t c u = i + 1"
      using i ne rd first_index_msg [OF assms i(1)] by (simp add: unread_start_def msgs Let_def)
    moreover have "i + 1 = length (gm_list (s_messages s) c)" using False by (simp add: i_def)
    ultimately show ?thesis unfolding t_def [symmetric] CountUnreadMessages_def msgs by simp
  qed
qed

text \<open>The number of unread messages a stored message adds, with the reader's cursor in the log.\<close>

definition cursor_in_log :: "memory_store \<Rightarrow> string \<Rightarrow> string \<Rightarrow> bool" where
  "cursor_in_log s c u \<longleftrightarrow>
     (case GetConversationRead s c u of
        None \<Rightarrow> True
      | Some st \<Rightarrow> rs_LastReadMessageID st \<in> m_ID ` set (log_of s c))"

lemma unread_after_store:
  assumes "msg_inv s" "cursor_in_log s c v" "m = new_message s c u n segs now"
  shows "CountUnreadMessages (after_store s m k f) c v =
           CountUnreadMessages s c v + (if u = v then 0 else 1)"
proof -
  define as where "as = gm_list (s_messages s) c"
  define t where "t = after_store s m k f"
  have as_t: "gm_list (s_messages t) c = as @ [length (s_heap s)]"
    by (simp add: t_def as_def assms(3))
  have old: "deref t a = deref s a" if "a \<in> set as" for a
    using that msg_invD(7) [OF assms(1)] by (simp add: t_def as_def deref_after_store_old)
  have read: "GetConversationRead t c v = GetConversationRead s c v"
    by (simp add: GetConversationRead_def t_def)
  have idx: "first_index (\<lambda>a. m_ID (deref t a) = i) (as @ [length (s_heap s)])
      = first_index (\<lambda>a. m_ID (deref s a) = i) as"
    if "first_index (\<lambda>a. m_ID (deref s a) = i) as < length as" for i
  proof -
    have "takeWhile (\<lambda>a. m_ID (deref t a) \<noteq> i) as = takeWhile (\<lambda>a. m_ID (deref s a) \<noteq> i) as"
      by (rule takeWhile_cong) (simp_all add: old)
    moreover have "\<exists>a\<in>set as. m_ID (deref t a) = i"
      using that old by (auto simp: first_index_less_iff)
    ultimately show ?thesis by (auto simp: first_index_def takeWhile_append1)
  qed
  have start: "unread_start t c v = unread_start s c v" "unread_start s c v \<le> length as"
  proof -
    show "unread_start t c v = unread_start s c v"
    proof (cases "GetConversationRead s c v")
      case None
      then show ?thesis using read by (simp add: unread_start_def Let_def)
    next
      case (Some st)
      let ?i = "rs_LastReadMessageID st"
      obtain a where a: "a \<in> set as" "m_ID (deref s a) = ?i"
        using assms(2) Some by (auto simp: cursor_in_log_def log_of_def as_def copy_message_def)
      then have lt: "first_index (\<lambda>a. m_ID (deref s a) = ?i) as < length as"
        by (auto simp: first_index_less_iff)
      moreover have "?i \<noteq> []"
        using a msg_invD(6,7) [OF assms(1)] unfolding as_def by (metis deref_def msg_id_nonempty)
      ultimately show ?thesis
        using Some read idx [OF lt] by (simp add: unread_start_def Let_def as_t as_def [symmetric])
    qed
    show "unread_start s c v \<le> length as"
      by (auto simp: unread_start_def Let_def as_def first_index_le Suc_leI split: option.splits)
  qed
  have f: "filter (\<lambda>a. m_SenderID (deref t a) \<noteq> v) (drop d as) = filter (\<lambda>a. m_SenderID (deref s a) \<noteq> v) (drop d as)" for d
    by (rule filter_cong) (auto dest: in_set_dropD simp: old)
  show ?thesis
    unfolding t_def [symmetric] CountUnreadMessages_def as_t start(1)
    using start(2) f by (simp add: as_def [symmetric]) (simp add: t_def deref_after_store_new assms(3))
qed

section \<open>Reactions\<close>

definition reactors :: "memory_store \<Rightarrow> string \<Rightarrow> string \<Rightarrow> string set" where
  "reactors s msgID e = set (gm_list (gm_list (s_messageReactions s) msgID) e)"

definition reaction_inv :: "memory_store \<Rightarrow> bool" where
  "reaction_inv s \<longleftrightarrow>
     (\<forall>i. gm_wf (gm_list (s_messageReactions s) i)
        \<and> (\<forall>e us. gm_get (gm_list (s_messageReactions s) i) e = Some us \<longrightarrow> us \<noteq> [] \<and> distinct us))"

lemma reaction_invD:
  assumes "reaction_inv s"
  shows "gm_wf (gm_list (s_messageReactions s) i)"
    "gm_get (gm_list (s_messageReactions s) i) e = Some us \<Longrightarrow> us \<noteq> [] \<and> distinct us"
    "distinct (gm_list (gm_list (s_messageReactions s) i) e)"
proof -
  show 1: "gm_get (gm_list (s_messageReactions s) i) e = Some us \<Longrightarrow> us \<noteq> [] \<and> distinct us" for us
    using assms unfolding reaction_inv_def by blast
  show "gm_wf (gm_list (s_messageReactions s) i)"
    using assms unfolding reaction_inv_def by blast
  define m where "m = gm_list (s_messageReactions s) i"
  have "distinct (gm_list m e)"
  proof (cases "gm_get m e")
    case (Some us)
    with 1 [of us] have "distinct us" by (simp add: m_def)
    with Some show ?thesis by (simp add: gm_list_def)
  qed (simp add: gm_list_def)
  then show "distinct (gm_list (gm_list (s_messageReactions s) i) e)" by (simp add: m_def)
qed

lemma reaction_counts_spec:
  assumes "reaction_inv s"
  shows "map r_EmojiID (reactionCountsLocked s i) = sort (map r_EmojiID (reactionCountsLocked s i))"
    and "distinct (map r_EmojiID (reactionCountsLocked s i))"
    and "r \<in> set (reactionCountsLocked s i) \<longleftrightarrow>
           r_Count r = card (reactors s i (r_EmojiID r)) \<and> reactors s i (r_EmojiID r) \<noteq> {}"
proof -
  define m where "m = gm_list (s_messageReactions s) i"
  have wf: "gm_wf m" and us: "\<And>e us. gm_get m e = Some us \<Longrightarrow> us \<noteq> [] \<and> distinct us"
    unfolding m_def using reaction_invD(1,2) [OF assms] by blast+
  have filt: "filter (\<lambda>(e, us). us \<noteq> []) m = m"
  proof (rule filter_True, safe)
    fix e
    assume "(e, []) \<in> set m"
    then have "gm_get m e = Some []" by (simp only: gm_get_mem [OF wf])
    from us [OF this] show False by simp
  qed
  have eq: "reactionCountsLocked s i =
      map (\<lambda>e. \<lparr>r_EmojiID = e, r_Count = length (gm_list m e)\<rparr>) (sort (map fst m))"
    using filt by (auto simp: reactionCountsLocked_def m_def [symmetric] Let_def)
  have ids: "map r_EmojiID (reactionCountsLocked s i) = sort (map fst m)"
    by (simp add: eq comp_def)
  show "map r_EmojiID (reactionCountsLocked s i) = sort (map r_EmojiID (reactionCountsLocked s i))"
    by (simp add: ids sort_key_id_if_sorted)
  show "distinct (map r_EmojiID (reactionCountsLocked s i))"
    using wf by (simp add: ids gm_wf_def)
  have len: "length (gm_list m e) = card (reactors s i e)" for e
    using reaction_invD(3) [OF assms, of i e] by (simp add: reactors_def m_def distinct_card)
  have re: "reactors s i e = set (gm_list m e)" for e
    by (simp add: reactors_def m_def)
  have dom: "e \<in> set (map fst m) \<longleftrightarrow> reactors s i e \<noteq> {}" for e
  proof (cases "gm_get m e")
    case None
    moreover from None have "e \<notin> set (map fst m)" by (simp add: map_of_eq_None_iff)
    ultimately show ?thesis by (simp add: re gm_list_def)
  next
    case (Some xs)
    with us [OF Some] show ?thesis
      by (auto simp: re gm_list_def dest: map_of_SomeD intro: rev_image_eqI)
  qed
  show "r \<in> set (reactionCountsLocked s i) \<longleftrightarrow>
      r_Count r = card (reactors s i (r_EmojiID r)) \<and> reactors s i (r_EmojiID r) \<noteq> {}"
    unfolding eq using dom [of "r_EmojiID r"] len by (cases r) (auto simp: image_iff)
qed

lemma ReactToMessage_state:
  assumes "findMessageLocked s i = Some a" "\<not> m_Recalled (deref s a)"
    and "ReactToMessage s i u e rm = (s', r)"
  shows "reactors s' i' e' =
           (if i' = i \<and> e' = e then (if rm then reactors s i e - {u} else insert u (reactors s i e))
            else reactors s i' e')"
    and "r = Inr (Some ((deref s a)\<lparr>m_Reactions := reactionCountsLocked s' i\<rparr>))"
    and "reaction_inv s \<Longrightarrow> reaction_inv s'"
    and "s_heap s' = s_heap s"
proof -
  let ?m = "gm_list (s_messageReactions s) i"
  let ?us = "if rm then removeAll u (gm_list ?m e) else List.insert u (gm_list ?m e)"
  have s': "s' = s\<lparr>s_messageReactions :=
      gm_set i (if ?us = [] then gm_del e ?m else gm_set e ?us ?m) (s_messageReactions s)\<rparr>"
    using assms by (auto simp: ReactToMessage_def Let_def)
  have ins: "List.insert u us \<noteq> []" for us
    by (auto simp: List.insert_def)
  show "reactors s' i' e' =
           (if i' = i \<and> e' = e then (if rm then reactors s i e - {u} else insert u (reactors s i e))
            else reactors s i' e')"
    by (auto simp: s' ins reactors_def filter_empty_conv removeAll_filter_not_eq split: if_splits)
  show "s_heap s' = s_heap s" by (simp add: s')
  show "r = Inr (Some ((deref s a)\<lparr>m_Reactions := reactionCountsLocked s' i\<rparr>))"
    using assms by (auto simp: ReactToMessage_def Let_def deref_def)
  assume inv: "reaction_inv s"
  have us: "distinct ?us" using reaction_invD(3) [OF inv] by (simp add: distinct_removeAll)
  show "reaction_inv s'"
    unfolding reaction_inv_def
  proof (intro allI conjI impI)
    fix j
    show "gm_wf (gm_list (s_messageReactions s') j)"
      using reaction_invD(1) [OF inv] by (simp add: s')
    fix x ys
    assume "gm_get (gm_list (s_messageReactions s') j) x = Some ys"
    then have "ys = ?us \<and> ?us \<noteq> [] \<or> gm_get (gm_list (s_messageReactions s) j) x = Some ys"
      unfolding s' by (simp split: if_splits)
    then have "ys \<noteq> [] \<and> distinct ys" using us reaction_invD(2) [OF inv, of j x ys] by metis
    then show "ys \<noteq> []" "distinct ys" by simp_all
  qed
qed

lemma GetMessageReactionIDs_iff:
  assumes "reaction_inv s"
  shows "e \<in> set (GetMessageReactionIDs s i u) \<longleftrightarrow> u \<in> reactors s i e"
proof -
  define m where "m = gm_list (s_messageReactions s) i"
  have wf: "gm_wf m" unfolding m_def by (rule reaction_invD(1) [OF assms])
  show ?thesis
    unfolding GetMessageReactionIDs_def reactors_def m_def [symmetric]
    using gm_get_mem [OF wf] by (cases "gm_get m e") (fastforce simp: gm_list_def image_iff)+
qed

end
