(* ===== verification/Interaction_Ledger.thy ===== *)
theory Interaction_Ledger
  imports Message_Log
begin

text \<open>
  The ledger of dynamic interaction events: the per-message event lists agree with the index
  by actor and event identifier, and a commit changes both the ledger and the message content
  or neither.
\<close>

section \<open>The interaction ledger\<close>

definition ledger_key :: "dynamic_interaction_event \<Rightarrow> string" where
  "ledger_key ev = idem_key (di_ActorID ev) (di_EventID ev)"

definition ledger_events :: "memory_store \<Rightarrow> string \<Rightarrow> dynamic_interaction_event list" where
  "ledger_events s i = gm_list (s_dynamicInteractionEvents s) i"

text \<open>The per-message lists and the index by actor and event identifier describe the same events.\<close>

definition ledger_inv :: "memory_store \<Rightarrow> bool" where
  "ledger_inv s \<longleftrightarrow>
     (\<forall>k r. gm_get (s_dynamicInteractionByID s) k = Some r \<longrightarrow>
        k = ledger_key (dr_event r) \<and> dr_event r \<in> set (ledger_events s (di_MessageID (dr_event r))))
     \<and> (\<forall>i. \<forall>ev \<in> set (ledger_events s i). di_MessageID ev = i
          \<and> (\<exists>r. gm_get (s_dynamicInteractionByID s) (ledger_key ev) = Some r \<and> dr_event r = ev))
     \<and> (\<forall>i. distinct (map ledger_key (ledger_events s i)))"

lemma ledger_invD:
  assumes "ledger_inv s"
  shows "gm_get (s_dynamicInteractionByID s) k = Some r \<Longrightarrow>
      k = ledger_key (dr_event r) \<and> dr_event r \<in> set (ledger_events s (di_MessageID (dr_event r)))"
    "ev \<in> set (ledger_events s i) \<Longrightarrow> di_MessageID ev = i"
    "ev \<in> set (ledger_events s i) \<Longrightarrow>
      \<exists>r. gm_get (s_dynamicInteractionByID s) (ledger_key ev) = Some r \<and> dr_event r = ev"
    "distinct (map ledger_key (ledger_events s i))"
  using assms unfolding ledger_inv_def by blast+

lemma ledger_inv_init: "ledger_inv NewMemoryStore"
  by (simp add: ledger_inv_def ledger_events_def NewMemoryStore_def)

lemma ledger_inv_cong:
  "ledger_inv s \<Longrightarrow> s_dynamicInteractionByID t = s_dynamicInteractionByID s \<Longrightarrow>
   s_dynamicInteractionEvents t = s_dynamicInteractionEvents s \<Longrightarrow> ledger_inv t"
  by (simp add: ledger_inv_def ledger_events_def)

lemma ledger_unique:
  assumes "ledger_inv s" "e1 \<in> set (ledger_events s i)" "e2 \<in> set (ledger_events s j)"
    "ledger_key e1 = ledger_key e2"
  shows "e1 = e2"
  using ledger_invD(3) [OF assms(1)] assms(2-4) by (metis option.inject)

definition stamped :: "dynamic_interaction_event \<Rightarrow> gotime \<Rightarrow> dynamic_interaction_event" where
  "stamped e now = (if di_CreatedAt e = zero_time then e\<lparr>di_CreatedAt := now\<rparr> else e)"

lemma stamped_simps [simp]:
  "ledger_key (stamped e now) = ledger_key e" "di_MessageID (stamped e now) = di_MessageID e"
  by (simp_all add: stamped_def ledger_key_def)

lemma record_event_lists:
  "ledger_events (record_event s k f e now) i =
     (if i = di_MessageID e then ledger_events s i @ [stamped e now] else ledger_events s i)"
  by (simp add: record_event_def ledger_events_def stamped_def Let_def)

lemma record_event_index:
  "gm_get (s_dynamicInteractionByID (record_event s k f e now)) k' =
     (if k' = k then Some \<lparr>dr_fingerprint = f, dr_event = stamped e now\<rparr>
      else gm_get (s_dynamicInteractionByID s) k')"
  by (simp add: stamped_def)

lemma record_event_ledger_inv:
  assumes inv: "ledger_inv s" and new: "gm_get (s_dynamicInteractionByID s) (ledger_key e) = None"
  shows "ledger_inv (record_event s (ledger_key e) f e now)"
proof -
  have fresh: "ledger_key ev \<noteq> ledger_key e" if "ev \<in> set (ledger_events s i)" for ev i
    using ledger_invD(3) [OF inv that] new by auto
  show ?thesis
    unfolding ledger_inv_def record_event_lists record_event_index
  proof (intro conjI allI impI ballI, goal_cases)
    case (1 k r)
    then show ?case using ledger_invD(1) [OF inv, of k r] by (auto split: if_splits)
  next
    case (2 k r)
    then show ?case using ledger_invD(1) [OF inv, of k r] by (auto split: if_splits)
  next
    case (3 i ev)
    then show ?case using ledger_invD(2) [OF inv] by (auto split: if_splits)
  next
    case (4 i ev)
    then show ?case using ledger_invD(3) [OF inv] fresh by (auto split: if_splits)
  next
    case (5 i)
    have "ledger_key e \<notin> ledger_key ` set (ledger_events s i)" using fresh by (metis imageE)
    then show ?case using ledger_invD(4) [OF inv, of i] by (cases "i = di_MessageID e") simp_all
  qed
qed

lemma deleteDynamicInteractionEvents_ledger_inv:
  assumes inv: "ledger_inv s"
  shows "ledger_inv (deleteDynamicInteractionEventsLocked s i)"
proof -
  let ?t = "deleteDynamicInteractionEventsLocked s i"
  have idx: "gm_get (s_dynamicInteractionByID ?t) k =
      (if k \<in> ledger_key ` set (ledger_events s i) then None
       else gm_get (s_dynamicInteractionByID s) k)" for k
    unfolding deleteDynamicInteractionEventsLocked_def ledger_events_def ledger_key_def
    by (simp add: foldl_del_get)
  have lst: "ledger_events ?t j = (if j = i then [] else ledger_events s j)" for j
    by (simp add: deleteDynamicInteractionEventsLocked_def ledger_events_def)
  show ?thesis
    unfolding ledger_inv_def lst idx
  proof (intro conjI allI impI ballI, goal_cases)
    case (1 k r)
    then show ?case using ledger_invD(1) [OF inv, of k r] by (auto split: if_splits)
  next
    case (2 k r)
    then show ?case using ledger_invD(1) [OF inv, of k r] by (auto split: if_splits)
  next
    case (3 j ev)
    then show ?case using ledger_invD(2) [OF inv] by (auto split: if_splits)
  next
    case (4 j ev)
    then have ev: "ev \<in> set (ledger_events s j)" "j \<noteq> i" by (auto split: if_splits)
    have "ledger_key ev \<notin> ledger_key ` set (ledger_events s i)"
    proof
      assume "ledger_key ev \<in> ledger_key ` set (ledger_events s i)"
      then obtain ev' where ev': "ev' \<in> set (ledger_events s i)" "ledger_key ev = ledger_key ev'" by blast
      then have "ev = ev'" by (intro ledger_unique [OF inv ev(1)])
      with ev' ev ledger_invD(2) [OF inv] show False by metis
    qed
    with ledger_invD(3) [OF inv ev(1)] show ?case by auto
  next
    case (5 j)
    then show ?case using ledger_invD(4) [OF inv] by auto
  qed
qed

lemma AppendDynamicInteractionEvent_ledger_inv:
  "ledger_inv s \<Longrightarrow> ledger_inv (fst (AppendDynamicInteractionEvent H s e now))"
  by (auto simp: AppendDynamicInteractionEvent_def Let_def ledger_key_def [symmetric]
      intro: record_event_ledger_inv split: option.splits)

lemma updateMessageSegments_events [simp]:
  "s_dynamicInteractionEvents (fst (updateMessageSegmentsLocked s i segs)) = s_dynamicInteractionEvents s"
  by (simp add: updateMessageSegmentsLocked_def Let_def put_msg_def split: option.splits)

lemma CommitDynamicInteractionEvent_ledger_inv:
  assumes "ledger_inv s"
  shows "ledger_inv (fst (CommitDynamicInteractionEvent H s e segs now))"
proof -
  have "ledger_inv (fst (updateMessageSegmentsLocked s i segs))" for i
    using assms by (rule ledger_inv_cong) simp_all
  with assms show ?thesis
    by (auto simp: CommitDynamicInteractionEvent_def Let_def ledger_key_def [symmetric]
        intro!: record_event_ledger_inv split: option.splits)
qed

text \<open>
  A committed event and the projected content change together: the outcome is \<open>Fresh\<close>, with
  the event appended and the target's segments replaced, or the store is as before.
\<close>

lemma commit_atomic:
  assumes inv: "msg_inv s" and run: "CommitDynamicInteractionEvent H s (Some e) segs now = (s', r)"
  shows "(r = Inr False \<and>
            (\<exists>a. findMessageLocked s (di_MessageID e) = Some a \<and> findMessageLocked s' (di_MessageID e) = Some a
               \<and> deref s' a = (deref s a)\<lparr>m_Segments := segs\<rparr>)
            \<and> ledger_events s' (di_MessageID e) = ledger_events s (di_MessageID e) @ [stamped e now])
         \<or> (r \<noteq> Inr False \<and> s' = s)"
proof (cases "findMessageLocked s (di_MessageID e)")
  case None
  with run show ?thesis
    by (auto simp: CommitDynamicInteractionEvent_def Let_def split: option.splits if_splits)
next
  case (Some a)
  let ?u = "fst (updateMessageSegmentsLocked s (di_MessageID e) segs)"
  have u: "?u = put_msg s a ((deref s a)\<lparr>m_Segments := segs\<rparr>)"
    using Some by (simp add: updateMessageSegmentsLocked_def Let_def)
  have a: "a < length (s_heap s)" "a \<in> set (live_addrs s)" "m_ID (deref s a) = di_MessageID e"
    using Some inv findMessage_iff live_in_heap by blast+
  have du: "deref ?u a = (deref s a)\<lparr>m_Segments := segs\<rparr>"
    using a(1) by (simp add: u put_msg_def deref_def)
  have ev: "deref (record_event ?u k f e now) = deref ?u" "live_addrs (record_event ?u k f e now) = live_addrs s"
    "findMessageLocked (record_event ?u k f e now) (di_MessageID e) = findMessageLocked ?u (di_MessageID e)"
    for k f
    by (simp_all add: record_event_def Let_def deref_def live_addrs_def findMessageLocked_def u put_msg_def fun_eq_iff)
  have fu: "findMessageLocked ?u (di_MessageID e) = Some a"
  proof -
    have "msg_inv ?u" by (rule updateMessageSegments_inv [OF inv])
    moreover have "live_addrs ?u = live_addrs s" by (simp add: live_addrs_def)
    ultimately show ?thesis using a du by (subst findMessage_iff) simp_all
  qed
  have ledger: "ledger_events (record_event ?u k f e now) (di_MessageID e)
      = ledger_events s (di_MessageID e) @ [stamped e now]" for k f
    by (simp add: record_event_lists) (simp add: ledger_events_def)
  show ?thesis
    using run Some ev fu du ledger
    by (auto simp: CommitDynamicInteractionEvent_def Let_def split: option.splits if_splits)
qed

end
