(* ===== verification/Store_Groups.thy ===== *)
theory Store_Groups
  imports Interaction_Ledger
begin

text \<open>
  Groups and their announcements in \<open>MemoryStore\<close> (\<open>internal/store/memory.go\<close>, \<open>// ---- Group
  operations ----\<close>, and \<open>internal/store/announcements.go\<close>): the operations, the well-formedness
  of groups (distinct members, one owner), the uniqueness of announcement identifiers, and that
  the operations keep both.
\<close>

section \<open>Groups\<close>

definition CreateGroup ::
  "memory_store \<Rightarrow> string \<Rightarrow> string \<Rightarrow> string \<Rightarrow> string \<Rightarrow> gotime \<Rightarrow> gotime \<Rightarrow> memory_store \<times> group" where
  "CreateGroup s ident name avatar ownerID joined created =
     (let grp = \<lparr> g_ID = ident, g_Name = name, g_Avatar = avatar, g_Announcement = [],
                  g_OwnerID = ownerID, g_MuteAll = False,
                  g_Members = [\<lparr> mb_UserID = ownerID, mb_Role = ''owner'', mb_JoinedAt = joined,
                                 mb_MutedUntil = zero_time \<rparr>],
                  g_CreatedAt = created \<rparr>
      in (s\<lparr>s_groups := gm_set ident grp (s_groups s)\<rparr>, grp))"

definition GetGroup :: "memory_store \<Rightarrow> string \<Rightarrow> group option" where
  "GetGroup s ident = gm_get (s_groups s) ident"

definition GetGroups :: "memory_store \<Rightarrow> group list" where
  "GetGroups s = map snd (s_groups s)"

definition GetUserGroups :: "memory_store \<Rightarrow> string \<Rightarrow> group list" where
  "GetUserGroups s userID =
     filter (\<lambda>grp. list_ex (\<lambda>m. mb_UserID m = userID) (g_Members grp)) (map snd (s_groups s))"

text \<open>Writing back the group a pointer of the map leads to.\<close>

definition put_group :: "memory_store \<Rightarrow> string \<Rightarrow> group \<Rightarrow> memory_store" where
  "put_group s groupID grp = s\<lparr>s_groups := gm_set groupID grp (s_groups s)\<rparr>"

definition UpdateGroup ::
  "memory_store \<Rightarrow> string \<Rightarrow> string \<Rightarrow> string \<Rightarrow> string \<Rightarrow> bool
     \<Rightarrow> memory_store \<times> (store_error + unit)" where
  "UpdateGroup s groupID name avatar announcement muteAll =
     (case gm_get (s_groups s) groupID of
        None \<Rightarrow> (s, Inl (Errorf ''group not found''))
      | Some grp \<Rightarrow>
          (put_group s groupID (grp\<lparr>g_Name := name, g_Avatar := avatar,
             g_Announcement := announcement, g_MuteAll := muteAll\<rparr>), Inr ()))"

definition SetGroupMemberRole ::
  "memory_store \<Rightarrow> string \<Rightarrow> string \<Rightarrow> string \<Rightarrow> memory_store \<times> (store_error + unit)" where
  "SetGroupMemberRole s groupID userID role =
     (case gm_get (s_groups s) groupID of
        None \<Rightarrow> (s, Inl (Errorf ''group not found''))
      | Some grp \<Rightarrow>
          if list_ex (\<lambda>m. mb_UserID m = userID) (g_Members grp)
          then (put_group s groupID (grp\<lparr>g_Members :=
                  update_first (\<lambda>m. mb_UserID m = userID) (\<lambda>m. m\<lparr>mb_Role := role\<rparr>)
                    (g_Members grp)\<rparr>), Inr ())
          else (s, Inl (Errorf ''group member not found'')))"

definition SetGroupMemberMute ::
  "memory_store \<Rightarrow> string \<Rightarrow> string \<Rightarrow> gotime \<Rightarrow> memory_store \<times> (store_error + unit)" where
  "SetGroupMemberMute s groupID userID mutedUntil =
     (case gm_get (s_groups s) groupID of
        None \<Rightarrow> (s, Inl (Errorf ''group not found''))
      | Some grp \<Rightarrow>
          if list_ex (\<lambda>m. mb_UserID m = userID) (g_Members grp)
          then (put_group s groupID (grp\<lparr>g_Members :=
                  update_first (\<lambda>m. mb_UserID m = userID) (\<lambda>m. m\<lparr>mb_MutedUntil := mutedUntil\<rparr>)
                    (g_Members grp)\<rparr>), Inr ())
          else (s, Inl (Errorf ''group member not found'')))"

text \<open>
  The loop of \<open>TransferGroupOwnership\<close> has no \<open>break\<close>, so it remembers the last match, and
  its \<open>switch\<close> tries the current owner first.
\<close>

definition TransferGroupOwnership ::
  "memory_store \<Rightarrow> string \<Rightarrow> string \<Rightarrow> string \<Rightarrow> memory_store \<times> (store_error + unit)" where
  "TransferGroupOwnership s groupID currentOwnerID newOwnerID =
     (case gm_get (s_groups s) groupID of
        None \<Rightarrow> (s, Inl (Errorf ''group owner mismatch''))
      | Some grp \<Rightarrow>
          if g_OwnerID grp \<noteq> currentOwnerID then (s, Inl (Errorf ''group owner mismatch''))
          else
            (let isCurrent = (\<lambda>m. mb_UserID m = currentOwnerID);
                 isNew = (\<lambda>m. mb_UserID m \<noteq> currentOwnerID \<and> mb_UserID m = newOwnerID)
             in case (find_last isCurrent (g_Members grp), find_last isNew (g_Members grp)) of
                  (Some currentOwner, Some newOwner) \<Rightarrow>
                    if mb_Role newOwner = ''owner''
                    then (s, Inl (Errorf ''invalid ownership transfer''))
                    else
                      (put_group s groupID (grp\<lparr>
                         g_Members :=
                           update_last isNew
                             (\<lambda>m. m\<lparr>mb_Role := ''owner'', mb_MutedUntil := zero_time\<rparr>)
                             (update_last isCurrent (\<lambda>m. m\<lparr>mb_Role := ''member''\<rparr>) (g_Members grp)),
                         g_OwnerID := newOwnerID\<rparr>), Inr ())
                | _ \<Rightarrow> (s, Inl (Errorf ''invalid ownership transfer''))))"

definition DeleteGroup :: "memory_store \<Rightarrow> string \<Rightarrow> memory_store \<times> (store_error + unit)" where
  "DeleteGroup s groupID =
     (case gm_get (s_groups s) groupID of
        None \<Rightarrow> (s, Inl (Errorf ''group not found''))
      | Some _ \<Rightarrow>
          (s\<lparr>s_groups := gm_del groupID (s_groups s),
             s_conversations := gm_del groupID (s_conversations s),
             s_messages := gm_del groupID (s_messages s),
             s_readStates := gm_del groupID (s_readStates s),
             s_announcementReads :=
               foldl (\<lambda>m a. gm_del (an_ID a) m) (s_announcementReads s)
                 (gm_list (s_groupAnnouncements s) groupID),
             s_groupAnnouncements := gm_del groupID (s_groupAnnouncements s)\<rparr>, Inr ()))"

definition AddGroupMember ::
  "memory_store \<Rightarrow> string \<Rightarrow> string \<Rightarrow> gotime \<Rightarrow> memory_store \<times> bool" where
  "AddGroupMember s groupID userID now =
     (case gm_get (s_groups s) groupID of
        None \<Rightarrow> (s, False)
      | Some grp \<Rightarrow>
          if list_ex (\<lambda>m. mb_UserID m = userID) (g_Members grp) then (s, False)
          else (put_group s groupID (grp\<lparr>g_Members := g_Members grp @
                  [\<lparr> mb_UserID = userID, mb_Role = ''member'', mb_JoinedAt = now,
                     mb_MutedUntil = zero_time \<rparr>]\<rparr>), True))"

definition RemoveGroupMember :: "memory_store \<Rightarrow> string \<Rightarrow> string \<Rightarrow> memory_store \<times> bool" where
  "RemoveGroupMember s groupID userID =
     (case gm_get (s_groups s) groupID of
        None \<Rightarrow> (s, False)
      | Some grp \<Rightarrow>
          if list_ex (\<lambda>m. mb_UserID m = userID) (g_Members grp)
          then (put_group s groupID (grp\<lparr>g_Members :=
                  remove_first (\<lambda>m. mb_UserID m = userID) (g_Members grp)\<rparr>), True)
          else (s, False))"

definition IsGroupMember :: "memory_store \<Rightarrow> string \<Rightarrow> string \<Rightarrow> bool" where
  "IsGroupMember s groupID userID = isGroupMember s groupID userID"

definition GetGroupMembers :: "memory_store \<Rightarrow> string \<Rightarrow> group_member list" where
  "GetGroupMembers s groupID =
     (case gm_get (s_groups s) groupID of None \<Rightarrow> [] | Some grp \<Rightarrow> g_Members grp)"

section \<open>Announcements\<close>

definition announcement_id :: "gotime \<Rightarrow> int \<Rightarrow> string" where
  "announcement_id now counter =
     ''announcement_'' @ show_int (UnixNano now) @ ''_'' @ show_int counter"

definition CreateGroupAnnouncement ::
  "memory_store \<Rightarrow> string \<Rightarrow> string \<Rightarrow> string \<Rightarrow> bool \<Rightarrow> gotime
     \<Rightarrow> memory_store \<times> (store_error + group_announcement)" where
  "CreateGroupAnnouncement s groupID content authorID isPinned now =
     (case gm_get (s_groups s) groupID of
        None \<Rightarrow> (s, Inl (Errorf ''group not found''))
      | Some _ \<Rightarrow>
          (let counter = wrap64 (s_announcementCounter s + 1);
               announcement = \<lparr> an_ID = announcement_id now counter, an_GroupID = groupID,
                 an_Content = content, an_AuthorID = authorID, an_IsPinned = isPinned,
                 an_IsRead = False, an_CreatedAt = now, an_UpdatedAt = now \<rparr>
           in (s\<lparr>s_announcementCounter := counter,
                 s_groupAnnouncements := gm_set groupID
                   (gm_list (s_groupAnnouncements s) groupID @ [announcement])
                   (s_groupAnnouncements s)\<rparr>, Inr announcement)))"

text \<open>The nested loops over all groups' announcements stop at the first match.\<close>

definition announcement_slot ::
  "memory_store \<Rightarrow> string \<Rightarrow> (string \<times> group_announcement list) option" where
  "announcement_slot s ident =
     List.find (\<lambda>(g, as). list_ex (\<lambda>a. an_ID a = ident) as) (s_groupAnnouncements s)"

definition GetGroupAnnouncement :: "memory_store \<Rightarrow> string \<Rightarrow> group_announcement option" where
  "GetGroupAnnouncement s ident =
     (case announcement_slot s ident of
        None \<Rightarrow> None
      | Some (_, announcements) \<Rightarrow> List.find (\<lambda>a. an_ID a = ident) announcements)"

definition announcement_read :: "memory_store \<Rightarrow> string \<Rightarrow> string \<Rightarrow> bool" where
  "announcement_read s ident userID =
     (case gm_get (gm_list (s_announcementReads s) ident) userID of None \<Rightarrow> False | Some b \<Rightarrow> b)"

definition announcement_less :: "group_announcement \<Rightarrow> group_announcement \<Rightarrow> bool" where
  "announcement_less x y =
     (if an_IsPinned x \<noteq> an_IsPinned y then an_IsPinned x else an_UpdatedAt y < an_UpdatedAt x)"

definition GetGroupAnnouncements :: "memory_store \<Rightarrow> string \<Rightarrow> string \<Rightarrow> group_announcement list" where
  "GetGroupAnnouncements s groupID userID =
     go_sort announcement_less
       (map (\<lambda>a. a\<lparr>an_IsRead := announcement_read s (an_ID a) userID\<rparr>)
         (gm_list (s_groupAnnouncements s) groupID))"

definition UpdateGroupAnnouncement ::
  "memory_store \<Rightarrow> string \<Rightarrow> string \<Rightarrow> bool \<Rightarrow> gotime
     \<Rightarrow> memory_store \<times> group_announcement option" where
  "UpdateGroupAnnouncement s ident content isPinned now =
     (case announcement_slot s ident of
        None \<Rightarrow> (s, None)
      | Some (groupID, announcements) \<Rightarrow>
          (let updated = update_first (\<lambda>a. an_ID a = ident)
                 (\<lambda>a. a\<lparr>an_Content := content, an_IsPinned := isPinned, an_UpdatedAt := now\<rparr>)
                 announcements
           in (s\<lparr>s_groupAnnouncements := gm_set groupID updated (s_groupAnnouncements s)\<rparr>,
               List.find (\<lambda>a. an_ID a = ident) updated)))"

definition DeleteGroupAnnouncement :: "memory_store \<Rightarrow> string \<Rightarrow> memory_store \<times> bool" where
  "DeleteGroupAnnouncement s ident =
     (case announcement_slot s ident of
        None \<Rightarrow> (s, False)
      | Some (groupID, announcements) \<Rightarrow>
          (s\<lparr>s_groupAnnouncements := gm_set groupID
                (remove_first (\<lambda>a. an_ID a = ident) announcements) (s_groupAnnouncements s),
             s_announcementReads := gm_del ident (s_announcementReads s)\<rparr>, True))"

definition MarkGroupAnnouncementRead ::
  "memory_store \<Rightarrow> string \<Rightarrow> string \<Rightarrow> memory_store \<times> (store_error + unit)" where
  "MarkGroupAnnouncementRead s ident userID =
     (if announcement_slot s ident = None then (s, Inl ErrNoRows)
      else (s\<lparr>s_announcementReads := gm_set ident
               (gm_set userID True (gm_list (s_announcementReads s) ident))
               (s_announcementReads s)\<rparr>, Inr ()))"

section \<open>The group invariant\<close>

text \<open>
  A well-formed group has distinct members, and its owner is the one member with the role
  \<open>owner\<close>. The store keeps this as long as its callers do not demote or remove the owner and
  do not hand out the role \<open>owner\<close> except by a transfer.
\<close>

definition group_ok :: "group \<Rightarrow> bool" where
  "group_ok grp \<longleftrightarrow>
     distinct (map mb_UserID (g_Members grp))
     \<and> g_OwnerID grp \<in> set (map mb_UserID (g_Members grp))
     \<and> list_all (\<lambda>m. (mb_Role m = ''owner'') = (mb_UserID m = g_OwnerID grp)) (g_Members grp)"

definition groups_inv :: "memory_store \<Rightarrow> bool" where
  "groups_inv s \<longleftrightarrow> gm_wf (s_groups s)
     \<and> list_all (\<lambda>(k, grp). g_ID grp = k \<and> group_ok grp) (s_groups s)"

lemma groups_inv_get:
  assumes "groups_inv s" "gm_get (s_groups s) k = Some grp"
  shows "g_ID grp = k" "group_ok grp"
  using assms by (auto simp: groups_inv_def list_all_iff dest!: map_of_SomeD)

lemma groups_inv_init: "groups_inv NewMemoryStore"
  by (simp add: groups_inv_def NewMemoryStore_def)

lemma groups_inv_cong: "groups_inv s \<Longrightarrow> s_groups t = s_groups s \<Longrightarrow> groups_inv t"
  by (simp add: groups_inv_def)

lemma put_group_inv:
  "groups_inv s \<Longrightarrow> g_ID grp = k \<Longrightarrow> group_ok grp \<Longrightarrow> groups_inv (put_group s k grp)"
  by (auto simp: groups_inv_def put_group_def intro: list_all_gm_set)

lemma CreateGroup_inv: "groups_inv s \<Longrightarrow> groups_inv (fst (CreateGroup s i n a u t1 t2))"
  by (auto simp: groups_inv_def CreateGroup_def Let_def group_ok_def intro!: list_all_gm_set)

lemma UpdateGroup_inv: "groups_inv s \<Longrightarrow> groups_inv (fst (UpdateGroup s i n a an mu))"
  by (auto simp: UpdateGroup_def group_ok_def dest: groups_inv_get split: option.splits intro!: put_group_inv)

text \<open>Updating the members in place keeps the group well-formed when it agrees with the roles.\<close>

lemma group_ok_map:
  assumes "group_ok grp" "\<And>m. m \<in> set (g_Members grp) \<Longrightarrow> mb_UserID (f m) = mb_UserID m"
    and "\<And>m. m \<in> set (g_Members grp) \<Longrightarrow> (mb_Role (f m) = ''owner'') = (mb_UserID m = newo)"
    and "newo \<in> set (map mb_UserID (g_Members grp))"
  shows "group_ok (grp\<lparr>g_Members := map f (g_Members grp), g_OwnerID := newo\<rparr>)"
proof -
  have "map mb_UserID (map f (g_Members grp)) = map mb_UserID (g_Members grp)"
    using assms(2) by simp
  then show ?thesis
    using assms by (simp add: group_ok_def list_all_iff del: map_map)
qed

lemma group_ok_owner_update:
  "group_ok (grp\<lparr>g_Members := ms, g_OwnerID := g_OwnerID grp\<rparr>) = group_ok (grp\<lparr>g_Members := ms\<rparr>)"
  by (simp add: group_ok_def)

lemma group_ok_ids: "group_ok grp \<Longrightarrow> distinct (map mb_UserID (g_Members grp))"
  by (simp add: group_ok_def)

lemma group_ok_role:
  "group_ok grp \<Longrightarrow> m \<in> set (g_Members grp) \<Longrightarrow> (mb_Role m = ''owner'') = (mb_UserID m = g_OwnerID grp)"
  by (simp add: group_ok_def list_all_iff)

lemma group_ok_owner: "group_ok grp \<Longrightarrow> g_OwnerID grp \<in> set (map mb_UserID (g_Members grp))"
  by (simp add: group_ok_def)

lemma SetGroupMemberRole_inv:
  assumes "groups_inv s" "role \<noteq> ''owner''"
    and "\<And>grp. gm_get (s_groups s) i = Some grp \<Longrightarrow> g_OwnerID grp \<noteq> u"
  shows "groups_inv (fst (SetGroupMemberRole s i u role))"
proof (cases "gm_get (s_groups s) i")
  case (Some grp)
  note g = groups_inv_get [OF assms(1) Some]
  have "group_ok (grp\<lparr>g_Members := map (\<lambda>m. if mb_UserID m = u then m\<lparr>mb_Role := role\<rparr> else m)
      (g_Members grp), g_OwnerID := g_OwnerID grp\<rparr>)"
    using assms(2,3) Some group_ok_role [OF g(2)] group_ok_owner [OF g(2)]
    by (intro group_ok_map [OF g(2)]) auto
  then have "group_ok (grp\<lparr>g_Members := update_first (\<lambda>m. mb_UserID m = u)
      (\<lambda>m. m\<lparr>mb_Role := role\<rparr>) (g_Members grp)\<rparr>)"
    by (simp add: update_first_eq_map [OF group_ok_ids [OF g(2)]] group_ok_owner_update)
  then show ?thesis
    using Some assms(1) g(1) by (simp add: SetGroupMemberRole_def put_group_inv)
qed (simp add: SetGroupMemberRole_def assms(1))

lemma SetGroupMemberMute_inv:
  assumes "groups_inv s"
  shows "groups_inv (fst (SetGroupMemberMute s i u t))"
proof (cases "gm_get (s_groups s) i")
  case (Some grp)
  note g = groups_inv_get [OF assms(1) Some]
  have "group_ok (grp\<lparr>g_Members := map (\<lambda>m. if mb_UserID m = u then m\<lparr>mb_MutedUntil := t\<rparr> else m)
      (g_Members grp), g_OwnerID := g_OwnerID grp\<rparr>)"
    using group_ok_role [OF g(2)] group_ok_owner [OF g(2)]
    by (intro group_ok_map [OF g(2)]) auto
  then have "group_ok (grp\<lparr>g_Members := update_first (\<lambda>m. mb_UserID m = u)
      (\<lambda>m. m\<lparr>mb_MutedUntil := t\<rparr>) (g_Members grp)\<rparr>)"
    by (simp add: update_first_eq_map [OF group_ok_ids [OF g(2)]] group_ok_owner_update)
  then show ?thesis
    using Some assms(1) g(1) by (simp add: SetGroupMemberMute_def put_group_inv)
qed (simp add: SetGroupMemberMute_def assms(1))

text \<open>What a transfer of ownership does on a well-formed group, and when it happens.\<close>

lemma update_last_new:
  assumes "distinct (map mb_UserID ms)"
  shows "update_last (\<lambda>m. mb_UserID m \<noteq> c \<and> mb_UserID m = n) f ms =
     map (\<lambda>m. if mb_UserID m \<noteq> c \<and> mb_UserID m = n then f m else m) ms"
proof (cases "c = n")
  case True
  have "update_first (\<lambda>m. False) f xs = xs" for xs by (induction xs) auto
  with True show ?thesis by (simp add: update_last_def cong: if_cong)
next
  case False
  then have e: "(mb_UserID m \<noteq> c \<and> mb_UserID m = n) = (mb_UserID m = n)" for m by auto
  show ?thesis unfolding e by (rule update_last_eq_map [OF assms])
qed

definition transferred :: "string \<Rightarrow> string \<Rightarrow> group_member \<Rightarrow> group_member" where
  "transferred c n m =
     (if mb_UserID m = c then m\<lparr>mb_Role := ''member''\<rparr>
      else if mb_UserID m = n then m\<lparr>mb_Role := ''owner'', mb_MutedUntil := zero_time\<rparr> else m)"

lemma TransferGroupOwnership_ok:
  assumes inv: "groups_inv s" and g: "gm_get (s_groups s) i = Some grp"
    and "g_OwnerID grp = c" "n \<noteq> c" "n \<in> set (map mb_UserID (g_Members grp))"
  shows "TransferGroupOwnership s i c n =
           (put_group s i (grp\<lparr>g_Members := map (transferred c n) (g_Members grp), g_OwnerID := n\<rparr>), Inr ())"
proof -
  note ok = groups_inv_get [OF inv g]
  note dist = group_ok_ids [OF ok(2)]
  obtain co where co: "find_last (\<lambda>m. mb_UserID m = c) (g_Members grp) = Some co"
    using group_ok_owner [OF ok(2)] assms(3)
    by (cases "find_last (\<lambda>m. mb_UserID m = c) (g_Members grp)") (auto simp: find_last_None)
  obtain no where no: "find_last (\<lambda>m. mb_UserID m \<noteq> c \<and> mb_UserID m = n) (g_Members grp) = Some no"
    using assms(4,5)
    by (cases "find_last (\<lambda>m. mb_UserID m \<noteq> c \<and> mb_UserID m = n) (g_Members grp)")
      (auto simp: find_last_None)
  have role: "mb_Role no \<noteq> ''owner''"
    using find_last_Some [OF no] group_ok_role [OF ok(2)] assms(3,4) by auto
  have dist': "distinct (map mb_UserID (map (\<lambda>m. if mb_UserID m = c then m\<lparr>mb_Role := ''member''\<rparr> else m) (g_Members grp)))"
    using dist by (simp add: comp_def if_distrib cong: if_cong)
  have "update_last (\<lambda>m. mb_UserID m \<noteq> c \<and> mb_UserID m = n) (\<lambda>m. m\<lparr>mb_Role := ''owner'', mb_MutedUntil := zero_time\<rparr>)
      (update_last (\<lambda>m. mb_UserID m = c) (\<lambda>m. m\<lparr>mb_Role := ''member''\<rparr>) (g_Members grp))
      = map (transferred c n) (g_Members grp)"
    unfolding update_last_eq_map [OF dist] update_last_new [OF dist']
    by (auto simp: transferred_def)
  then show ?thesis
    using g assms(3) co no role by (simp add: TransferGroupOwnership_def Let_def)
qed

lemma TransferGroupOwnership_refused:
  assumes inv: "groups_inv s"
    and "\<not> (\<exists>grp. gm_get (s_groups s) i = Some grp \<and> g_OwnerID grp = c \<and> n \<noteq> c
             \<and> n \<in> set (map mb_UserID (g_Members grp)))"
  shows "fst (TransferGroupOwnership s i c n) = s \<and> isl (snd (TransferGroupOwnership s i c n))"
proof (cases "gm_get (s_groups s) i")
  case (Some grp)
  show ?thesis
  proof (cases "g_OwnerID grp = c")
    case True
    with assms(2) Some have "find_last (\<lambda>m. mb_UserID m \<noteq> c \<and> mb_UserID m = n) (g_Members grp) = None"
      by (auto simp: find_last_None)
    with Some show ?thesis by (simp add: TransferGroupOwnership_def Let_def split: option.splits)
  qed (use Some in \<open>simp add: TransferGroupOwnership_def\<close>)
qed (simp add: TransferGroupOwnership_def)

lemma transferred_group_ok:
  assumes "group_ok grp" "n \<noteq> g_OwnerID grp" "n \<in> set (map mb_UserID (g_Members grp))"
  shows "group_ok (grp\<lparr>g_Members := map (transferred (g_OwnerID grp) n) (g_Members grp), g_OwnerID := n\<rparr>)"
  using assms group_ok_role [OF assms(1)]
  by (intro group_ok_map [OF assms(1)]) (auto simp: transferred_def)

lemma TransferGroupOwnership_inv:
  assumes "groups_inv s"
  shows "groups_inv (fst (TransferGroupOwnership s i c n))"
proof (cases "\<exists>grp. gm_get (s_groups s) i = Some grp \<and> g_OwnerID grp = c \<and> n \<noteq> c
             \<and> n \<in> set (map mb_UserID (g_Members grp))")
  case True
  then obtain grp where g: "gm_get (s_groups s) i = Some grp" "g_OwnerID grp = c" "n \<noteq> c"
    "n \<in> set (map mb_UserID (g_Members grp))" by blast
  note ok = groups_inv_get [OF assms g(1)]
  have "group_ok (grp\<lparr>g_Members := map (transferred c n) (g_Members grp), g_OwnerID := n\<rparr>)"
    using transferred_group_ok [OF ok(2)] g by auto
  with assms ok(1) show ?thesis
    by (simp add: TransferGroupOwnership_ok [OF assms g] put_group_inv)
next
  case False
  with TransferGroupOwnership_refused [OF assms] assms show ?thesis by metis
qed

lemma DeleteGroup_inv: "groups_inv s \<Longrightarrow> groups_inv (fst (DeleteGroup s i))"
  by (auto simp: DeleteGroup_def groups_inv_def list_all_gm_del split: option.splits)

lemma AddGroupMember_inv:
  assumes "groups_inv s"
  shows "groups_inv (fst (AddGroupMember s i u t))"
proof (cases "gm_get (s_groups s) i")
  case (Some grp)
  note g = groups_inv_get [OF assms Some]
  show ?thesis
  proof (cases "list_ex (\<lambda>m. mb_UserID m = u) (g_Members grp)")
    case False
    then have u: "u \<notin> set (map mb_UserID (g_Members grp))" by (auto simp: list_ex_iff)
    with group_ok_owner [OF g(2)] have "g_OwnerID grp \<noteq> u" by auto
    with u g(2) have "group_ok (grp\<lparr>g_Members := g_Members grp @ [\<lparr>mb_UserID = u, mb_Role = ''member'',
        mb_JoinedAt = t, mb_MutedUntil = zero_time\<rparr>]\<rparr>)"
      by (auto simp: group_ok_def)
    with False Some assms g(1) show ?thesis by (simp add: AddGroupMember_def put_group_inv)
  qed (use Some assms in \<open>simp add: AddGroupMember_def\<close>)
qed (simp add: AddGroupMember_def assms)

lemma RemoveGroupMember_inv:
  assumes "groups_inv s" "\<And>grp. gm_get (s_groups s) i = Some grp \<Longrightarrow> g_OwnerID grp \<noteq> u"
  shows "groups_inv (fst (RemoveGroupMember s i u))"
proof (cases "gm_get (s_groups s) i")
  case (Some grp)
  note g = groups_inv_get [OF assms(1) Some]
  note dist = group_ok_ids [OF g(2)]
  have "group_ok (grp\<lparr>g_Members := remove_first (\<lambda>m. mb_UserID m = u) (g_Members grp)\<rparr>)"
    using g(2) assms(2) [OF Some] map_remove_first_distinct [OF dist] set_remove_member [OF dist, of u]
    by (auto simp: group_ok_def list_all_iff)
  with Some assms(1) g(1) show ?thesis by (simp add: RemoveGroupMember_def put_group_inv)
qed (simp add: RemoveGroupMember_def assms)

lemma isGroupMember_Remove:
  assumes "groups_inv s"
  shows "isGroupMember (fst (RemoveGroupMember s i u)) j v \<longleftrightarrow> isGroupMember s j v \<and> \<not> (j = i \<and> v = u)"
proof (cases "gm_get (s_groups s) i")
  case (Some grp)
  have "list_ex (\<lambda>m. mb_UserID m = v) (remove_first (\<lambda>m. mb_UserID m = u) (g_Members grp)) \<longleftrightarrow>
      list_ex (\<lambda>m. mb_UserID m = v) (g_Members grp) \<and> v \<noteq> u"
    using set_remove_member [OF group_ok_ids [OF groups_inv_get(2) [OF assms Some]], of u]
    by (auto simp: list_ex_iff)
  with Some show ?thesis
    by (auto simp: RemoveGroupMember_def isGroupMember_def put_group_def list_ex_iff)
qed (auto simp: RemoveGroupMember_def isGroupMember_def)

lemma isGroupMember_Add:
  "isGroupMember (fst (AddGroupMember s i u t)) j v \<longleftrightarrow>
     isGroupMember s j v \<or> (j = i \<and> v = u \<and> gm_has (s_groups s) i)"
  by (auto simp: AddGroupMember_def isGroupMember_def put_group_def gm_has_def list_ex_iff split: option.splits)

lemmas group_ops_inv =
  CreateGroup_inv UpdateGroup_inv SetGroupMemberRole_inv SetGroupMemberMute_inv
  TransferGroupOwnership_inv DeleteGroup_inv AddGroupMember_inv RemoveGroupMember_inv

section \<open>Announcements\<close>

lemma announcement_id_inject [simp]:
  "announcement_id t c = announcement_id t' c' \<longleftrightarrow> t = t' \<and> c = c'"
proof
  assume "announcement_id t c = announcement_id t' c'"
  then have eq: "show_int (UnixNano t) @ CHR ''_'' # show_int c = show_int (UnixNano t') @ CHR ''_'' # show_int c'"
    by (simp add: announcement_id_def)
  have split: "takeWhile (\<lambda>x. x \<noteq> CHR ''_'') (show_int i @ CHR ''_'' # show_int j) = show_int i" for i j
    using show_int_no_underscore [of i] by (subst takeWhile_append2) auto
  have "show_int (UnixNano t) = show_int (UnixNano t')" using eq split by metis
  with eq show "t = t' \<and> c = c'" by (simp add: UnixNano_def)
qed simp

text \<open>
  Announcement identifiers are unique over all groups (each carries its own counter value),
  and reads are kept only of announcements that exist.
\<close>

definition announcement_in :: "memory_store \<Rightarrow> string \<Rightarrow> group_announcement \<Rightarrow> bool" where
  "announcement_in s g a \<longleftrightarrow> a \<in> set (gm_list (s_groupAnnouncements s) g)"

definition announcement_inv :: "memory_store \<Rightarrow> bool" where
  "announcement_inv s \<longleftrightarrow>
     gm_wf (s_groupAnnouncements s) \<and> 0 \<le> s_announcementCounter s \<and> s_announcementCounter s \<le> max_int64
     \<and> (\<forall>g a. announcement_in s g a \<longrightarrow> an_GroupID a = g
          \<and> (\<exists>t c. an_ID a = announcement_id t c \<and> c \<le> s_announcementCounter s))
     \<and> (\<forall>g h a b. announcement_in s g a \<longrightarrow> announcement_in s h b \<longrightarrow> an_ID a = an_ID b \<longrightarrow> a = b)
     \<and> (\<forall>g. distinct (map an_ID (gm_list (s_groupAnnouncements s) g)))
     \<and> (\<forall>i. gm_has (s_announcementReads s) i \<longrightarrow> (\<exists>g a. announcement_in s g a \<and> an_ID a = i))"

lemma announcement_invD:
  assumes "announcement_inv s"
  shows "gm_wf (s_groupAnnouncements s)" "0 \<le> s_announcementCounter s"
    "s_announcementCounter s \<le> max_int64"
    "announcement_in s g a \<Longrightarrow> an_GroupID a = g"
    "announcement_in s g a \<Longrightarrow> \<exists>t c. an_ID a = announcement_id t c \<and> c \<le> s_announcementCounter s"
    "announcement_in s g a \<Longrightarrow> announcement_in s h b \<Longrightarrow> an_ID a = an_ID b \<Longrightarrow> a = b"
    "distinct (map an_ID (gm_list (s_groupAnnouncements s) g))"
    "gm_has (s_announcementReads s) i \<Longrightarrow> \<exists>g a. announcement_in s g a \<and> an_ID a = i"
  using assms unfolding announcement_inv_def by blast+

lemma announcement_inv_init: "announcement_inv NewMemoryStore"
  by (simp add: announcement_inv_def NewMemoryStore_def announcement_in_def max_int64_def)

lemma announcement_inv_cong:
  "announcement_inv s \<Longrightarrow> s_groupAnnouncements t = s_groupAnnouncements s \<Longrightarrow>
   s_announcementReads t = s_announcementReads s \<Longrightarrow>
   s_announcementCounter t = s_announcementCounter s \<Longrightarrow> announcement_inv t"
  by (simp add: announcement_inv_def announcement_in_def)

lemma slot_Some_iff:
  assumes inv: "announcement_inv s"
  shows "announcement_slot s i = Some (g, as) \<longleftrightarrow>
    as = gm_list (s_groupAnnouncements s) g \<and> (\<exists>a. announcement_in s g a \<and> an_ID a = i)"
proof
  assume "announcement_slot s i = Some (g, as)"
  then have mem: "(g, as) \<in> set (s_groupAnnouncements s)" and ex: "list_ex (\<lambda>a. an_ID a = i) as"
    unfolding announcement_slot_def find_Some_iff by (auto, metis nth_mem)
  from mem have "as = gm_list (s_groupAnnouncements s) g"
    using announcement_invD(1) [OF inv] by (simp add: gm_list_mem)
  with ex show "as = gm_list (s_groupAnnouncements s) g \<and> (\<exists>a. announcement_in s g a \<and> an_ID a = i)"
    by (auto simp: announcement_in_def list_ex_iff)
next
  assume h: "as = gm_list (s_groupAnnouncements s) g \<and> (\<exists>a. announcement_in s g a \<and> an_ID a = i)"
  then obtain a where a: "announcement_in s g a" "an_ID a = i" by blast
  have wf: "gm_wf (s_groupAnnouncements s)" by (rule announcement_invD(1) [OF inv])
  show "announcement_slot s i = Some (g, as)"
    unfolding announcement_slot_def
  proof (rule find_Some_unique)
    have "gm_get (s_groupAnnouncements s) g = Some as"
      using a h by (cases "gm_get (s_groupAnnouncements s) g") (auto simp: announcement_in_def gm_list_def)
    then show "(g, as) \<in> set (s_groupAnnouncements s)" by (rule map_of_SomeD)
    show "case (g, as) of (g, as) \<Rightarrow> list_ex (\<lambda>a. an_ID a = i) as"
      using a h by (auto simp: announcement_in_def list_ex_iff)
    fix y
    assume y: "y \<in> set (s_groupAnnouncements s)" "case y of (g, as) \<Rightarrow> list_ex (\<lambda>a. an_ID a = i) as"
    obtain g' bs where yb: "y = (g', bs)" by fastforce
    with y wf have bs: "bs = gm_list (s_groupAnnouncements s) g'" by (simp add: gm_list_mem)
    with y yb obtain b where b: "announcement_in s g' b" "an_ID b = i"
      by (auto simp: announcement_in_def list_ex_iff)
    have "a = b" using announcement_invD(6) [OF inv a(1) b(1)] a b by simp
    with a b announcement_invD(4) [OF inv] have "g' = g" by metis
    with bs h yb show "y = (g, as)" by simp
  qed
qed

lemma slot_None_iff:
  assumes inv: "announcement_inv s"
  shows "announcement_slot s i = None \<longleftrightarrow> (\<forall>g a. announcement_in s g a \<longrightarrow> an_ID a \<noteq> i)"
  using slot_Some_iff [OF inv, of i] by (metis not_None_eq surj_pair)

lemma GetGroupAnnouncement_iff:
  assumes inv: "announcement_inv s"
  shows "GetGroupAnnouncement s i = Some a \<longleftrightarrow> an_ID a = i \<and> announcement_in s (an_GroupID a) a"
proof
  assume g: "GetGroupAnnouncement s i = Some a"
  then obtain h as where h: "announcement_slot s i = Some (h, as)" "List.find (\<lambda>a. an_ID a = i) as = Some a"
    by (auto simp: GetGroupAnnouncement_def split: option.splits)
  then have "a \<in> set as \<and> an_ID a = i" by (auto simp: find_Some_iff)
  with h(1) slot_Some_iff [OF inv] announcement_invD(4) [OF inv, of h a]
  show "an_ID a = i \<and> announcement_in s (an_GroupID a) a" by (auto simp: announcement_in_def)
next
  assume h: "an_ID a = i \<and> announcement_in s (an_GroupID a) a"
  let ?as = "gm_list (s_groupAnnouncements s) (an_GroupID a)"
  have "announcement_slot s i = Some (an_GroupID a, ?as)" using slot_Some_iff [OF inv] h by blast
  moreover have "List.find (\<lambda>a. an_ID a = i) ?as = Some a"
  proof (rule find_Some_unique)
    show "a \<in> set ?as" using h by (simp add: announcement_in_def)
    show "an_ID a = i" using h by simp
    fix y
    assume "y \<in> set ?as" "an_ID y = i"
    then show "y = a" using h announcement_invD(6) [OF inv, of "an_GroupID a" y "an_GroupID a" a]
      by (simp add: announcement_in_def)
  qed
  ultimately show "GetGroupAnnouncement s i = Some a" by (simp add: GetGroupAnnouncement_def)
qed

lemma CreateGroupAnnouncement_inv:
  assumes inv: "announcement_inv s" and room: "s_announcementCounter s < max_int64"
  shows "announcement_inv (fst (CreateGroupAnnouncement s g txt u p now))"
proof (cases "gm_get (s_groups s) g")
  case None
  with inv show ?thesis by (simp add: CreateGroupAnnouncement_def)
next
  case (Some grp)
  define a where "a = \<lparr> an_ID = announcement_id now (s_announcementCounter s + 1), an_GroupID = g,
      an_Content = txt, an_AuthorID = u, an_IsPinned = p, an_IsRead = False, an_CreatedAt = now, an_UpdatedAt = now \<rparr>"
  define t where "t = s\<lparr>s_announcementCounter := s_announcementCounter s + 1,
      s_groupAnnouncements := gm_set g (gm_list (s_groupAnnouncements s) g @ [a]) (s_groupAnnouncements s)\<rparr>"
  have run: "fst (CreateGroupAnnouncement s g txt u p now) = t"
    using Some room announcement_invD(2) [OF inv]
    by (simp add: CreateGroupAnnouncement_def Let_def wrap64_succ t_def a_def)
  have in_t: "announcement_in t h b \<longleftrightarrow> announcement_in s h b \<or> (h = g \<and> b = a)" for h b
    by (auto simp: announcement_in_def t_def)
  have old: "an_ID b \<noteq> an_ID a" if "announcement_in s h b" for h b
    using announcement_invD(5) [OF inv that] by (auto simp: a_def)
  have "announcement_inv t"
    unfolding announcement_inv_def in_t
  proof (intro conjI allI impI, goal_cases)
    case (5 h b)
    then show ?case
      using announcement_invD(5) [OF inv, of h b] by (fastforce simp: t_def a_def)
  next
    case (6 h k b c)
    then show ?case using old announcement_invD(6) [OF inv] by metis
  next
    case (7 h)
    have "an_ID a \<notin> an_ID ` set (gm_list (s_groupAnnouncements s) g)"
      using old [of g] by (auto simp: announcement_in_def) (metis)
    then show ?case using announcement_invD(7) [OF inv, of h]
      by (cases "h = g") (simp_all add: t_def)
  next
    case (8 i)
    then show ?case using announcement_invD(8) [OF inv, of i] by (auto simp: t_def)
  qed (use announcement_invD(1-4) [OF inv] room in \<open>auto simp: t_def a_def\<close>)
  then show ?thesis by (simp add: run)
qed

text \<open>Changing one announcement in place, or removing it, in the group that holds it.\<close>

lemma UpdateGroupAnnouncement_inv:
  assumes inv: "announcement_inv s"
  shows "announcement_inv (fst (UpdateGroupAnnouncement s i txt p now))"
proof (cases "announcement_slot s i")
  case None
  with inv show ?thesis by (simp add: UpdateGroupAnnouncement_def)
next
  case (Some ga)
  obtain g as where ga: "ga = (g, as)" by fastforce
  define f where "f = (\<lambda>a :: group_announcement. if an_ID a = i then a\<lparr>an_Content := txt, an_IsPinned := p, an_UpdatedAt := now\<rparr> else a)"
  have fid: "an_ID (f a) = an_ID a" "an_GroupID (f a) = an_GroupID a" for a by (simp_all add: f_def)
  have as: "as = gm_list (s_groupAnnouncements s) g" using Some ga slot_Some_iff [OF inv] by simp
  have upd: "update_first (\<lambda>a. an_ID a = i) (\<lambda>a. a\<lparr>an_Content := txt, an_IsPinned := p, an_UpdatedAt := now\<rparr>) as = map f as"
    unfolding f_def as by (rule update_first_eq_map) (rule announcement_invD(7) [OF inv])
  define t where "t = s\<lparr>s_groupAnnouncements := gm_set g (map f as) (s_groupAnnouncements s)\<rparr>"
  have run: "fst (UpdateGroupAnnouncement s i txt p now) = t"
    using Some ga upd by (simp add: UpdateGroupAnnouncement_def Let_def t_def)
  have fout: "f b = b" if "announcement_in s h b" "h \<noteq> g" for h b
  proof -
    obtain a where a: "announcement_in s g a" "an_ID a = i" using Some ga slot_Some_iff [OF inv] by blast
    have "an_ID b \<noteq> i"
    proof
      assume "an_ID b = i"
      then have "a = b" using announcement_invD(6) [OF inv a(1) that(1)] a by simp
      with announcement_invD(4) [OF inv] a that show False by metis
    qed
    then show ?thesis by (simp add: f_def)
  qed
  have in_t: "announcement_in t h b \<longleftrightarrow> (\<exists>a. announcement_in s h a \<and> b = f a)" for h b
  proof (cases "h = g")
    case True
    then show ?thesis by (auto simp: announcement_in_def t_def as)
  next
    case False
    then have "announcement_in t h b = announcement_in s h b" by (simp add: announcement_in_def t_def)
    with False fout show ?thesis by metis
  qed
  have "announcement_inv t"
    unfolding announcement_inv_def in_t
  proof (intro conjI allI impI, goal_cases)
    case (7 h)
    have "map an_ID (gm_list (s_groupAnnouncements t) h) = map an_ID (gm_list (s_groupAnnouncements s) h)"
      by (simp add: t_def as fid comp_def)
    then show ?case using announcement_invD(7) [OF inv] by metis
  next
    case (8 j)
    then show ?case using announcement_invD(8) [OF inv, of j] fid by (simp add: t_def) metis
  next
    case (6 h k a b)
    then show ?case using announcement_invD(6) [OF inv] fid by metis
  qed (use announcement_invD(1-5) [OF inv] fid in \<open>auto simp: t_def\<close>)
  then show ?thesis by (simp add: run)
qed

lemma announcement_inv_remove:
  assumes inv: "announcement_inv s"
    and wf: "gm_wf (s_groupAnnouncements t)" and cnt: "s_announcementCounter t = s_announcementCounter s"
    and sub: "\<And>g a. announcement_in t g a \<Longrightarrow> announcement_in s g a"
    and dist: "\<And>g. distinct (map an_ID (gm_list (s_groupAnnouncements t) g))"
    and reads: "\<And>i. gm_has (s_announcementReads t) i \<Longrightarrow> \<exists>g a. announcement_in t g a \<and> an_ID a = i"
  shows "announcement_inv t"
  using wf dist reads announcement_invD(2,3) [OF inv] announcement_invD(4) [OF inv] announcement_invD(5) [OF inv]
    announcement_invD(6) [OF inv] sub
  unfolding announcement_inv_def cnt by blast

lemma DeleteGroupAnnouncement_inv:
  assumes inv: "announcement_inv s"
  shows "announcement_inv (fst (DeleteGroupAnnouncement s i))"
proof (cases "announcement_slot s i")
  case None
  with inv show ?thesis by (simp add: DeleteGroupAnnouncement_def)
next
  case (Some ga)
  obtain g as where ga: "ga = (g, as)" by fastforce
  have as: "as = gm_list (s_groupAnnouncements s) g" using Some ga slot_Some_iff [OF inv] by simp
  define t where "t = s\<lparr>s_groupAnnouncements := gm_set g (remove_first (\<lambda>a. an_ID a = i) as) (s_groupAnnouncements s),
      s_announcementReads := gm_del i (s_announcementReads s)\<rparr>"
  have run: "fst (DeleteGroupAnnouncement s i) = t"
    using Some ga by (simp add: DeleteGroupAnnouncement_def t_def)
  have dist: "distinct (map an_ID as)" unfolding as by (rule announcement_invD(7) [OF inv])
  have in_t: "announcement_in t h b \<longleftrightarrow> announcement_in s h b \<and> (h = g \<longrightarrow> an_ID b \<noteq> i)" for h b
    using set_remove_member [OF dist, of i] by (auto simp: announcement_in_def t_def as)
  have "announcement_inv t"
  proof (rule announcement_inv_remove [OF inv])
    show "gm_wf (s_groupAnnouncements t)" using announcement_invD(1) [OF inv] by (simp add: t_def)
    show "distinct (map an_ID (gm_list (s_groupAnnouncements t) h))" for h
      using announcement_invD(7) [OF inv, of h] map_remove_first_distinct [OF dist] by (simp add: t_def)
    fix j
    assume "gm_has (s_announcementReads t) j"
    then have j: "gm_has (s_announcementReads s) j" "j \<noteq> i" by (auto simp: t_def)
    with announcement_invD(8) [OF inv, of j] show "\<exists>h a. announcement_in t h a \<and> an_ID a = j"
      unfolding in_t by metis
  qed (use in_t in \<open>auto simp: t_def\<close>)
  then show ?thesis by (simp add: run)
qed

lemma MarkGroupAnnouncementRead_inv:
  assumes inv: "announcement_inv s"
  shows "announcement_inv (fst (MarkGroupAnnouncementRead s i u))"
proof (cases "announcement_slot s i = None")
  case False
  then obtain g a where "announcement_in s g a" "an_ID a = i" 
    using slot_None_iff [OF inv, of i] by auto
  with False show ?thesis
    using announcement_invD [OF inv]
    unfolding announcement_inv_def MarkGroupAnnouncementRead_def announcement_in_def by auto
qed (simp add: MarkGroupAnnouncementRead_def inv)

lemma DeleteGroup_announcement_inv:
  assumes inv: "announcement_inv s"
  shows "announcement_inv (fst (DeleteGroup s g))"
proof (cases "gm_get (s_groups s) g")
  case None
  with inv show ?thesis by (simp add: DeleteGroup_def)
next
  case (Some grp)
  define t where "t = fst (DeleteGroup s g)"
  have lists: "gm_list (s_groupAnnouncements t) h = (if h = g then [] else gm_list (s_groupAnnouncements s) h)" for h
    using Some by (simp add: t_def DeleteGroup_def)
  have in_t: "announcement_in t h b \<longleftrightarrow> announcement_in s h b \<and> h \<noteq> g" for h b
    by (simp add: announcement_in_def lists)
  have "announcement_inv t"
  proof (rule announcement_inv_remove [OF inv])
    show "gm_wf (s_groupAnnouncements t)" "s_announcementCounter t = s_announcementCounter s"
      using announcement_invD(1) [OF inv] Some by (simp_all add: t_def DeleteGroup_def)
    show "distinct (map an_ID (gm_list (s_groupAnnouncements t) h))" for h
      using announcement_invD(7) [OF inv, of h] by (simp add: lists)
    fix j
    assume "gm_has (s_announcementReads t) j"
    then have "gm_has (s_announcementReads s) j" "j \<notin> an_ID ` set (gm_list (s_groupAnnouncements s) g)"
      using Some by (auto simp: t_def DeleteGroup_def gm_has_def foldl_del_get split: if_splits)
    then show "\<exists>h a. announcement_in t h a \<and> an_ID a = j"
      using announcement_invD(8) [OF inv, of j] unfolding in_t by (auto simp: announcement_in_def)
  qed (use in_t in auto)
  then show ?thesis by (simp add: t_def)
qed

lemmas announcement_ops_inv =
  UpdateGroupAnnouncement_inv DeleteGroupAnnouncement_inv MarkGroupAnnouncementRead_inv
  DeleteGroup_announcement_inv

interpretation announcement_order: strict_weak_order announcement_less
  by unfold_locales (auto simp: announcement_less_def split: if_splits)

end
