(* ===== verification/Store_Social.thy ===== *)
theory Store_Social
  imports Store_Groups
begin

text \<open>
  Friendships, friend requests and forwards (\<open>memory.go\<close>, \<open>// ---- Friend request
  operations ----\<close> on), titles, blocks and reports (the \<open>MemoryStore\<close> methods of
  \<open>profile_cards.go\<close>): friendship stays symmetric, a request is decided once, nobody holds
  more than five active titles.
\<close>

section \<open>Friendships\<close>

text \<open>\<open>if m[k] == nil { m[k] = make(...) }\<close>\<close>

definition gm_ensure :: "'k \<Rightarrow> ('k, ('l, 'v) gomap) gomap \<Rightarrow> ('k, ('l, 'v) gomap) gomap" where
  "gm_ensure k m = (if gm_has m k then m else gm_set k [] m)"

definition GetFriends :: "memory_store \<Rightarrow> string \<Rightarrow> user list" where
  "GetFriends s userID =
     List.map_filter (\<lambda>(friendID, _). gm_get (s_users s) friendID) (gm_list (s_friendships s) userID)"

definition AreFriends :: "memory_store \<Rightarrow> string \<Rightarrow> string \<Rightarrow> bool" where
  "AreFriends s userID friendID = gm_has (gm_list (s_friendships s) userID) friendID"

definition AddFriend :: "memory_store \<Rightarrow> string \<Rightarrow> string \<Rightarrow> gotime \<Rightarrow> memory_store \<times> bool" where
  "AddFriend s userID friendID now =
     (if userID = [] \<or> friendID = [] \<or> userID = friendID then (s, False)
      else
        (let fs = gm_ensure friendID (gm_ensure userID (s_friendships s));
             s1 = s\<lparr>s_friendships := fs\<rparr>
         in if gm_has (gm_list fs userID) friendID then (s1, False)
            else
              (let fs1 = gm_set userID (gm_set friendID now (gm_list fs userID)) fs;
                   fs2 = gm_set friendID (gm_set userID now (gm_list fs1 friendID)) fs1
               in (s1\<lparr>s_friendships := fs2\<rparr>, True))))"

text \<open>\<open>delete\<close> on a nil map does nothing, so a missing outer entry is not created.\<close>

definition gm_del2 :: "'k \<Rightarrow> 'l \<Rightarrow> ('k, ('l, 'v) gomap) gomap \<Rightarrow> ('k, ('l, 'v) gomap) gomap" where
  "gm_del2 k l m = (if gm_has m k then gm_set k (gm_del l (gm_list m k)) m else m)"

definition RemoveFriend :: "memory_store \<Rightarrow> string \<Rightarrow> string \<Rightarrow> memory_store \<times> bool" where
  "RemoveFriend s userID friendID =
     (if \<not> gm_has (gm_list (s_friendships s) userID) friendID then (s, False)
      else (s\<lparr>s_friendships :=
                gm_del2 friendID userID (gm_del2 userID friendID (s_friendships s))\<rparr>, True))"

section \<open>Friend requests\<close>

definition friend_request_id :: "int \<Rightarrow> string" where
  "friend_request_id n = ''freq_'' @ show_int n"

definition CreateFriendRequest ::
  "memory_store \<Rightarrow> string \<Rightarrow> string \<Rightarrow> string \<Rightarrow> gotime \<Rightarrow> memory_store \<times> friend_request" where
  "CreateFriendRequest s fromID toID comment now =
     (let counter = wrap64 (s_friendReqCounter s + 1);
          req = \<lparr> fr_ID = friend_request_id counter, fr_FromID = fromID, fr_ToID = toID,
                  fr_Comment = comment, fr_Status = ''pending'', fr_CreatedAt = now \<rparr>
      in (s\<lparr>s_friendReqCounter := counter,
            s_friendRequests := gm_set (fr_ID req) req (s_friendRequests s)\<rparr>, req))"

definition GetFriendRequest :: "memory_store \<Rightarrow> string \<Rightarrow> friend_request option" where
  "GetFriendRequest s ident = gm_get (s_friendRequests s) ident"

definition GetPendingFriendRequests :: "memory_store \<Rightarrow> string \<Rightarrow> friend_request list" where
  "GetPendingFriendRequests s userID =
     filter (\<lambda>req. (fr_ToID req = userID \<or> fr_FromID req = userID) \<and> fr_Status req = ''pending'')
       (map snd (s_friendRequests s))"

definition HandleFriendRequest :: "memory_store \<Rightarrow> string \<Rightarrow> string \<Rightarrow> memory_store \<times> bool" where
  "HandleFriendRequest s reqID action =
     (case gm_get (s_friendRequests s) reqID of
        None \<Rightarrow> (s, False)
      | Some req \<Rightarrow>
          if fr_Status req \<noteq> ''pending'' then (s, False)
          else (s\<lparr>s_friendRequests := gm_set reqID (req\<lparr>fr_Status := action\<rparr>) (s_friendRequests s)\<rparr>,
                True))"

section \<open>Forwarded messages\<close>

definition StoreForward ::
  "memory_store \<Rightarrow> string \<Rightarrow> message list \<Rightarrow> gotime \<Rightarrow> gotime \<Rightarrow> memory_store \<times> forward_message" where
  "StoreForward s conversationID messages now1 now2 =
     (let forward = \<lparr> fw_ID = ''fwd_'' @ show_int (UnixNano now1), fw_ConversationID = conversationID,
                      fw_Messages = messages, fw_CreatedAt = now2 \<rparr>
      in (s\<lparr>s_forwards := gm_set (fw_ID forward) forward (s_forwards s)\<rparr>, forward))"

definition GetForward :: "memory_store \<Rightarrow> string \<Rightarrow> forward_message option" where
  "GetForward s ident = gm_get (s_forwards s) ident"

section \<open>Titles, blocks and reports\<close>

definition titleIsActive :: "user_title \<Rightarrow> string \<Rightarrow> gotime \<Rightarrow> bool" where
  "titleIsActive title userID now \<longleftrightarrow>
     ut_UserID title = userID
     \<and> (case ut_ExpiresAt title of None \<Rightarrow> True | Some t \<Rightarrow> now < t)"

definition titleIsVisible :: "user_title \<Rightarrow> string \<Rightarrow> string \<Rightarrow> gotime \<Rightarrow> bool" where
  "titleIsVisible title userID groupID now =
     (if \<not> titleIsActive title userID now then False
      else ut_ScopeType title = ''system''
           \<or> (ut_ScopeType title = ''group'' \<and> groupID \<noteq> [] \<and> ut_ScopeID title = groupID))"

definition title_less :: "user_title \<Rightarrow> user_title \<Rightarrow> bool" where
  "title_less x y \<longleftrightarrow> ut_CreatedAt x < ut_CreatedAt y"

definition GetUserTitles :: "memory_store \<Rightarrow> string \<Rightarrow> string \<Rightarrow> gotime \<Rightarrow> user_title list" where
  "GetUserTitles s userID groupID now =
     go_sort title_less
       (filter (\<lambda>title. titleIsVisible title userID groupID now) (map snd (s_userTitles s)))"

definition active_titles :: "memory_store \<Rightarrow> string \<Rightarrow> gotime \<Rightarrow> nat" where
  "active_titles s userID now =
     length (filter (\<lambda>title. titleIsActive title userID now) (map snd (s_userTitles s)))"

definition GrantUserTitle ::
  "memory_store \<Rightarrow> user_title \<Rightarrow> gotime \<Rightarrow> memory_store \<times> (store_error + unit)" where
  "GrantUserTitle s title now =
     (if 5 \<le> active_titles s (ut_UserID title) now then (s, Inl ErrActiveTitleLimit)
      else
        (let copy = (if ut_CreatedAt title = zero_time then title\<lparr>ut_CreatedAt := now\<rparr> else title)
         in (s\<lparr>s_userTitles := gm_set (ut_ID copy) copy (s_userTitles s)\<rparr>, Inr ())))"

definition DeleteUserTitle :: "memory_store \<Rightarrow> string \<Rightarrow> memory_store \<times> bool" where
  "DeleteUserTitle s titleID =
     (if \<not> gm_has (s_userTitles s) titleID then (s, False)
      else (s\<lparr>s_userTitles := gm_del titleID (s_userTitles s)\<rparr>, True))"

definition SetUserBlocked ::
  "memory_store \<Rightarrow> string \<Rightarrow> string \<Rightarrow> bool \<Rightarrow> gotime \<Rightarrow> memory_store" where
  "SetUserBlocked s blockerID blockedID blocked now =
     (if \<not> blocked
      then s\<lparr>s_userBlocks := gm_del2 blockerID blockedID (s_userBlocks s)\<rparr>
      else s\<lparr>s_userBlocks := gm_set blockerID
               (gm_set blockedID now (gm_list (s_userBlocks s) blockerID)) (s_userBlocks s)\<rparr>)"

definition IsUserBlocked :: "memory_store \<Rightarrow> string \<Rightarrow> string \<Rightarrow> bool" where
  "IsUserBlocked s blockerID blockedID = gm_has (gm_list (s_userBlocks s) blockerID) blockedID"

definition CreateUserReport :: "memory_store \<Rightarrow> user_report \<Rightarrow> gotime \<Rightarrow> memory_store" where
  "CreateUserReport s report now =
     (let copy = (if ur_CreatedAt report = zero_time then report\<lparr>ur_CreatedAt := now\<rparr> else report)
      in s\<lparr>s_userReports := s_userReports s @ [copy]\<rparr>)"

definition GetUserReports :: "memory_store \<Rightarrow> int \<Rightarrow> user_report list" where
  "GetUserReports s limit =
     (let n = (if limit \<le> 0 \<or> limit > int (length (s_userReports s))
               then length (s_userReports s) else nat limit)
      in take n (rev (s_userReports s)))"

section \<open>The social invariant\<close>

text \<open>
  Friendship is symmetric and irreflexive; every friend request is filed under its own
  identifier, which carries a counter value already used.
\<close>

definition social_inv :: "memory_store \<Rightarrow> bool" where
  "social_inv s \<longleftrightarrow>
     (\<forall>u v. AreFriends s u v \<longrightarrow> AreFriends s v u \<and> u \<noteq> v)
     \<and> 0 \<le> s_friendReqCounter s \<and> s_friendReqCounter s \<le> max_int64
     \<and> (\<forall>k r. gm_get (s_friendRequests s) k = Some r \<longrightarrow> fr_ID r = k
          \<and> (\<exists>n. k = friend_request_id n \<and> n \<le> s_friendReqCounter s))"

lemma social_invD:
  assumes "social_inv s"
  shows "AreFriends s u v \<Longrightarrow> AreFriends s v u" "\<not> AreFriends s u u"
    "0 \<le> s_friendReqCounter s" "s_friendReqCounter s \<le> max_int64"
    "gm_get (s_friendRequests s) k = Some r \<Longrightarrow> fr_ID r = k"
    "gm_get (s_friendRequests s) k = Some r \<Longrightarrow> \<exists>n. k = friend_request_id n \<and> n \<le> s_friendReqCounter s"
  using assms unfolding social_inv_def by blast+

lemma friend_request_id_inject [simp]: "friend_request_id a = friend_request_id b \<longleftrightarrow> a = b"
  by (simp add: friend_request_id_def)

lemma gm_list_ensure [simp]: "gm_list (gm_ensure k m) k' = gm_list m k'"
  by (auto simp: gm_ensure_def gm_list_def gm_has_def)

lemma gm_has_del2 [simp]:
  "gm_has (gm_list (gm_del2 k l m) k') l' \<longleftrightarrow> gm_has (gm_list m k') l' \<and> \<not> (k' = k \<and> l' = l)"
  by (auto simp: gm_del2_def gm_list_def gm_has_def split: option.splits)

lemma AreFriends_AddFriend:
  "AreFriends (fst (AddFriend s u v now)) x y \<longleftrightarrow>
     AreFriends s x y \<or> (u \<noteq> [] \<and> v \<noteq> [] \<and> u \<noteq> v \<and> \<not> AreFriends s u v
       \<and> ((x = u \<and> y = v) \<or> (x = v \<and> y = u)))"
  by (auto simp: AddFriend_def AreFriends_def Let_def)

lemma AreFriends_RemoveFriend:
  "AreFriends (fst (RemoveFriend s u v)) x y \<longleftrightarrow>
     AreFriends s x y \<and> \<not> (AreFriends s u v \<and> ((x = u \<and> y = v) \<or> (x = v \<and> y = u)))"
  by (auto simp: RemoveFriend_def AreFriends_def)

lemma AddFriend_frame:
  "s_friendRequests (fst (AddFriend s u v now)) = s_friendRequests s"
  "s_friendReqCounter (fst (AddFriend s u v now)) = s_friendReqCounter s"
  by (simp_all add: AddFriend_def Let_def)

lemma RemoveFriend_frame:
  "s_friendRequests (fst (RemoveFriend s u v)) = s_friendRequests s"
  "s_friendReqCounter (fst (RemoveFriend s u v)) = s_friendReqCounter s"
  by (simp_all add: RemoveFriend_def)

lemma social_inv_init: "social_inv NewMemoryStore"
  by (simp add: social_inv_def NewMemoryStore_def AreFriends_def max_int64_def)

lemma social_inv_cong:
  "social_inv s \<Longrightarrow> s_friendships t = s_friendships s \<Longrightarrow> s_friendRequests t = s_friendRequests s \<Longrightarrow>
   s_friendReqCounter t = s_friendReqCounter s \<Longrightarrow> social_inv t"
  by (simp add: social_inv_def AreFriends_def)

lemma AddFriend_inv: "social_inv s \<Longrightarrow> social_inv (fst (AddFriend s u v now))"
  unfolding social_inv_def AreFriends_AddFriend AddFriend_frame by blast

lemma RemoveFriend_inv: "social_inv s \<Longrightarrow> social_inv (fst (RemoveFriend s u v))"
  unfolding social_inv_def AreFriends_RemoveFriend RemoveFriend_frame by blast

lemma CreateFriendRequest_inv:
  assumes "social_inv s" "s_friendReqCounter s < max_int64"
  shows "social_inv (fst (CreateFriendRequest s u v c now))"
proof -
  have w: "wrap64 (s_friendReqCounter s + 1) = s_friendReqCounter s + 1"
    using assms by (simp add: wrap64_succ social_invD)
  have old: "\<exists>n. k = friend_request_id n \<and> n \<le> s_friendReqCounter s + 1"
    if "gm_get (s_friendRequests s) k = Some r" for k r
    using social_invD(6) [OF assms(1) that] by auto
  show ?thesis
    using assms social_invD(5) [OF assms(1)] old
    unfolding social_inv_def CreateFriendRequest_def Let_def w by (auto simp: AreFriends_def)
qed

lemma HandleFriendRequest_inv: "social_inv s \<Longrightarrow> social_inv (fst (HandleFriendRequest s i a))"
  by (auto simp: social_inv_def HandleFriendRequest_def AreFriends_def split: option.splits)

lemma CreateFriendRequest_fresh:
  assumes "social_inv s" "s_friendReqCounter s < max_int64"
    and "CreateFriendRequest s u v c now = (s', r)"
  shows "GetFriendRequest s (fr_ID r) = None" "GetFriendRequest s' (fr_ID r) = Some r"
    "fr_Status r = ''pending''"
    "j \<noteq> fr_ID r \<Longrightarrow> GetFriendRequest s' j = GetFriendRequest s j"
proof -
  have w: "wrap64 (s_friendReqCounter s + 1) = s_friendReqCounter s + 1"
    using assms by (simp add: wrap64_succ social_invD)
  show "GetFriendRequest s (fr_ID r) = None"
  proof (rule ccontr)
    assume "GetFriendRequest s (fr_ID r) \<noteq> None"
    then obtain q where "gm_get (s_friendRequests s) (friend_request_id (s_friendReqCounter s + 1)) = Some q"
      using assms(3) by (auto simp: GetFriendRequest_def CreateFriendRequest_def Let_def w)
    from social_invD(6) [OF assms(1) this] show False by auto
  qed
  show "GetFriendRequest s' (fr_ID r) = Some r" "fr_Status r = ''pending''"
    "j \<noteq> fr_ID r \<Longrightarrow> GetFriendRequest s' j = GetFriendRequest s j"
    using assms(3) by (auto simp: GetFriendRequest_def CreateFriendRequest_def Let_def)
qed

text \<open>A request that left \<open>pending\<close> keeps its status: only the first decision takes effect.\<close>

fun decide_all :: "(string \<times> string) list \<Rightarrow> memory_store \<Rightarrow> memory_store \<times> bool list" where
  "decide_all [] s = (s, [])"
| "decide_all ((i, a) # ds) s =
     (case HandleFriendRequest s i a of (s1, b) \<Rightarrow>
        (case decide_all ds s1 of (s2, bs) \<Rightarrow> (s2, b # bs)))"

definition decided :: "memory_store \<Rightarrow> string \<Rightarrow> string \<Rightarrow> bool" where
  "decided s i a \<longleftrightarrow> (\<exists>r. GetFriendRequest s i = Some r \<and> fr_Status r = a) \<and> a \<noteq> ''pending''"

lemma decided_stays:
  "decided s i a \<Longrightarrow> decided (fst (HandleFriendRequest s j b)) i a"
  "decided s i a \<Longrightarrow> \<not> snd (HandleFriendRequest s i b)"
  by (auto simp: decided_def HandleFriendRequest_def GetFriendRequest_def split: option.splits)

lemma decide_all_stays:
  "decided s i a \<Longrightarrow> decided (fst (decide_all ds s)) i a
     \<and> (\<forall>n < length ds. fst (ds ! n) = i \<longrightarrow> \<not> snd (decide_all ds s) ! n)"
proof (induction ds s rule: decide_all.induct)
  case (2 j b ds s)
  obtain s1 v where h: "HandleFriendRequest s j b = (s1, v)" by fastforce
  have d1: "decided s1 i a" using decided_stays(1) [OF 2(2), of j b] h by simp
  have "j = i \<Longrightarrow> \<not> v" using decided_stays(2) [OF 2(2), of b] h by auto
  with 2(1) [OF h [symmetric] d1] h show ?case
    by (auto simp: nth_Cons' case_prod_beta)
qed auto

section \<open>Active titles\<close>

definition titles_inv :: "memory_store \<Rightarrow> gotime \<Rightarrow> bool" where
  "titles_inv s now \<longleftrightarrow> (\<forall>u. active_titles s u now \<le> 5)"

lemma length_filter_gm_set:
  "length (filter P (map snd (gm_set k v m))) \<le> length (filter P (map snd m)) + (if P v then 1 else 0)"
  by (induction m) auto

lemma length_filter_gm_del: "length (filter P (map snd (gm_del k m))) \<le> length (filter P (map snd m))"
  by (induction m) auto

lemma titleIsActive_mono: "titleIsActive t u now' \<Longrightarrow> now \<le> now' \<Longrightarrow> titleIsActive t u now"
  by (auto simp: titleIsActive_def split: option.splits)

lemma length_filter_imp: "(\<And>x. P x \<Longrightarrow> Q x) \<Longrightarrow> length (filter P xs) \<le> length (filter Q xs)"
  by (induction xs) auto

lemma active_titles_mono: "now \<le> now' \<Longrightarrow> active_titles s u now' \<le> active_titles s u now"
  unfolding active_titles_def by (rule length_filter_imp) (rule titleIsActive_mono)

lemma titles_inv_later: "titles_inv s now \<Longrightarrow> now \<le> now' \<Longrightarrow> titles_inv s now'"
  unfolding titles_inv_def using active_titles_mono order_trans by blast

lemma GrantUserTitle_inv:
  assumes "titles_inv s now0" "now0 \<le> now"
  shows "titles_inv (fst (GrantUserTitle s t now)) now"
proof (cases "5 \<le> active_titles s (ut_UserID t) now")
  case True
  then show ?thesis using titles_inv_later [OF assms] by (simp add: GrantUserTitle_def)
next
  case False
  define c where "c = (if ut_CreatedAt t = zero_time then t\<lparr>ut_CreatedAt := now\<rparr> else t)"
  have c: "ut_UserID c = ut_UserID t" by (simp add: c_def)
  have run: "s_userTitles (fst (GrantUserTitle s t now)) = gm_set (ut_ID c) c (s_userTitles s)"
    using False by (simp add: GrantUserTitle_def Let_def c_def)
  have "active_titles (fst (GrantUserTitle s t now)) u now \<le> 5" for u
  proof -
    have "active_titles (fst (GrantUserTitle s t now)) u now
        \<le> active_titles s u now + (if titleIsActive c u now then 1 else 0)"
      unfolding active_titles_def run by (rule length_filter_gm_set)
    moreover have "active_titles s u now \<le> 5"
      using titles_inv_later [OF assms] by (simp add: titles_inv_def)
    moreover have "titleIsActive c u now \<Longrightarrow> active_titles s u now < 5"
      using False c by (auto simp: titleIsActive_def)
    ultimately show ?thesis by (auto split: if_splits)
  qed
  then show ?thesis by (simp add: titles_inv_def)
qed

lemma DeleteUserTitle_inv:
  assumes "titles_inv s now"
  shows "titles_inv (fst (DeleteUserTitle s i)) now"
proof -
  have "active_titles (s\<lparr>s_userTitles := gm_del i (s_userTitles s)\<rparr>) u now \<le> active_titles s u now" for u
    using length_filter_gm_del [of "\<lambda>t. titleIsActive t u now"] by (simp add: active_titles_def)
  with assms show ?thesis unfolding titles_inv_def DeleteUserTitle_def
    by (auto intro: order_trans)
qed

interpretation title_order: strict_weak_order title_less
  by unfold_locales (auto simp: title_less_def)

lemma GetUserTitles_set:
  "gm_wf (s_userTitles s) \<Longrightarrow> t \<in> set (GetUserTitles s u g now) \<longleftrightarrow>
     (\<exists>i. gm_get (s_userTitles s) i = Some t) \<and> titleIsVisible t u g now"
  by (auto simp: GetUserTitles_def gm_get_mem [symmetric] image_iff) (metis snd_conv)

section \<open>Blocks\<close>

lemma IsUserBlocked_SetUserBlocked:
  "IsUserBlocked (SetUserBlocked s u v b now) x y \<longleftrightarrow>
     (if x = u \<and> y = v then b else IsUserBlocked s x y)"
  by (auto simp: IsUserBlocked_def SetUserBlocked_def)

lemma GetFriends_iff:
  assumes "gm_wf (gm_list (s_friendships s) u)"
  shows "x \<in> set (GetFriends s u) \<longleftrightarrow> (\<exists>v. AreFriends s u v \<and> GetUser s v = Some x)"
  using gm_get_mem [OF assms]
  by (auto simp: GetFriends_def AreFriends_def GetUser_def gm_has_def List.map_filter_def image_iff)

end
