(* ===== verification/Store_Accounts.thy ===== *)
theory Store_Accounts
  imports Store_Social
begin

text \<open>
  The account-level tables of \<open>MemoryStore\<close>: sessions (\<open>session.go\<close>), terminal sessions
  (\<open>terminal_sessions.go\<close>), terminal vaults (\<open>terminal_vault.go\<close>) with their revision check
  as a compare-and-set register, push subscriptions (\<open>push.go\<close>), media metadata, server
  statistics (\<open>stats.go\<close>), and the file registry \<open>MediaStore\<close> (\<open>media.go\<close>).
\<close>

section \<open>Account sessions\<close>

definition UpsertSession :: "memory_store \<Rightarrow> session \<Rightarrow> gotime \<Rightarrow> memory_store" where
  "UpsertSession s sess now =
     (let copy = (if ss_CreatedAt sess = zero_time then sess\<lparr>ss_CreatedAt := now\<rparr> else sess)
      in s\<lparr>s_sessions := gm_set (ss_TokenHash sess) copy (s_sessions s)\<rparr>)"

definition GetSession :: "memory_store \<Rightarrow> string \<Rightarrow> session option" where
  "GetSession s tokenHash = gm_get (s_sessions s) tokenHash"

definition DeleteSession :: "memory_store \<Rightarrow> string \<Rightarrow> memory_store" where
  "DeleteSession s tokenHash = s\<lparr>s_sessions := gm_del tokenHash (s_sessions s)\<rparr>"

definition DeleteSessionsForUser :: "memory_store \<Rightarrow> string \<Rightarrow> memory_store" where
  "DeleteSessionsForUser s userID =
     s\<lparr>s_sessions := filter (\<lambda>(tokenHash, sess). ss_UserID sess \<noteq> userID) (s_sessions s)\<rparr>"

section \<open>Terminal sessions\<close>

definition UpsertTerminalSession :: "memory_store \<Rightarrow> terminal_session \<Rightarrow> gotime \<Rightarrow> memory_store" where
  "UpsertTerminalSession s sess now =
     (let copy1 = (if ts_LoginAt sess = zero_time then sess\<lparr>ts_LoginAt := now\<rparr> else sess);
          copy2 = (if ts_LastSeenAt copy1 = zero_time
                   then copy1\<lparr>ts_LastSeenAt := ts_LoginAt copy1\<rparr> else copy1)
      in s\<lparr>s_terminalSessions := gm_set (ts_ID copy2) copy2 (s_terminalSessions s)\<rparr>)"

definition TouchTerminalSession :: "memory_store \<Rightarrow> string \<Rightarrow> gotime \<Rightarrow> memory_store" where
  "TouchTerminalSession s ident seenAt =
     (case gm_get (s_terminalSessions s) ident of
        None \<Rightarrow> s
      | Some sess \<Rightarrow>
          if ts_LastSeenAt sess < seenAt
          then s\<lparr>s_terminalSessions :=
                   gm_set ident (sess\<lparr>ts_LastSeenAt := seenAt\<rparr>) (s_terminalSessions s)\<rparr>
          else s)"

definition EndTerminalSession :: "memory_store \<Rightarrow> string \<Rightarrow> gotime \<Rightarrow> gotime \<Rightarrow> memory_store" where
  "EndTerminalSession s ident endedAt now =
     (case gm_get (s_terminalSessions s) ident of
        None \<Rightarrow> s
      | Some sess \<Rightarrow>
          (let e = (if endedAt = zero_time then now else endedAt)
           in s\<lparr>s_terminalSessions :=
                  gm_set ident (sess\<lparr>ts_Connected := False, ts_LastSeenAt := e, ts_LogoutAt := Some e\<rparr>)
                    (s_terminalSessions s)\<rparr>))"

definition terminal_recency :: "terminal_session \<Rightarrow> terminal_session \<Rightarrow> bool" where
  "terminal_recency x y \<longleftrightarrow> ts_LastSeenAt y < ts_LastSeenAt x"

definition GetRecentTerminalSessions :: "memory_store \<Rightarrow> int \<Rightarrow> terminal_session list" where
  "GetRecentTerminalSessions s limit =
     (let lim = (if limit \<le> 0 then 200 else limit)
      in truncate_limit lim (go_sort terminal_recency (map snd (s_terminalSessions s))))"

section \<open>Terminal vaults\<close>

definition GetTerminalVault :: "memory_store \<Rightarrow> string \<Rightarrow> terminal_vault option" where
  "GetTerminalVault s userID = gm_get (s_terminalVaults s) userID"

definition vault_revision :: "memory_store \<Rightarrow> string \<Rightarrow> int" where
  "vault_revision s userID =
     (case gm_get (s_terminalVaults s) userID of None \<Rightarrow> 0 | Some v \<Rightarrow> tv_Revision v)"

text \<open>On a conflict the source returns the current vault beside the error.\<close>

definition PutTerminalVault ::
  "memory_store \<Rightarrow> string \<Rightarrow> string \<Rightarrow> int \<Rightarrow> gotime
     \<Rightarrow> memory_store \<times> (terminal_vault option \<times> store_error + terminal_vault)" where
  "PutTerminalVault s userID payload expectedRevision now =
     (let currentRevision = vault_revision s userID in
      if currentRevision \<noteq> expectedRevision
      then (s, Inl (GetTerminalVault s userID, ErrTerminalVaultConflict))
      else
        (let vault = \<lparr> tv_UserID = userID, tv_Payload = payload,
                       tv_Revision = wrap64 (currentRevision + 1), tv_UpdatedAt = now \<rparr>
         in (s\<lparr>s_terminalVaults := gm_set userID vault (s_terminalVaults s)\<rparr>, Inr vault)))"

definition DeleteTerminalVault :: "memory_store \<Rightarrow> string \<Rightarrow> memory_store" where
  "DeleteTerminalVault s userID = s\<lparr>s_terminalVaults := gm_del userID (s_terminalVaults s)\<rparr>"

section \<open>Push subscriptions\<close>

definition UpsertPushSubscription :: "memory_store \<Rightarrow> push_subscription \<Rightarrow> gotime \<Rightarrow> memory_store" where
  "UpsertPushSubscription s sub now =
     (let byEndpoint = gm_list (s_pushSubscriptions s) (ps_UserID sub);
          createdAt = (case gm_get byEndpoint (ps_Endpoint sub) of
                         Some existing \<Rightarrow> ps_CreatedAt existing | None \<Rightarrow> now);
          copy = sub\<lparr>ps_CreatedAt := createdAt, ps_UpdatedAt := now\<rparr>
      in s\<lparr>s_pushSubscriptions := gm_set (ps_UserID sub)
             (gm_set (ps_Endpoint sub) copy byEndpoint) (s_pushSubscriptions s)\<rparr>)"

definition DeletePushSubscription :: "memory_store \<Rightarrow> string \<Rightarrow> string \<Rightarrow> memory_store" where
  "DeletePushSubscription s userID endpoint =
     (let byEndpoint = gm_del endpoint (gm_list (s_pushSubscriptions s) userID)
      in if byEndpoint = []
         then s\<lparr>s_pushSubscriptions := gm_del userID (s_pushSubscriptions s)\<rparr>
         else s\<lparr>s_pushSubscriptions := gm_set userID byEndpoint (s_pushSubscriptions s)\<rparr>)"

definition GetPushSubscriptions :: "memory_store \<Rightarrow> string \<Rightarrow> push_subscription list" where
  "GetPushSubscriptions s userID = map snd (gm_list (s_pushSubscriptions s) userID)"

section \<open>Media metadata\<close>

definition StoreMedia :: "memory_store \<Rightarrow> media_file \<Rightarrow> memory_store" where
  "StoreMedia s file = s\<lparr>s_mediaFiles := gm_set (mf_ID file) file (s_mediaFiles s)\<rparr>"

definition GetMedia :: "memory_store \<Rightarrow> string \<Rightarrow> media_file option" where
  "GetMedia s ident = gm_get (s_mediaFiles s) ident"

definition media_recency :: "media_file \<Rightarrow> media_file \<Rightarrow> bool" where
  "media_recency x y =
     (if mf_CreatedAt x = mf_CreatedAt y then mf_ID y < mf_ID x else mf_CreatedAt y < mf_CreatedAt x)"

definition GetMediaFiles :: "memory_store \<Rightarrow> int \<Rightarrow> media_file list" where
  "GetMediaFiles s limit = truncate_limit limit (go_sort media_recency (map snd (s_mediaFiles s)))"

definition DeleteMedia :: "memory_store \<Rightarrow> string \<Rightarrow> memory_store" where
  "DeleteMedia s ident = s\<lparr>s_mediaFiles := gm_del ident (s_mediaFiles s)\<rparr>"

section \<open>Server statistics\<close>

definition GetServerStats :: "memory_store \<Rightarrow> gotime \<Rightarrow> server_stats" where
  "GetServerStats s now =
     \<lparr> st_Users = length (s_users s),
       st_OnlineUsers = length (filter (\<lambda>(_, usr). u_Online usr) (s_users s)),
       st_Groups = length (s_groups s),
       st_Conversations = length (s_conversations s),
       st_Messages = sum_list (map (\<lambda>(_, as). length as) (s_messages s)),
       st_ActiveSessions = length (filter (\<lambda>(_, sess). now < ss_ExpiresAt sess) (s_sessions s)),
       st_MediaFiles = length (s_mediaFiles s),
       st_MediaBytes = wrap64 (sum_list (map (\<lambda>(_, f). mf_Size f) (s_mediaFiles s))),
       st_PushSubscriptions = sum_list (map (\<lambda>(_, subs). length subs) (s_pushSubscriptions s)) \<rparr>"

section \<open>\<open>MediaStore\<close>: the in-memory file registry of \<open>media.go\<close>\<close>

record media_store =
  ms_files :: "(string, media_file) gomap"
  ms_counter :: int
  ms_baseURL :: string

definition NewMediaStore :: "string \<Rightarrow> media_store" where
  "NewMediaStore baseURL = \<lparr> ms_files = [], ms_counter = 0, ms_baseURL = baseURL \<rparr>"

definition GetFileURL :: "media_store \<Rightarrow> string \<Rightarrow> string" where
  "GetFileURL s ident = ms_baseURL s @ ''/files/'' @ ident"

definition file_id :: "int \<Rightarrow> string" where
  "file_id n = ''file_'' @ show_int n"

definition StoreFile ::
  "media_store \<Rightarrow> string \<Rightarrow> string \<Rightarrow> string \<Rightarrow> string \<Rightarrow> string \<Rightarrow> gotime
     \<Rightarrow> media_store \<times> string \<times> string" where
  "StoreFile s fileName fileType mimeType data uploaderID now =
     (let counter = wrap64 (ms_counter s + 1);
          ident = file_id counter;
          url = ms_baseURL s @ ''/files/'' @ ident;
          file = \<lparr> mf_ID = ident, mf_FileName = fileName, mf_FileType = fileType,
                   mf_MimeType = mimeType, mf_Size = int (length data), mf_URL = url,
                   mf_ThumbnailURL = [], mf_Width = 0, mf_Height = 0, mf_UploaderID = uploaderID,
                   mf_CreatedAt = now \<rparr>
      in (s\<lparr>ms_counter := counter, ms_files := gm_set ident file (ms_files s)\<rparr>, ident, url))"

definition GetFile :: "media_store \<Rightarrow> string \<Rightarrow> media_file option" where
  "GetFile s ident = gm_get (ms_files s) ident"

definition DeleteFile :: "media_store \<Rightarrow> string \<Rightarrow> media_store \<times> bool" where
  "DeleteFile s ident =
     (if gm_has (ms_files s) ident then (s\<lparr>ms_files := gm_del ident (ms_files s)\<rparr>, True)
      else (s, False))"

definition GetFilesByUploader :: "media_store \<Rightarrow> string \<Rightarrow> media_file list" where
  "GetFilesByUploader s uploaderID =
     filter (\<lambda>f. mf_UploaderID f = uploaderID) (map snd (ms_files s))"

section \<open>Compare-and-set registers\<close>

text \<open>
  The contract of optimistic concurrency control: a write names the revision it replaces, and
  only a write that names the current one takes effect and moves the revision on by one.
\<close>

locale cas_register =
  fixes revision :: "'s \<Rightarrow> 'k \<Rightarrow> int"
    and put :: "'s \<Rightarrow> 'k \<Rightarrow> 'v \<Rightarrow> int \<Rightarrow> 's \<times> bool"
    and bound :: int
  assumes put_current: "revision s k = e \<Longrightarrow> 0 \<le> e \<Longrightarrow> e < bound \<Longrightarrow>
      snd (put s k v e) \<and> revision (fst (put s k v e)) k = e + 1"
    and put_stale: "revision s k \<noteq> e \<Longrightarrow> put s k v e = (s, False)"
    and put_other: "k' \<noteq> k \<Longrightarrow> revision (fst (put s k v e)) k' = revision s k'"
begin

text \<open>The expected revisions of the writes to one register that were accepted in a run.\<close>

fun accepted :: "('k \<times> 'v \<times> int) list \<Rightarrow> 's \<Rightarrow> 'k \<Rightarrow> int list" where
  "accepted [] s k = []"
| "accepted ((k', v, e) # ws) s k =
     (if k' = k \<and> snd (put s k' v e) then [e] else []) @ accepted ws (fst (put s k' v e)) k"

lemma accepted_chain:
  "0 \<le> revision s k \<Longrightarrow> revision s k + int (length ws) \<le> bound \<Longrightarrow>
   accepted ws s k = map (\<lambda>i. revision s k + int i) [0 ..< length (accepted ws s k)]"
proof (induction ws arbitrary: s)
  case (Cons w ws)
  obtain k' v e where w: "w = (k', v, e)" by (cases w)
  define t where "t = fst (put s k' v e)"
  show ?case
  proof (cases "k' = k \<and> revision s k = e")
    case True
    then have ok: "snd (put s k' v e)" "revision t k = revision s k + 1"
      using put_current [of s k e v] Cons.prems by (auto simp: t_def)
    define n where "n = length (accepted ws t k)"
    have "accepted ws t k = map (\<lambda>i. revision s k + 1 + int i) [0 ..< n]"
      using Cons.IH [of t] Cons.prems ok by (simp add: n_def)
    also have "\<dots> = map (\<lambda>i. revision s k + int i) [1 ..< Suc n]"
      by (simp add: map_Suc_upt [symmetric] del: upt_Suc)
    finally have "revision s k # accepted ws t k = map (\<lambda>i. revision s k + int i) [0 ..< Suc n]"
      by (simp add: upt_conv_Cons del: upt_Suc)
    moreover have "accepted (w # ws) s k = revision s k # accepted ws t k"
      using True ok(1) by (simp add: w t_def)
    ultimately show ?thesis by (simp add: n_def del: upt_Suc)
  next
    case False
    then have "accepted (w # ws) s k = accepted ws t k"
      using put_stale [of s k e v] by (auto simp: w t_def)
    moreover have "revision t k = revision s k"
    proof (cases "k' = k")
      case True
      with False show ?thesis using put_stale [of s k e v] by (simp add: t_def)
    next
      case False
      then show ?thesis using put_other [of k k' s v e] by (simp add: t_def)
    qed
    ultimately show ?thesis using Cons.IH [of t] Cons.prems by simp
  qed
qed simp

lemma accepted_distinct:
  "0 \<le> revision s k \<Longrightarrow> revision s k + int (length ws) \<le> bound \<Longrightarrow> distinct (accepted ws s k)"
  by (subst accepted_chain) (simp_all add: distinct_map inj_on_def)

end

definition vault_put :: "memory_store \<Rightarrow> string \<Rightarrow> string \<times> gotime \<Rightarrow> int \<Rightarrow> memory_store \<times> bool" where
  "vault_put s u p e =
     (case PutTerminalVault s u (fst p) e (snd p) of (t, r) \<Rightarrow> (t, \<not> isl r))"

interpretation vault: cas_register vault_revision vault_put max_int64
proof
  fix s :: memory_store and k :: string and e :: int and v :: "string \<times> gotime"
  assume "vault_revision s k = e" "0 \<le> e" "e < max_int64"
  then show "snd (vault_put s k v e) \<and> vault_revision (fst (vault_put s k v e)) k = e + 1"
    by (simp add: vault_put_def PutTerminalVault_def Let_def vault_revision_def wrap64_succ)
next
  fix s :: memory_store and k :: string and e :: int and v :: "string \<times> gotime"
  assume "vault_revision s k \<noteq> e"
  then show "vault_put s k v e = (s, False)" by (simp add: vault_put_def PutTerminalVault_def Let_def)
next
  fix k' k :: string and s :: memory_store and e :: int and v :: "string \<times> gotime"
  assume "k' \<noteq> k"
  then show "vault_revision (fst (vault_put s k v e)) k' = vault_revision s k'"
    by (simp add: vault_put_def PutTerminalVault_def Let_def vault_revision_def)
qed


section \<open>Recency orders\<close>

interpretation terminal_order: strict_weak_order terminal_recency
  by unfold_locales (auto simp: terminal_recency_def)

interpretation media_order: strict_weak_order media_recency
  by unfold_locales (auto simp: media_recency_def split: if_splits)

interpretation message_order: strict_weak_order message_recency
  by unfold_locales (auto simp: message_recency_def split: if_splits)

section \<open>Sessions and subscriptions\<close>

lemma GetSession_DeleteSessionsForUser:
  "gm_wf (s_sessions s) \<Longrightarrow> GetSession (DeleteSessionsForUser s u) h =
     (case GetSession s h of Some ss \<Rightarrow> if ss_UserID ss \<noteq> u then Some ss else None | None \<Rightarrow> None)"
  by (simp add: GetSession_def DeleteSessionsForUser_def gm_get_filter)

lemma GetSession_UpsertSession:
  "GetSession (UpsertSession s x now) h =
     (if h = ss_TokenHash x
      then Some (if ss_CreatedAt x = zero_time then x\<lparr>ss_CreatedAt := now\<rparr> else x) else GetSession s h)"
  by (simp add: GetSession_def UpsertSession_def Let_def)

lemma GetSession_DeleteSession:
  "GetSession (DeleteSession s t) h = (if h = t then None else GetSession s h)"
  by (simp add: GetSession_def DeleteSession_def)

text \<open>The outer map of subscriptions never holds an empty inner map.\<close>

definition push_inv :: "memory_store \<Rightarrow> bool" where
  "push_inv s \<longleftrightarrow> gm_wf (s_pushSubscriptions s)
     \<and> list_all (\<lambda>(u, m). m \<noteq> [] \<and> gm_wf m) (s_pushSubscriptions s)"

lemma gm_set_nonempty [simp]: "gm_set k v m \<noteq> []"
  by (induction m) auto

lemma push_inv_list: "push_inv s \<Longrightarrow> gm_wf (gm_list (s_pushSubscriptions s) u)"
  by (auto simp: push_inv_def gm_list_def list_all_iff dest!: map_of_SomeD split: option.splits)

lemma push_inv_init: "push_inv NewMemoryStore"
  by (simp add: push_inv_def NewMemoryStore_def)

lemma UpsertPushSubscription_inv: "push_inv s \<Longrightarrow> push_inv (UpsertPushSubscription s x now)"
  using push_inv_list [of s "ps_UserID x"]
  by (auto simp: push_inv_def UpsertPushSubscription_def Let_def intro!: list_all_gm_set)

lemma DeletePushSubscription_inv: "push_inv s \<Longrightarrow> push_inv (DeletePushSubscription s u e)"
  using push_inv_list [of s u]
  by (auto simp: push_inv_def DeletePushSubscription_def Let_def intro!: list_all_gm_set list_all_gm_del)

lemma push_roundtrip:
  "gm_get (gm_list (s_pushSubscriptions (UpsertPushSubscription s x now)) u) e =
     (if u = ps_UserID x \<and> e = ps_Endpoint x
      then Some (x\<lparr>ps_CreatedAt := (case gm_get (gm_list (s_pushSubscriptions s) u) e of
                     Some old \<Rightarrow> ps_CreatedAt old | None \<Rightarrow> now), ps_UpdatedAt := now\<rparr>)
      else gm_get (gm_list (s_pushSubscriptions s) u) e)"
  "gm_get (gm_list (s_pushSubscriptions (DeletePushSubscription s u' e')) u) e =
     (if u = u' \<and> e = e' then None else gm_get (gm_list (s_pushSubscriptions s) u) e)"
proof -
  show "gm_get (gm_list (s_pushSubscriptions (UpsertPushSubscription s x now)) u) e =
     (if u = ps_UserID x \<and> e = ps_Endpoint x
      then Some (x\<lparr>ps_CreatedAt := (case gm_get (gm_list (s_pushSubscriptions s) u) e of
                     Some old \<Rightarrow> ps_CreatedAt old | None \<Rightarrow> now), ps_UpdatedAt := now\<rparr>)
      else gm_get (gm_list (s_pushSubscriptions s) u) e)"
    by (simp add: UpsertPushSubscription_def Let_def)
  show "gm_get (gm_list (s_pushSubscriptions (DeletePushSubscription s u' e')) u) e =
     (if u = u' \<and> e = e' then None else gm_get (gm_list (s_pushSubscriptions s) u) e)"
  proof (cases "gm_del e' (gm_list (s_pushSubscriptions s) u') = []")
    case True
    have "gm_get (gm_list (s_pushSubscriptions s) u') e = None" if "e \<noteq> e'"
      using True gm_get_del [of e' "gm_list (s_pushSubscriptions s) u'" e] that by simp
    with True show ?thesis by (auto simp: DeletePushSubscription_def Let_def)
  qed (simp add: DeletePushSubscription_def Let_def)
qed

section \<open>The file registry\<close>

definition file_table_inv :: "media_store \<Rightarrow> bool" where
  "file_table_inv s \<longleftrightarrow> 0 \<le> ms_counter s \<and> ms_counter s \<le> max_int64
     \<and> (\<forall>k f. gm_get (ms_files s) k = Some f \<longrightarrow> mf_ID f = k \<and> mf_URL f = GetFileURL s k
          \<and> (\<exists>n. k = file_id n \<and> n \<le> ms_counter s))"

lemma file_id_inject [simp]: "file_id a = file_id b \<longleftrightarrow> a = b"
  by (simp add: file_id_def)

lemma file_table_inv_init: "file_table_inv (NewMediaStore b)"
  by (simp add: file_table_inv_def NewMediaStore_def max_int64_def)

lemma StoreFile_spec:
  assumes inv: "file_table_inv s" and room: "ms_counter s < max_int64"
    and run: "StoreFile s n t m d u now = (s', i, url)"
  shows "file_table_inv s'" "GetFile s i = None" "url = GetFileURL s' i"
    "\<exists>f. GetFile s' i = Some f \<and> mf_URL f = url \<and> mf_Size f = int (length d) \<and> mf_UploaderID f = u"
    "j \<noteq> i \<Longrightarrow> GetFile s' j = GetFile s j"
proof -
  have w: "wrap64 (ms_counter s + 1) = ms_counter s + 1"
    using inv room by (simp add: wrap64_succ file_table_inv_def)
  have new: "gm_get (ms_files s) (file_id (ms_counter s + 1)) = None"
  proof (rule ccontr)
    assume "gm_get (ms_files s) (file_id (ms_counter s + 1)) \<noteq> None"
    then obtain f where "gm_get (ms_files s) (file_id (ms_counter s + 1)) = Some f" by blast
    with inv obtain n where "file_id (ms_counter s + 1) = file_id n" "n \<le> ms_counter s"
      unfolding file_table_inv_def by blast
    then show False by simp
  qed
  have i: "i = file_id (ms_counter s + 1)" using run by (auto simp: StoreFile_def Let_def w)
  show "GetFile s i = None" using new by (simp add: GetFile_def i)
  show "url = GetFileURL s' i" "j \<noteq> i \<Longrightarrow> GetFile s' j = GetFile s j"
    "\<exists>f. GetFile s' i = Some f \<and> mf_URL f = url \<and> mf_Size f = int (length d) \<and> mf_UploaderID f = u"
    using run by (auto simp: StoreFile_def Let_def w GetFile_def GetFileURL_def)
  have old: "\<exists>n. k = file_id n \<and> n \<le> ms_counter s + 1" if "gm_get (ms_files s) k = Some f" for k f
  proof -
    have "\<exists>n. k = file_id n \<and> n \<le> ms_counter s" using inv that unfolding file_table_inv_def by blast
    then show ?thesis by auto
  qed
  have s': "ms_counter s' = ms_counter s + 1" "ms_baseURL s' = ms_baseURL s"
    using run by (auto simp: StoreFile_def Let_def w)
  have "mf_ID f = k \<and> mf_URL f = GetFileURL s' k \<and> (\<exists>n. k = file_id n \<and> n \<le> ms_counter s + 1)"
    if "gm_get (ms_files s') k = Some f" for k f
  proof (cases "k = i")
    case True
    with that run show ?thesis by (auto simp: StoreFile_def Let_def w GetFileURL_def)
  next
    case False
    with that run have k: "gm_get (ms_files s) k = Some f" by (auto simp: StoreFile_def Let_def w)
    with inv have "mf_ID f = k \<and> mf_URL f = GetFileURL s k" unfolding file_table_inv_def by blast
    with old [OF k] s'(2) show ?thesis by (simp add: GetFileURL_def)
  qed
  then show "file_table_inv s'" using inv room s'(1) by (simp add: file_table_inv_def)
qed

lemma DeleteFile_inv: "file_table_inv s \<Longrightarrow> file_table_inv (fst (DeleteFile s i))"
  by (simp add: file_table_inv_def DeleteFile_def GetFileURL_def)

end
