(* ===== verification/Store_Deletion.thy ===== *)
theory Store_Deletion
  imports Interaction_Ledger
begin

text \<open>
  What \<open>DeleteMessage\<close> (\<open>memory.go\<close>) leaves behind: the message's copy, its replay records, its
  reactions and its interaction events all go, and every other message stays.
\<close>

section \<open>Deleting a message\<close>

text \<open>Nothing of a deleted message is left: no copy, no replay record, no reaction, no event.\<close>

definition forgotten :: "memory_store \<Rightarrow> string \<Rightarrow> bool" where
  "forgotten s i \<longleftrightarrow>
     findMessageLocked s i = None
     \<and> (\<forall>k r. gm_get (s_messageIdempotency s) k = Some r \<longrightarrow> m_ID (deref s (mi_message r)) \<noteq> i)
     \<and> (\<forall>k r. gm_get (s_dynamicUpdateIdempotency s) k = Some r \<longrightarrow> du_messageID r \<noteq> i)
     \<and> gm_get (s_messageReactions s) i = None
     \<and> gm_get (s_dynamicInteractionEvents s) i = None
     \<and> (\<forall>k r. gm_get (s_dynamicInteractionByID s) k = Some r \<longrightarrow> di_MessageID (dr_event r) \<noteq> i)"

text \<open>The state after the message is unlinked from its conversation's slice.\<close>

definition unlinked :: "memory_store \<Rightarrow> string \<Rightarrow> string \<Rightarrow> memory_store" where
  "unlinked s c i =
     s\<lparr>s_messages := gm_set c (remove_first (\<lambda>x. m_ID (deref s x) = i) (gm_list (s_messages s) c))
         (s_messages s),
       s_messageReactions := gm_del i (s_messageReactions s)\<rparr>"

lemma DeleteMessage_found:
  assumes inv: "msg_inv s" and a: "findMessageLocked s i = Some a"
  defines "c \<equiv> m_ConversationID (deref s a)"
  shows "DeleteMessage s i =
    (deleteMessageIdempotencyLocked (deleteDynamicInteractionEventsLocked (unlinked s c i) i) i, True)"
proof -
  have live: "a \<in> set (live_addrs s)" "m_ID (deref s a) = i" using findMessage_iff [OF inv] a by auto
  then obtain d where d: "a \<in> set (gm_list (s_messages s) d)" using live_iff [OF msg_invD(1) [OF inv]] by blast
  then have dc: "d = c" using msg_invD(8) [OF inv] by (simp add: c_def deref_def)
  have "List.find (\<lambda>(c, as). list_ex (\<lambda>a. m_ID (deref s a) = i) as) (s_messages s)
      = Some (c, gm_list (s_messages s) c)"
  proof (rule find_Some_unique)
    show "(c, gm_list (s_messages s) c) \<in> set (s_messages s)"
      using d dc by (cases "gm_get (s_messages s) c") (auto simp: gm_list_def dest: map_of_SomeD)
    show "case (c, gm_list (s_messages s) c) of (c, as) \<Rightarrow> list_ex (\<lambda>a. m_ID (deref s a) = i) as"
      using d dc live by (auto simp: list_ex_iff)
    fix y
    assume y: "y \<in> set (s_messages s)" "case y of (c, as) \<Rightarrow> list_ex (\<lambda>a. m_ID (deref s a) = i) as"
    obtain e bs where yb: "y = (e, bs)" by fastforce
    with y have bs: "bs = gm_list (s_messages s) e" using msg_invD(1) [OF inv] by (simp add: gm_list_mem)
    from y yb obtain b where b: "b \<in> set bs" "m_ID (deref s b) = i" by (auto simp: list_ex_iff)
    then have "b = a"
      using heap_id_inject [OF inv] msg_invD(7) [OF inv] bs d live by metis
    then have "e = c" using b bs msg_invD(8) [OF inv] by (simp add: c_def deref_def)
    with bs yb show "y = (c, gm_list (s_messages s) c)" by simp
  qed
  then show ?thesis by (simp add: DeleteMessage_def Let_def unlinked_def)
qed

lemma DeleteMessage_missing: "findMessageLocked s i = None \<Longrightarrow> DeleteMessage s i = (s, False)"
proof -
  assume "findMessageLocked s i = None"
  then have "List.find (\<lambda>(c, as). list_ex (\<lambda>a. m_ID (deref s a) = i) as) (s_messages s) = None"
    unfolding findMessage_None by (auto simp: find_None_iff list_ex_iff live_addrs_def)
  then show ?thesis by (simp add: DeleteMessage_def)
qed

lemma unlinked_list:
  assumes inv: "msg_inv s"
  shows "b \<in> set (gm_list (s_messages (unlinked s c i)) d)
     \<longleftrightarrow> b \<in> set (gm_list (s_messages s) d) \<and> \<not> (d = c \<and> m_ID (deref s b) = i)"
proof -
  have "set (remove_first (\<lambda>x. m_ID (deref s x) = i) (gm_list (s_messages s) c))
      = {x \<in> set (gm_list (s_messages s) c). m_ID (deref s x) \<noteq> i}"
  proof (rule set_remove_first)
    show "distinct (gm_list (s_messages s) c)"
      using msg_invD(9) [OF inv, of c] by (simp add: strict_sorted_iff)
    show "x = y" if "x \<in> set (gm_list (s_messages s) c)" "y \<in> set (gm_list (s_messages s) c)"
      "m_ID (deref s x) = i" "m_ID (deref s y) = i" for x y
      using that heap_id_inject [OF inv] msg_invD(7) [OF inv] by metis
  qed
  then show ?thesis by (auto simp: unlinked_def)
qed

lemma unlinked_live:
  assumes inv: "msg_inv s" and a: "findMessageLocked s i = Some a" and c: "c = m_ConversationID (deref s a)"
  shows "b \<in> set (live_addrs (unlinked s c i)) \<longleftrightarrow> b \<in> set (live_addrs s) \<and> m_ID (deref s b) \<noteq> i"
proof -
  have wf: "gm_wf (s_messages (unlinked s c i))" using msg_invD(1) [OF inv] by (simp add: unlinked_def)
  have "d = c" if "b \<in> set (gm_list (s_messages s) d)" "m_ID (deref s b) = i" for d
  proof -
    have "b = a"
      using that a findMessage_iff [OF inv] live_in_heap [OF inv] heap_id_inject [OF inv] msg_invD(7) [OF inv]
      by metis
    with that c show ?thesis using msg_invD(8) [OF inv] by (simp add: deref_def)
  qed
  then show ?thesis
    unfolding live_iff [OF wf] live_iff [OF msg_invD(1) [OF inv]] unlinked_list [OF inv] by blast
qed

text \<open>The tables a deletion touches, one by one.\<close>

lemma delete_tables:
  defines "t s i \<equiv> deleteMessageIdempotencyLocked (deleteDynamicInteractionEventsLocked s i) i"
  shows "s_heap (t s i) = s_heap s" "deref (t s i) = deref s" "s_messages (t s i) = s_messages s"
    "s_messageReactions (t s i) = s_messageReactions s"
    "s_dynamicInteractionEvents (t s i) = gm_del i (s_dynamicInteractionEvents s)"
    "ledger_inv s \<Longrightarrow> ledger_inv (t s i)"
    "gm_wf (s_messageIdempotency s) \<Longrightarrow> gm_get (s_messageIdempotency (t s i)) k = Some r \<Longrightarrow>
       m_ID (deref s (mi_message r)) \<noteq> i"
    "gm_wf (s_dynamicUpdateIdempotency s) \<Longrightarrow> gm_get (s_dynamicUpdateIdempotency (t s i)) k' = Some r' \<Longrightarrow>
       du_messageID r' \<noteq> i"
  unfolding t_def
         apply (simp_all add: deleteMessageIdempotencyLocked_def deleteDynamicInteractionEventsLocked_def deref_def fun_eq_iff)
    apply (drule deleteDynamicInteractionEvents_ledger_inv [of _ i], erule ledger_inv_cong;
      simp add: deleteDynamicInteractionEventsLocked_def)
   apply (auto simp: gm_get_filter split: option.splits if_splits)
  done

lemma DeleteMessage_forgets:
  assumes inv: "msg_inv s" and led: "ledger_inv s" and del: "DeleteMessage s i = (s', True)"
  shows "forgotten s' i"
    and "j \<noteq> i \<Longrightarrow> findMessageLocked s' j = findMessageLocked s j"
    and "s_heap s' = s_heap s"
proof -
  obtain a where a: "findMessageLocked s i = Some a"
    using del DeleteMessage_missing [of s i] by (cases "findMessageLocked s i") auto
  define u where "u = unlinked s (m_ConversationID (deref s a)) i"
  have s': "s' = deleteMessageIdempotencyLocked (deleteDynamicInteractionEventsLocked u i) i"
    using DeleteMessage_found [OF inv a] del by (simp add: u_def)
  have u: "s_heap u = s_heap s" "deref u = deref s" "ledger_inv u" "gm_wf (s_messageIdempotency u)"
    "gm_wf (s_dynamicUpdateIdempotency u)" "gm_get (s_messageReactions u) i = None"
    using msg_invD(2,3) [OF inv] ledger_inv_cong [OF led, of u]
    by (simp_all add: u_def unlinked_def deref_def fun_eq_iff)
  have inv': "msg_inv s'" using DeleteMessage_inv [OF inv, of i] del by simp
  have live: "b \<in> set (live_addrs s') \<longleftrightarrow> b \<in> set (live_addrs s) \<and> m_ID (deref s b) \<noteq> i" for b
    using unlinked_live [OF inv a refl] by (simp add: s' live_addrs_def delete_tables(3) u_def)
  have deref': "deref s' = deref s" by (simp add: s' delete_tables(2) u)
  show "s_heap s' = s_heap s" by (simp add: s' delete_tables(1) u)
  show "j \<noteq> i \<Longrightarrow> findMessageLocked s' j = findMessageLocked s j"
  proof -
    assume j: "j \<noteq> i"
    have "findMessageLocked s' j = Some b \<longleftrightarrow> findMessageLocked s j = Some b" for b
      using j live by (auto simp: findMessage_iff [OF inv] findMessage_iff [OF inv'] deref')
    then show ?thesis by (metis not_None_eq)
  qed
  have led': "ledger_inv s'" unfolding s' by (rule delete_tables(6) [OF u(3)])
  have "di_MessageID (dr_event r) \<noteq> i" if k: "gm_get (s_dynamicInteractionByID s') k = Some r" for k r
  proof
    assume "di_MessageID (dr_event r) = i"
    with ledger_invD(1) [OF led' k] have "dr_event r \<in> set (ledger_events s' i)" by simp
    then show False by (simp add: ledger_events_def s' delete_tables(5))
  qed
  then show "forgotten s' i"
    unfolding forgotten_def findMessage_None
    using live deref' u delete_tables(7) [OF u(4)] delete_tables(8) [OF u(5)]
    by (simp add: s' delete_tables(4,5))
qed

end
