(* ===== verification/Store_System.thy ===== *)
theory Store_System
  imports Store_Accounts Store_Deletion
begin

text \<open>
  The whole \<open>MemoryStore\<close> as a transition system driven by interleaved requests, and the
  invariant every reachable store satisfies.
\<close>

section \<open>The store as a transition system\<close>

text \<open>
  One rule per operation that changes the store; every method holds the mutex for its whole
  body, so requests interleave as whole operations. The three counters are 64-bit; a step that
  would wrap one of them (after 2^63 - 1 messages, announcements or friend requests) is left out.
\<close>

inductive store_step :: "memory_store \<Rightarrow> memory_store \<Rightarrow> bool" where
  set_user: "store_step s (SetUser s usr)"
| set_user_online: "store_step s (SetUserOnline s i b)"
| get_or_create_conversation: "store_step s (fst (GetOrCreateConversation s i ty ti now))"
| save_conversation: "store_step s (SaveConversation s c)"
| set_preference: "store_step s (SetConversationPreference s p now)"
| store_message: "s_msgCounter s < max_int64 \<Longrightarrow>
    store_step s (fst (StoreMessageIdempotent H s c u n k segs now))"
| update_segments: "store_step s (fst (UpdateMessageSegments s i segs))"
| append_event: "store_step s (fst (AppendDynamicInteractionEvent HE s e now))"
| commit_event: "store_step s (fst (CommitDynamicInteractionEvent HE s e segs now))"
| dynamic_update: "store_step s (fst (StoreDynamicUpdateIdempotent s u k f i segs))"
| delete_message: "store_step s (fst (DeleteMessage s i))"
| delete_conversation: "store_step s (DeleteConversation s i)"
| react: "store_step s (fst (ReactToMessage s i u e rm))"
| recall: "store_step s (fst (RecallMessage s i))"
| mark_read: "store_step s (fst (MarkConversationRead s c u now))"
| create_group: "store_step s (fst (CreateGroup s i n a u now1 now2))"
| update_group: "store_step s (fst (UpdateGroup s i n a ann mute))"
| set_member_role: "store_step s (fst (SetGroupMemberRole s i u role))"
| set_member_mute: "store_step s (fst (SetGroupMemberMute s i u t))"
| transfer_ownership: "store_step s (fst (TransferGroupOwnership s i u v))"
| delete_group: "store_step s (fst (DeleteGroup s i))"
| add_member: "store_step s (fst (AddGroupMember s i u now))"
| remove_member: "store_step s (fst (RemoveGroupMember s i u))"
| create_announcement: "s_announcementCounter s < max_int64 \<Longrightarrow>
    store_step s (fst (CreateGroupAnnouncement s g content u p now))"
| update_announcement: "store_step s (fst (UpdateGroupAnnouncement s i content p now))"
| delete_announcement: "store_step s (fst (DeleteGroupAnnouncement s i))"
| read_announcement: "store_step s (fst (MarkGroupAnnouncementRead s i u))"
| add_friend: "store_step s (fst (AddFriend s u v now))"
| remove_friend: "store_step s (fst (RemoveFriend s u v))"
| create_friend_request: "s_friendReqCounter s < max_int64 \<Longrightarrow>
    store_step s (fst (CreateFriendRequest s u v content now))"
| handle_friend_request: "store_step s (fst (HandleFriendRequest s i a))"
| store_forward: "store_step s (fst (StoreForward s c ms now1 now2))"
| grant_title: "store_step s (fst (GrantUserTitle s title now))"
| delete_title: "store_step s (fst (DeleteUserTitle s i))"
| set_blocked: "store_step s (SetUserBlocked s u v b now)"
| create_report: "store_step s (CreateUserReport s r now)"
| upsert_session: "store_step s (UpsertSession s ss now)"
| delete_session: "store_step s (DeleteSession s h)"
| delete_sessions: "store_step s (DeleteSessionsForUser s u)"
| upsert_terminal: "store_step s (UpsertTerminalSession s ts now)"
| touch_terminal: "store_step s (TouchTerminalSession s i t)"
| end_terminal: "store_step s (EndTerminalSession s i t now)"
| put_vault: "store_step s (fst (PutTerminalVault s u content rv now))"
| delete_vault: "store_step s (DeleteTerminalVault s u)"
| upsert_push: "store_step s (UpsertPushSubscription s ps now)"
| delete_push: "store_step s (DeletePushSubscription s u ep)"
| store_media: "store_step s (StoreMedia s f)"
| delete_media: "store_step s (DeleteMedia s i)"

text \<open>Members of a group are distinct whatever the callers do.\<close>

definition members_inv :: "memory_store \<Rightarrow> bool" where
  "members_inv s \<longleftrightarrow> gm_wf (s_groups s)
     \<and> list_all (\<lambda>(k, grp). g_ID grp = k \<and> distinct (map mb_UserID (g_Members grp))) (s_groups s)"

definition store_inv :: "memory_store \<Rightarrow> bool" where
  "store_inv s \<longleftrightarrow> msg_inv s \<and> ledger_inv s \<and> reaction_inv s \<and> members_inv s
     \<and> announcement_inv s \<and> social_inv s \<and> push_inv s"

lemma store_invD:
  assumes "store_inv s"
  shows "msg_inv s" "ledger_inv s" "reaction_inv s" "members_inv s" "announcement_inv s"
    "social_inv s" "push_inv s"
  using assms by (simp_all add: store_inv_def)

text \<open>The fields the invariant reads, in its seven parts.\<close>

definition msg_part where
  "msg_part s = (s_heap s, s_messages s, s_messageIdempotency s, s_dynamicUpdateIdempotency s, s_msgCounter s)"
definition ledger_part where
  "ledger_part s = (s_dynamicInteractionByID s, s_dynamicInteractionEvents s)"
definition announcement_part where
  "announcement_part s = (s_groupAnnouncements s, s_announcementReads s, s_announcementCounter s)"
definition social_part where
  "social_part s = (s_friendships s, s_friendRequests s, s_friendReqCounter s)"

lemmas part_defs = msg_part_def ledger_part_def announcement_part_def social_part_def

lemma part_cong:
  "msg_inv s \<Longrightarrow> msg_part t = msg_part s \<Longrightarrow> msg_inv t"
  "ledger_inv s \<Longrightarrow> ledger_part t = ledger_part s \<Longrightarrow> ledger_inv t"
  "announcement_inv s \<Longrightarrow> announcement_part t = announcement_part s \<Longrightarrow> announcement_inv t"
  "social_inv s \<Longrightarrow> social_part t = social_part s \<Longrightarrow> social_inv t"
  "reaction_inv s \<Longrightarrow> s_messageReactions t = s_messageReactions s \<Longrightarrow> reaction_inv t"
  "members_inv s \<Longrightarrow> s_groups t = s_groups s \<Longrightarrow> members_inv t"
  "push_inv s \<Longrightarrow> s_pushSubscriptions t = s_pushSubscriptions s \<Longrightarrow> push_inv t"
proof -
  show "msg_inv s \<Longrightarrow> msg_part t = msg_part s \<Longrightarrow> msg_inv t"
    by (erule msg_inv_cong) (simp_all add: msg_part_def)
  show "ledger_inv s \<Longrightarrow> ledger_part t = ledger_part s \<Longrightarrow> ledger_inv t"
    by (erule ledger_inv_cong) (simp_all add: ledger_part_def)
  show "announcement_inv s \<Longrightarrow> announcement_part t = announcement_part s \<Longrightarrow> announcement_inv t"
    by (erule announcement_inv_cong) (simp_all add: announcement_part_def)
  show "social_inv s \<Longrightarrow> social_part t = social_part s \<Longrightarrow> social_inv t"
    by (erule social_inv_cong) (simp_all add: social_part_def)
  show "reaction_inv s \<Longrightarrow> s_messageReactions t = s_messageReactions s \<Longrightarrow> reaction_inv t"
    unfolding reaction_inv_def by metis
qed (simp_all only: members_inv_def push_inv_def)

text \<open>
  Each operation touches one part; the named part has its own lemma, and the others are equal
  fields.
\<close>

lemma store_inv_frame:
  assumes "store_inv s"
    and "msg_inv t \<or> msg_part t = msg_part s" "ledger_inv t \<or> ledger_part t = ledger_part s"
    and "reaction_inv t \<or> s_messageReactions t = s_messageReactions s"
    and "members_inv t \<or> s_groups t = s_groups s"
    and "announcement_inv t \<or> announcement_part t = announcement_part s"
    and "social_inv t \<or> social_part t = social_part s"
    and "push_inv t \<or> s_pushSubscriptions t = s_pushSubscriptions s"
  shows "store_inv t"
  using assms(2-) store_invD [OF assms(1)] part_cong unfolding store_inv_def by metis

lemma store_inv_untouched:
  assumes "store_inv s" "msg_part t = msg_part s" "ledger_part t = ledger_part s"
    "s_messageReactions t = s_messageReactions s" "s_groups t = s_groups s"
    "announcement_part t = announcement_part s" "social_part t = social_part s"
    "s_pushSubscriptions t = s_pushSubscriptions s"
  shows "store_inv t"
  using assms by (intro store_inv_frame [OF assms(1)]) simp_all

lemma plain_ops_inv:
  assumes "store_inv s"
  shows "store_inv (SetUser s usr)" "store_inv (SetUserOnline s i b)"
    "store_inv (fst (GetOrCreateConversation s i ty ti now))" "store_inv (SaveConversation s c)"
    "store_inv (SetConversationPreference s p now)" "store_inv (fst (MarkConversationRead s i u now))"
    "store_inv (fst (StoreForward s i ms now now2))" "store_inv (fst (GrantUserTitle s title now))"
    "store_inv (fst (DeleteUserTitle s i))" "store_inv (SetUserBlocked s u v b now)"
    "store_inv (CreateUserReport s r now)" "store_inv (UpsertSession s ss now)"
    "store_inv (DeleteSession s h)" "store_inv (DeleteSessionsForUser s u)"
    "store_inv (UpsertTerminalSession s ts now)" "store_inv (TouchTerminalSession s i t)"
    "store_inv (EndTerminalSession s i t now)" "store_inv (fst (PutTerminalVault s u content rv now))"
    "store_inv (DeleteTerminalVault s u)" "store_inv (StoreMedia s f)" "store_inv (DeleteMedia s i)"
  by (rule store_inv_untouched [OF assms];
      simp add: part_defs memory_store_defs MarkConversationRead_def StoreForward_def GrantUserTitle_def
        DeleteUserTitle_def SetUserBlocked_def CreateUserReport_def UpsertSession_def DeleteSession_def
        DeleteSessionsForUser_def UpsertTerminalSession_def TouchTerminalSession_def
        EndTerminalSession_def PutTerminalVault_def DeleteTerminalVault_def StoreMedia_def DeleteMedia_def
        Let_def split: option.splits)+


section \<open>Message operations\<close>

lemma frame_StoreMessage:
  fixes H s c u n k segs now
  defines "t \<equiv> fst (StoreMessageIdempotent H s c u n k segs now)"
  shows "ledger_part t = ledger_part s" "s_messageReactions t = s_messageReactions s"
    "s_groups t = s_groups s" "announcement_part t = announcement_part s"
    "social_part t = social_part s" "s_pushSubscriptions t = s_pushSubscriptions s"
  by (simp_all add: t_def StoreMessageIdempotent_def Let_def part_defs split: option.splits)

lemma StoreMessage_store_inv:
  assumes "store_inv s" "s_msgCounter s < max_int64"
  shows "store_inv (fst (StoreMessageIdempotent H s c u n k segs now))"
proof -
  have "msg_inv (fst (StoreMessageIdempotent H s c u n k segs now))"
    using StoreMessageIdempotent_inv [OF store_invD(1) [OF assms(1)] assms(2)] by (metis prod.collapse)
  then show ?thesis by (intro store_inv_frame [OF assms(1)]) (simp_all add: frame_StoreMessage)
qed

lemma frame_updateSegments:
  fixes s i segs
  defines "t \<equiv> fst (updateMessageSegmentsLocked s i segs)"
  shows "ledger_part t = ledger_part s" "s_messageReactions t = s_messageReactions s"
    "s_groups t = s_groups s" "announcement_part t = announcement_part s"
    "social_part t = social_part s" "s_pushSubscriptions t = s_pushSubscriptions s"
  by (simp_all add: t_def updateMessageSegmentsLocked_def put_msg_def Let_def part_defs split: option.splits)

lemma updateSegments_store_inv:
  assumes "store_inv s"
  shows "store_inv (fst (updateMessageSegmentsLocked s i segs))"
  by (rule store_inv_frame [OF assms])
    (simp_all add: frame_updateSegments updateMessageSegments_inv store_invD [OF assms])

lemma Recall_store_inv:
  assumes "store_inv s"
  shows "store_inv (fst (RecallMessage s i))"
  using RecallMessage_inv [OF store_invD(1) [OF assms], of i]
  by (intro store_inv_frame [OF assms])
    (simp_all, simp_all add: RecallMessage_def put_msg_def part_defs split: option.splits)

lemma record_event_store_inv:
  assumes "store_inv s" "gm_get (s_dynamicInteractionByID s) (ledger_key e) = None"
  shows "store_inv (record_event s (ledger_key e) f e now)"
  using record_event_ledger_inv [OF store_invD(2) [OF assms(1)] assms(2)]
  by (intro store_inv_frame [OF assms(1)]) (simp_all add: record_event_def Let_def part_defs)

lemma Append_store_inv: "store_inv s \<Longrightarrow> store_inv (fst (AppendDynamicInteractionEvent H s e now))"
  by (auto simp: AppendDynamicInteractionEvent_def Let_def ledger_key_def [symmetric]
      intro: record_event_store_inv split: option.splits)

lemma Commit_store_inv: "store_inv s \<Longrightarrow> store_inv (fst (CommitDynamicInteractionEvent H s e segs now))"
  by (auto simp: CommitDynamicInteractionEvent_def Let_def ledger_key_def [symmetric]
      intro!: record_event_store_inv updateSegments_store_inv split: option.splits)

lemma DynamicUpdate_store_inv:
  assumes "store_inv s"
  shows "store_inv (fst (StoreDynamicUpdateIdempotent s u k f i segs))"
proof -
  obtain s1 r where u: "updateMessageSegmentsLocked s i segs = (s1, r)" by fastforce
  have fr: "ledger_part s1 = ledger_part s" "s_messageReactions s1 = s_messageReactions s"
    "s_groups s1 = s_groups s" "announcement_part s1 = announcement_part s"
    "social_part s1 = social_part s" "s_pushSubscriptions s1 = s_pushSubscriptions s"
    using frame_updateSegments [of s i segs] by (simp_all add: u)
  show ?thesis
    by (rule store_inv_frame [OF assms])
      (simp_all add: StoreDynamicUpdateIdempotent_inv store_invD [OF assms],
       use fr in \<open>simp_all add: StoreDynamicUpdateIdempotent_def Let_def u ledger_part_def
         announcement_part_def social_part_def split: option.splits\<close>)
qed

lemma React_store_inv:
  assumes "store_inv s"
  shows "store_inv (fst (ReactToMessage s i u e rm))"
proof -
  have "reaction_inv (fst (ReactToMessage s i u e rm))"
  proof (cases "findMessageLocked s i")
    case (Some a)
    show ?thesis
    proof (cases "m_Recalled (deref s a)")
      case False
      from ReactToMessage_state(3) [OF Some False prod.collapse [symmetric]] store_invD(3) [OF assms]
      show ?thesis by blast
    qed (use Some store_invD(3) [OF assms] in \<open>simp add: ReactToMessage_def\<close>)
  qed (use store_invD(3) [OF assms] in \<open>simp add: ReactToMessage_def\<close>)
  then show ?thesis
    by (intro store_inv_frame [OF assms])
      (simp_all add: ReactToMessage_def Let_def part_defs split: option.splits)
qed

lemma reaction_inv_del:
  assumes "reaction_inv s" "s_messageReactions t = gm_del i (s_messageReactions s)"
  shows "reaction_inv t"
  unfolding reaction_inv_def assms(2)
proof (intro allI conjI impI)
  fix j
  show "gm_wf (gm_list (gm_del i (s_messageReactions s)) j)"
    using reaction_invD(1) [OF assms(1)] by simp
  fix e us
  assume "gm_get (gm_list (gm_del i (s_messageReactions s)) j) e = Some us"
  then have "gm_get (gm_list (s_messageReactions s) j) e = Some us" by (simp split: if_splits)
  from reaction_invD(2) [OF assms(1) this] show "us \<noteq> []" "distinct us" by simp_all
qed

lemma delete_locked_reactions [simp]:
  "s_messageReactions (deleteMessageIdempotencyLocked s i) = s_messageReactions s"
  "s_messageReactions (deleteDynamicInteractionEventsLocked s i) = s_messageReactions s"
  by (simp_all add: deleteMessageIdempotencyLocked_def deleteDynamicInteractionEventsLocked_def)

lemma delete_locked_frame [simp]:
  "s_groups (deleteMessageIdempotencyLocked s i) = s_groups s"
  "s_groups (deleteDynamicInteractionEventsLocked s i) = s_groups s"
  "announcement_part (deleteMessageIdempotencyLocked s i) = announcement_part s"
  "announcement_part (deleteDynamicInteractionEventsLocked s i) = announcement_part s"
  "social_part (deleteMessageIdempotencyLocked s i) = social_part s"
  "social_part (deleteDynamicInteractionEventsLocked s i) = social_part s"
  "s_pushSubscriptions (deleteMessageIdempotencyLocked s i) = s_pushSubscriptions s"
  "s_pushSubscriptions (deleteDynamicInteractionEventsLocked s i) = s_pushSubscriptions s"
  "ledger_part (deleteMessageIdempotencyLocked s i) = ledger_part s"
  by (simp_all add: deleteMessageIdempotencyLocked_def deleteDynamicInteractionEventsLocked_def part_defs)

lemma purge_store_inv:
  assumes "store_inv s"
  shows "store_inv (purge_message s i)"
proof -
  have led: "ledger_inv (purge_message s i)"
    unfolding purge_message_def
    by (intro deleteDynamicInteractionEvents_ledger_inv part_cong(2) [OF store_invD(2) [OF assms]])
      (simp add: ledger_part_def deleteMessageIdempotencyLocked_def)
  show ?thesis
    using led reaction_inv_del [OF store_invD(3) [OF assms], of "purge_message s i" i]
      purge_message_inv [OF store_invD(1) [OF assms]]
    by (intro store_inv_frame [OF assms]) (simp_all add: purge_message_def, simp_all add: announcement_part_def social_part_def)
qed

lemma purge_fold_store_inv:
  "store_inv s \<Longrightarrow> store_inv (foldl (\<lambda>t a. purge_message t (m_ID (deref t a))) s as)"
  by (induction as arbitrary: s) (auto intro: purge_store_inv)

lemma DeleteConversation_store_inv:
  assumes "store_inv s"
  shows "store_inv (DeleteConversation s i)"
proof -
  have "store_inv (foldl (\<lambda>t a. purge_message t (m_ID (deref t a))) s (gm_list (s_messages s) i))"
    by (rule purge_fold_store_inv [OF assms])
  then show ?thesis
    by (rule store_inv_frame)
      (simp_all add: DeleteConversation_inv store_invD [OF assms], simp_all add: DeleteConversation_def Let_def part_defs)
qed

lemma DeleteMessage_store_inv:
  assumes "store_inv s"
  shows "store_inv (fst (DeleteMessage s i))"
proof (cases "List.find (\<lambda>(c, as). list_ex (\<lambda>a. m_ID (deref s a) = i) as) (s_messages s)")
  case None
  with assms show ?thesis by (simp add: DeleteMessage_def)
next
  case (Some p)
  define t where "t = fst (DeleteMessage s i)"
  obtain c as where p: "p = (c, as)" by fastforce
  obtain ms where t: "t = deleteMessageIdempotencyLocked (deleteDynamicInteractionEventsLocked
      (s\<lparr>s_messages := ms, s_messageReactions := gm_del i (s_messageReactions s)\<rparr>) i) i"
    using Some p by (auto simp: t_def DeleteMessage_def Let_def)
  have "ledger_inv (s\<lparr>s_messages := ms, s_messageReactions := gm_del i (s_messageReactions s)\<rparr>)"
    by (rule part_cong(2) [OF store_invD(2) [OF assms]]) (simp add: ledger_part_def)
  then have "ledger_inv t"
    unfolding t by (rule part_cong(2) [OF deleteDynamicInteractionEvents_ledger_inv delete_locked_frame(9)])
  moreover have "reaction_inv t"
    by (rule reaction_inv_del [OF store_invD(3) [OF assms], of _ i]) (simp add: t)
  moreover have "msg_inv t" unfolding t_def by (rule DeleteMessage_inv [OF store_invD(1) [OF assms]])
  ultimately have "store_inv t"
    by (intro store_inv_frame [OF assms]) (simp_all add: t, simp_all add: announcement_part_def social_part_def)
  then show ?thesis by (simp add: t_def)
qed

lemmas message_store_inv =
  StoreMessage_store_inv updateSegments_store_inv Recall_store_inv Append_store_inv Commit_store_inv
  DynamicUpdate_store_inv React_store_inv DeleteMessage_store_inv DeleteConversation_store_inv

section \<open>Group, announcement and social operations\<close>

lemma members_inv_get:
  assumes "members_inv s" "gm_get (s_groups s) k = Some grp"
  shows "g_ID grp = k" "distinct (map mb_UserID (g_Members grp))"
  using assms by (auto simp: members_inv_def list_all_iff dest!: map_of_SomeD)

lemma put_group_store_inv:
  assumes "store_inv s" "g_ID grp = k" "distinct (map mb_UserID (g_Members grp))"
  shows "store_inv (put_group s k grp)"
proof -
  have "members_inv (put_group s k grp)"
    using store_invD(4) [OF assms(1)] assms(2,3)
    by (auto simp: members_inv_def put_group_def intro: list_all_gm_set)
  then show ?thesis by (intro store_inv_frame [OF assms(1)]) (simp_all add: put_group_def part_defs)
qed

lemma group_store_inv:
  assumes "store_inv s"
  shows "store_inv (fst (CreateGroup s i n a u now1 now2))" "store_inv (fst (UpdateGroup s i n a ann mute))"
    "store_inv (fst (SetGroupMemberRole s i u role))" "store_inv (fst (SetGroupMemberMute s i u t))"
    "store_inv (fst (AddGroupMember s i u now))" "store_inv (fst (RemoveGroupMember s i u))"
proof -
  note get = members_inv_get [OF store_invD(4) [OF assms]] and put = put_group_store_inv [OF assms]
  show "store_inv (fst (CreateGroup s i n a u now1 now2))"
    by (auto simp: CreateGroup_def Let_def put_group_def [symmetric] intro!: put)
  show "store_inv (fst (UpdateGroup s i n a ann mute))"
    using assms get by (auto simp: UpdateGroup_def intro!: put split: option.splits)
  show "store_inv (fst (SetGroupMemberRole s i u role))"
    using assms get by (auto simp: SetGroupMemberRole_def map_update_first intro!: put split: option.splits)
  show "store_inv (fst (SetGroupMemberMute s i u t))"
    using assms get by (auto simp: SetGroupMemberMute_def map_update_first intro!: put split: option.splits)
  show "store_inv (fst (AddGroupMember s i u now))"
    using assms get by (auto simp: AddGroupMember_def list_ex_iff intro!: put split: option.splits)
  show "store_inv (fst (RemoveGroupMember s i u))"
    using assms get by (auto simp: RemoveGroupMember_def intro!: put map_remove_first_distinct split: option.splits)
qed

lemma Transfer_store_inv:
  assumes "store_inv s"
  shows "store_inv (fst (TransferGroupOwnership s i u v))"
  using assms members_inv_get [OF store_invD(4) [OF assms]]
  by (auto simp: TransferGroupOwnership_def Let_def map_update_last intro!: put_group_store_inv [OF assms]
      split: option.splits)

lemma DeleteGroup_store_inv:
  assumes "store_inv s"
  shows "store_inv (fst (DeleteGroup s i))"
proof -
  have "msg_inv (fst (DeleteGroup s i))"
    using store_invD(1) [OF assms]
    by (auto simp: DeleteGroup_def intro!: msg_inv_cong [OF msg_inv_del_messages [of s i]] split: option.splits)
  moreover have "members_inv (fst (DeleteGroup s i))"
    using store_invD(4) [OF assms] by (auto simp: DeleteGroup_def members_inv_def list_all_gm_del split: option.splits)
  ultimately show ?thesis
    using DeleteGroup_announcement_inv [OF store_invD(5) [OF assms], of i]
    by (intro store_inv_frame [OF assms])
      (simp_all, simp_all add: DeleteGroup_def ledger_part_def social_part_def split: option.splits)
qed

lemma announcement_store_inv:
  assumes "store_inv s"
  shows "s_announcementCounter s < max_int64 \<Longrightarrow> store_inv (fst (CreateGroupAnnouncement s g content u p now))"
    "store_inv (fst (UpdateGroupAnnouncement s i content p now))"
    "store_inv (fst (DeleteGroupAnnouncement s i))" "store_inv (fst (MarkGroupAnnouncementRead s i u))"
proof -
  note ann = store_invD(5) [OF assms]
  show "s_announcementCounter s < max_int64 \<Longrightarrow> store_inv (fst (CreateGroupAnnouncement s g content u p now))"
    using CreateGroupAnnouncement_inv [OF ann, of g content u p now]
    by (intro store_inv_frame [OF assms])
      (simp_all, simp_all add: CreateGroupAnnouncement_def Let_def msg_part_def ledger_part_def social_part_def split: option.splits)
  show "store_inv (fst (UpdateGroupAnnouncement s i content p now))"
    using UpdateGroupAnnouncement_inv [OF ann, of i content p now]
    by (intro store_inv_frame [OF assms])
      (simp_all, simp_all add: UpdateGroupAnnouncement_def Let_def msg_part_def ledger_part_def social_part_def split: option.splits)
  show "store_inv (fst (DeleteGroupAnnouncement s i))"
    using DeleteGroupAnnouncement_inv [OF ann, of i]
    by (intro store_inv_frame [OF assms])
      (simp_all, simp_all add: DeleteGroupAnnouncement_def Let_def msg_part_def ledger_part_def social_part_def split: option.splits)
  show "store_inv (fst (MarkGroupAnnouncementRead s i u))"
    using MarkGroupAnnouncementRead_inv [OF ann, of i u]
    by (intro store_inv_frame [OF assms])
      (simp_all, simp_all add: MarkGroupAnnouncementRead_def msg_part_def ledger_part_def social_part_def)
qed

lemma social_store_inv:
  assumes "store_inv s"
  shows "store_inv (fst (AddFriend s u v now))" "store_inv (fst (RemoveFriend s u v))"
    "s_friendReqCounter s < max_int64 \<Longrightarrow> store_inv (fst (CreateFriendRequest s u v content now))"
    "store_inv (fst (HandleFriendRequest s i a))"
proof -
  note soc = store_invD(6) [OF assms]
  show "store_inv (fst (AddFriend s u v now))"
    using AddFriend_inv [OF soc, of u v now]
    by (intro store_inv_frame [OF assms])
      (simp_all, simp_all add: AddFriend_def Let_def msg_part_def ledger_part_def announcement_part_def)
  show "store_inv (fst (RemoveFriend s u v))"
    using RemoveFriend_inv [OF soc, of u v]
    by (intro store_inv_frame [OF assms])
      (simp_all, simp_all add: RemoveFriend_def msg_part_def ledger_part_def announcement_part_def)
  show "s_friendReqCounter s < max_int64 \<Longrightarrow> store_inv (fst (CreateFriendRequest s u v content now))"
    using CreateFriendRequest_inv [OF soc, of u v content now]
    by (intro store_inv_frame [OF assms])
      (simp_all, simp_all add: CreateFriendRequest_def Let_def msg_part_def ledger_part_def announcement_part_def)
  show "store_inv (fst (HandleFriendRequest s i a))"
    using HandleFriendRequest_inv [OF soc, of i a]
    by (intro store_inv_frame [OF assms])
      (simp_all, simp_all add: HandleFriendRequest_def msg_part_def ledger_part_def announcement_part_def split: option.splits)
qed

lemma push_store_inv:
  assumes "store_inv s"
  shows "store_inv (UpsertPushSubscription s ps now)" "store_inv (DeletePushSubscription s u ep)"
proof -
  note psh = store_invD(7) [OF assms]
  show "store_inv (UpsertPushSubscription s ps now)"
    using UpsertPushSubscription_inv [OF psh, of ps now]
    by (intro store_inv_frame [OF assms]) (simp_all, simp_all add: UpsertPushSubscription_def Let_def part_defs)
  show "store_inv (DeletePushSubscription s u ep)"
    using DeletePushSubscription_inv [OF psh, of u ep]
    by (intro store_inv_frame [OF assms]) (simp_all, simp_all add: DeletePushSubscription_def Let_def part_defs)
qed

lemma store_inv_init: "store_inv NewMemoryStore"
  by (simp add: store_inv_def msg_inv_init ledger_inv_init announcement_inv_init social_inv_init push_inv_init)
    (simp add: NewMemoryStore_def reaction_inv_def members_inv_def)

lemmas store_ops_inv =
  plain_ops_inv message_store_inv group_store_inv Transfer_store_inv DeleteGroup_store_inv
  announcement_store_inv social_store_inv push_store_inv

lemma store_step_inv: "store_step s t \<Longrightarrow> store_inv s \<Longrightarrow> store_inv t"
  by (induction rule: store_step.induct) (simp_all add: store_ops_inv UpdateMessageSegments_def)

interpretation store_system: invariant_system NewMemoryStore store_step store_inv
  by unfold_locales (auto intro: store_inv_init store_step_inv)

end
