(* ===== verification/Dynamic_Content.thy ===== *)
theory Dynamic_Content
  imports Store_Types
begin

text \<open>
  Dynamic content (\<open>internal/gateway/dynamic_content.go\<close>): reading a schema out of a segment,
  validating it within the limits, parsing the update, replace and remove mutations, and
  applying them to a stored message's segments.
\<close>

section \<open>The standard library the validators call\<close>

text \<open>
  \<open>encoding/json\<close> on text, the \<open>%q\<close> verb and \<open>url.ParseRequestURI\<close> are fields of a record the
  definitions take as an argument: decoding a document (\<open>None\<close> is a syntax error), the length of an
  encoded object, quoting, and parsing a URL into scheme, host and whether it carries user
  information. Nothing is assumed of them.
\<close>

record parsed_url =
  url_Scheme :: string
  url_Host :: string
  url_User :: bool

record go_std =
  gs_decode :: "string \<Rightarrow> json option"
  gs_encode_len :: "jobject \<Rightarrow> nat"
  gs_quote :: "string \<Rightarrow> string"
  gs_ParseRequestURI :: "string \<Rightarrow> parsed_url option"

text \<open>An error value is its text; \<open>Inr\<close> is success.\<close>

type_synonym 'a res = "string + 'a"

section \<open>Limits and small checks\<close>

definition maxDynamicContentBytes :: nat where "maxDynamicContentBytes = 512 * 1024"
definition maxDynamicNodes :: nat where "maxDynamicNodes = 100"
definition maxDynamicDepth :: nat where "maxDynamicDepth = 10"
definition maxDynamicChildren :: nat where "maxDynamicChildren = 50"
definition maxDynamicTextLength :: nat where "maxDynamicTextLength = 10000"
definition maxDynamicIdentifier :: nat where "maxDynamicIdentifier = 128"
definition maxDynamicImages :: nat where "maxDynamicImages = 20"

lemmas dynamic_limits =
  maxDynamicContentBytes_def maxDynamicNodes_def maxDynamicDepth_def maxDynamicChildren_def
  maxDynamicTextLength_def maxDynamicIdentifier_def maxDynamicImages_def

definition allowedDynamicEvents :: "string list" where
  "allowedDynamicEvents = [''click'', ''tap'', ''submit'', ''change'', ''select'']"

definition exactInt64 :: "json \<Rightarrow> int option" where
  "exactInt64 v =
     (case v of
        JNum r \<Rightarrow> if r < - (2 ^ 63) \<or> 2 ^ 63 < r \<or> r \<noteq> of_int (trunc_rat r) then None
                  else Some (float_to_int64 r)
      | _ \<Rightarrow> None)"

definition validDynamicHTTPSURL :: "go_std \<Rightarrow> string \<Rightarrow> bool" where
  "validDynamicHTTPSURL std raw =
     (if raw = [] \<or> 2048 < length raw \<or> raw \<noteq> TrimSpace raw \<or> \<not> utf8_ValidString raw then False
      else (case gs_ParseRequestURI std raw of
              None \<Rightarrow> False
            | Some u \<Rightarrow> url_Scheme u = ''https'' \<and> url_Host u \<noteq> [] \<and> \<not> url_User u))"

definition validDynamicIdentifier :: "string \<Rightarrow> bool" where
  "validDynamicIdentifier value \<longleftrightarrow>
     TrimSpace value \<noteq> [] \<and> length value \<le> maxDynamicIdentifier \<and> utf8_ValidString value"

text \<open>
  \<open>cloneDynamicMap\<close> encodes and decodes a map that itself came out of a decoder, which gives an
  equal map that shares nothing with the original; without pointers that is the identity.
\<close>

definition cloneDynamicMap :: "jobject \<Rightarrow> jobject" where
  "cloneDynamicMap value = value"

section \<open>Reading a schema\<close>

text \<open>\<open>json.Unmarshal\<close> into a \<open>map[string]interface{}\<close>: an object, or \<open>null\<close> for the nil map.\<close>

definition decode_schema :: "go_std \<Rightarrow> string \<Rightarrow> jobject option res" where
  "decode_schema std text =
     (case gs_decode std text of
        Some (JObj m) \<Rightarrow> Inr (Some m)
      | Some JNull \<Rightarrow> Inr None
      | _ \<Rightarrow> Inl ''dynamic content schema is not valid JSON'')"

definition nested_schema :: "go_std \<Rightarrow> jobject \<Rightarrow> jobject option res" where
  "nested_schema std data =
     (case jget data ''content'' of
        JStr nested \<Rightarrow> decode_schema std nested
      | JObj nested \<Rightarrow> Inr (Some (cloneDynamicMap nested))
      | _ \<Rightarrow>
          (case jget data ''schema'' of
             JStr nested \<Rightarrow> decode_schema std nested
           | JObj nested \<Rightarrow> Inr (Some (cloneDynamicMap nested))
           | _ \<Rightarrow> Inr (Some (cloneDynamicMap data))))"

definition schema_keys :: "string list" where
  "schema_keys = [''id'', ''version'', ''source'', ''tree'', ''fallback'', ''metadata'']"

text \<open>\<open>if _, exists := m[key]; !exists { if value, exists := data[key]; exists { m[key] = value } }\<close>\<close>

definition fill_key :: "jobject \<Rightarrow> jobject \<Rightarrow> string \<Rightarrow> jobject" where
  "fill_key data m key =
     (if gm_has m key then m
      else (case gm_get data key of Some v \<Rightarrow> gm_set key v m | None \<Rightarrow> m))"

definition dynamicSchemaFromData :: "go_std \<Rightarrow> jobject \<Rightarrow> jobject res" where
  "dynamicSchemaFromData std data =
     (case nested_schema std data of
        Inl e \<Rightarrow> Inl e
      | Inr None \<Rightarrow> Inl ''dynamic content schema is not an object''
      | Inr (Some schema) \<Rightarrow> Inr (foldl (fill_key data) schema schema_keys))"

section \<open>Validating values and nodes\<close>

text \<open>
  The type switch falls through for \<open>nil\<close>, booleans and numbers. The errors carry the path;
  an object's entries are visited in the order of the list, where Go's order is open, so which
  of several errors is reported is not claimed.
\<close>

fun validateDynamicValues :: "json \<Rightarrow> string \<Rightarrow> nat \<Rightarrow> unit res"
  and validate_entries :: "(string \<times> json) list \<Rightarrow> string \<Rightarrow> nat \<Rightarrow> unit res"
  and validate_items :: "json list \<Rightarrow> nat \<Rightarrow> string \<Rightarrow> nat \<Rightarrow> unit res" where
  "validateDynamicValues v path depth =
     (if maxDynamicDepth < depth then Inl (''dynamic value depth exceeded at '' @ path)
      else
        (case v of
           JStr s \<Rightarrow> if maxDynamicTextLength < rune_count s
                     then Inl (''dynamic text is too long at '' @ path) else Inr ()
         | JObj m \<Rightarrow> validate_entries m path (Suc depth)
         | JArr xs \<Rightarrow> if maxDynamicChildren < length xs
                      then Inl (''dynamic value list is too long at '' @ path)
                      else validate_items xs 0 path (Suc depth)
         | _ \<Rightarrow> Inr ()))"
| "validate_entries [] path depth = Inr ()"
| "validate_entries ((key, child) # m) path depth =
     (case validateDynamicValues child (path @ ''.'' @ key) depth of
        Inl e \<Rightarrow> Inl e
      | Inr _ \<Rightarrow> validate_entries m path depth)"
| "validate_items [] index path depth = Inr ()"
| "validate_items (child # xs) index path depth =
     (case validateDynamicValues child (path @ ''['' @ show_nat index @ '']'') depth of
        Inl e \<Rightarrow> Inl e
      | Inr _ \<Rightarrow> validate_items xs (Suc index) path depth)"

record dynamicValidationState =
  vs_ids :: "string list"
  vs_count :: nat
  vs_images :: nat

definition as_map :: "json \<Rightarrow> jobject" where
  "as_map v = (case as_obj v of Some m \<Rightarrow> m | None \<Rightarrow> [])"

definition validate_action :: "jobject \<Rightarrow> unit res" where
  "validate_action definition_map =
     (case gm_get definition_map ''action'' of
        None \<Rightarrow> Inr ()
      | Some action \<Rightarrow>
          (case as_str action of
             Some value \<Rightarrow> if maxDynamicIdentifier < length value
                           then Inl ''dynamic event action is invalid'' else Inr ()
           | None \<Rightarrow> Inl ''dynamic event action is invalid''))"

fun validate_events :: "go_std \<Rightarrow> (string \<times> json) list \<Rightarrow> unit res" where
  "validate_events std [] = Inr ()"
| "validate_events std ((event, df) # es) =
     (if event \<notin> set allowedDynamicEvents
      then Inl (''dynamic event '' @ gs_quote std event @ '' is not allowed'')
      else
        (case as_obj df of
           None \<Rightarrow> Inl (''dynamic event '' @ gs_quote std event @ '' is invalid'')
         | Some m \<Rightarrow>
             (case validate_action m of Inl e \<Rightarrow> Inl e | Inr _ \<Rightarrow> validate_events std es)))"

text \<open>The checks of one node before its children, with the state they update.\<close>

definition validate_node_head ::
  "go_std \<Rightarrow> jobject \<Rightarrow> string \<Rightarrow> nat \<Rightarrow> dynamicValidationState \<Rightarrow> dynamicValidationState res" where
  "validate_node_head std node path depth st0 =
     (let st1 = st0\<lparr>vs_count := vs_count st0 + 1\<rparr>;
          ident = jstr node ''id'';
          typeName = jstr node ''type'' in
      if maxDynamicNodes < vs_count st1
      then Inl (''dynamic content node limit exceeded at '' @ path)
      else if maxDynamicDepth < depth
      then Inl (''dynamic content tree depth exceeded at '' @ path)
      else if \<not> validDynamicIdentifier ident
      then Inl (''dynamic node id is invalid at '' @ path)
      else if ident \<in> set (vs_ids st1)
      then Inl (''dynamic node id '' @ gs_quote std ident @ '' is duplicated'')
      else
        (let st2 = st1\<lparr>vs_ids := ident # vs_ids st1\<rparr> in
         if TrimSpace typeName = [] \<or> 64 < length typeName
         then Inl (''dynamic node type is invalid at '' @ path)
         else
           (case (case gm_get node ''props'' of
                    None \<Rightarrow> Inr ()
                  | Some props \<Rightarrow>
                      (case as_obj props of
                         None \<Rightarrow> Inl (''dynamic node props are invalid at '' @ path)
                       | Some _ \<Rightarrow> validateDynamicValues props (path @ ''.props'') 0)) of
              Inl e \<Rightarrow> Inl e
            | Inr _ \<Rightarrow>
                (case (if typeName \<noteq> ''image'' then Inr st2
                       else
                         (let st3 = st2\<lparr>vs_images := vs_images st2 + 1\<rparr> in
                          if maxDynamicImages < vs_images st3
                          then Inl (''dynamic content image limit exceeded at '' @ path)
                          else
                            (case gm_get (as_map (jget node ''props'')) ''url'' of
                               None \<Rightarrow> Inr st3
                             | Some rawURL \<Rightarrow>
                                 (case as_str rawURL of
                                    Some imageURL \<Rightarrow> if validDynamicHTTPSURL std imageURL then Inr st3
                                      else Inl ''dynamic image URL must use HTTPS''
                                  | None \<Rightarrow> Inl ''dynamic image URL must use HTTPS'')))) of
                   Inl e \<Rightarrow> Inl e
                 | Inr st4 \<Rightarrow>
                     (case gm_get node ''events'' of
                        None \<Rightarrow> Inr st4
                      | Some events \<Rightarrow>
                          (case as_obj events of
                             None \<Rightarrow> Inl (''dynamic node events are invalid at '' @ path)
                           | Some eventMap \<Rightarrow>
                               (case validate_events std eventMap of
                                  Inl e \<Rightarrow> Inl e
                                | Inr _ \<Rightarrow> Inr st4)))))))"

lemma validate_node_head_depth:
  "validate_node_head std node path depth st = Inr st' \<Longrightarrow> depth \<le> maxDynamicDepth"
  by (auto simp: validate_node_head_def Let_def split: if_splits)

text \<open>
  The recursion over the children: a node deeper than the limit is refused before its children
  are visited, and a node has at most \<open>maxDynamicChildren\<close> of them.
\<close>

function (sequential) validateDynamicNode ::
    "go_std \<Rightarrow> jobject \<Rightarrow> string \<Rightarrow> nat \<Rightarrow> dynamicValidationState \<Rightarrow> dynamicValidationState res"
  and validate_children ::
    "go_std \<Rightarrow> json list \<Rightarrow> nat \<Rightarrow> string \<Rightarrow> nat \<Rightarrow> dynamicValidationState \<Rightarrow> dynamicValidationState res" where
  "validateDynamicNode std node path depth st =
     (case validate_node_head std node path depth st of
        Inl e \<Rightarrow> Inl e
      | Inr st1 \<Rightarrow>
          (case gm_get node ''children'' of
             None \<Rightarrow> Inr st1
           | Some children \<Rightarrow>
               (case as_arr children of
                  None \<Rightarrow> Inl (''dynamic node children are invalid at '' @ path)
                | Some childList \<Rightarrow>
                    if maxDynamicChildren < length childList
                    then Inl (''dynamic node children are invalid at '' @ path)
                    else validate_children std childList 0 path depth st1)))"
| "validate_children std [] index path depth st = Inr st"
| "validate_children std (rawChild # rest) index path depth st =
     (case as_obj rawChild of
        None \<Rightarrow> Inl (''dynamic child is invalid at '' @ path @ ''.children['' @ show_nat index @ '']'')
      | Some child \<Rightarrow>
          (case validateDynamicNode std child (path @ ''.children['' @ show_nat index @ '']'') (depth + 1) st of
             Inl e \<Rightarrow> Inl e
           | Inr st1 \<Rightarrow> validate_children std rest (Suc index) path depth st1))"
  by pat_completeness auto
termination
  by (relation "measure (\<lambda>x. case x of Inl (_, node, _) \<Rightarrow> size (JObj node) | Inr (_, xs, _) \<Rightarrow> size (JArr xs))")
    (auto dest!: size_gm_get simp: as_obj_iff as_arr_iff)

section \<open>Validating a schema and the segments\<close>

definition validate_fallback :: "jobject \<Rightarrow> unit res" where
  "validate_fallback schema =
     (case gm_get schema ''fallback'' of
        None \<Rightarrow> Inr ()
      | Some fallback \<Rightarrow>
          (case as_obj fallback of
             None \<Rightarrow> Inl ''dynamic fallback is invalid''
           | Some fallbackMap \<Rightarrow>
               if gm_has fallbackMap ''type'' \<and> as_str (jget fallbackMap ''type'') = None
               then Inl ''dynamic fallback type is invalid''
               else if gm_has fallbackMap ''content'' \<and> as_str (jget fallbackMap ''content'') = None
               then Inl ''dynamic fallback content is invalid''
               else if maxDynamicTextLength < rune_count (jstr fallbackMap ''content'')
               then Inl ''dynamic fallback is too long''
               else Inr ()))"

definition validate_metadata :: "jobject \<Rightarrow> unit res" where
  "validate_metadata schema =
     (case gm_get schema ''metadata'' of
        None \<Rightarrow> Inr ()
      | Some metadata \<Rightarrow>
          (case as_obj metadata of
             None \<Rightarrow> Inl ''dynamic metadata is invalid''
           | Some metadataMap \<Rightarrow> validateDynamicValues (JObj metadataMap) ''metadata'' 0))"

definition validateDynamicSchema :: "go_std \<Rightarrow> jobject \<Rightarrow> unit res" where
  "validateDynamicSchema std schema =
     (if \<not> validDynamicIdentifier (jstr schema ''id'') then Inl ''dynamic content id is invalid''
      else if TrimSpace (jstr schema ''version'') = [] \<or> 32 < length (jstr schema ''version'')
      then Inl ''dynamic content version is invalid''
      else if jstr schema ''source'' \<notin> {''ai'', ''user'', ''system'', ''plugin'', ''server''}
      then Inl ''dynamic content source is invalid''
      else
        (case as_obj (jget schema ''tree'') of
           None \<Rightarrow> Inl ''dynamic content tree is missing''
         | Some tree \<Rightarrow>
             (case validateDynamicNode std tree ''tree'' 0
                     \<lparr> vs_ids = [], vs_count = 0, vs_images = 0 \<rparr> of
                Inl e \<Rightarrow> Inl e
              | Inr _ \<Rightarrow>
                  (case validate_fallback schema of
                     Inl e \<Rightarrow> Inl e
                   | Inr _ \<Rightarrow> validate_metadata schema))))"

definition validateDynamicContentSegment :: "go_std \<Rightarrow> message_segment \<Rightarrow> unit res" where
  "validateDynamicContentSegment std segment =
     (if seg_Type segment \<noteq> ''dynamic_content'' then Inr ()
      else if maxDynamicContentBytes < gs_encode_len std (seg_Data segment)
      then Inl ''dynamic content is too large''
      else
        (case dynamicSchemaFromData std (seg_Data segment) of
           Inl e \<Rightarrow> Inl e
         | Inr schema \<Rightarrow> validateDynamicSchema std schema))"

fun validate_event_keys :: "jobject \<Rightarrow> string list \<Rightarrow> unit res" where
  "validate_event_keys data [] = Inr ()"
| "validate_event_keys data (key # keys) =
     (if \<not> validDynamicIdentifier (jstr data key)
      then Inl (''dynamic event '' @ key @ '' is invalid'')
      else validate_event_keys data keys)"

definition validateDynamicEventSegment :: "message_segment \<Rightarrow> unit res" where
  "validateDynamicEventSegment segment =
     (let data = seg_Data segment in
      if seg_Type segment \<noteq> ''dynamic_event'' then Inr ()
      else
        (case validate_event_keys data [''message_id'', ''content_id'', ''node_id''] of
           Inl e \<Rightarrow> Inl e
         | Inr _ \<Rightarrow>
             if gm_has data ''event_id''
                \<and> (case as_str (jget data ''event_id'') of
                     None \<Rightarrow> True | Some value \<Rightarrow> \<not> validDynamicIdentifier value)
             then Inl ''dynamic event event_id is invalid''
             else if jstr data ''event'' \<notin> set allowedDynamicEvents
             then Inl ''dynamic event type is not allowed''
             else
               (case validate_action data of
                  Inl e \<Rightarrow> Inl e
                | Inr _ \<Rightarrow>
                    (case gm_get data ''payload'' of
                       None \<Rightarrow> Inr ()
                     | Some payload \<Rightarrow>
                         (case as_obj payload of
                            None \<Rightarrow> Inl ''dynamic event payload is invalid''
                          | Some payloadMap \<Rightarrow> validateDynamicValues (JObj payloadMap) ''payload'' 0)))))"

section \<open>Finding nodes\<close>

text \<open>
  \<open>findDynamicNode\<close> searches in preorder and returns the node, its parent and its index among
  the parent's children. The model returns the path of child indices from the root, which
  determines all three; \<open>node_at\<close> follows a path and \<open>update_at\<close> is the in-place change of
  the node at its end.
\<close>

definition children_of :: "jobject \<Rightarrow> json list" where
  "children_of node = (case as_arr (jget node ''children'') of Some xs \<Rightarrow> xs | None \<Rightarrow> [])"

lemma size_children: "size (JArr (children_of node)) \<le> size (JObj node)"
proof (cases "as_arr (jget node ''children'')")
  case None
  then show ?thesis by (simp add: children_of_def)
next
  case (Some xs)
  then have "gm_get node ''children'' = Some (JArr xs)"
    by (simp add: as_arr_iff jget_def split: option.splits)
  with Some size_gm_get [OF this] show ?thesis by (simp add: children_of_def)
qed

function (sequential) findDynamicNode :: "jobject \<Rightarrow> string \<Rightarrow> nat list option"
  and find_in_children :: "json list \<Rightarrow> nat \<Rightarrow> string \<Rightarrow> nat list option" where
  "findDynamicNode rt targetID =
     (if jstr rt ''id'' = targetID then Some []
      else find_in_children (children_of rt) 0 targetID)"
| "find_in_children [] index targetID = None"
| "find_in_children (rawChild # rest) index targetID =
     (case as_obj rawChild of
        None \<Rightarrow> find_in_children rest (Suc index) targetID
      | Some child \<Rightarrow>
          (case findDynamicNode child targetID of
             Some p \<Rightarrow> Some (index # p)
           | None \<Rightarrow> find_in_children rest (Suc index) targetID))"
  by pat_completeness auto
termination
  by (relation "measures [\<lambda>x. case x of Inl (node, _) \<Rightarrow> size (JObj node) | Inr (xs, _) \<Rightarrow> size (JArr xs),
                          \<lambda>x. case x of Inl _ \<Rightarrow> 1 | Inr _ \<Rightarrow> 0]")
    (use size_children in \<open>auto simp: le_less as_obj_iff\<close>)

fun node_at :: "nat list \<Rightarrow> jobject \<Rightarrow> jobject option" where
  "node_at [] node = Some node"
| "node_at (i # p) node =
     (if i < length (children_of node)
      then (case children_of node ! i of JObj child \<Rightarrow> node_at p child | _ \<Rightarrow> None)
      else None)"

definition set_children :: "json list \<Rightarrow> jobject \<Rightarrow> jobject" where
  "set_children xs node = gm_set ''children'' (JArr xs) node"

fun update_at :: "nat list \<Rightarrow> (jobject \<Rightarrow> jobject) \<Rightarrow> jobject \<Rightarrow> jobject" where
  "update_at [] f node = f node"
| "update_at (i # p) f node =
     (if i < length (children_of node)
      then (case children_of node ! i of
              JObj child \<Rightarrow> set_children ((children_of node)[i := JObj (update_at p f child)]) node
            | _ \<Rightarrow> node)
      else node)"

section \<open>Events on a stored message\<close>

text \<open>
  One round of the loop over the segments; its state says whether a segment matched, whether it
  was a legacy terminal request, and the node the event targets.
\<close>

definition legacy_action_error :: "string \<Rightarrow> string \<Rightarrow> string option" where
  "legacy_action_error eventName action =
     (if eventName = ''click'' then
        (if action \<noteq> ''approve'' \<and> action \<noteq> ''allow''
         then Some ''legacy terminal event action does not match click'' else None)
      else if eventName = ''tap'' then
        (if action \<noteq> ''deny'' \<and> action \<noteq> ''reject''
         then Some ''legacy terminal event action does not match tap'' else None)
      else if eventName = ''change'' then
        (if action \<noteq> ''modify''
         then Some ''legacy terminal event action does not match change'' else None)
      else Some ''legacy terminal event type is not allowed'')"

type_synonym target_state = "bool \<times> bool \<times> jobject option"

definition event_target_step ::
  "go_std \<Rightarrow> jobject \<Rightarrow> nat \<Rightarrow> message_segment \<Rightarrow> target_state \<Rightarrow> target_state res" where
  "event_target_step std data index segment st =
     (case st of (matched, legacyMatched, targetNode) \<Rightarrow>
      let contentID = jstr data ''content_id''; nodeID = jstr data ''node_id'' in
      if seg_Type segment \<noteq> ''dynamic_content'' then
        (if seg_Type segment \<noteq> ''terminal_request'' then Inr st
         else
           (let requestID = jstr (seg_Data segment) ''request_id'';
                legacyContentID = ''legacy:'' @ jstr data ''message_id'' @ '':'' @ show_nat index;
                legacyNodeID = ''terminal-request-'' @ requestID in
            if contentID \<noteq> legacyContentID \<or> nodeID \<noteq> legacyNodeID then Inr st
            else if matched then Inl ''dynamic event content_id is ambiguous''
            else (case legacy_action_error (jstr data ''event'') (jstr data ''action'') of
                    Some e \<Rightarrow> Inl e
                  | None \<Rightarrow> Inr (True, True, targetNode))))
      else
        (case dynamicSchemaFromData std (seg_Data segment) of
           Inl e \<Rightarrow> Inl e
         | Inr schema \<Rightarrow>
             if jget schema ''id'' \<noteq> JStr contentID then Inr st
             else if matched then Inl ''dynamic event content_id is ambiguous''
             else
               (case as_obj (jget schema ''tree'') of
                  None \<Rightarrow> Inl ''dynamic event target tree is missing''
                | Some tree \<Rightarrow>
                    (case findDynamicNode tree nodeID of
                       None \<Rightarrow> Inl ''dynamic event target node was not found''
                     | Some p \<Rightarrow> Inr (True, legacyMatched, node_at p tree)))))"

fun event_target_loop ::
  "go_std \<Rightarrow> jobject \<Rightarrow> message_segment list \<Rightarrow> nat \<Rightarrow> target_state \<Rightarrow> target_state res" where
  "event_target_loop std data [] index st = Inr st"
| "event_target_loop std data (segment # rest) index st =
     (case event_target_step std data index segment st of
        Inl e \<Rightarrow> Inl e
      | Inr st' \<Rightarrow> event_target_loop std data rest (Suc index) st')"

definition validateDynamicEventTarget ::
  "go_std \<Rightarrow> message_segment list \<Rightarrow> jobject \<Rightarrow> unit res" where
  "validateDynamicEventTarget std segments data =
     (case event_target_loop std data segments 0 (False, False, None) of
        Inl e \<Rightarrow> Inl e
      | Inr (matched, legacyMatched, targetNode) \<Rightarrow>
          if legacyMatched then Inr ()
          else
            (case (matched, targetNode) of
               (True, Some node) \<Rightarrow>
                 (case as_obj (jget node ''events'') of
                    None \<Rightarrow> Inl ''dynamic event is not declared by the target node''
                  | Some events \<Rightarrow>
                      (case as_obj (jget events (jstr data ''event'')) of
                         None \<Rightarrow> Inl ''dynamic event is not declared by the target node''
                       | Some df \<Rightarrow>
                           if jstr df ''action'' \<noteq> jstr data ''action''
                           then Inl ''dynamic event action does not match the target schema''
                           else Inr ()))
             | _ \<Rightarrow> Inl ''dynamic event target content was not found''))"

section \<open>Parsing mutations\<close>

text \<open>One entry of \<open>patches\<close>; the result is the patch map itself.\<close>

definition parse_patch :: "nat \<Rightarrow> json \<Rightarrow> jobject res" where
  "parse_patch index raw =
     (case as_obj raw of
        None \<Rightarrow> Inl (''dynamic update patch '' @ show_nat index @ '' is invalid'')
      | Some patch \<Rightarrow>
          (let operation = jstr patch ''operation''; nodeID = jstr patch ''node_id'' in
           if operation \<notin> {''create'', ''update'', ''replace'', ''remove''}
           then Inl ''dynamic update operation is invalid''
           else if \<not> validDynamicIdentifier nodeID then Inl ''dynamic update node_id is invalid''
           else if gm_has patch ''index''
                   \<and> (case exactInt64 (jget patch ''index'') of
                        None \<Rightarrow> True
                      | Some v \<Rightarrow> v < 0 \<or> int maxDynamicChildren < v)
           then Inl ''dynamic update index is invalid''
           else if operation = ''create'' \<and> \<not> validDynamicIdentifier (jstr patch ''parent_node_id'')
           then Inl ''dynamic create parent_node_id is required''
           else
             (case (if operation = ''update''
                    then (case gm_get patch ''props'' of
                            None \<Rightarrow> Inr ()
                          | Some props \<Rightarrow>
                              if as_obj props = None then Inl ''dynamic update props are invalid''
                              else validateDynamicValues props ''patch.props'' 0)
                    else Inr ()) of
                Inl e \<Rightarrow> Inl e
              | Inr _ \<Rightarrow>
                  if operation = ''create'' \<or> operation = ''replace''
                  then (case as_obj (jget patch ''node'') of
                          None \<Rightarrow> Inl (''dynamic '' @ operation @ '' patch requires node'')
                        | Some node \<Rightarrow>
                            if jstr node ''id'' \<noteq> nodeID
                            then Inl ''dynamic patch node id does not match node_id''
                            else Inr patch)
                  else Inr patch)))"

fun parse_patches :: "nat \<Rightarrow> json list \<Rightarrow> jobject list res" where
  "parse_patches index [] = Inr []"
| "parse_patches index (raw # rest) =
     (case parse_patch index raw of
        Inl e \<Rightarrow> Inl e
      | Inr patch \<Rightarrow>
          (case parse_patches (Suc index) rest of
             Inl e \<Rightarrow> Inl e
           | Inr patches \<Rightarrow> Inr (patch # patches)))"

definition parseDynamicUpdateData :: "jobject \<Rightarrow> (string \<times> string \<times> jobject list) res" where
  "parseDynamicUpdateData data0 =
     (let data = (case as_obj (jget data0 ''update'') of
                    Some nested \<Rightarrow>
                      foldl (fill_key data0) (cloneDynamicMap nested)
                        [''message_id'', ''content_id'', ''patches'']
                  | None \<Rightarrow> data0);
          messageID = jstr data ''message_id''; contentID = jstr data ''content_id'' in
      if \<not> validDynamicIdentifier messageID \<or> \<not> validDynamicIdentifier contentID
      then Inl ''dynamic update message_id or content_id is invalid''
      else
        (case as_arr (jget data ''patches'') of
           None \<Rightarrow> Inl ''dynamic update patches are invalid''
         | Some rawPatches \<Rightarrow>
             if rawPatches = [] \<or> maxDynamicNodes < length rawPatches
             then Inl ''dynamic update patches are invalid''
             else
               (case parse_patches 0 rawPatches of
                  Inl e \<Rightarrow> Inl e
                | Inr patches \<Rightarrow> Inr (messageID, contentID, patches))))"

definition parseDynamicReplaceData :: "go_std \<Rightarrow> jobject \<Rightarrow> (string \<times> string \<times> jobject) res" where
  "parseDynamicReplaceData std data =
     (let messageID = jstr data ''message_id''; contentID = jstr data ''content_id'' in
      if \<not> validDynamicIdentifier messageID \<or> \<not> validDynamicIdentifier contentID
      then Inl ''dynamic replace message_id or content_id is invalid''
      else if \<not> gm_has data ''content'' then Inl ''dynamic replace content is missing''
      else
        (case dynamicSchemaFromData std data of
           Inl e \<Rightarrow> Inl e
         | Inr schema \<Rightarrow>
             if jget schema ''id'' \<noteq> JStr contentID
             then Inl ''dynamic replacement id does not match content_id''
             else
               (case validateDynamicSchema std schema of
                  Inl e \<Rightarrow> Inl e
                | Inr _ \<Rightarrow> Inr (messageID, contentID, schema))))"

definition parseDynamicRemoveData :: "jobject \<Rightarrow> (string \<times> string) res" where
  "parseDynamicRemoveData data =
     (let messageID = jstr data ''message_id''; contentID = jstr data ''content_id'' in
      if \<not> validDynamicIdentifier messageID \<or> \<not> validDynamicIdentifier contentID
      then Inl ''dynamic remove message_id or content_id is invalid''
      else Inr (messageID, contentID))"

definition validateDynamicUpdateSegment :: "go_std \<Rightarrow> message_segment \<Rightarrow> unit res" where
  "validateDynamicUpdateSegment std segment =
     (if seg_Type segment \<noteq> ''dynamic_update'' then Inr ()
      else if maxDynamicContentBytes < gs_encode_len std (seg_Data segment)
      then Inl ''dynamic update is too large''
      else (case parseDynamicUpdateData (seg_Data segment) of Inl e \<Rightarrow> Inl e | Inr _ \<Rightarrow> Inr ()))"

definition validateDynamicReplaceSegment :: "go_std \<Rightarrow> message_segment \<Rightarrow> unit res" where
  "validateDynamicReplaceSegment std segment =
     (if seg_Type segment \<noteq> ''dynamic_replace'' then Inr ()
      else if maxDynamicContentBytes < gs_encode_len std (seg_Data segment)
      then Inl ''dynamic replace is too large''
      else (case parseDynamicReplaceData std (seg_Data segment) of Inl e \<Rightarrow> Inl e | Inr _ \<Rightarrow> Inr ()))"

definition validateDynamicRemoveSegment :: "message_segment \<Rightarrow> unit res" where
  "validateDynamicRemoveSegment segment =
     (if seg_Type segment \<noteq> ''dynamic_remove'' then Inr ()
      else (case parseDynamicRemoveData (seg_Data segment) of Inl e \<Rightarrow> Inl e | Inr _ \<Rightarrow> Inr ()))"

definition dynamicMutationMessageID :: "go_std \<Rightarrow> message_segment \<Rightarrow> string res" where
  "dynamicMutationMessageID std segment =
     (if seg_Type segment = ''dynamic_update''
      then (case parseDynamicUpdateData (seg_Data segment) of Inl e \<Rightarrow> Inl e | Inr (m, _) \<Rightarrow> Inr m)
      else if seg_Type segment = ''dynamic_replace''
      then (case parseDynamicReplaceData std (seg_Data segment) of Inl e \<Rightarrow> Inl e | Inr (m, _) \<Rightarrow> Inr m)
      else if seg_Type segment = ''dynamic_remove''
      then (case parseDynamicRemoveData (seg_Data segment) of Inl e \<Rightarrow> Inl e | Inr (m, _) \<Rightarrow> Inr m)
      else Inl ''unsupported dynamic mutation'')"

section \<open>Applying mutations\<close>

definition DynamicContentSegment :: "jobject \<Rightarrow> message_segment" where
  "DynamicContentSegment schema =
     \<lparr> seg_Type = ''dynamic_content'', seg_Data = filter (\<lambda>(key, value). key \<noteq> ''type'') schema \<rparr>"

text \<open>
  The search loop of \<open>dynamicContentSegmentIndex\<close> and of \<open>applyDynamicUpdateToSegments\<close>: the one
  dynamic content with the identifier, with its schema.
\<close>

fun content_index_loop ::
  "go_std \<Rightarrow> string \<Rightarrow> string \<Rightarrow> message_segment list \<Rightarrow> nat \<Rightarrow> (nat \<times> jobject) option
     \<Rightarrow> (nat \<times> jobject) option res" where
  "content_index_loop std contentID operation [] index matched = Inr matched"
| "content_index_loop std contentID operation (segment # rest) index matched =
     (if seg_Type segment \<noteq> ''dynamic_content''
      then content_index_loop std contentID operation rest (Suc index) matched
      else
        (case dynamicSchemaFromData std (seg_Data segment) of
           Inl e \<Rightarrow> Inl e
         | Inr schema \<Rightarrow>
             if jget schema ''id'' \<noteq> JStr contentID
             then content_index_loop std contentID operation rest (Suc index) matched
             else if matched \<noteq> None then Inl (''dynamic '' @ operation @ '' content_id is ambiguous'')
             else content_index_loop std contentID operation rest (Suc index) (Some (index, schema))))"

definition content_index ::
  "go_std \<Rightarrow> message_segment list \<Rightarrow> string \<Rightarrow> string \<Rightarrow> (nat \<times> jobject) res" where
  "content_index std segments contentID operation =
     (case content_index_loop std contentID operation segments 0 None of
        Inl e \<Rightarrow> Inl e
      | Inr None \<Rightarrow> Inl (''dynamic '' @ operation @ '' target content was not found'')
      | Inr (Some hit) \<Rightarrow> Inr hit)"

definition dynamicContentSegmentIndex ::
  "go_std \<Rightarrow> message_segment list \<Rightarrow> string \<Rightarrow> string \<Rightarrow> nat res" where
  "dynamicContentSegmentIndex std segments contentID operation =
     (case content_index std segments contentID operation of Inl e \<Rightarrow> Inl e | Inr (i, _) \<Rightarrow> Inr i)"

text \<open>\<open>children = append(children, nil); copy(...); children[insertAt] = created\<close>\<close>

definition insert_child :: "nat \<Rightarrow> json \<Rightarrow> json list \<Rightarrow> json list" where
  "insert_child i c xs = take i xs @ c # drop i xs"

definition remove_child :: "nat \<Rightarrow> json list \<Rightarrow> json list" where
  "remove_child i xs = take i xs @ drop (Suc i) xs"

definition merge_props :: "jobject \<Rightarrow> jobject \<Rightarrow> jobject" where
  "merge_props props node =
     gm_set ''props''
       (JObj (foldl (\<lambda>m (key, v). gm_set key v m) (cloneDynamicMap (as_map (jget node ''props''))) props))
       node"

definition apply_patch :: "go_std \<Rightarrow> jobject \<Rightarrow> jobject \<Rightarrow> jobject res" where
  "apply_patch std rt patch =
     (let operation = jstr patch ''operation''; nodeID = jstr patch ''node_id'' in
      if operation = ''update'' then
        (case findDynamicNode rt nodeID of
           None \<Rightarrow> Inl (''dynamic node '' @ gs_quote std nodeID @ '' was not found'')
         | Some p \<Rightarrow>
             (case as_obj (jget patch ''props'') of
                Some props \<Rightarrow> Inr (update_at p (merge_props props) rt)
              | None \<Rightarrow> Inr rt))
      else if operation = ''replace'' then
        (case findDynamicNode rt nodeID of
           None \<Rightarrow> Inl (''dynamic node '' @ gs_quote std nodeID @ '' was not found'')
         | Some p \<Rightarrow> Inr (update_at p (\<lambda>_. cloneDynamicMap (as_map (jget patch ''node''))) rt))
      else if operation = ''remove'' then
        (case findDynamicNode rt nodeID of
           None \<Rightarrow> Inl (''dynamic node '' @ gs_quote std nodeID @ '' was not found'')
         | Some p \<Rightarrow>
             if p = [] then Inl ''the dynamic root node cannot be removed''
             else Inr (update_at (butlast p)
                         (\<lambda>parent. set_children (remove_child (last p) (children_of parent)) parent) rt))
      else if operation = ''create'' then
        (if findDynamicNode rt nodeID \<noteq> None
         then Inl (''dynamic node '' @ gs_quote std nodeID @ '' already exists'')
         else
           (case findDynamicNode rt (jstr patch ''parent_node_id'') of
              None \<Rightarrow> Inl (''dynamic parent node '' @ gs_quote std (jstr patch ''parent_node_id'') @ '' was not found'')
            | Some p \<Rightarrow>
                Inr (update_at p
                  (\<lambda>parent.
                     let children = children_of parent;
                         insertAt = (if gm_has patch ''index''
                                     then (let value = (case exactInt64 (jget patch ''index'') of Some v \<Rightarrow> v | None \<Rightarrow> 0)
                                           in if value < int (length children) then nat value else length children)
                                     else length children)
                     in set_children (insert_child insertAt (JObj (cloneDynamicMap (as_map (jget patch ''node'')))) children) parent)
                  rt)))
      else Inr rt)"

fun apply_patch_list :: "go_std \<Rightarrow> jobject \<Rightarrow> jobject list \<Rightarrow> jobject res" where
  "apply_patch_list std rt [] = Inr rt"
| "apply_patch_list std rt (patch # patches) =
     (case apply_patch std rt patch of
        Inl e \<Rightarrow> Inl e
      | Inr rt' \<Rightarrow> apply_patch_list std rt' patches)"

definition applyDynamicPatches :: "go_std \<Rightarrow> jobject \<Rightarrow> jobject list \<Rightarrow> jobject res" where
  "applyDynamicPatches std schema patches =
     (let result = cloneDynamicMap schema in
      case as_obj (jget result ''tree'') of
        None \<Rightarrow> Inl ''dynamic content tree is missing''
      | Some rt \<Rightarrow>
          (case apply_patch_list std rt patches of
             Inl e \<Rightarrow> Inl e
           | Inr rt' \<Rightarrow> Inr (gm_set ''tree'' (JObj rt') result)))"

definition applyDynamicUpdateToSegments ::
  "go_std \<Rightarrow> message_segment list \<Rightarrow> jobject \<Rightarrow> (message_segment list \<times> string) res" where
  "applyDynamicUpdateToSegments std segments data =
     (case parseDynamicUpdateData data of
        Inl e \<Rightarrow> Inl e
      | Inr (messageID, contentID, patches) \<Rightarrow>
          (case content_index std segments contentID ''update'' of
             Inl e \<Rightarrow> Inl e
           | Inr (dynamicIndex, schema) \<Rightarrow>
               (case applyDynamicPatches std schema patches of
                  Inl e \<Rightarrow> Inl e
                | Inr updated \<Rightarrow>
                    (case validateDynamicSchema std updated of
                       Inl e \<Rightarrow> Inl e
                     | Inr _ \<Rightarrow> Inr (segments[dynamicIndex := DynamicContentSegment updated], messageID)))))"

definition applyDynamicReplaceToSegments ::
  "go_std \<Rightarrow> message_segment list \<Rightarrow> jobject \<Rightarrow> (message_segment list \<times> string) res" where
  "applyDynamicReplaceToSegments std segments data =
     (case parseDynamicReplaceData std data of
        Inl e \<Rightarrow> Inl e
      | Inr (messageID, contentID, replacement) \<Rightarrow>
          (case dynamicContentSegmentIndex std segments contentID ''replace'' of
             Inl e \<Rightarrow> Inl e
           | Inr index \<Rightarrow> Inr (segments[index := DynamicContentSegment replacement], messageID)))"

definition applyDynamicRemoveToSegments ::
  "go_std \<Rightarrow> message_segment list \<Rightarrow> jobject \<Rightarrow> (message_segment list \<times> string) res" where
  "applyDynamicRemoveToSegments std segments data =
     (case parseDynamicRemoveData data of
        Inl e \<Rightarrow> Inl e
      | Inr (messageID, contentID) \<Rightarrow>
          (case dynamicContentSegmentIndex std segments contentID ''remove'' of
             Inl e \<Rightarrow> Inl e
           | Inr index \<Rightarrow> Inr (take index segments @ drop (Suc index) segments, messageID)))"

definition applyDynamicMutationToSegments ::
  "go_std \<Rightarrow> message_segment list \<Rightarrow> message_segment \<Rightarrow> (message_segment list \<times> string) res" where
  "applyDynamicMutationToSegments std segments segment =
     (if seg_Type segment = ''dynamic_update''
      then applyDynamicUpdateToSegments std segments (seg_Data segment)
      else if seg_Type segment = ''dynamic_replace''
      then applyDynamicReplaceToSegments std segments (seg_Data segment)
      else if seg_Type segment = ''dynamic_remove''
      then applyDynamicRemoveToSegments std segments (seg_Data segment)
      else Inl ''unsupported dynamic mutation'')"

end
