(* ===== verification/Dynamic_Tree.thy ===== *)
theory Dynamic_Tree
  imports Dynamic_Content
begin

text \<open>
  What the dynamic content operations guarantee: a validated tree has few, shallow and uniquely
  named nodes; each patch operation changes the nodes it names and no others; a mutation touches
  one segment of a message; and when a stored schema is read back unchanged.
\<close>

section \<open>The nodes of a tree\<close>

text \<open>The identifiers of the nodes in preorder, and the depth of the tree.\<close>

function (sequential) node_ids :: "jobject \<Rightarrow> string list"
  and child_ids :: "json list \<Rightarrow> string list" where
  "node_ids node = jstr node ''id'' # child_ids (children_of node)"
| "child_ids [] = []"
| "child_ids (rawChild # rest) =
     (case as_obj rawChild of Some child \<Rightarrow> node_ids child | None \<Rightarrow> []) @ child_ids rest"
  by pat_completeness auto
termination
  by (relation "measures [\<lambda>x. case x of Inl node \<Rightarrow> size (JObj node) | Inr xs \<Rightarrow> size (JArr xs),
                          \<lambda>x. case x of Inl _ \<Rightarrow> 1 | Inr _ \<Rightarrow> 0]")
    (use size_children in \<open>auto simp: le_less as_obj_iff\<close>)

function (sequential) node_depth :: "jobject \<Rightarrow> nat"
  and child_depth :: "json list \<Rightarrow> nat" where
  "node_depth node = child_depth (children_of node)"
| "child_depth [] = 0"
| "child_depth (rawChild # rest) =
     max (case as_obj rawChild of Some child \<Rightarrow> Suc (node_depth child) | None \<Rightarrow> 0) (child_depth rest)"
  by pat_completeness auto
termination
  by (relation "measures [\<lambda>x. case x of Inl node \<Rightarrow> size (JObj node) | Inr xs \<Rightarrow> size (JArr xs),
                          \<lambda>x. case x of Inl _ \<Rightarrow> 1 | Inr _ \<Rightarrow> 0]")
    (use size_children in \<open>auto simp: le_less as_obj_iff\<close>)

declare node_ids.simps [simp del] node_depth.simps [simp del] findDynamicNode.simps [simp del]
  validateDynamicNode.simps [simp del]

lemma child_ids_append: "child_ids (xs @ ys) = child_ids xs @ child_ids ys"
  by (induction xs) auto

section \<open>What validation guarantees\<close>

lemma validate_node_head_state:
  assumes "validate_node_head std node path depth st = Inr st'"
  shows "vs_count st' = vs_count st + 1" "vs_count st' \<le> maxDynamicNodes" "depth \<le> maxDynamicDepth"
    "vs_ids st' = jstr node ''id'' # vs_ids st" "jstr node ''id'' \<notin> set (vs_ids st)"
    "validDynamicIdentifier (jstr node ''id'')"
  using assms
  by (auto simp: validate_node_head_def Let_def split: if_splits sum.splits option.splits)

lemma children_of_get:
  "gm_get node ''children'' = None \<Longrightarrow> children_of node = []"
  "gm_get node ''children'' = Some (JArr xs) \<Longrightarrow> children_of node = xs"
  by (simp_all add: children_of_def jget_def)

lemma validate_tree:
  "validateDynamicNode std node path depth st = Inr st' \<Longrightarrow>
     vs_count st' = vs_count st + length (node_ids node) \<and> vs_count st' \<le> maxDynamicNodes
     \<and> depth + node_depth node \<le> maxDynamicDepth
     \<and> set (vs_ids st') = set (vs_ids st) \<union> set (node_ids node)
     \<and> distinct (node_ids node) \<and> set (node_ids node) \<inter> set (vs_ids st) = {}
     \<and> list_all validDynamicIdentifier (node_ids node)"
  "validate_children std xs index path depth st = Inr st' \<Longrightarrow>
     vs_count st \<le> maxDynamicNodes \<Longrightarrow> depth \<le> maxDynamicDepth \<Longrightarrow>
     vs_count st' = vs_count st + length (child_ids xs) \<and> vs_count st' \<le> maxDynamicNodes
     \<and> depth + child_depth xs \<le> maxDynamicDepth
     \<and> set (vs_ids st') = set (vs_ids st) \<union> set (child_ids xs)
     \<and> distinct (child_ids xs) \<and> set (child_ids xs) \<inter> set (vs_ids st) = {}
     \<and> list_all validDynamicIdentifier (child_ids xs)"
proof (induction std node path depth st and std xs index path depth st
    arbitrary: st' and st' rule: validateDynamicNode_validate_children.induct)
  case (1 std node path depth st)
  from 1(2) obtain st1 where head: "validate_node_head std node path depth st = Inr st1"
    by (subst (asm) validateDynamicNode.simps) (auto split: sum.splits)
  note h = validate_node_head_state [OF head]
  show ?case
  proof (cases "gm_get node ''children''")
    case None
    with 1(2) head have "st' = st1" by (simp add: validateDynamicNode.simps)
    with h children_of_get(1) [OF None] show ?thesis by (simp add: node_ids.simps node_depth.simps)
  next
    case (Some children)
    with 1(2) head obtain xs where xs: "as_arr children = Some xs" "\<not> maxDynamicChildren < length xs"
      and rest: "validate_children std xs 0 path depth st1 = Inr st'"
      by (auto simp: validateDynamicNode.simps split: option.splits if_splits)
    from 1(1) [OF head Some xs rest h(2,3)] children_of_get(2) [of node xs] Some xs(1) h
    show ?thesis by (auto simp: as_arr_iff node_ids.simps node_depth.simps)
  qed
next
  case (2 std index path depth st)
  then show ?case by simp
next
  case (3 std rawChild rest index path depth st)
  from 3(3) obtain child st1 where child: "as_obj rawChild = Some child"
    and c: "validateDynamicNode std child (path @ ''.children['' @ show_nat index @ '']'') (depth + 1) st = Inr st1"
    and r: "validate_children std rest (Suc index) path depth st1 = Inr st'"
    by (auto split: option.splits sum.splits)
  note ihc = 3(1) [OF child c]
  note ihr = 3(2) [OF child c r _ 3(5)]
  from ihc ihr child show ?case by (auto simp: as_obj_iff)
qed

lemma valid_schema_tree:
  assumes "validateDynamicSchema std schema = Inr ()"
  obtains tree where "jget schema ''tree'' = JObj tree" "distinct (node_ids tree)"
    "length (node_ids tree) \<le> maxDynamicNodes" "node_depth tree \<le> maxDynamicDepth"
    "list_all validDynamicIdentifier (node_ids tree)" "validDynamicIdentifier (jstr schema ''id'')"
proof -
  from assms obtain tree st where t: "as_obj (jget schema ''tree'') = Some tree"
    "validateDynamicNode std tree ''tree'' 0 \<lparr>vs_ids = [], vs_count = 0, vs_images = 0\<rparr> = Inr st"
    "validDynamicIdentifier (jstr schema ''id'')"
    by (auto simp: validateDynamicSchema_def split: if_splits option.splits sum.splits)
  from validate_tree(1) [OF t(2)] t(1,3) that [of tree] show ?thesis by (auto simp: as_obj_iff)
qed

section \<open>Searching and changing a tree\<close>

lemma find_node:
  "findDynamicNode node t = None \<longleftrightarrow> t \<notin> set (node_ids node)"
  "find_in_children xs index t = None \<longleftrightarrow> t \<notin> set (child_ids xs)"
proof (induction node t and xs index t rule: findDynamicNode_find_in_children.induct)
  case (1 rt t)
  then show ?case by (auto simp: findDynamicNode.simps node_ids.simps)
next
  case (3 rawChild rest index t)
  then show ?case by (auto split: option.splits)
qed simp

lemma find_node_at:
  "findDynamicNode node t = Some p \<Longrightarrow> \<exists>n. node_at p node = Some n \<and> jstr n ''id'' = t"
  "find_in_children xs index t = Some p \<Longrightarrow>
     \<exists>i q child n. p = (index + i) # q \<and> i < length xs \<and> xs ! i = JObj child
        \<and> node_at q child = Some n \<and> jstr n ''id'' = t"
proof (induction node t and xs index t arbitrary: p and p rule: findDynamicNode_find_in_children.induct)
  case (1 rt t)
  show ?case
  proof (cases "jstr rt ''id'' = t")
    case False
    with 1 have "find_in_children (children_of rt) 0 t = Some p" by (simp add: findDynamicNode.simps)
    from 1(1) [OF False this] show ?thesis by auto
  qed (use 1(2) in \<open>simp add: findDynamicNode.simps\<close>)
next
  case (3 rawChild rest index t)
  have later: "?case" if "find_in_children rest (Suc index) t = Some p"
    "\<exists>i q child n. p = (Suc index + i) # q \<and> i < length rest \<and> rest ! i = JObj child
        \<and> node_at q child = Some n \<and> jstr n ''id'' = t"
  proof -
    from that(2) obtain i q c n where "p = (Suc index + i) # q" "i < length rest"
      "rest ! i = JObj c" "node_at q c = Some n" "jstr n ''id'' = t" by blast
    then show ?thesis by (intro exI [of _ "Suc i"]) auto
  qed
  show ?case
  proof (cases "as_obj rawChild")
    case None
    with 3(4) have r: "find_in_children rest (Suc index) t = Some p" by simp
    show ?thesis by (rule later [OF r 3(1) [OF None r]])
  next
    case (Some child)
    show ?thesis
    proof (cases "findDynamicNode child t")
      case None
      with Some 3(4) have r: "find_in_children rest (Suc index) t = Some p" by simp
      show ?thesis by (rule later [OF r 3(3) [OF Some None r]])
    next
      case hit: (Some q)
      with Some 3(4) 3(2) [OF Some hit] show ?thesis by (intro exI [of _ 0]) (auto simp: as_obj_iff)
    qed
  qed
qed simp

lemma children_set_children [simp]: "children_of (set_children xs node) = xs"
  by (simp add: children_of_def set_children_def jget_def)

lemma jstr_set_children [simp]: "k \<noteq> ''children'' \<Longrightarrow> jstr (set_children xs node) k = jstr node k"
  by (simp add: set_children_def jstr_def jget_def)

text \<open>Changing the node at a path changes one contiguous part of the preorder.\<close>

lemma update_at_ids:
  "node_at p node = Some n \<Longrightarrow>
   \<exists>pre post. node_ids node = pre @ node_ids n @ post
     \<and> (\<forall>f. node_ids (update_at p f node) = pre @ node_ids (f n) @ post)"
proof (induction p arbitrary: node)
  case Nil
  then show ?case by (intro exI [of _ "[]"]) simp
next
  case (Cons i p)
  let ?xs = "children_of node"
  from Cons.prems obtain child where i: "i < length ?xs" "?xs ! i = JObj child" "node_at p child = Some n"
    by (auto split: if_splits json.splits)
  from Cons.IH [OF i(3)] obtain pre post where ih: "node_ids child = pre @ node_ids n @ post"
    "\<And>f. node_ids (update_at p f child) = pre @ node_ids (f n) @ post" by blast
  define before where "before = jstr node ''id'' # child_ids (take i ?xs)"
  define after where "after = child_ids (drop (Suc i) ?xs)"
  have xs: "?xs = take i ?xs @ ?xs ! i # drop (Suc i) ?xs" using i(1) by (rule id_take_nth_drop)
  have "node_ids node = before @ node_ids child @ after"
    by (subst node_ids.simps, subst xs) (simp add: child_ids_append i(2) before_def after_def)
  moreover have "node_ids (update_at (i # p) f node) = before @ node_ids (update_at p f child) @ after" for f
    using i by (simp add: node_ids.simps [of "set_children _ _"] upd_conv_take_nth_drop child_ids_append before_def after_def)
  ultimately show ?case using ih by (intro exI [of _ "before @ pre"] exI [of _ "post @ after"]) simp
qed

section \<open>What one patch does to the tree\<close>

lemma node_at_append:
  "node_at (p @ q) node = (case node_at p node of Some n \<Rightarrow> node_at q n | None \<Rightarrow> None)"
  by (induction p arbitrary: node) (auto split: json.splits)

lemma merge_props_ids [simp]: "node_ids (merge_props props node) = node_ids node"
  by (simp add: node_ids.simps merge_props_def children_of_def jstr_def jget_def)

text \<open>The four operations, on the identifiers of the tree in preorder.\<close>

lemma patch_update_ids:
  assumes "apply_patch std rt patch = Inr rt'" "jstr patch ''operation'' = ''update''"
  shows "node_ids rt' = node_ids rt \<and> jstr patch ''node_id'' \<in> set (node_ids rt)"
proof -
  from assms obtain p where p: "findDynamicNode rt (jstr patch ''node_id'') = Some p"
    and rt': "rt' = (case as_obj (jget patch ''props'') of
        Some props \<Rightarrow> update_at p (merge_props props) rt | None \<Rightarrow> rt)"
    by (auto simp: apply_patch_def Let_def split: option.splits)
  from find_node_at(1) [OF p] obtain n where "node_at p rt = Some n" by blast
  from update_at_ids [OF this] rt' have "node_ids rt' = node_ids rt" by (auto split: option.splits)
  moreover have "jstr patch ''node_id'' \<in> set (node_ids rt)" using p find_node(1) by (metis option.distinct(1))
  ultimately show ?thesis by simp
qed

lemma patch_replace_ids:
  assumes "apply_patch std rt patch = Inr rt'" "jstr patch ''operation'' = ''replace''"
    and "jget patch ''node'' = JObj nd"
  shows "\<exists>pre old post. node_ids rt = pre @ node_ids old @ post \<and> node_ids rt' = pre @ node_ids nd @ post
     \<and> jstr old ''id'' = jstr patch ''node_id''"
proof -
  from assms obtain p where p: "findDynamicNode rt (jstr patch ''node_id'') = Some p"
    and rt': "rt' = update_at p (\<lambda>_. nd) rt"
    by (auto simp: apply_patch_def Let_def cloneDynamicMap_def as_map_def split: option.splits)
  from find_node_at(1) [OF p] obtain n where n: "node_at p rt = Some n" "jstr n ''id'' = jstr patch ''node_id''"
    by blast
  from update_at_ids [OF n(1)] obtain pre post where "node_ids rt = pre @ node_ids n @ post"
    "node_ids (update_at p (\<lambda>_. nd) rt) = pre @ node_ids nd @ post" by blast
  with n(2) rt' show ?thesis by blast
qed

lemma patch_create_ids:
  assumes "apply_patch std rt patch = Inr rt'" "jstr patch ''operation'' = ''create''"
    and "jget patch ''node'' = JObj nd"
  shows "\<exists>pre post. node_ids rt = pre @ post \<and> node_ids rt' = pre @ node_ids nd @ post
     \<and> jstr patch ''node_id'' \<notin> set (node_ids rt)"
proof -
  define ins where "ins = (\<lambda>children. if gm_has patch ''index''
      then (let value = (case exactInt64 (jget patch ''index'') of Some v \<Rightarrow> v | None \<Rightarrow> 0)
            in if value < int (length children) then nat value else length (children :: json list))
      else length children)"
  define f where "f = (\<lambda>parent. set_children (insert_child (ins (children_of parent)) (JObj nd) (children_of parent)) parent)"
  from assms obtain p where p: "findDynamicNode rt (jstr patch ''parent_node_id'') = Some p"
    and fresh: "findDynamicNode rt (jstr patch ''node_id'') = None"
    and rt': "rt' = update_at p f rt"
    by (auto simp: apply_patch_def Let_def cloneDynamicMap_def as_map_def f_def ins_def split: option.splits if_splits)
  from find_node_at(1) [OF p] obtain n where n: "node_at p rt = Some n" by blast
  from update_at_ids [OF n(1)] obtain pre post where ids: "node_ids rt = pre @ node_ids n @ post"
    "node_ids rt' = pre @ node_ids (f n) @ post" using rt' by blast
  let ?xs = "children_of n" and ?i = "ins (children_of n)"
  have "node_ids n = (jstr n ''id'' # child_ids (take ?i ?xs)) @ child_ids (drop ?i ?xs)"
    by (simp add: node_ids.simps [of n] child_ids_append [symmetric])
  moreover have "node_ids (f n) = (jstr n ''id'' # child_ids (take ?i ?xs)) @ node_ids nd @ child_ids (drop ?i ?xs)"
    by (simp add: node_ids.simps [of "f n"]) (simp add: f_def insert_child_def child_ids_append)
  ultimately show ?thesis
    using ids fresh find_node(1)
    by (intro exI [of _ "pre @ jstr n ''id'' # child_ids (take ?i ?xs)"] exI [of _ "child_ids (drop ?i ?xs) @ post"]) simp
qed

lemma patch_remove_ids:
  assumes "apply_patch std rt patch = Inr rt'" "jstr patch ''operation'' = ''remove''"
  shows "\<exists>pre old post. node_ids rt = pre @ node_ids old @ post \<and> node_ids rt' = pre @ post
     \<and> jstr old ''id'' = jstr patch ''node_id'' \<and> pre \<noteq> []"
proof -
  define f where "f = (\<lambda>i :: nat. \<lambda>parent. set_children (remove_child i (children_of parent)) parent)"
  from assms obtain p where p: "findDynamicNode rt (jstr patch ''node_id'') = Some p" "p \<noteq> []"
    and rt': "rt' = update_at (butlast p) (f (last p)) rt"
    by (auto simp: apply_patch_def Let_def f_def split: option.splits if_splits)
  from find_node_at(1) [OF p(1)] obtain old where old: "node_at p rt = Some old" "jstr old ''id'' = jstr patch ''node_id''"
    by blast
  have "node_at (butlast p @ [last p]) rt = Some old" using old(1) p(2) by simp
  then obtain n where n: "node_at (butlast p) rt = Some n" "node_at [last p] n = Some old"
    unfolding node_at_append by (auto split: option.splits)
  let ?xs = "children_of n" and ?i = "last p"
  from n(2) have i: "?i < length ?xs" "?xs ! ?i = JObj old" by (auto split: if_splits json.splits)
  have xs: "?xs = take ?i ?xs @ ?xs ! ?i # drop (Suc ?i) ?xs" using i(1) by (rule id_take_nth_drop)
  from update_at_ids [OF n(1)] obtain pre post where ids: "node_ids rt = pre @ node_ids n @ post"
    "node_ids rt' = pre @ node_ids (f ?i n) @ post" using rt' by blast
  have "node_ids n = (jstr n ''id'' # child_ids (take ?i ?xs)) @ node_ids old @ child_ids (drop (Suc ?i) ?xs)"
    by (subst node_ids.simps, subst xs) (simp add: child_ids_append i(2))
  moreover have "node_ids (f ?i n) = (jstr n ''id'' # child_ids (take ?i ?xs)) @ child_ids (drop (Suc ?i) ?xs)"
    by (simp add: node_ids.simps [of "f _ _"]) (simp add: f_def remove_child_def child_ids_append)
  ultimately show ?thesis
    using ids old(2)
    by (intro exI [of _ "pre @ jstr n ''id'' # child_ids (take ?i ?xs)"] exI [of _ old]
        exI [of _ "child_ids (drop (Suc ?i) ?xs) @ post"]) simp
qed

section \<open>Mutations of a message's segments\<close>

definition is_content :: "go_std \<Rightarrow> string \<Rightarrow> message_segment \<Rightarrow> bool" where
  "is_content std cid segment \<longleftrightarrow> seg_Type segment = ''dynamic_content''
     \<and> (case dynamicSchemaFromData std (seg_Data segment) of
          Inl _ \<Rightarrow> False | Inr schema \<Rightarrow> jget schema ''id'' = JStr cid)"

lemma content_index_loop_spec:
  assumes "content_index_loop std cid op segs k m = Inr (Some (i, schema))"
  shows "(m = Some (i, schema) \<and> (\<forall>s \<in> set segs. \<not> is_content std cid s))
     \<or> (m = None \<and> (\<exists>j < length segs. i = k + j \<and> seg_Type (segs ! j) = ''dynamic_content''
          \<and> dynamicSchemaFromData std (seg_Data (segs ! j)) = Inr schema \<and> jget schema ''id'' = JStr cid
          \<and> (\<forall>l < length segs. is_content std cid (segs ! l) \<longleftrightarrow> l = j)))"
  using assms
proof (induction segs arbitrary: k m)
  case Nil
  then show ?case by simp
next
  case (Cons s segs)
  show ?case
  proof (cases "is_content std cid s")
    case False
    with Cons.prems have "content_index_loop std cid op segs (Suc k) m = Inr (Some (i, schema))"
      by (auto simp: is_content_def split: if_splits sum.splits)
    from Cons.IH [OF this] show ?thesis
    proof
      assume "m = None \<and> (\<exists>j<length segs. i = Suc k + j \<and> seg_Type (segs ! j) = ''dynamic_content''
          \<and> dynamicSchemaFromData std (seg_Data (segs ! j)) = Inr schema \<and> jget schema ''id'' = JStr cid
          \<and> (\<forall>l<length segs. is_content std cid (segs ! l) \<longleftrightarrow> l = j))"
      then obtain j where j: "m = None" "j < length segs" "i = Suc k + j" "seg_Type (segs ! j) = ''dynamic_content''"
        "dynamicSchemaFromData std (seg_Data (segs ! j)) = Inr schema" "jget schema ''id'' = JStr cid"
        "\<forall>l<length segs. is_content std cid (segs ! l) \<longleftrightarrow> l = j" by blast
      have "is_content std cid ((s # segs) ! l) \<longleftrightarrow> l = Suc j" if "l < length (s # segs)" for l
        using that j(7) False by (cases l) auto
      with j show ?thesis by (intro disjI2) auto
    qed (use False in auto)
  next
    case True
    then obtain sch where sch: "seg_Type s = ''dynamic_content''" "dynamicSchemaFromData std (seg_Data s) = Inr sch"
      "jget sch ''id'' = JStr cid" by (auto simp: is_content_def split: sum.splits)
    with Cons.prems have m: "m = None"
      and rest: "content_index_loop std cid op segs (Suc k) (Some (k, sch)) = Inr (Some (i, schema))"
      by (cases m; auto split: if_splits)+
    from Cons.IH [OF rest] have r: "i = k" "schema = sch" "\<forall>s\<in>set segs. \<not> is_content std cid s" by auto
    have "is_content std cid ((s # segs) ! l) \<longleftrightarrow> l = 0" if "l < length (s # segs)" for l
      using that r(3) True by (cases l) auto
    with m r sch show ?thesis by (intro disjI2) auto
  qed
qed

lemma content_index_spec:
  assumes "content_index std segs cid op = Inr (i, schema)"
  shows "i < length segs" "seg_Type (segs ! i) = ''dynamic_content''"
    "dynamicSchemaFromData std (seg_Data (segs ! i)) = Inr schema" "jget schema ''id'' = JStr cid"
    "\<forall>l < length segs. is_content std cid (segs ! l) \<longleftrightarrow> l = i"
proof -
  from assms have "content_index_loop std cid op segs 0 None = Inr (Some (i, schema))"
    by (auto simp: content_index_def split: sum.splits option.splits)
  from content_index_loop_spec [OF this]
  show "i < length segs" "seg_Type (segs ! i) = ''dynamic_content''"
    "dynamicSchemaFromData std (seg_Data (segs ! i)) = Inr schema" "jget schema ''id'' = JStr cid"
    "\<forall>l < length segs. is_content std cid (segs ! l) \<longleftrightarrow> l = i" by auto
qed

lemma apply_patches_id:
  "applyDynamicPatches std schema patches = Inr updated \<Longrightarrow> jget updated ''id'' = jget schema ''id''"
  by (auto simp: applyDynamicPatches_def cloneDynamicMap_def jget_def split: option.splits sum.splits)

text \<open>An update changes the one content it names and nothing else, and the result is valid.\<close>

lemma update_segments_spec:
  assumes "applyDynamicUpdateToSegments std segs data = Inr (segs', mid)"
  obtains i cid patches schema updated where "parseDynamicUpdateData data = Inr (mid, cid, patches)"
    "i < length segs" "\<forall>l < length segs. is_content std cid (segs ! l) \<longleftrightarrow> l = i"
    "dynamicSchemaFromData std (seg_Data (segs ! i)) = Inr schema"
    "applyDynamicPatches std schema patches = Inr updated" "validateDynamicSchema std updated = Inr ()"
    "jget updated ''id'' = JStr cid" "segs' = segs[i := DynamicContentSegment updated]"
proof -
  from assms obtain cid patches i schema updated where h: "parseDynamicUpdateData data = Inr (mid, cid, patches)"
    "content_index std segs cid ''update'' = Inr (i, schema)"
    "applyDynamicPatches std schema patches = Inr updated" "validateDynamicSchema std updated = Inr ()"
    "segs' = segs[i := DynamicContentSegment updated]"
    by (auto simp: applyDynamicUpdateToSegments_def split: sum.splits)
  note c = content_index_spec [OF h(2)]
  show ?thesis using that [OF h(1) c(1,5,3) h(3,4) _ h(5)] apply_patches_id [OF h(3)] c(4) by simp
qed

section \<open>Reading a stored schema back\<close>

text \<open>
  A schema is read back as it was stored when it has no nested \<open>content\<close> or \<open>schema\<close> that would
  be taken for the schema itself.
\<close>

definition plain_schema :: "jobject \<Rightarrow> bool" where
  "plain_schema schema \<longleftrightarrow>
     (\<forall>k \<in> {''content'', ''schema''}. as_str (jget schema k) = None \<and> as_obj (jget schema k) = None)"

lemma fill_key_self: "fill_key m m k = m"
  by (auto simp: fill_key_def gm_has_def split: option.splits)

lemma foldl_fill_self: "foldl (fill_key m) m ks = m"
  by (induction ks) (simp_all add: fill_key_self)

lemma schema_of_plain: "plain_schema m \<Longrightarrow> dynamicSchemaFromData std m = Inr m"
  by (auto simp: dynamicSchemaFromData_def nested_schema_def plain_schema_def cloneDynamicMap_def
      foldl_fill_self split: json.splits)

lemma jget_untyped: "k \<noteq> ''type'' \<Longrightarrow> jget (filter (\<lambda>(key, v). key \<noteq> ''type'') m) k = jget m k"
  by (simp add: jget_def gm_get_filter_key)

lemma get_untyped: "k \<noteq> ''type'' \<Longrightarrow> gm_get (filter (\<lambda>(key, v). key \<noteq> ''type'') m) k = gm_get m k"
  by (simp add: gm_get_filter_key)

lemma validate_untyped:
  "validateDynamicSchema std (filter (\<lambda>(key, v). key \<noteq> ''type'') m) = validateDynamicSchema std m"
proof -
  let ?u = "filter (\<lambda>(key, v). key \<noteq> ''type'') m"
  have parts: "validate_fallback ?u = validate_fallback m" "validate_metadata ?u = validate_metadata m"
    by (simp_all add: validate_fallback_def validate_metadata_def get_untyped)
  have keys: "jstr ?u ''id'' = jstr m ''id''" "jstr ?u ''version'' = jstr m ''version''"
    "jstr ?u ''source'' = jstr m ''source''" "jget ?u ''tree'' = jget m ''tree''"
    by (simp_all add: jstr_def jget_untyped)
  show ?thesis unfolding validateDynamicSchema_def keys parts ..
qed

lemma stored_schema:
  assumes "plain_schema m"
  shows "dynamicSchemaFromData std (seg_Data (DynamicContentSegment m)) =
     Inr (filter (\<lambda>(key, v). key \<noteq> ''type'') m)"
  using assms by (simp add: DynamicContentSegment_def schema_of_plain plain_schema_def jget_untyped)

lemma stored_content_valid:
  assumes "plain_schema m" "validateDynamicSchema std m = Inr ()"
    and "gs_encode_len std (seg_Data (DynamicContentSegment m)) \<le> maxDynamicContentBytes"
  shows "validateDynamicContentSegment std (DynamicContentSegment m) = Inr ()"
  using assms(2,3)
  by (simp add: validateDynamicContentSegment_def stored_schema [OF assms(1)] validate_untyped)

lemma patches_plain:
  assumes "plain_schema schema" "applyDynamicPatches std schema patches = Inr updated"
  shows "plain_schema updated"
proof -
  from assms(2) obtain rt where "updated = gm_set ''tree'' (JObj rt) schema"
    by (auto simp: applyDynamicPatches_def cloneDynamicMap_def split: option.splits sum.splits)
  with assms(1) show ?thesis by (simp add: plain_schema_def jget_def)
qed

lemma stored_plain: "plain_schema m \<Longrightarrow> plain_schema (seg_Data (DynamicContentSegment m))"
  by (simp add: DynamicContentSegment_def plain_schema_def jget_untyped)

end
