(* ===== verification/Dynamic_Capabilities.thy ===== *)
theory Dynamic_Capabilities
  imports Dynamic_Content
begin

text \<open>
  Client capabilities (\<open>internal/gateway/dynamic_capabilities.go\<close>): parsing what a client
  advertises, negotiating it with the server's, and adapting the segments of a message to what
  the receiving client supports.
\<close>

section \<open>Capability records\<close>

record dynamic_content_capabilities =
  dc_SchemaVersions :: "string list"
  dc_ComponentVersion :: string
  dc_Components :: "string list"
  dc_Events :: bool
  dc_NodeIDPatch :: bool
  dc_ContentOperations :: bool

record capabilities =
  cap_ProtocolVersion :: string
  cap_DynamicContent :: "dynamic_content_capabilities option"

definition no_capabilities :: capabilities where
  "no_capabilities = \<lparr> cap_ProtocolVersion = [], cap_DynamicContent = None \<rparr>"

definition CurrentProtocolVersion :: string where "CurrentProtocolVersion = ''1.0''"
definition CurrentDynamicComponentVersion :: string where "CurrentDynamicComponentVersion = ''1.0''"

definition CurrentServerCapabilities :: capabilities where
  "CurrentServerCapabilities =
     \<lparr> cap_ProtocolVersion = CurrentProtocolVersion,
       cap_DynamicContent = Some
         \<lparr> dc_SchemaVersions = [''1.0''], dc_ComponentVersion = CurrentDynamicComponentVersion,
           dc_Components = [], dc_Events = True, dc_NodeIDPatch = True,
           dc_ContentOperations = True \<rparr> \<rparr>"

section \<open>Decoding into a struct\<close>

text \<open>
  \<open>json.Unmarshal\<close> matches an object's key to a struct field up to case folding (for an ASCII
  field name also the long s and the Kelvin sign); the keys arrive sorted because \<open>json.Marshal\<close>
  sorts them, and the last match wins. A \<open>null\<close> leaves the field at its zero value and a value of
  another type is an error.
\<close>

definition fold_rune :: "nat \<Rightarrow> nat" where
  "fold_rune r = (if 65 \<le> r \<and> r \<le> 90 then r + 32 else if r = 383 then 115 else if r = 8490 then 107 else r)"

definition fold_key :: "string \<Rightarrow> nat list" where
  "fold_key s = map (fold_rune \<circ> fst) (rune_split s)"

definition struct_field :: "jobject \<Rightarrow> string \<Rightarrow> json" where
  "struct_field m name =
     (case rev (filter (\<lambda>(k, v). fold_key k = fold_key name) (sort_key fst m)) of
        [] \<Rightarrow> JNull
      | (k, v) # _ \<Rightarrow> v)"

fun decode_string :: "json \<Rightarrow> string option" where
  "decode_string (JStr s) = Some s"
| "decode_string JNull = Some []"
| "decode_string _ = None"

fun decode_bool :: "json \<Rightarrow> bool option" where
  "decode_bool (JBool b) = Some b"
| "decode_bool JNull = Some False"
| "decode_bool _ = None"

fun decode_strings :: "json \<Rightarrow> string list option" where
  "decode_strings JNull = Some []"
| "decode_strings (JArr xs) = those (map decode_string xs)"
| "decode_strings _ = None"

definition decode_dynamic :: "json \<Rightarrow> dynamic_content_capabilities option option" where
  "decode_dynamic v =
     (case v of
        JNull \<Rightarrow> Some None
      | JObj m \<Rightarrow>
          (case (decode_strings (struct_field m ''schema_versions''),
                 decode_string (struct_field m ''component_version''),
                 decode_strings (struct_field m ''components''),
                 decode_bool (struct_field m ''events''),
                 decode_bool (struct_field m ''node_id_patch''),
                 decode_bool (struct_field m ''content_operations'')) of
             (Some sv, Some cv, Some cs, Some ev, Some np, Some co) \<Rightarrow>
               Some (Some \<lparr> dc_SchemaVersions = sv, dc_ComponentVersion = cv, dc_Components = cs,
                            dc_Events = ev, dc_NodeIDPatch = np, dc_ContentOperations = co \<rparr>)
           | _ \<Rightarrow> None)
      | _ \<Rightarrow> None)"

definition decode_capabilities :: "jobject \<Rightarrow> capabilities option" where
  "decode_capabilities m =
     (case (decode_string (struct_field m ''protocol_version''),
            decode_dynamic (struct_field m ''dynamic_content'')) of
        (Some pv, Some dyn) \<Rightarrow> Some \<lparr> cap_ProtocolVersion = pv, cap_DynamicContent = dyn \<rparr>
      | _ \<Rightarrow> None)"

section \<open>Parsing and negotiating\<close>

definition ascii_alnum :: "char \<Rightarrow> bool" where
  "ascii_alnum c \<longleftrightarrow>
     (CHR ''a'' \<le> c \<and> c \<le> CHR ''z'') \<or> (CHR ''A'' \<le> c \<and> c \<le> CHR ''Z'') \<or> (CHR ''0'' \<le> c \<and> c \<le> CHR ''9'')"

definition validCapabilityVersion :: "string \<Rightarrow> bool" where
  "validCapabilityVersion value \<longleftrightarrow>
     value \<noteq> [] \<and> length value \<le> 32
     \<and> list_all (\<lambda>c. ascii_alnum c \<or> c = CHR ''.'' \<or> c = CHR ''-'') value"

definition validCapabilityName :: "string \<Rightarrow> bool" where
  "validCapabilityName value \<longleftrightarrow>
     value \<noteq> [] \<and> length value \<le> 64
     \<and> list_all (\<lambda>c. ascii_alnum c \<or> c = CHR ''_'' \<or> c = CHR ''-'' \<or> c = CHR ''.'' \<or> c = CHR '':'') value"

fun normalize_loop :: "nat \<Rightarrow> (string \<Rightarrow> bool) \<Rightarrow> string list \<Rightarrow> string list \<Rightarrow> string list option" where
  "normalize_loop maxBytes valid [] result = Some result"
| "normalize_loop maxBytes valid (raw # values) result =
     (let value = TrimSpace raw in
      if value = [] \<or> maxBytes < length value \<or> \<not> valid value then None
      else if value \<in> set result then normalize_loop maxBytes valid values result
      else normalize_loop maxBytes valid values (result @ [value]))"

definition normalizedCapabilityValues :: "string list \<Rightarrow> nat \<Rightarrow> (string \<Rightarrow> bool) \<Rightarrow> string list option" where
  "normalizedCapabilityValues values maxBytes valid =
     (case normalize_loop maxBytes valid values [] of
        None \<Rightarrow> None
      | Some result \<Rightarrow> if result = [] then None else Some result)"

definition parseClientCapabilities :: "go_std \<Rightarrow> json \<Rightarrow> capabilities res" where
  "parseClientCapabilities std value =
     (case value of
        JNull \<Rightarrow> Inr no_capabilities
      | JObj m \<Rightarrow>
          if 16 * 1024 < gs_encode_len std m then Inl ''capabilities are invalid''
          else
            (case decode_capabilities m of
               None \<Rightarrow> Inl ''capabilities are invalid''
             | Some caps \<Rightarrow>
                 if \<not> validCapabilityVersion (cap_ProtocolVersion caps)
                 then Inl ''protocol_version is invalid''
                 else
                   (case cap_DynamicContent caps of
                      None \<Rightarrow> Inr caps
                    | Some dynamic \<Rightarrow>
                        if dc_SchemaVersions dynamic = [] \<or> 16 < length (dc_SchemaVersions dynamic)
                        then Inl ''dynamic schema_versions are invalid''
                        else if \<not> validCapabilityVersion (dc_ComponentVersion dynamic)
                        then Inl ''dynamic component_version is invalid''
                        else if dc_Components dynamic = [] \<or> 128 < length (dc_Components dynamic)
                        then Inl ''dynamic components are invalid''
                        else
                          (case normalizedCapabilityValues (dc_SchemaVersions dynamic) 32 validCapabilityVersion of
                             None \<Rightarrow> Inl ''dynamic schema_versions are invalid''
                           | Some versions \<Rightarrow>
                               (case normalizedCapabilityValues (dc_Components dynamic) 64 validCapabilityName of
                                  None \<Rightarrow> Inl ''dynamic components are invalid''
                                | Some components \<Rightarrow>
                                    Inr (caps\<lparr>cap_DynamicContent :=
                                      Some (dynamic\<lparr>dc_SchemaVersions := versions,
                                                    dc_Components := components\<rparr>)\<rparr>)))))
      | _ \<Rightarrow> Inl ''capabilities are invalid'')"

definition intersectCapabilityValues :: "string list \<Rightarrow> string list \<Rightarrow> string list" where
  "intersectCapabilityValues left right = filter (\<lambda>v. v \<in> set right) left"

definition negotiateCapabilities :: "capabilities \<Rightarrow> capabilities" where
  "negotiateCapabilities client =
     (if cap_ProtocolVersion client \<noteq> CurrentProtocolVersion then no_capabilities
      else
        (let result = \<lparr> cap_ProtocolVersion = CurrentProtocolVersion, cap_DynamicContent = None \<rparr> in
         case cap_DynamicContent client of
           None \<Rightarrow> result
         | Some dynamic \<Rightarrow>
             if dc_ComponentVersion dynamic \<noteq> CurrentDynamicComponentVersion then result
             else
               (let schemas = intersectCapabilityValues (dc_SchemaVersions dynamic)
                      (case cap_DynamicContent CurrentServerCapabilities of
                         Some d \<Rightarrow> dc_SchemaVersions d | None \<Rightarrow> []) in
                if schemas = [] then result
                else result\<lparr>cap_DynamicContent := Some
                       \<lparr> dc_SchemaVersions = schemas,
                         dc_ComponentVersion = CurrentDynamicComponentVersion,
                         dc_Components = dc_Components dynamic,
                         dc_Events = dc_Events dynamic,
                         dc_NodeIDPatch = dc_NodeIDPatch dynamic,
                         dc_ContentOperations = dc_ContentOperations dynamic \<rparr>\<rparr>)))"

section \<open>What a client is sent\<close>

definition hasCapabilitySensitiveSegment :: "message_segment list \<Rightarrow> bool" where
  "hasCapabilitySensitiveSegment segments =
     list_ex (\<lambda>s. seg_Type s \<in> set [''dynamic_content'', ''dynamic_update'', ''dynamic_replace'',
                                   ''dynamic_remove'', ''dynamic_event'']) segments"

definition TextSegment :: "string \<Rightarrow> message_segment" where
  "TextSegment text = \<lparr> seg_Type = ''text'', seg_Data = [(''text'', JStr text)] \<rparr>"

text \<open>The UTF-8 bytes of the fallback text.\<close>

definition dynamicUpgradeFallback :: string where
  "dynamicUpgradeFallback = map (char_of :: nat \<Rightarrow> char) [230, 173, 164, 229, 134, 133, 229, 174, 185, 233, 156, 128, 232, 166, 129, 229, 141, 135, 231, 186, 167, 229, 174, 162, 230, 136, 183, 231, 171, 175, 229, 144, 142, 230, 159, 165, 231, 156, 139]"

function (sequential) dynamicTreeUsesOnlyComponents :: "json \<Rightarrow> string list \<Rightarrow> bool"
  and children_use_only :: "json list \<Rightarrow> string list \<Rightarrow> bool" where
  "dynamicTreeUsesOnlyComponents value components =
     (case as_obj value of
        None \<Rightarrow> False
      | Some node \<Rightarrow>
          if jstr node ''type'' \<notin> set components then False
          else children_use_only (children_of node) components)"
| "children_use_only [] components = True"
| "children_use_only (child # rest) components =
     (if \<not> dynamicTreeUsesOnlyComponents child components then False
      else children_use_only rest components)"
  by pat_completeness auto
termination
  by (relation "measures [\<lambda>x. case x of Inl (v, _) \<Rightarrow> size v | Inr (xs, _) \<Rightarrow> size (JArr xs),
                          \<lambda>x. case x of Inl _ \<Rightarrow> 1 | Inr _ \<Rightarrow> 0]")
    (use size_children in \<open>auto simp: le_less as_obj_iff\<close>)

definition supportsDynamicContentSegment ::
  "go_std \<Rightarrow> dynamic_content_capabilities option \<Rightarrow> message_segment \<Rightarrow> bool" where
  "supportsDynamicContentSegment std caps segment =
     (case caps of
        None \<Rightarrow> False
      | Some c \<Rightarrow>
          (case dynamicSchemaFromData std (seg_Data segment) of
             Inl _ \<Rightarrow> False
           | Inr schema \<Rightarrow>
               jstr schema ''version'' \<in> set (dc_SchemaVersions c)
               \<and> dc_ComponentVersion c = CurrentDynamicComponentVersion
               \<and> dynamicTreeUsesOnlyComponents (jget schema ''tree'') (dc_Components c)))"

definition dynamicFallbackSegment :: "go_std \<Rightarrow> message_segment \<Rightarrow> message_segment" where
  "dynamicFallbackSegment std segment =
     TextSegment
       (case dynamicSchemaFromData std (seg_Data segment) of
          Inl _ \<Rightarrow> dynamicUpgradeFallback
        | Inr schema \<Rightarrow>
            (case as_obj (jget schema ''fallback'') of
               None \<Rightarrow> dynamicUpgradeFallback
             | Some fallback \<Rightarrow>
                 (case as_str (jget fallback ''content'') of
                    None \<Rightarrow> dynamicUpgradeFallback
                  | Some content \<Rightarrow> if TrimSpace content \<noteq> [] then content else dynamicUpgradeFallback)))"

definition dynamicReplacementSegment :: "go_std \<Rightarrow> message_segment \<Rightarrow> message_segment res" where
  "dynamicReplacementSegment std segment =
     (case parseDynamicReplaceData std (seg_Data segment) of
        Inl e \<Rightarrow> Inl e
      | Inr (_, _, content) \<Rightarrow> Inr (DynamicContentSegment content))"

text \<open>One segment of the loop: \<open>None\<close> means the event is not delivered.\<close>

definition segment_for_client :: "go_std \<Rightarrow> capabilities \<Rightarrow> message_segment \<Rightarrow> message_segment option" where
  "segment_for_client std caps segment =
     (let dynamic = cap_DynamicContent caps;
          allows = (\<lambda>f. case dynamic of None \<Rightarrow> False | Some d \<Rightarrow> f d) in
      if seg_Type segment = ''dynamic_content''
      then Some (if supportsDynamicContentSegment std dynamic segment then segment
                 else dynamicFallbackSegment std segment)
      else if seg_Type segment = ''dynamic_update''
      then (if \<not> allows dc_NodeIDPatch then None else Some segment)
      else if seg_Type segment = ''dynamic_replace''
      then (if \<not> allows dc_ContentOperations then None
            else
              (case dynamicReplacementSegment std segment of
                 Inl _ \<Rightarrow> None
               | Inr replacement \<Rightarrow>
                   if supportsDynamicContentSegment std dynamic replacement then Some segment else None))
      else if seg_Type segment = ''dynamic_remove''
      then (if \<not> allows dc_ContentOperations then None else Some segment)
      else if seg_Type segment = ''dynamic_event''
      then (if \<not> allows dc_Events then None else Some segment)
      else Some segment)"

definition segmentsForClient ::
  "go_std \<Rightarrow> capabilities \<Rightarrow> message_segment list \<Rightarrow> message_segment list option" where
  "segmentsForClient std caps segments =
     (if \<not> hasCapabilitySensitiveSegment segments then Some segments
      else those (map (segment_for_client std caps) segments))"

section \<open>What negotiation and delivery guarantee\<close>

lemma negotiate_idempotent: "negotiateCapabilities (negotiateCapabilities c) = negotiateCapabilities c"
  by (auto simp: negotiateCapabilities_def Let_def no_capabilities_def CurrentProtocolVersion_def
      intersectCapabilityValues_def split: option.splits)

lemma normalize_loop_spec:
  "normalize_loop n valid vs acc = Some out \<Longrightarrow> distinct acc \<Longrightarrow>
     list_all (\<lambda>v. v \<noteq> [] \<and> length v \<le> n \<and> valid v) acc \<Longrightarrow>
     distinct out \<and> list_all (\<lambda>v. v \<noteq> [] \<and> length v \<le> n \<and> valid v) out
     \<and> set out = set acc \<union> TrimSpace ` set vs"
  by (induction n valid vs acc rule: normalize_loop.induct)
    (auto simp: Let_def split: if_splits)

lemma those_map_nth:
  "those (map f xs) = Some ys \<Longrightarrow> length ys = length xs \<and> (\<forall>i < length xs. f (xs ! i) = Some (ys ! i))"
proof (induction xs arbitrary: ys)
  case (Cons x xs)
  then obtain z zs where "f x = Some z" "those (map f xs) = Some zs" "ys = z # zs"
    by (auto split: option.splits)
  with Cons.IH [of zs] show ?case by (auto simp: nth_Cons split: nat.splits)
qed simp

lemma segmentsForClient_nth:
  assumes "segmentsForClient std caps segs = Some out"
  shows "length out = length segs"
    and "i < length segs \<Longrightarrow> segment_for_client std caps (segs ! i) = Some (out ! i)"
proof -
  have plain: "segment_for_client std caps s = Some s"
    if "\<not> hasCapabilitySensitiveSegment segs" "s \<in> set segs" for s
    using that by (auto simp: hasCapabilitySensitiveSegment_def list_ex_iff segment_for_client_def Let_def)
  show "length out = length segs" "i < length segs \<Longrightarrow> segment_for_client std caps (segs ! i) = Some (out ! i)"
    using assms plain those_map_nth [of "segment_for_client std caps" segs out]
    by (auto simp: segmentsForClient_def split: if_splits)
qed

text \<open>A delivered segment is one the client's capabilities cover.\<close>

definition covered :: "go_std \<Rightarrow> capabilities \<Rightarrow> message_segment \<Rightarrow> bool" where
  "covered std caps s =
     (case cap_DynamicContent caps of
        None \<Rightarrow> seg_Type s \<notin> set [''dynamic_content'', ''dynamic_update'', ''dynamic_replace'',
                                   ''dynamic_remove'', ''dynamic_event'']
      | Some d \<Rightarrow>
          (seg_Type s = ''dynamic_content'' \<longrightarrow> supportsDynamicContentSegment std (Some d) s)
          \<and> (seg_Type s = ''dynamic_update'' \<longrightarrow> dc_NodeIDPatch d)
          \<and> (seg_Type s \<in> {''dynamic_replace'', ''dynamic_remove''} \<longrightarrow> dc_ContentOperations d)
          \<and> (seg_Type s = ''dynamic_event'' \<longrightarrow> dc_Events d))"

lemma segment_for_client_same:
  assumes "segment_for_client std caps s = Some t" "seg_Type s \<noteq> ''dynamic_content''"
  shows "t = s"
proof -
  have "segment_for_client std caps s = None \<or> segment_for_client std caps s = Some s"
    unfolding segment_for_client_def Let_def using assms(2)
    by (simp split: if_split sum.split)
  with assms(1) show ?thesis by auto
qed

lemma segment_for_client_covered:
  assumes "segment_for_client std caps s = Some t"
  shows "covered std caps t"
proof (cases "seg_Type s = ''dynamic_content''")
  case True
  with assms consider "t = s" "supportsDynamicContentSegment std (cap_DynamicContent caps) s"
    | "t = dynamicFallbackSegment std s"
    by (auto simp: segment_for_client_def Let_def split: if_splits)
  then show ?thesis
  proof cases
    case 1
    with True show ?thesis
      by (cases "cap_DynamicContent caps") (simp_all add: covered_def supportsDynamicContentSegment_def)
  next
    case 2
    then have "seg_Type t = ''text''" by (simp add: dynamicFallbackSegment_def TextSegment_def)
    then show ?thesis by (cases "cap_DynamicContent caps") (simp_all add: covered_def)
  qed
next
  case False
  then have t: "t = s" by (rule segment_for_client_same [OF assms])
  show ?thesis
  proof (cases "cap_DynamicContent caps")
    case None
    with assms False t show ?thesis
      unfolding covered_def segment_for_client_def Let_def by (simp split: if_split_asm)
  next
    case (Some d)
    have "seg_Type s = ''dynamic_update'' \<Longrightarrow> dc_NodeIDPatch d"
      "seg_Type s = ''dynamic_replace'' \<Longrightarrow> dc_ContentOperations d"
      "seg_Type s = ''dynamic_remove'' \<Longrightarrow> dc_ContentOperations d"
      "seg_Type s = ''dynamic_event'' \<Longrightarrow> dc_Events d"
      using assms Some by (simp_all add: segment_for_client_def split: if_split_asm)
    with False t Some show ?thesis by (auto simp: covered_def)
  qed
qed

text \<open>The lists of parsed capabilities are duplicate-free, bounded and valid.\<close>

lemma normalized_values:
  assumes "normalizedCapabilityValues vs n valid = Some out"
  shows "distinct out" "out \<noteq> []" "list_all valid out" "length out \<le> length vs"
proof -
  from assms have o: "normalize_loop n valid vs [] = Some out" "out \<noteq> []"
    by (auto simp: normalizedCapabilityValues_def split: option.splits if_splits)
  from normalize_loop_spec [OF o(1)] have "distinct out" "list_all valid out" "set out = TrimSpace ` set vs"
    by (auto simp: list_all_iff)
  moreover have "card (TrimSpace ` set vs) \<le> length vs"
    by (metis card_image_le card_length finite_set order_trans)
  ultimately show "distinct out" "out \<noteq> []" "list_all valid out" "length out \<le> length vs"
    using o(2) by (simp_all add: distinct_card [symmetric])
qed

lemma parsed_capabilities:
  assumes "parseClientCapabilities std v = Inr caps" "cap_DynamicContent caps = Some c"
  shows "distinct (dc_SchemaVersions c)" "distinct (dc_Components c)" "dc_Components c \<noteq> []"
    "length (dc_Components c) \<le> 128" "list_all validCapabilityName (dc_Components c)"
proof -
  from assms obtain d versions components where
    n: "normalizedCapabilityValues (dc_SchemaVersions d) 32 validCapabilityVersion = Some versions"
      "normalizedCapabilityValues (dc_Components d) 64 validCapabilityName = Some components"
    and l: "length (dc_Components d) \<le> 128"
    and c: "c = d\<lparr>dc_SchemaVersions := versions, dc_Components := components\<rparr>"
    by (auto simp: parseClientCapabilities_def no_capabilities_def
        split: json.splits if_splits option.splits)
  show "distinct (dc_SchemaVersions c)" "distinct (dc_Components c)" "dc_Components c \<noteq> []"
    "length (dc_Components c) \<le> 128" "list_all validCapabilityName (dc_Components c)"
    using normalized_values [OF n(1)] normalized_values [OF n(2)] l c by simp_all
qed

lemma distinct_filter_single: "distinct xs \<Longrightarrow> filter (\<lambda>v. v = a) xs \<noteq> [] \<Longrightarrow> filter (\<lambda>v. v = a) xs = [a]"
  by (induction xs) (auto simp: filter_empty_conv split: if_splits)

end
