(* ===== verification/Go_Float.thy ===== *)
theory Go_Float
  imports Prelude "HOL-Library.Log_Nat"
begin

text \<open>
  Go's \<open>float64\<close> arithmetic on finite values, as rational numbers with the rounding of every
  operation written out, and the error of one rounding.
\<close>

section \<open>Rounding\<close>

text \<open>
  A \<open>float64\<close> operation is the exact one rounded to 53 significant bits, half to even. The smallest
  exponent is that of the subnormal numbers.
\<close>

definition round_even :: "rat \<Rightarrow> int" where
  "round_even r =
     (let f = \<lfloor>r\<rfloor>; d = r - of_int f in
      if d < 1 / 2 then f else if 1 / 2 < d then f + 1 else if even f then f else f + 1)"

definition bit_length :: "int \<Rightarrow> int" where
  "bit_length n = int (floorlog 2 (nat n))"

definition float_exponent :: "rat \<Rightarrow> int" where
  "float_exponent r =
     (case quotient_of \<bar>r\<bar> of
        (p, q) \<Rightarrow>
          (let e = bit_length p - bit_length q - 53
           in max (if 2 ^ 53 \<le> \<bar>r\<bar> * 2 powi (- e) then e + 1 else e) (- 1074)))"

definition float64 :: "rat \<Rightarrow> rat" where
  "float64 r =
     (if r = 0 then 0
      else (let e = float_exponent r in of_int (round_even (r * 2 powi (- e))) * 2 powi e))"

section \<open>The error of a rounding\<close>

lemma round_even_error: "\<bar>of_int (round_even r) - r\<bar> \<le> 1 / 2"
proof -
  have "of_int \<lfloor>r\<rfloor> \<le> r" "r < of_int \<lfloor>r\<rfloor> + 1" by linarith+
  then show ?thesis by (auto simp: round_even_def Let_def abs_le_iff)
qed

lemma round_even_le: "r \<le> of_int z \<Longrightarrow> round_even r \<le> z"
proof -
  assume le: "r \<le> of_int z"
  show ?thesis
  proof (cases "r = of_int z")
    case False
    with le have "\<lfloor>r\<rfloor> < z" by (simp add: floor_less_iff)
    then show ?thesis by (simp add: round_even_def Let_def)
  qed (simp add: round_even_def)
qed

lemma round_even_nonneg: "0 \<le> r \<Longrightarrow> 0 \<le> round_even r"
  by (simp add: round_even_def Let_def)

lemma bit_length_bounds:
  assumes "0 < n"
  shows "2 powi (bit_length n - 1) \<le> (of_int n :: rat)" "of_int n < (2 powi bit_length n :: rat)"
proof -
  define k where "k = floorlog 2 (nat n)"
  have k: "0 < k" "2 ^ (k - 1) \<le> nat n" "nat n < 2 ^ k"
    using floorlog_bounds [of "nat n" 2] assms by (simp_all add: k_def floorlog_def)
  have up: "n < 2 ^ k" using k(3) assms by (simp add: nat_less_iff)
  have "int (2 ^ (k - 1)) \<le> int (nat n)" using k(2) of_nat_le_iff by blast
  then have lo: "2 ^ (k - 1) \<le> n" using assms by simp
  have "(of_int (2 ^ (k - 1)) :: rat) \<le> of_int n" using lo of_int_le_iff by blast
  moreover have "bit_length n - 1 = int (k - 1)" using k(1) by (simp add: bit_length_def k_def)
  ultimately show "2 powi (bit_length n - 1) \<le> (of_int n :: rat)" by (simp add: power_int_of_nat)
  have "(of_int n :: rat) < of_int (2 ^ k)" using up of_int_less_iff by blast
  then show "of_int n < (2 powi bit_length n :: rat)" by (simp add: bit_length_def k_def)
qed

lemma bit_length_mono: "m \<le> n \<Longrightarrow> bit_length m \<le> bit_length n"
  by (simp add: bit_length_def floorlog_mono nat_mono)

text \<open>A rational is at least \<open>2 ^ 52\<close> units of its own exponent, unless it is subnormal.\<close>

lemma quotient_bounds:
  assumes "0 < (r::rat)" "quotient_of r = (p, q)"
  shows "2 powi (bit_length p - bit_length q - 1) \<le> r" "0 < p" "0 < q" "r = of_int p / of_int q"
proof -
  show r: "r = of_int p / of_int q" using quotient_of_div assms(2) by blast
  show q: "0 < q" using quotient_of_denom_pos assms(2) by blast
  show p: "0 < p" using r q assms(1) by (simp add: zero_less_divide_iff)
  have "2 powi (bit_length p - bit_length q - 1) * of_int q \<le> 2 powi (bit_length p - bit_length q - 1) * (2 powi bit_length q :: rat)"
    using bit_length_bounds(2) [OF q] by (intro mult_left_mono) simp_all
  also have "\<dots> = 2 powi (bit_length p - 1)" by (simp add: power_int_diff)
  also have "\<dots> \<le> of_int p" by (rule bit_length_bounds(1) [OF p])
  finally show "2 powi (bit_length p - bit_length q - 1) \<le> r" using q by (simp add: r field_simps)
qed

lemma float_exponent_le:
  assumes "0 < r" "2 powi (- 1022) \<le> r"
  shows "2 ^ 52 * 2 powi float_exponent r \<le> r"
proof -
  obtain p q where pq: "quotient_of r = (p, q)" by fastforce
  define e where "e = bit_length p - bit_length q - 53"
  have lo: "2 powi (e + 52) \<le> r" using quotient_bounds(1) [OF assms(1) pq] by (simp add: e_def)
  have split: "2 ^ 52 * (2::rat) powi k = 2 powi (k + 52)" for k by (simp add: power_int_add)
  have fe: "float_exponent r = max (if 2 ^ 53 \<le> r * 2 powi (- e) then e + 1 else e) (- 1074)"
    using pq assms(1) by (simp add: float_exponent_def e_def Let_def)
  have up: "2 powi (e + 1 + 52) \<le> r" if "2 ^ 53 \<le> r * 2 powi (- e)"
  proof -
    have "2 ^ 53 * (2::rat) powi e \<le> r * 2 powi (- e) * 2 powi e" using that by (intro mult_right_mono) simp_all
    also have "\<dots> = r" by (simp add: power_int_minus)
    finally show ?thesis by (simp add: power_int_add)
  qed
  show ?thesis unfolding fe split using lo up assms(2) by (auto simp: max_def algebra_simps)
qed

lemma float64_error:
  assumes "0 < r" "2 powi (- 1022) \<le> r"
  shows "\<bar>float64 r - r\<bar> \<le> r / 2 ^ 53"
proof -
  define e where "e = float_exponent r"
  have "\<bar>of_int (round_even (r * 2 powi (- e))) - r * 2 powi (- e)\<bar> * 2 powi e \<le> 1 / 2 * (2::rat) powi e"
    by (intro mult_right_mono round_even_error) simp
  moreover have "\<bar>of_int (round_even (r * 2 powi (- e))) - r * 2 powi (- e)\<bar> * 2 powi e = \<bar>float64 r - r\<bar>"
  proof -
    have "r = r * 2 powi (- e) * 2 powi e" by (simp add: power_int_minus)
    then have "float64 r - r = (of_int (round_even (r * 2 powi (- e))) - r * 2 powi (- e)) * 2 powi e"
      using assms(1) by (simp add: float64_def e_def [symmetric] Let_def left_diff_distrib)
    then show ?thesis by (simp add: abs_mult)
  qed
  ultimately have "\<bar>float64 r - r\<bar> \<le> 1 / 2 * 2 powi e" by linarith
  then show ?thesis using float_exponent_le [OF assms] by (simp add: e_def)
qed

text \<open>Rounding keeps the unit interval.\<close>

lemma float64_unit:
  assumes "0 \<le> r" "r \<le> 1"
  shows "0 \<le> float64 r" "float64 r \<le> 1"
proof -
  define e where "e = float_exponent r"
  show "0 \<le> float64 r"
    using assms(1) round_even_nonneg [of "r * 2 powi (- e)"] by (simp add: float64_def e_def [symmetric] Let_def)
  show "float64 r \<le> 1"
  proof (cases "r = 0")
    case False
    obtain p q where pq: "quotient_of r = (p, q)" by fastforce
    have r: "0 < r" using assms False by simp
    have "(of_int p :: rat) \<le> of_int q"
      using quotient_bounds(3,4) [OF r pq] assms(2) by (simp only: divide_le_eq_1_pos of_int_0_less_iff)
    then have "bit_length p \<le> bit_length q" by (intro bit_length_mono) simp
    then have "e \<le> 0" using pq r by (auto simp: e_def float_exponent_def Let_def)
    then have i: "2 powi (- e) = (of_int (2 ^ nat (- e)) :: rat)" by (simp add: power_int_def)
    have "round_even (r * 2 powi (- e)) \<le> 2 ^ nat (- e)"
      using assms(2) by (intro round_even_le) (simp add: i mult_left_le_one_le assms(1))
    then have "of_int (round_even (r * 2 powi (- e))) \<le> (2 powi (- e) :: rat)" unfolding i of_int_le_iff .
    then have "of_int (round_even (r * 2 powi (- e))) * 2 powi e \<le> (2 powi (- e) * 2 powi e :: rat)"
      by (intro mult_right_mono) simp_all
    then show ?thesis using False by (simp add: float64_def e_def [symmetric] Let_def power_int_minus)
  qed (simp add: float64_def)
qed

end
