(* ===== verification/Dynamic_Interaction.thy ===== *)
theory Dynamic_Interaction
  imports Dynamic_Capabilities Store_Messages Go_Float "HOL-Library.Monad_Syntax"
begin

text \<open>
  The interaction engine of dynamic content (\<open>internal/gateway/dynamic_interaction.go\<close>): the
  configuration a schema carries, the policy that admits events, the reducers that compute a card's
  state from its event ledger, and the projection of that state into the card's tree.
\<close>

section \<open>Values\<close>

text \<open>\<open>fmt.Sprintf("%.0f%%", v)\<close>\<close>

definition percent_text :: "rat \<Rightarrow> string" where
  "percent_text v = show_int (round_even v) @ ''%''"

text \<open>\<open>reflect.DeepEqual\<close> on decoded values: maps are compared without regard to order.\<close>

fun json_equal :: "json \<Rightarrow> json \<Rightarrow> bool"
  and items_equal :: "json list \<Rightarrow> json list \<Rightarrow> bool"
  and entries_equal :: "(string \<times> json) list \<Rightarrow> jobject \<Rightarrow> bool" where
  "json_equal (JArr xs) w = (case w of JArr ys \<Rightarrow> items_equal xs ys | _ \<Rightarrow> False)"
| "json_equal (JObj m) w =
     (case w of JObj n \<Rightarrow> entries_equal m n \<and> list_all (\<lambda>(k, _). gm_has m k) n | _ \<Rightarrow> False)"
| "json_equal v w = (v = w)"
| "items_equal [] ys = (ys = [])"
| "items_equal (x # xs) ys = (case ys of [] \<Rightarrow> False | y # zs \<Rightarrow> json_equal x y \<and> items_equal xs zs)"
| "entries_equal [] n = True"
| "entries_equal ((k, v) # m) n =
     ((case gm_get n k of None \<Rightarrow> False | Some w \<Rightarrow> json_equal v w) \<and> entries_equal m n)"

text \<open>
  What this part takes from the standard library beyond \<open>go_std\<close>: lower case of a text,
  \<open>strconv.ParseFloat\<close> (on texts of finite numbers), and formatting two integers.
\<close>

record go_text =
  gt_ToLower :: "string \<Rightarrow> string"
  gt_ParseFloat :: "string \<Rightarrow> rat option"
  gt_Sprintf :: "string \<Rightarrow> int \<Rightarrow> int \<Rightarrow> string"

section \<open>Configuration\<close>

text \<open>The structs of \<open>internal/protocol/protocol.go\<close>; a pointer is an option.\<close>

record interaction_policy =
  ip_Response :: string
  ip_AllowChange :: "bool option"
  ip_Visibility :: string
  ip_ExpiresAtMS :: int
  ip_Audience :: "string list"
  ip_AllowAgent :: bool
  ip_MaxResponsesPerActor :: int
  ip_Total :: int
  ip_Quorum :: int
  ip_Veto :: "bool option"
  ip_InitialState :: string
  ip_Transitions :: "(string, string list) gomap"

record interaction_routing =
  ir_Fairy :: string
  ir_Handler :: string
  ir_Threshold :: int

record interaction_projection =
  ij_ProgressNodeID :: string
  ij_StatusNodeID :: string
  ij_ProgressText :: string

record interaction_wire =
  iw_Version :: string
  iw_Kind :: string
  iw_Reducer :: string
  iw_Policy :: interaction_policy
  iw_Routing :: interaction_routing
  iw_Projection :: interaction_projection
  iw_Total :: int
  iw_AllowChange :: "bool option"
  iw_CloseOnResponse :: "bool option"
  iw_ProgressNodeID :: string
  iw_StatusNodeID :: string
  iw_ProgressText :: string

record interaction_config =
  ic_wire :: interaction_wire
  ic_reducer :: string
  ic_kind :: string
  ic_response :: string
  ic_allowChange :: bool
  ic_visibility :: string
  ic_total :: int
  ic_quorum :: int
  ic_veto :: bool
  ic_fairyRoute :: string
  ic_fairyThreshold :: int
  ic_progressNodeID :: string
  ic_statusNodeID :: string
  ic_progressText :: string
  ic_legacyCloseOnResponse :: bool

text \<open>
  \<open>json.Unmarshal\<close> into these structs. An integer field takes an integral number of 64 bits, a
  pointer stays nil on \<open>null\<close>, a nested struct takes an object or \<open>null\<close>.
\<close>

fun decode_int :: "json \<Rightarrow> int option" where
  "decode_int JNull = Some 0"
| "decode_int (JNum r) =
     (if r = of_int (trunc_rat r) \<and> - (2 ^ 63) \<le> r \<and> r < 2 ^ 63 then Some (trunc_rat r) else None)"
| "decode_int _ = None"

fun decode_bool_ptr :: "json \<Rightarrow> bool option option" where
  "decode_bool_ptr JNull = Some None"
| "decode_bool_ptr (JBool b) = Some (Some b)"
| "decode_bool_ptr _ = None"

fun decode_transitions :: "json \<Rightarrow> (string, string list) gomap option" where
  "decode_transitions JNull = Some []"
| "decode_transitions (JObj m) = those (map (\<lambda>(k, v). map_option (Pair k) (decode_strings v)) m)"
| "decode_transitions _ = None"

fun decode_struct :: "json \<Rightarrow> jobject option" where
  "decode_struct JNull = Some []"
| "decode_struct (JObj m) = Some m"
| "decode_struct _ = None"

definition decode_policy :: "json \<Rightarrow> interaction_policy option" where
  "decode_policy v = do {
     m \<leftarrow> decode_struct v;
     response \<leftarrow> decode_string (struct_field m ''response'');
     allowChange \<leftarrow> decode_bool_ptr (struct_field m ''allow_change'');
     visibility \<leftarrow> decode_string (struct_field m ''visibility'');
     expiresAt \<leftarrow> decode_int (struct_field m ''expires_at_ms'');
     audience \<leftarrow> decode_strings (struct_field m ''audience'');
     allowAgent \<leftarrow> decode_bool (struct_field m ''allow_agent'');
     maxResponses \<leftarrow> decode_int (struct_field m ''max_responses_per_actor'');
     total \<leftarrow> decode_int (struct_field m ''total'');
     quorum \<leftarrow> decode_int (struct_field m ''quorum'');
     veto \<leftarrow> decode_bool_ptr (struct_field m ''veto'');
     initial \<leftarrow> decode_string (struct_field m ''initial_state'');
     transitions \<leftarrow> decode_transitions (struct_field m ''transitions'');
     Some \<lparr> ip_Response = response, ip_AllowChange = allowChange, ip_Visibility = visibility,
            ip_ExpiresAtMS = expiresAt, ip_Audience = audience, ip_AllowAgent = allowAgent,
            ip_MaxResponsesPerActor = maxResponses, ip_Total = total, ip_Quorum = quorum, ip_Veto = veto,
            ip_InitialState = initial, ip_Transitions = transitions \<rparr> }"

definition decode_routing :: "json \<Rightarrow> interaction_routing option" where
  "decode_routing v = do {
     m \<leftarrow> decode_struct v;
     fairy \<leftarrow> decode_string (struct_field m ''fairy'');
     handler \<leftarrow> decode_string (struct_field m ''handler'');
     threshold \<leftarrow> decode_int (struct_field m ''threshold'');
     Some \<lparr> ir_Fairy = fairy, ir_Handler = handler, ir_Threshold = threshold \<rparr> }"

definition decode_projection :: "json \<Rightarrow> interaction_projection option" where
  "decode_projection v = do {
     m \<leftarrow> decode_struct v;
     progress \<leftarrow> decode_string (struct_field m ''progress_node_id'');
     status \<leftarrow> decode_string (struct_field m ''status_node_id'');
     progress_text \<leftarrow> decode_string (struct_field m ''progress_text'');
     Some \<lparr> ij_ProgressNodeID = progress, ij_StatusNodeID = status, ij_ProgressText = progress_text \<rparr> }"

definition decode_wire :: "jobject \<Rightarrow> interaction_wire option" where
  "decode_wire m = do {
     version \<leftarrow> decode_string (struct_field m ''version'');
     kind \<leftarrow> decode_string (struct_field m ''kind'');
     reducer \<leftarrow> decode_string (struct_field m ''reducer'');
     policy \<leftarrow> decode_policy (struct_field m ''policy'');
     routing \<leftarrow> decode_routing (struct_field m ''routing'');
     projection \<leftarrow> decode_projection (struct_field m ''projection'');
     total \<leftarrow> decode_int (struct_field m ''total'');
     allowChange \<leftarrow> decode_bool_ptr (struct_field m ''allow_change'');
     closeOnResponse \<leftarrow> decode_bool_ptr (struct_field m ''close_on_response'');
     progress \<leftarrow> decode_string (struct_field m ''progress_node_id'');
     status \<leftarrow> decode_string (struct_field m ''status_node_id'');
     progress_text \<leftarrow> decode_string (struct_field m ''progress_text'');
     Some \<lparr> iw_Version = version, iw_Kind = kind, iw_Reducer = reducer, iw_Policy = policy,
            iw_Routing = routing, iw_Projection = projection, iw_Total = total, iw_AllowChange = allowChange,
            iw_CloseOnResponse = closeOnResponse, iw_ProgressNodeID = progress, iw_StatusNodeID = status,
            iw_ProgressText = progress_text \<rparr> }"

definition zero_policy :: interaction_policy where
  "zero_policy = \<lparr> ip_Response = [], ip_AllowChange = None, ip_Visibility = [], ip_ExpiresAtMS = 0,
     ip_Audience = [], ip_AllowAgent = False, ip_MaxResponsesPerActor = 0, ip_Total = 0, ip_Quorum = 0,
     ip_Veto = None, ip_InitialState = [], ip_Transitions = [] \<rparr>"

definition zero_wire :: interaction_wire where
  "zero_wire = \<lparr> iw_Version = [], iw_Kind = [], iw_Reducer = [], iw_Policy = zero_policy,
     iw_Routing = \<lparr> ir_Fairy = [], ir_Handler = [], ir_Threshold = 0 \<rparr>,
     iw_Projection = \<lparr> ij_ProgressNodeID = [], ij_StatusNodeID = [], ij_ProgressText = [] \<rparr>,
     iw_Total = 0, iw_AllowChange = None, iw_CloseOnResponse = None, iw_ProgressNodeID = [],
     iw_StatusNodeID = [], iw_ProgressText = [] \<rparr>"

definition defaultDynamicInteractionConfig :: interaction_config where
  "defaultDynamicInteractionConfig =
     \<lparr> ic_wire = zero_wire, ic_reducer = ''none'', ic_kind = [], ic_response = ''many'', ic_allowChange = True,
       ic_visibility = ''public_aggregate'', ic_total = 0, ic_quorum = 0, ic_veto = True, ic_fairyRoute = [],
       ic_fairyThreshold = 0, ic_progressNodeID = [], ic_statusNodeID = [], ic_progressText = [],
       ic_legacyCloseOnResponse = False \<rparr>"

definition legacyDynamicReducer :: "string \<Rightarrow> string" where
  "legacyDynamicReducer kind =
     (if kind \<in> {''vote'', ''read'', ''ack''} then ''set_by_actor''
      else if kind = ''approval'' then ''approval_quorum''
      else ''none'')"

definition reducer_names :: "string list" where
  "reducer_names = [''set_by_actor'', ''append'', ''counter'', ''checklist'', ''form'', ''approval_quorum'',
     ''state_machine'', ''none'']"

definition or_else :: "string \<Rightarrow> string \<Rightarrow> string" where
  "or_else v fallback = (if v = [] then fallback else v)"

definition parseDynamicInteractionConfig ::
  "go_std \<Rightarrow> go_text \<Rightarrow> jobject \<Rightarrow> (interaction_config \<times> bool) res" where
  "parseDynamicInteractionConfig std gt schema =
     (let clean = (\<lambda>v. gt_ToLower gt (TrimSpace v)) in
      case as_obj (jget (as_map (jget schema ''metadata'')) ''interaction'') of
        None \<Rightarrow> Inr (defaultDynamicInteractionConfig, False)
      | Some raw \<Rightarrow>
          (case decode_wire raw of
             None \<Rightarrow> Inl ''dynamic interaction config is invalid''
           | Some wire \<Rightarrow>
               (let policy = iw_Policy wire; kind = clean (iw_Kind wire);
                    reducer = or_else (clean (iw_Reducer wire)) (legacyDynamicReducer kind);
                    response = or_else (clean (ip_Response policy))
                      (if reducer \<in> {''append'', ''counter'', ''state_machine'', ''none''} then ''many'' else ''once'');
                    visibility = or_else (clean (ip_Visibility policy)) ''public_aggregate'';
                    route = clean (ir_Fairy (iw_Routing wire)) in
                if reducer \<notin> set reducer_names
                then Inl (''dynamic interaction reducer '' @ gs_quote std reducer @ '' is not supported'')
                else if response \<noteq> ''once'' \<and> response \<noteq> ''many''
                then Inl ''dynamic interaction response policy is invalid''
                else if visibility \<notin> {''public_aggregate'', ''public_detail'', ''admin_detail'', ''actor_only'',
                                        ''anonymous_aggregate''}
                then Inl ''dynamic interaction visibility is invalid''
                else if route \<notin> {[], ''manual'', ''on_close'', ''on_threshold'', ''each_event''}
                then Inl ''dynamic interaction Fairy routing is invalid''
                else Inr
                  (\<lparr> ic_wire = wire, ic_reducer = reducer, ic_kind = kind, ic_response = response,
                     ic_allowChange = (case ip_AllowChange policy of Some b \<Rightarrow> b
                       | None \<Rightarrow> (case iw_AllowChange wire of Some b \<Rightarrow> b | None \<Rightarrow> True)),
                     ic_visibility = visibility,
                     ic_total = (if ip_Total policy \<le> 0 then iw_Total wire else ip_Total policy),
                     ic_quorum = ip_Quorum policy,
                     ic_veto = (case ip_Veto policy of Some b \<Rightarrow> b | None \<Rightarrow> True),
                     ic_fairyRoute = route, ic_fairyThreshold = ir_Threshold (iw_Routing wire),
                     ic_progressNodeID = or_else (ij_ProgressNodeID (iw_Projection wire)) (iw_ProgressNodeID wire),
                     ic_statusNodeID = or_else (ij_StatusNodeID (iw_Projection wire)) (iw_StatusNodeID wire),
                     ic_progressText = or_else (ij_ProgressText (iw_Projection wire)) (iw_ProgressText wire),
                     ic_legacyCloseOnResponse = (case iw_CloseOnResponse wire of Some b \<Rightarrow> b | None \<Rightarrow> False) \<rparr>,
                   True))))"

text \<open>The content of a message, by its identifier; the schema and its index among the segments.\<close>

fun interaction_schema :: "go_std \<Rightarrow> string \<Rightarrow> nat \<Rightarrow> message_segment list \<Rightarrow> (nat \<times> jobject) option res" where
  "interaction_schema std contentID index [] = Inr None"
| "interaction_schema std contentID index (segment # rest) =
     (if seg_Type segment \<noteq> ''dynamic_content'' then interaction_schema std contentID (Suc index) rest
      else
        (case dynamicSchemaFromData std (seg_Data segment) of
           Inl err \<Rightarrow> Inl err
         | Inr schema \<Rightarrow>
             if jget schema ''id'' \<noteq> JStr contentID then interaction_schema std contentID (Suc index) rest
             else Inr (Some (index, schema))))"

text \<open>A message without the content gives the zero configuration, whose visibility is empty.\<close>

definition zero_config :: interaction_config where
  "zero_config = defaultDynamicInteractionConfig\<lparr>ic_reducer := [], ic_response := [], ic_allowChange := False,
     ic_visibility := [], ic_veto := False\<rparr>"

definition dynamicInteractionSchema ::
  "go_std \<Rightarrow> go_text \<Rightarrow> message \<Rightarrow> string \<Rightarrow> (jobject \<times> interaction_config \<times> bool) res" where
  "dynamicInteractionSchema std gt target contentID =
     (case interaction_schema std contentID 0 (m_Segments target) of
        Inl err \<Rightarrow> Inl err
      | Inr None \<Rightarrow> Inr ([], zero_config, False)
      | Inr (Some (_, schema)) \<Rightarrow>
          (case parseDynamicInteractionConfig std gt schema of
             Inl err \<Rightarrow> Inl err
           | Inr (config, configured) \<Rightarrow> Inr (schema, config, configured)))"

section \<open>Policy\<close>

definition audience_admits :: "go_text \<Rightarrow> string \<Rightarrow> string \<Rightarrow> bool \<Rightarrow> string \<Rightarrow> bool" where
  "audience_admits gt actorKind groupRole isAuthor value =
     (let v = gt_ToLower gt (TrimSpace value) in
      v = ''all'' \<or> v = ''members'' \<or> (v = ''users'' \<and> actorKind = ''user'') \<or> (v = ''agents'' \<and> actorKind = ''agent'')
      \<or> (v = ''admins'' \<and> (groupRole = ''owner'' \<or> groupRole = ''admin''))
      \<or> (v = ''owner'' \<and> (groupRole = ''owner'' \<or> isAuthor)))"

definition dynamicAudienceAllows :: "go_text \<Rightarrow> string list \<Rightarrow> string \<Rightarrow> string \<Rightarrow> bool \<Rightarrow> bool" where
  "dynamicAudienceAllows gt audience actorKind groupRole isAuthor =
     (if audience = [] then True else list_ex (audience_admits gt actorKind groupRole isAuthor) audience)"

definition validateDynamicInteractionPolicy ::
  "go_text \<Rightarrow> interaction_config \<Rightarrow> bool \<Rightarrow> dynamic_interaction_event list \<Rightarrow> dynamic_interaction_event
     \<Rightarrow> string \<Rightarrow> bool \<Rightarrow> gotime \<Rightarrow> unit res" where
  "validateDynamicInteractionPolicy gt config configured events candidate groupRole isAuthor now =
     (let policy = iw_Policy (ic_wire config);
          actorEvents = length (filter (\<lambda>ev. di_ActorID ev = di_ActorID candidate) events) in
      if \<not> configured then Inr ()
      else if 0 < ip_ExpiresAtMS policy \<and> ip_ExpiresAtMS policy \<le> UnixMilli now
      then Inl ''dynamic interaction has expired''
      else if di_ActorKind candidate = ''agent'' \<and> \<not> ip_AllowAgent policy
      then Inl ''dynamic interaction does not allow Agent actors''
      else if \<not> dynamicAudienceAllows gt (ip_Audience policy) (di_ActorKind candidate) groupRole isAuthor
      then Inl ''dynamic interaction audience does not include this actor''
      else if 0 < ip_MaxResponsesPerActor policy \<and> ip_MaxResponsesPerActor policy \<le> int actorEvents
      then Inl ''dynamic interaction response limit reached''
      else if ic_response config = ''once'' \<and> 0 < actorEvents \<and> \<not> ic_allowChange config
      then Inl ''dynamic interaction response cannot be changed''
      else Inr ())"

section \<open>Reading events\<close>

definition dynamicPayloadString :: "jobject \<Rightarrow> string \<Rightarrow> string" where
  "dynamicPayloadString payload key = TrimSpace (jstr payload key)"

definition dynamicInteractionValue :: "dynamic_interaction_event \<Rightarrow> string" where
  "dynamicInteractionValue event =
     (if dynamicPayloadString (di_Payload event) ''option'' \<noteq> [] then dynamicPayloadString (di_Payload event) ''option''
      else if dynamicPayloadString (di_Payload event) ''value'' \<noteq> [] then dynamicPayloadString (di_Payload event) ''value''
      else TrimSpace (di_Action event))"

definition latestInteractionEventsByActor ::
  "dynamic_interaction_event list \<Rightarrow> (string, dynamic_interaction_event) gomap" where
  "latestInteractionEventsByActor events = foldl (\<lambda>latest ev. gm_set (di_ActorID ev) ev latest) [] events"

definition dynamicInteractionEventDetail :: "dynamic_interaction_event \<Rightarrow> jobject" where
  "dynamicInteractionEventDetail event =
     [(''event_id'', JStr (di_EventID event)), (''node_id'', JStr (di_NodeID event)), (''event'', JStr (di_Event event)),
      (''action'', JStr (di_Action event)), (''payload'', JObj (di_Payload event)), (''actor_id'', JStr (di_ActorID event)),
      (''actor_nickname'', JStr (di_ActorNickname event)), (''actor_kind'', JStr (di_ActorKind event)),
      (''created_at_ms'', JNum (of_int (UnixMilli (di_CreatedAt event))))]"

definition normalizedInteractionTotal :: "int \<Rightarrow> int \<Rightarrow> int" where
  "normalizedInteractionTotal configured observed =
     (let c = (if configured < observed then observed else configured) in if c < 1 then 1 else c)"

definition isPositiveInteractionAction :: "go_text \<Rightarrow> string \<Rightarrow> bool" where
  "isPositiveInteractionAction gt value \<longleftrightarrow>
     gt_ToLower gt (TrimSpace value) \<in> {''approve'', ''approved'', ''allow'', ''confirm'', ''confirmed'', ''yes'',
       ''complete'', ''completed'', ''checked'', ''true''}"

definition isNegativeInteractionAction :: "go_text \<Rightarrow> string \<Rightarrow> bool" where
  "isNegativeInteractionAction gt value \<longleftrightarrow>
     gt_ToLower gt (TrimSpace value) \<in> {''reject'', ''rejected'', ''deny'', ''denied'', ''no'', ''cancel'', ''cancelled'', ''false''}"

text \<open>\<open>counts[value]++\<close>\<close>

definition count_up :: "(string, nat) gomap \<Rightarrow> string \<Rightarrow> (string, nat) gomap" where
  "count_up counts value = gm_set value (Suc (case gm_get counts value of Some n \<Rightarrow> n | None \<Rightarrow> 0)) counts"

definition counts_json :: "(string, nat) gomap \<Rightarrow> json" where
  "counts_json counts = JObj (map (\<lambda>(k, n). (k, JNum (of_nat n))) counts)"

section \<open>Reducers\<close>

record interaction_reduction =
  red_state :: jobject
  red_counts :: "(string, nat) gomap"
  red_responded :: nat
  red_total :: int
  red_status :: string
  red_closed :: bool

definition zero_reduction :: interaction_reduction where
  "zero_reduction = \<lparr> red_state = [], red_counts = [], red_responded = 0, red_total = 0, red_status = [],
     red_closed = False \<rparr>"

record reduce_context =
  rc_config :: interaction_config
  rc_events :: "dynamic_interaction_event list"
  rc_total :: int
  rc_now :: gotime

definition baseInteractionState ::
  "reduce_context \<Rightarrow> nat \<Rightarrow> int \<Rightarrow> bool \<Rightarrow> string \<Rightarrow> (string, nat) gomap \<Rightarrow> jobject" where
  "baseInteractionState ctx responded expected isClosed status counts =
     [(''version'', JStr ''1.0''), (''reducer'', JStr (ic_reducer (rc_config ctx))), (''responded'', JNum (of_nat responded)),
      (''total'', JNum (of_int expected)), (''closed'', JBool isClosed), (''status'', JStr status),
      (''updated_at_ms'', JNum (of_int (UnixMilli (rc_now ctx))))]
     @ (if counts \<noteq> [] then [(''counts'', counts_json counts)] else [])"

text \<open>\<open>state["responses"] = responses\<close> where the card shows details to everyone.\<close>

definition with_detail :: "reduce_context \<Rightarrow> string \<Rightarrow> json \<Rightarrow> jobject \<Rightarrow> jobject" where
  "with_detail ctx key v state =
     (if ic_visibility (rc_config ctx) = ''public_detail'' then gm_set key v state else state)"

definition reduceSetByActor :: "reduce_context \<Rightarrow> interaction_reduction" where
  "reduceSetByActor ctx =
     (let latest = latestInteractionEventsByActor (rc_events ctx);
          value = (\<lambda>ev. or_else (dynamicInteractionValue ev) (ic_kind (rc_config ctx)));
          counts = foldl count_up [] (map (value \<circ> snd) latest);
          responded = length latest; expected = normalizedInteractionTotal (rc_total ctx) (int responded);
          state = baseInteractionState ctx responded expected False ''active'' counts
      in \<lparr> red_state = with_detail ctx ''responses'' (JObj (map (\<lambda>(a, ev). (a, JStr (value ev))) latest)) state,
           red_counts = counts, red_responded = responded, red_total = expected, red_status = ''active'',
           red_closed = False \<rparr>)"

definition reduceAppend :: "reduce_context \<Rightarrow> interaction_reduction" where
  "reduceAppend ctx =
     (let events = rc_events ctx; n = length events; expected = normalizedInteractionTotal (rc_total ctx) (int n);
          state = baseInteractionState ctx n expected False ''active'' [];
          state1 = (if events \<noteq> [] then gm_set ''last_action'' (JStr (dynamicInteractionValue (last events))) state
                    else state)
      in \<lparr> red_state = with_detail ctx ''entries'' (JArr (map (JObj \<circ> dynamicInteractionEventDetail) events)) state1,
           red_counts = [], red_responded = n, red_total = expected, red_status = ''active'', red_closed = False \<rparr>)"

definition reduceCounter :: "reduce_context \<Rightarrow> interaction_reduction" where
  "reduceCounter ctx =
     (let events = (if ic_response (rc_config ctx) = ''once''
                    then map snd (latestInteractionEventsByActor (rc_events ctx)) else rc_events ctx);
          counts = foldl count_up [] (map (\<lambda>ev. or_else (dynamicInteractionValue ev) ''count'') events);
          n = length events; expected = normalizedInteractionTotal (rc_total ctx) (int n)
      in \<lparr> red_state = gm_set ''count'' (JNum (of_nat n)) (baseInteractionState ctx n expected False ''active'' counts),
           red_counts = counts, red_responded = n, red_total = expected, red_status = ''active'', red_closed = False \<rparr>)"

text \<open>The ledger of a checklist is keyed by actor and item; the item is what follows the first NUL.\<close>

definition checklist_key :: "dynamic_interaction_event \<Rightarrow> string" where
  "checklist_key event =
     di_ActorID event @ [CHR 0x00]
       @ or_else (dynamicPayloadString (di_Payload event) ''item_id'') (dynamicInteractionValue event)"

definition checklist_item :: "string \<Rightarrow> string" where
  "checklist_item key = tl (dropWhile (\<lambda>c. c \<noteq> CHR 0x00) key)"

definition checklist_done :: "go_text \<Rightarrow> dynamic_interaction_event \<Rightarrow> bool" where
  "checklist_done gt event =
     (case as_bool (jget (di_Payload event) ''completed'') of
        Some completed \<Rightarrow> completed
      | None \<Rightarrow> isPositiveInteractionAction gt (di_Action event))"

definition reduceChecklist :: "go_text \<Rightarrow> reduce_context \<Rightarrow> interaction_reduction" where
  "reduceChecklist gt ctx =
     (let latest = foldl (\<lambda>m ev. gm_set (checklist_key ev) ev m) [] (rc_events ctx);
          items = foldl count_up [] (map (checklist_item \<circ> fst) (filter (checklist_done gt \<circ> snd) latest));
          n = length (remdups (map (di_ActorID \<circ> snd) latest));
          expected = normalizedInteractionTotal (rc_total ctx) (int n)
      in \<lparr> red_state = gm_set ''items'' (counts_json items) (baseInteractionState ctx n expected False ''active'' items),
           red_counts = items, red_responded = n, red_total = expected, red_status = ''active'', red_closed = False \<rparr>)"

definition reduceForm :: "reduce_context \<Rightarrow> interaction_reduction" where
  "reduceForm ctx =
     (let latest = latestInteractionEventsByActor (rc_events ctx); n = length latest;
          expected = normalizedInteractionTotal (rc_total ctx) (int n);
          state = baseInteractionState ctx n expected False ''active'' []
      in \<lparr> red_state = with_detail ctx ''responses''
             (JObj (map (\<lambda>(a, ev). (a, JObj (cloneDynamicMap (di_Payload ev)))) latest)) state,
           red_counts = [], red_responded = n, red_total = expected, red_status = ''active'', red_closed = False \<rparr>)"

text \<open>The verdict of an approval card: status and whether the card is closed.\<close>

definition approval_verdict ::
  "go_text \<Rightarrow> interaction_config \<Rightarrow> dynamic_interaction_event list \<Rightarrow> nat \<Rightarrow> nat \<Rightarrow> int \<Rightarrow> string \<times> bool" where
  "approval_verdict gt config events approved rejected quorum =
     (if ic_legacyCloseOnResponse config \<and> events \<noteq> []
      then (let value = dynamicInteractionValue (last events) in
            if value = ''modify'' then (''pending'', False)
            else (if isNegativeInteractionAction gt value then ''rejected'' else ''approved'', True))
      else if ic_veto config \<and> 0 < rejected then (''rejected'', True)
      else if quorum \<le> int approved then (''approved'', True)
      else (''pending'', False))"

definition reduceApprovalQuorum :: "go_text \<Rightarrow> reduce_context \<Rightarrow> interaction_reduction" where
  "reduceApprovalQuorum gt ctx =
     (let config = rc_config ctx; latest = latestInteractionEventsByActor (rc_events ctx);
          values = map (dynamicInteractionValue \<circ> snd) latest;
          counts = foldl count_up [] values;
          approved = length (filter (isPositiveInteractionAction gt) values);
          rejected = length (filter (\<lambda>v. \<not> isPositiveInteractionAction gt v \<and> isNegativeInteractionAction gt v) values);
          n = length latest; expected = normalizedInteractionTotal (rc_total ctx) (int n);
          quorum = (if ic_quorum config \<le> 0 then expected else ic_quorum config) in
      case approval_verdict gt config (rc_events ctx) approved rejected quorum of
        (status, isClosed) \<Rightarrow>
          \<lparr> red_state = with_detail ctx ''responses'' (JObj (map (\<lambda>(a, ev). (a, JStr (dynamicInteractionValue ev))) latest))
              (gm_set ''quorum'' (JNum (of_int quorum)) (gm_set ''rejected'' (JNum (of_nat rejected))
                (gm_set ''approved'' (JNum (of_nat approved)) (baseInteractionState ctx n expected isClosed status counts)))),
            red_counts = counts, red_responded = n, red_total = expected, red_status = status, red_closed = isClosed \<rparr>)"

fun run_transitions ::
  "go_std \<Rightarrow> (string, string list) gomap \<Rightarrow> string \<Rightarrow> dynamic_interaction_event list \<Rightarrow> string res" where
  "run_transitions std transitions current [] = Inr current"
| "run_transitions std transitions current (event # rest) =
     (let next_state = dynamicInteractionValue event in
      if next_state = [] then run_transitions std transitions current rest
      else if transitions \<noteq> [] \<and> next_state \<notin> set (gm_list transitions current)
      then Inl (''dynamic state transition '' @ gs_quote std current @ '' to '' @ gs_quote std next_state @ '' is not allowed'')
      else run_transitions std transitions next_state rest)"

definition reduceStateMachine :: "go_std \<Rightarrow> reduce_context \<Rightarrow> interaction_reduction res" where
  "reduceStateMachine std ctx =
     (let policy = iw_Policy (ic_wire (rc_config ctx));
          start = or_else (TrimSpace (ip_InitialState policy)) ''open'' in
      case run_transitions std (ip_Transitions policy) start (rc_events ctx) of
        Inl err \<Rightarrow> Inl err
      | Inr current \<Rightarrow>
          (let isClosed = (current = ''closed'' \<or> current = ''completed'' \<or> current = ''cancelled'');
               n = length (rc_events ctx); expected = normalizedInteractionTotal (rc_total ctx) (int n)
           in Inr \<lparr> red_state = gm_set ''current'' (JStr current) (baseInteractionState ctx n expected isClosed current []),
                    red_counts = [], red_responded = n, red_total = expected, red_status = current, red_closed = isClosed \<rparr>))"

definition dynamicInteractionReducers ::
  "go_std \<Rightarrow> go_text \<Rightarrow> string \<Rightarrow> reduce_context \<Rightarrow> interaction_reduction res" where
  "dynamicInteractionReducers std gt name ctx =
     (if name = ''set_by_actor'' then Inr (reduceSetByActor ctx)
      else if name = ''append'' then Inr (reduceAppend ctx)
      else if name = ''counter'' then Inr (reduceCounter ctx)
      else if name = ''checklist'' then Inr (reduceChecklist gt ctx)
      else if name = ''form'' then Inr (reduceForm ctx)
      else if name = ''approval_quorum'' then Inr (reduceApprovalQuorum gt ctx)
      else if name = ''state_machine'' then reduceStateMachine std ctx
      else Inr zero_reduction)"

section \<open>Projection into the tree\<close>

text \<open>
  \<open>visit\<close>: every node gets a map of properties, and a node that stands for an option gets the
  option's count.
\<close>

definition visit_props :: "(string, nat) gomap \<Rightarrow> jobject \<Rightarrow> jobject" where
  "visit_props counts props =
     (let option = or_else (jstr props ''option'') (jstr props ''vote_option'') in
      if option \<noteq> []
      then gm_set ''count'' (JNum (of_nat (case gm_get counts option of Some n \<Rightarrow> n | None \<Rightarrow> 0))) props
      else props)"

function (sequential) visit_node :: "(string, nat) gomap \<Rightarrow> jobject \<Rightarrow> jobject"
  and visit_children :: "(string, nat) gomap \<Rightarrow> json list \<Rightarrow> json list" where
  "visit_node counts node =
     (let node1 = gm_set ''props'' (JObj (visit_props counts (as_map (jget node ''props'')))) node in
      if as_arr (jget node ''children'') = None then node1
      else set_children (visit_children counts (children_of node)) node1)"
| "visit_children counts [] = []"
| "visit_children counts (rawChild # rest) =
     (case as_obj rawChild of
        None \<Rightarrow> rawChild # visit_children counts rest
      | Some child \<Rightarrow> JObj (visit_node counts child) # visit_children counts rest)"
  by pat_completeness auto
termination
  by (relation "measures [\<lambda>x. case x of Inl (_, node) \<Rightarrow> size (JObj node) | Inr (_, xs) \<Rightarrow> size (JArr xs),
                          \<lambda>x. case x of Inl _ \<Rightarrow> 1 | Inr _ \<Rightarrow> 0]")
    (use size_children in \<open>auto simp: le_less as_obj_iff\<close>)

text \<open>The first node in preorder that satisfies a predicate, as its path.\<close>

function (sequential) first_node :: "(jobject \<Rightarrow> bool) \<Rightarrow> jobject \<Rightarrow> nat list option"
  and first_child :: "(jobject \<Rightarrow> bool) \<Rightarrow> nat \<Rightarrow> json list \<Rightarrow> nat list option" where
  "first_node P node = (if P node then Some [] else first_child P 0 (children_of node))"
| "first_child P index [] = None"
| "first_child P index (rawChild # rest) =
     (case as_obj rawChild of
        None \<Rightarrow> first_child P (Suc index) rest
      | Some child \<Rightarrow>
          (case first_node P child of
             Some p \<Rightarrow> Some (index # p)
           | None \<Rightarrow> first_child P (Suc index) rest))"
  by pat_completeness auto
termination
  by (relation "measures [\<lambda>x. case x of Inl (_, node) \<Rightarrow> size (JObj node) | Inr (_, _, xs) \<Rightarrow> size (JArr xs),
                          \<lambda>x. case x of Inl _ \<Rightarrow> 1 | Inr _ \<Rightarrow> 0]")
    (use size_children in \<open>auto simp: le_less as_obj_iff\<close>)

definition has_type :: "string \<Rightarrow> jobject \<Rightarrow> bool" where
  "has_type typeName node \<longleftrightarrow> jstr node ''type'' = typeName"

definition findNodeByID :: "jobject \<Rightarrow> string \<Rightarrow> nat list option" where
  "findNodeByID rt ident = (if ident = [] then None else first_node (\<lambda>node. jstr node ''id'' = ident) rt)"

text \<open>\<open>strings.Contains\<close> and the progress text; a template without a verb is not used.\<close>

fun contains_text :: "string \<Rightarrow> string \<Rightarrow> bool" where
  "contains_text [] sub = (sub = [])"
| "contains_text (c # s) sub = (HasPrefix (c # s) sub \<or> contains_text s sub)"

definition formatInteractionProgress :: "go_text \<Rightarrow> string \<Rightarrow> int \<Rightarrow> int \<Rightarrow> string" where
  "formatInteractionProgress gt template responded expected =
     (if template \<noteq> [] \<and> contains_text template ''%d'' then gt_Sprintf gt template responded expected
      else show_int responded @ ''/'' @ show_int expected)"

definition update_props :: "(jobject \<Rightarrow> jobject) \<Rightarrow> jobject \<Rightarrow> jobject" where
  "update_props f node = gm_set ''props'' (JObj (f (as_map (jget node ''props'')))) node"

definition updateInteractionProjection ::
  "go_text \<Rightarrow> jobject \<Rightarrow> interaction_config \<Rightarrow> interaction_reduction \<Rightarrow> jobject" where
  "updateInteractionProjection gt rt config result =
     (let visited = visit_node (red_counts result) rt;
          locate = (\<lambda>ident typeName. case findNodeByID visited ident of
             Some p \<Rightarrow> Some p | None \<Rightarrow> first_node (has_type typeName) visited);
          fraction = float64 (of_nat (red_responded result)
             / of_int (normalizedInteractionTotal (red_total result) (int (red_responded result))));
          progress_text = formatInteractionProgress gt (ic_progressText config) (int (red_responded result)) (red_total result);
          tree1 = (case locate (ic_progressNodeID config) ''progress'' of
             None \<Rightarrow> visited
           | Some p \<Rightarrow> update_at p (update_props (\<lambda>props.
               gm_set ''text'' (JStr progress_text) (gm_set ''value'' (JNum fraction) props))) visited)
      in case locate (ic_statusNodeID config) ''status'' of
           None \<Rightarrow> tree1
         | Some p \<Rightarrow>
             if red_status result = [] then tree1
             else update_at p (update_props (\<lambda>props.
               gm_set ''text'' (JStr (red_status result)) (gm_set ''status'' (JStr (red_status result)) props))) tree1)"

section \<open>Applying an interaction\<close>

definition DynamicReplaceSegment :: "string \<Rightarrow> string \<Rightarrow> jobject \<Rightarrow> message_segment" where
  "DynamicReplaceSegment messageID contentID content =
     \<lparr> seg_Type = ''dynamic_replace'',
       seg_Data = [(''message_id'', JStr messageID), (''content_id'', JStr contentID), (''content'', JObj content)] \<rparr>"

text \<open>
  The result is the new segments, the replacement that is broadcast (\<open>None\<close> when nothing changed)
  and the reduction.
\<close>

definition applyDynamicInteraction ::
  "go_std \<Rightarrow> go_text \<Rightarrow> message \<Rightarrow> string \<Rightarrow> dynamic_interaction_event list \<Rightarrow> int \<Rightarrow> gotime
     \<Rightarrow> (message_segment list \<times> message_segment option \<times> interaction_reduction) res" where
  "applyDynamicInteraction std gt target contentID events expected now =
     (let segments = m_Segments target in
      case interaction_schema std contentID 0 segments of
        Inl err \<Rightarrow> Inl err
      | Inr None \<Rightarrow> Inr (segments, None, zero_reduction)
      | Inr (Some (index, schema)) \<Rightarrow>
          (case parseDynamicInteractionConfig std gt schema of
             Inl err \<Rightarrow> Inl err
           | Inr (config, configured) \<Rightarrow>
               if \<not> configured \<or> ic_reducer config = ''none'' then Inr (segments, None, zero_reduction)
               else
                 (case dynamicInteractionReducers std gt (ic_reducer config)
                         \<lparr> rc_config = config, rc_events = events,
                           rc_total = (if 0 < ic_total config then ic_total config else expected), rc_now = now \<rparr> of
                    Inl err \<Rightarrow> Inl err
                  | Inr result \<Rightarrow>
                      (let metadata = gm_set ''interaction_state'' (JObj (red_state result))
                                        (cloneDynamicMap (as_map (jget schema ''metadata'')));
                           schema1 = gm_set ''metadata'' (JObj metadata) schema in
                       case as_obj (jget schema1 ''tree'') of
                         None \<Rightarrow> Inl ''dynamic content tree is missing''
                       | Some rt \<Rightarrow>
                           (let schema2 = gm_set ''tree'' (JObj (updateInteractionProjection gt rt config result)) schema1 in
                            case validateDynamicSchema std schema2 of
                              Inl err \<Rightarrow> Inl err
                            | Inr _ \<Rightarrow>
                                Inr (segments[index := DynamicContentSegment schema2],
                                     Some (DynamicReplaceSegment (m_ID target) contentID schema2), result))))))"

end
