(* ===== verification/Dynamic_Actions.thy ===== *)
theory Dynamic_Actions
  imports Dynamic_Interaction
begin

text \<open>
  Declarative actions of dynamic content (\<open>internal/gateway/dynamic_interaction.go\<close>,
  \<open>applyDynamicActionProjection\<close> and the functions it uses): a card without a reducer changes its own
  tree when one of its events fires. A text that reads as NaN or an infinity is outside the model of
  \<open>ParseFloat\<close>.
\<close>

section \<open>Reading definitions\<close>

definition dynamicString :: "json \<Rightarrow> string \<Rightarrow> string" where
  "dynamicString value fallback =
     (case as_str value of Some v \<Rightarrow> if TrimSpace v \<noteq> [] then TrimSpace v else fallback | None \<Rightarrow> fallback)"

definition dynamicActionNumber :: "go_text \<Rightarrow> json \<Rightarrow> rat option" where
  "dynamicActionNumber gt value =
     (case value of JNum r \<Rightarrow> Some r | JStr v \<Rightarrow> gt_ParseFloat gt (TrimSpace v) | _ \<Rightarrow> None)"

text \<open>\<open>current, _ := dynamicActionNumber(value)\<close>\<close>

definition number_or_zero :: "go_text \<Rightarrow> json \<Rightarrow> rat" where
  "number_or_zero gt value = (case dynamicActionNumber gt value of Some r \<Rightarrow> r | None \<Rightarrow> 0)"

definition dynamicActionProjectionValue :: "jobject \<Rightarrow> string \<Rightarrow> json option" where
  "dynamicActionProjectionValue df key =
     (case gm_get df key of
        Some v \<Rightarrow> Some v
      | None \<Rightarrow> gm_get (as_map (jget df ''projection'')) key)"

definition dynamicActionProjectionNumber :: "go_text \<Rightarrow> jobject \<Rightarrow> string \<Rightarrow> rat option" where
  "dynamicActionProjectionNumber gt df key =
     (case dynamicActionProjectionValue df key of None \<Rightarrow> None | Some v \<Rightarrow> dynamicActionNumber gt v)"

definition dynamicActionHasProgressProjection :: "go_text \<Rightarrow> jobject \<Rightarrow> bool" where
  "dynamicActionHasProgressProjection gt df \<longleftrightarrow>
     list_ex (\<lambda>key.
       case dynamicActionProjectionValue df key of
         None \<Rightarrow> False
       | Some v \<Rightarrow>
           if v = JNull then False
           else if key \<in> {''progress_node_id'', ''progress_target''} then TrimSpace (dynamicString v []) \<noteq> []
           else dynamicActionNumber gt v \<noteq> None)
     [''progress'', ''progress_value'', ''progress_delta'', ''increment'', ''progress_node_id'', ''progress_target'', ''total'']"

function (sequential) firstDynamicNodeID :: "jobject \<Rightarrow> string \<Rightarrow> string"
  and first_id_in_children :: "json list \<Rightarrow> string \<Rightarrow> string" where
  "firstDynamicNodeID rt typeName =
     (if jstr rt ''type'' = typeName then jstr rt ''id'' else first_id_in_children (children_of rt) typeName)"
| "first_id_in_children [] typeName = []"
| "first_id_in_children (rawChild # rest) typeName =
     (case as_obj rawChild of
        None \<Rightarrow> first_id_in_children rest typeName
      | Some child \<Rightarrow>
          (let ident = firstDynamicNodeID child typeName in
           if ident \<noteq> [] then ident else first_id_in_children rest typeName))"
  by pat_completeness auto
termination
  by (relation "measures [\<lambda>x. case x of Inl (node, _) \<Rightarrow> size (JObj node) | Inr (xs, _) \<Rightarrow> size (JArr xs),
                          \<lambda>x. case x of Inl _ \<Rightarrow> 1 | Inr _ \<Rightarrow> 0]")
    (use size_children in \<open>auto simp: le_less as_obj_iff\<close>)

definition dynamicActionProgressNodeID :: "jobject \<Rightarrow> jobject \<Rightarrow> string" where
  "dynamicActionProgressNodeID df rt =
     (let named = (\<lambda>key. case dynamicActionProjectionValue df key of
                     Some v \<Rightarrow> dynamicString v [] | None \<Rightarrow> []) in
      if named ''progress_node_id'' \<noteq> [] then named ''progress_node_id''
      else if named ''progress_target'' \<noteq> [] then named ''progress_target''
      else if named ''progress'' \<noteq> [] \<and> findDynamicNode rt (named ''progress'') \<noteq> None then named ''progress''
      else firstDynamicNodeID rt ''progress'')"

definition event_definition :: "string \<Rightarrow> jobject \<Rightarrow> jobject option" where
  "event_definition eventName node =
     (case as_obj (jget node ''events'') of
        None \<Rightarrow> None
      | Some events \<Rightarrow> as_obj (jget events eventName))"

text \<open>The node whose event has the action; its path determines the node, its parent and its index.\<close>

definition findDynamicNodeByEvent :: "jobject \<Rightarrow> string \<Rightarrow> string \<Rightarrow> nat list option" where
  "findDynamicNodeByEvent rt eventName action =
     first_node (\<lambda>node. case event_definition eventName node of
                    None \<Rightarrow> False | Some df \<Rightarrow> jstr df ''action'' = action) rt"

section \<open>Changing properties\<close>

definition clamp_progress :: "rat \<Rightarrow> rat" where
  "clamp_progress r = max 0 (min 1 (if 1 < r then float64 (r / 100) else r))"

definition set_prop :: "string \<Rightarrow> json \<Rightarrow> jobject \<times> bool \<Rightarrow> jobject \<times> bool" where
  "set_prop key v st = (if json_equal (jget (fst st) key) v then st else (gm_set key v (fst st), True))"

text \<open>\<open>set("value", progress)\<close>, and the text of the percentage where the node has a text.\<close>

definition set_progress_props :: "rat \<Rightarrow> jobject \<times> bool \<Rightarrow> jobject \<times> bool" where
  "set_progress_props progress st =
     (let st1 = set_prop ''value'' (JNum progress) st in
      if gm_has (fst st1) ''text'' then set_prop ''text'' (JStr (percent_text (float64 (progress * 100)))) st1 else st1)"

definition decision_actions :: "string list" where
  "decision_actions = [''approve'', ''approved'', ''allow'', ''confirm'', ''confirmed'', ''yes'', ''complete'', ''completed'',
     ''reject'', ''rejected'', ''deny'', ''denied'', ''no'', ''cancel'', ''cancelled'']"

definition tenth :: rat where "tenth = float64 (1 / 10)"

text \<open>The switch over the action; \<open>None\<close> is the early return of a progress action without a number.\<close>

definition action_props ::
  "go_text \<Rightarrow> string \<Rightarrow> jobject \<Rightarrow> string \<Rightarrow> json option \<Rightarrow> jobject \<Rightarrow> (jobject \<times> bool) option" where
  "action_props gt actionName df nodeType given props =
     (let st = (props, False); current = number_or_zero gt (jget props ''value'') in
      if actionName = ''toggle''
      then (let property = dynamicString (jget df ''property'') ''value''
            in Some (set_prop property (JBool (jget props property \<noteq> JBool True)) st))
      else if actionName \<in> {''set_property'', ''set_value'', ''set_status''}
      then
        (let value = (case given of Some v \<Rightarrow> v | None \<Rightarrow> JBool True);
             property = dynamicString (jget df ''property'') (if actionName = ''set_value'' then ''value'' else ''text'') in
         if nodeType = ''progress'' \<and> actionName = ''set_status''
         then Some (set_progress_props (clamp_progress (case dynamicActionNumber gt value of
                      Some r \<Rightarrow> r | None \<Rightarrow> float64 (current + tenth))) st)
         else Some (set_prop property value st))
      else if actionName \<in> {''set_progress'', ''increment_progress''}
      then
        (case dynamicActionNumber gt (case given of Some v \<Rightarrow> v | None \<Rightarrow> JNull) of
           None \<Rightarrow> None
         | Some r \<Rightarrow>
             Some (set_progress_props (clamp_progress
               (if actionName = ''increment_progress'' then float64 (r + current) else r)) st))
      else if actionName \<in> set decision_actions
      then Some (set_prop ''text'' (JStr (if isNegativeInteractionAction gt actionName then ''Rejected'' else ''Approved'')) st)
      else Some st)"

text \<open>The value an adjacent progress node moves to, before it is clamped.\<close>

definition progress_step :: "go_text \<Rightarrow> string \<Rightarrow> jobject \<Rightarrow> json option \<Rightarrow> rat \<Rightarrow> rat" where
  "progress_step gt actionName df given current =
     (let number = dynamicActionProjectionNumber gt df;
          value = (case given of Some v \<Rightarrow> v | None \<Rightarrow> if actionName = ''set_status'' then JBool True else JNull);
          unit_step = (case number ''total'' of
             Some t \<Rightarrow> if 0 < t then float64 (current + float64 (1 / t)) else float64 (current + tenth)
           | None \<Rightarrow> float64 (current + tenth)) in
      case number ''progress'' of
        Some r \<Rightarrow> r
      | None \<Rightarrow>
          (case number ''progress_value'' of
             Some r \<Rightarrow> r
           | None \<Rightarrow>
               (case number ''progress_delta'' of
                  Some d \<Rightarrow> float64 (current + d)
                | None \<Rightarrow>
                    (case number ''increment'' of
                       Some d \<Rightarrow> float64 (current + d)
                     | None \<Rightarrow>
                         if actionName = ''set_progress'' then number_or_zero gt value
                         else if actionName = ''increment_progress'' then float64 (current + number_or_zero gt value)
                         else if actionName = ''set_status''
                         then (case dynamicActionNumber gt value of Some r \<Rightarrow> r | None \<Rightarrow> unit_step)
                         else unit_step))))"

section \<open>The action on a schema\<close>

text \<open>The node an action applies to when its definition names none.\<close>

definition default_target :: "go_text \<Rightarrow> string \<Rightarrow> jobject \<Rightarrow> jobject \<Rightarrow> string" where
  "default_target gt actionName df rt =
     (let status_first = or_else (firstDynamicNodeID rt ''status'') (firstDynamicNodeID rt ''progress'') in
      if actionName \<in> {''set_progress'', ''increment_progress''} then firstDynamicNodeID rt ''progress''
      else if actionName = ''set_status'' \<or> actionName \<in> set decision_actions then status_first
      else if dynamicActionHasProgressProjection gt df then dynamicActionProgressNodeID df rt
      else [])"

definition locate_target :: "go_std \<Rightarrow> go_text \<Rightarrow> string \<Rightarrow> jobject \<Rightarrow> jobject \<Rightarrow> string \<Rightarrow> nat list res" where
  "locate_target std gt actionName df rt targetID =
     (let missing = (\<lambda>ident. Inl (''dynamic action target '' @ gs_quote std ident @ '' was not found'')) in
      case findDynamicNode rt targetID of
        Some p \<Rightarrow> Inr p
      | None \<Rightarrow>
          if dynamicActionHasProgressProjection gt df \<or> actionName = ''set_status''
             \<or> HasPrefix actionName ''approve'' \<or> HasPrefix actionName ''reject''
          then (let other = dynamicActionProgressNodeID df rt in
                case findDynamicNode rt other of Some p \<Rightarrow> Inr p | None \<Rightarrow> missing other)
          else missing targetID)"

text \<open>The second half: the progress node beside the target follows the action.\<close>

definition follow_progress ::
  "go_text \<Rightarrow> string \<Rightarrow> jobject \<Rightarrow> json option \<Rightarrow> jobject \<Rightarrow> jobject \<Rightarrow> bool \<Rightarrow> jobject \<times> bool" where
  "follow_progress gt actionName df given target rt changed =
     (let projected = dynamicActionHasProgressProjection gt df; targetType = jstr target ''type'';
          progressID = (if targetType = ''progress'' then jstr target ''id'' else dynamicActionProgressNodeID df rt) in
      if \<not> (projected \<or> actionName = ''set_status'' \<or> isPositiveInteractionAction gt actionName
             \<or> isNegativeInteractionAction gt actionName)
         \<or> (targetType = ''progress'' \<and> \<not> projected) \<or> progressID = []
      then (rt, changed)
      else
        (case findDynamicNode rt progressID of
           None \<Rightarrow> (rt, changed)
         | Some p \<Rightarrow>
             (case node_at p rt of
                None \<Rightarrow> (rt, changed)
              | Some node \<Rightarrow>
                  (let props = as_map (jget node ''props'');
                       step = clamp_progress (progress_step gt actionName df given (number_or_zero gt (jget props ''value'')));
                       after = set_progress_props step (props, changed)
                   in (update_at p (gm_set ''props'' (JObj (fst after))) rt, snd after)))))"

definition applyDynamicActionToSchema ::
  "go_std \<Rightarrow> go_text \<Rightarrow> jobject \<Rightarrow> string \<Rightarrow> string \<Rightarrow> jobject \<Rightarrow> (jobject \<times> bool) res" where
  "applyDynamicActionToSchema std gt schema eventName action payload =
     (let updated = cloneDynamicMap schema; actionName = gt_ToLower gt (TrimSpace action) in
      case as_obj (jget updated ''tree'') of
        None \<Rightarrow> Inl ''dynamic content tree is missing''
      | Some rt \<Rightarrow>
          (case findDynamicNodeByEvent rt eventName action of
             None \<Rightarrow> Inr (updated, False)
           | Some path \<Rightarrow>
               (let df = (case node_at path rt of
                      None \<Rightarrow> []
                    | Some node \<Rightarrow> (case event_definition eventName node of Some m \<Rightarrow> m | None \<Rightarrow> []));
                    targetID = or_else (jstr df ''target'') (default_target gt actionName df rt);
                    given = (case gm_get df ''value'' of Some v \<Rightarrow> Some v | None \<Rightarrow> gm_get payload ''value'') in
                if targetID = [] then Inr (updated, False)
                else
                  (case locate_target std gt actionName df rt targetID of
                     Inl err \<Rightarrow> Inl err
                   | Inr p \<Rightarrow>
                       (let target = (case node_at p rt of Some node \<Rightarrow> node | None \<Rightarrow> []) in
                        case action_props gt actionName df (jstr target ''type'') given (as_map (jget target ''props'')) of
                          None \<Rightarrow> Inr (updated, False)
                        | Some (props, changed) \<Rightarrow>
                            (let rt1 = update_at p (gm_set ''props'' (JObj props)) rt in
                             case follow_progress gt actionName df given target rt1 changed of
                               (rt2, changed2) \<Rightarrow> Inr (gm_set ''tree'' (JObj rt2) updated, changed2))))))) "

text \<open>The result carries the replacement that is broadcast, \<open>None\<close> when nothing changed.\<close>

definition applyDynamicActionProjection ::
  "go_std \<Rightarrow> go_text \<Rightarrow> message \<Rightarrow> string \<Rightarrow> string \<Rightarrow> string \<Rightarrow> jobject
     \<Rightarrow> (message_segment list \<times> message_segment option) res" where
  "applyDynamicActionProjection std gt target contentID eventName action payload =
     (let segments = m_Segments target in
      case interaction_schema std contentID 0 segments of
        Inl err \<Rightarrow> Inl err
      | Inr None \<Rightarrow> Inr (segments, None)
      | Inr (Some (index, schema)) \<Rightarrow>
          (case applyDynamicActionToSchema std gt schema eventName action payload of
             Inl err \<Rightarrow> Inl err
           | Inr (updated, changed) \<Rightarrow>
               if \<not> changed then Inr (segments, None)
               else
                 (case validateDynamicSchema std updated of
                    Inl err \<Rightarrow> Inl err
                  | Inr _ \<Rightarrow>
                      Inr (segments[index := DynamicContentSegment updated],
                           Some (DynamicReplaceSegment (m_ID target) contentID updated)))))"

end
