(* ===== verification/Media_Files.thy ===== *)
theory Media_Files
  imports Store_Accounts Go_Float
begin

text \<open>
  Media files (\<open>internal/media/local.go\<close>, \<open>internal/media/object.go\<close>,
  \<open>internal/store/media_storage.go\<close>): bytes in a directory or an object storage, metadata in the
  store, thumbnails, and serving files over HTTP. The directory is a map from names to contents in
  which any step may fail; image decoding, JPEG encoding, SHA-256 and the sniffing of content types
  are parameters.
\<close>

section \<open>The outside world\<close>

datatype file_step = FCreate | FChmod | FWrite | FClose | FRename | FRemove | FStat | FOpen

type_synonym disk = "(string, string) gomap"

record nrgba =
  px_R :: nat
  px_G :: nat
  px_B :: nat
  px_A :: nat

text \<open>An image: the corner of its bounds and its colours, converted to non-premultiplied form.\<close>

record image =
  im_MinX :: int
  im_MinY :: int
  im_At :: "int \<Rightarrow> int \<Rightarrow> nrgba"

text \<open>
  \<open>mx_fault step name\<close> tells whether a step on a file of the directory fails, \<open>mx_written\<close> how much
  of a failing write reaches the disk, \<open>mx_random\<close> the part \<open>os.CreateTemp\<close> chooses of a name.
\<close>

record media_env =
  mx_digest :: "string \<Rightarrow> string"
  mx_ParseMediaType :: "string \<Rightarrow> bool"
  mx_DetectContentType :: "string \<Rightarrow> string"
  mx_DecodeConfig :: "string \<Rightarrow> (int \<times> int) option"
  mx_Decode :: "string \<Rightarrow> image option"
  mx_EncodeJPEG :: "nrgba list list \<Rightarrow> string option"
  mx_fault :: "file_step \<Rightarrow> string \<Rightarrow> bool"
  mx_written :: nat
  mx_random :: string

section \<open>Names\<close>

definition contentID :: "media_env \<Rightarrow> string \<Rightarrow> string \<Rightarrow> string" where
  "contentID e uploaderID data = mx_digest e (uploaderID @ [CHR 0x00] @ data)"

definition hex_digit :: "char \<Rightarrow> bool" where
  "hex_digit c \<longleftrightarrow> c \<in> set ''0123456789abcdefABCDEF''"

definition validID :: "string \<Rightarrow> bool" where
  "validID ident \<longleftrightarrow> (length ident = 32 \<or> length ident = 64) \<and> list_all hex_digit ident"

text \<open>\<open>filepath.Base\<close>\<close>

definition base_name :: "string \<Rightarrow> string" where
  "base_name path =
     (if path = [] then ''.''
      else
        (let trimmed = dropWhile (\<lambda>c. c = CHR ''/'') (rev path); name = rev (takeWhile (\<lambda>c. c \<noteq> CHR ''/'') trimmed)
         in if name = [] then ''/'' else name))"

definition safeFileName :: "string \<Rightarrow> string" where
  "safeFileName value = (let v = TrimSpace (base_name value) in if v = [] \<or> v = ''.'' then ''file'' else v)"

text \<open>\<open>url.PathEscape\<close>: every byte outside the characters of a path segment is written in hexadecimal.\<close>

definition path_char :: "char \<Rightarrow> bool" where
  "path_char c \<longleftrightarrow>
     c \<in> set ''abcdefghijklmnopqrstuvwxyzABCDEFGHIJKLMNOPQRSTUVWXYZ0123456789-_.~$&+:=@''"

definition escape_byte :: "char \<Rightarrow> string" where
  "escape_byte c =
     (if path_char c then [c]
      else [CHR ''%'', ''0123456789ABCDEF'' ! (of_char c div 16), ''0123456789ABCDEF'' ! (of_char c mod 16)])"

definition PathEscape :: "string \<Rightarrow> string" where
  "PathEscape v = concat (map escape_byte v)"

section \<open>Thumbnails\<close>

definition maxThumbnailEdge :: int where "maxThumbnailEdge = 640"
definition maxDecodedImagePixels :: int where "maxDecodedImagePixels = 64 * 1024 * 1024"

definition scaled_edge :: "int \<Rightarrow> rat \<Rightarrow> int" where
  "scaled_edge n scale = max 1 (float_to_int64 (float64 (float64 (of_int n) * scale)))"

definition thumbnail_size :: "int \<Rightarrow> int \<Rightarrow> int \<times> int" where
  "thumbnail_size width height =
     (if maxThumbnailEdge < width \<or> maxThumbnailEdge < height
      then
        (let scale = float64 (float64 (of_int maxThumbnailEdge) / float64 (of_int (if width < height then height else width)))
         in (scaled_edge width scale, scaled_edge height scale))
      else (width, height))"

text \<open>One channel composited against white; the conversion to \<open>uint8\<close> keeps the low byte.\<close>

definition over_white :: "nat \<Rightarrow> nat \<Rightarrow> nat" where
  "over_white channel alpha = ((channel * alpha + 255 * (255 - alpha)) div 255) mod 256"

definition thumbnail_pixel :: "image \<Rightarrow> int \<Rightarrow> int \<Rightarrow> int \<Rightarrow> int \<Rightarrow> int \<Rightarrow> int \<Rightarrow> nrgba" where
  "thumbnail_pixel img width height dstWidth dstHeight x y =
     (let converted = im_At img (im_MinX img + x * width div dstWidth) (im_MinY img + y * height div dstHeight);
          alpha = px_A converted
      in \<lparr> px_R = over_white (px_R converted) alpha, px_G = over_white (px_G converted) alpha,
           px_B = over_white (px_B converted) alpha, px_A = 255 \<rparr>)"

definition thumbnail_pixels :: "image \<Rightarrow> int \<Rightarrow> int \<Rightarrow> int \<Rightarrow> int \<Rightarrow> nrgba list list" where
  "thumbnail_pixels img width height dstWidth dstHeight =
     map (\<lambda>y. map (\<lambda>x. thumbnail_pixel img width height dstWidth dstHeight x y) [0..dstWidth - 1]) [0..dstHeight - 1]"

text \<open>The preview (empty where there is none) and the dimensions.\<close>

definition makeThumbnail :: "media_env \<Rightarrow> string \<Rightarrow> string \<Rightarrow> string \<times> int \<times> int" where
  "makeThumbnail e data contentType =
     (if \<not> HasPrefix contentType ''image/'' \<or> contentType = ''image/svg+xml'' then ([], 0, 0)
      else
        (case mx_DecodeConfig e data of
           None \<Rightarrow> ([], 0, 0)
         | Some (width, height) \<Rightarrow>
             if width \<le> 0 \<or> height \<le> 0 then ([], 0, 0)
             else if maxDecodedImagePixels div height < width then ([], width, height)
             else
               (case mx_Decode e data of
                  None \<Rightarrow> ([], width, height)
                | Some img \<Rightarrow>
                    (case thumbnail_size width height of
                       (dstWidth, dstHeight) \<Rightarrow>
                         (case mx_EncodeJPEG e (thumbnail_pixels img width height dstWidth dstHeight) of
                            None \<Rightarrow> ([], width, height)
                          | Some encoded \<Rightarrow> (encoded, width, height))))))"

section \<open>The local store\<close>

datatype media_error =
    OtherUploader
  | BytesUnavailable
  | OriginalFailed file_step
  | ThumbnailFailed file_step
  | StageFailed
  | RemoveFailed

definition remove_file :: "media_env \<Rightarrow> string \<Rightarrow> disk \<Rightarrow> disk" where
  "remove_file e name d = (if mx_fault e FRemove name then d else gm_del name d)"

text \<open>Writing a file through a temporary one, which is removed again when a step fails.\<close>

definition write_file :: "media_env \<Rightarrow> string \<Rightarrow> string \<Rightarrow> string \<Rightarrow> disk \<Rightarrow> disk \<times> file_step option" where
  "write_file e temporary final data d =
     (let fault = (\<lambda>step. mx_fault e step temporary); full = gm_set temporary data d in
      if fault FCreate then (d, Some FCreate)
      else if fault FChmod then (remove_file e temporary (gm_set temporary [] d), Some FChmod)
      else if fault FWrite then (remove_file e temporary (gm_set temporary (take (mx_written e) data) d), Some FWrite)
      else if fault FClose then (remove_file e temporary full, Some FClose)
      else if fault FRename then (remove_file e temporary full, Some FRename)
      else (gm_set final data (gm_del temporary d), None))"

definition thumb_name :: "string \<Rightarrow> string" where
  "thumb_name ident = ident @ ''.thumb''"

definition media_metadata ::
  "string \<Rightarrow> string \<Rightarrow> string \<Rightarrow> string \<Rightarrow> string \<Rightarrow> string \<Rightarrow> string \<times> int \<times> int \<Rightarrow> gotime \<Rightarrow> media_file" where
  "media_metadata ident fileName fileType contentType data uploaderID thumb now =
     \<lparr> mf_ID = ident, mf_FileName = fileName, mf_FileType = fileType, mf_MimeType = contentType,
       mf_Size = int (length data), mf_URL = ''/files/'' @ ident @ ''/'' @ PathEscape fileName,
       mf_ThumbnailURL = (if fst thumb \<noteq> [] then ''/files/'' @ ident @ ''/thumb/'' @ PathEscape fileName @ ''.jpg'' else []),
       mf_Width = fst (snd thumb), mf_Height = snd (snd thumb), mf_UploaderID = uploaderID, mf_CreatedAt = now \<rparr>"

definition media_type :: "media_env \<Rightarrow> string \<Rightarrow> string \<Rightarrow> string" where
  "media_type e contentType data =
     (if \<not> mx_ParseMediaType e contentType \<or> contentType = ''application/octet-stream''
      then mx_DetectContentType e data else contentType)"

definition LocalStore_Save ::
  "media_env \<Rightarrow> disk \<Rightarrow> memory_store \<Rightarrow> string \<Rightarrow> string \<Rightarrow> string \<Rightarrow> string \<Rightarrow> string \<Rightarrow> gotime
     \<Rightarrow> disk \<times> memory_store \<times> (media_error + media_file)" where
  "LocalStore_Save e d s fileName fileType contentType0 data uploaderID now =
     (let ident = contentID e uploaderID data; contentType = media_type e contentType0 data;
          thumb = makeThumbnail e data contentType in
      case GetMedia s ident of
        Some existing \<Rightarrow>
          if mf_UploaderID existing \<noteq> uploaderID then (d, s, Inl OtherUploader)
          else if gm_get d ident = None \<or> mx_fault e FStat ident then (d, s, Inl BytesUnavailable)
          else (d, s, Inr existing)
      | None \<Rightarrow>
          (case write_file e (''.upload-'' @ mx_random e) ident data d of
             (d1, Some step) \<Rightarrow> (d1, s, Inl (OriginalFailed step))
           | (d1, None) \<Rightarrow>
               (case (if fst thumb \<noteq> [] then write_file e (''.thumbnail-'' @ mx_random e) (thumb_name ident) (fst thumb) d1
                      else (d1, None)) of
                  (d2, Some step) \<Rightarrow> (remove_file e ident d2, s, Inl (ThumbnailFailed step))
                | (d2, None) \<Rightarrow>
                    (let metadata = media_metadata ident (safeFileName fileName) fileType contentType data uploaderID thumb now
                     in (d2, StoreMedia s metadata, Inr metadata)))))"

definition LocalStore_Delete ::
  "media_env \<Rightarrow> disk \<Rightarrow> memory_store \<Rightarrow> string \<Rightarrow> disk \<times> memory_store \<times> (media_error + bool)" where
  "LocalStore_Delete e d s ident =
     (let tombstone = ''.'' @ ident @ ''.deleting'' in
      if \<not> validID ident \<or> GetMedia s ident = None then (d, s, Inr False)
      else if gm_get d ident \<noteq> None \<and> mx_fault e FRename ident then (d, s, Inl StageFailed)
      else
        (let d1 = (case gm_get d ident of None \<Rightarrow> d | Some data \<Rightarrow> gm_set tombstone data (gm_del ident d));
             s1 = DeleteMedia s ident in
         if gm_get d ident \<noteq> None \<and> mx_fault e FRemove tombstone then (d1, s1, Inl RemoveFailed)
         else
           (let d2 = (if gm_get d ident \<noteq> None then gm_del tombstone d1 else d1) in
            if gm_get d2 (thumb_name ident) \<noteq> None \<and> mx_fault e FRemove (thumb_name ident)
            then (d2, s1, Inl RemoveFailed)
            else (gm_del (thumb_name ident) d2, s1, Inr True))))"

section \<open>Serving\<close>

text \<open>\<open>strings.TrimPrefix\<close> and \<open>strings.Split\<close> at slashes\<close>

definition TrimPrefix :: "string \<Rightarrow> string \<Rightarrow> string" where
  "TrimPrefix v prefix = (if HasPrefix v prefix then drop (length prefix) v else v)"

fun split_slash :: "string \<Rightarrow> string list" where
  "split_slash [] = [[]]"
| "split_slash (c # cs) =
     (case split_slash cs of
        [] \<Rightarrow> [[c]]
      | part # parts \<Rightarrow> if c = CHR ''/'' then [] # part # parts else (c # part) # parts)"

text \<open>
  What is sent: the file that was opened, the header fields, the name and the bytes given to
  \<open>http.ServeContent\<close>.
\<close>

record served =
  sv_path :: string
  sv_ContentType :: string
  sv_disposition :: string
  sv_fileName :: string
  sv_body :: string

datatype http_answer = MethodNotAllowed | NotFound | Served served

definition content_disposition :: "string \<Rightarrow> string" where
  "content_disposition contentType =
     (if (HasPrefix contentType ''image/'' \<and> contentType \<noteq> ''image/svg+xml'')
         \<or> HasPrefix contentType ''audio/'' \<or> HasPrefix contentType ''video/''
      then ''inline'' else ''attachment'')"

definition LocalStore_ServeHTTP :: "media_env \<Rightarrow> disk \<Rightarrow> memory_store \<Rightarrow> string \<Rightarrow> string \<Rightarrow> http_answer" where
  "LocalStore_ServeHTTP e d s meth path =
     (let parts = split_slash (TrimPrefix path ''/files/''); ident = hd parts in
      if meth \<noteq> ''GET'' \<and> meth \<noteq> ''HEAD'' then MethodNotAllowed
      else if \<not> validID ident then NotFound
      else
        (case GetMedia s ident of
           None \<Rightarrow> NotFound
         | Some metadata \<Rightarrow>
             (let preview = (1 < length parts \<and> parts ! 1 = ''thumb'' \<and> gm_get d (thumb_name ident) \<noteq> None
                             \<and> \<not> mx_fault e FStat (thumb_name ident));
                  file = (if preview then thumb_name ident else ident);
                  contentType = (if preview then ''image/jpeg'' else mf_MimeType metadata) in
              case gm_get d file of
                None \<Rightarrow> NotFound
              | Some body \<Rightarrow>
                  if mx_fault e FOpen file \<or> mx_fault e FStat file then NotFound
                  else Served \<lparr> sv_path = file, sv_ContentType = contentType,
                                sv_disposition = content_disposition contentType,
                                sv_fileName = (if preview then ''thumb-'' @ mf_FileName metadata else mf_FileName metadata),
                                sv_body = body \<rparr>)))"

section \<open>Object storage\<close>

text \<open>The backend behind \<open>store.ObjectStorage\<close>: uploading gives a URL, or fails.\<close>

record 'o object_storage =
  os_Upload :: "'o \<Rightarrow> string \<Rightarrow> string \<Rightarrow> string \<Rightarrow> 'o \<times> string option"
  os_Delete :: "'o \<Rightarrow> string \<Rightarrow> 'o \<times> bool"

definition ObjectStore_Save ::
  "media_env \<Rightarrow> 'o object_storage \<Rightarrow> 'o \<Rightarrow> memory_store \<Rightarrow> string \<Rightarrow> string \<Rightarrow> string \<Rightarrow> string \<Rightarrow> string \<Rightarrow> gotime
     \<Rightarrow> 'o \<times> memory_store \<times> (media_error + media_file)" where
  "ObjectStore_Save e b o0 s fileName fileType contentType0 data uploaderID now =
     (let ident = contentID e uploaderID data; contentType = media_type e contentType0 data;
          thumb = makeThumbnail e data contentType in
      case GetMedia s ident of
        Some existing \<Rightarrow>
          if mf_UploaderID existing \<noteq> uploaderID then (o0, s, Inl OtherUploader) else (o0, s, Inr existing)
      | None \<Rightarrow>
          (case os_Upload b o0 ident data contentType of
             (o1, None) \<Rightarrow> (o1, s, Inl (OriginalFailed FWrite))
           | (o1, Some originalURL) \<Rightarrow>
               (case (if fst thumb \<noteq> [] then os_Upload b o1 (thumb_name ident) (fst thumb) ''image/jpeg'' else (o1, Some [])) of
                  (o2, None) \<Rightarrow> (fst (os_Delete b o2 ident), s, Inl (ThumbnailFailed FWrite))
                | (o2, Some thumbnailURL) \<Rightarrow>
                    (let metadata = (media_metadata ident (safeFileName fileName) fileType contentType data uploaderID thumb now)
                           \<lparr>mf_URL := originalURL, mf_ThumbnailURL := thumbnailURL\<rparr>
                     in (o2, StoreMedia s metadata, Inr metadata)))))"

definition ObjectStore_Delete ::
  "'o object_storage \<Rightarrow> 'o \<Rightarrow> memory_store \<Rightarrow> string \<Rightarrow> 'o \<times> memory_store \<times> (media_error + bool)" where
  "ObjectStore_Delete b o0 s ident =
     (case GetMedia s ident of
        None \<Rightarrow> (o0, s, Inr False)
      | Some metadata \<Rightarrow>
          (case os_Delete b o0 ident of
             (o1, False) \<Rightarrow> (o1, s, Inl RemoveFailed)
           | (o1, True) \<Rightarrow>
               (case (if mf_ThumbnailURL metadata \<noteq> [] then os_Delete b o1 (thumb_name ident) else (o1, True)) of
                  (o2, False) \<Rightarrow> (o2, s, Inl RemoveFailed)
                | (o2, True) \<Rightarrow> (o2, DeleteMedia s ident, Inr True))))"

text \<open>\<open>MediaStorage\<close> of the store package\<close>

definition MediaStorage_UploadFile ::
  "'o object_storage \<Rightarrow> 'o \<Rightarrow> memory_store \<Rightarrow> string \<Rightarrow> string \<Rightarrow> string \<Rightarrow> string \<Rightarrow> string \<Rightarrow> gotime \<Rightarrow> gotime
     \<Rightarrow> 'o \<times> memory_store \<times> media_file option" where
  "MediaStorage_UploadFile b o0 s fileName fileType contentType data uploaderID now now' =
     (let key = fileType @ ''/'' @ uploaderID @ ''/'' @ show_int (UnixNano now) @ ''_'' @ fileName in
      case os_Upload b o0 key data contentType of
        (o1, None) \<Rightarrow> (o1, s, None)
      | (o1, Some url) \<Rightarrow>
          (let file = \<lparr> mf_ID = key, mf_FileName = fileName, mf_FileType = fileType, mf_MimeType = contentType,
                        mf_Size = 0, mf_URL = url, mf_ThumbnailURL = [], mf_Width = 0, mf_Height = 0,
                        mf_UploaderID = uploaderID, mf_CreatedAt = now' \<rparr>
           in (o1, StoreMedia s file, Some file)))"

definition MediaStorage_GetFile :: "memory_store \<Rightarrow> string \<Rightarrow> media_file option" where
  "MediaStorage_GetFile s ident = GetMedia s ident"

definition MediaStorage_GetFileURL :: "memory_store \<Rightarrow> string \<Rightarrow> string + string" where
  "MediaStorage_GetFileURL s ident =
     (case GetMedia s ident of None \<Rightarrow> Inl (''file not found: '' @ ident) | Some file \<Rightarrow> Inr (mf_URL file))"

definition MediaStorage_DeleteFile :: "'o object_storage \<Rightarrow> 'o \<Rightarrow> memory_store \<Rightarrow> string \<Rightarrow> 'o \<times> memory_store \<times> bool" where
  "MediaStorage_DeleteFile b o0 s ident =
     (case os_Delete b o0 ident of
        (o1, False) \<Rightarrow> (o1, s, False)
      | (o1, True) \<Rightarrow> (o1, DeleteMedia s ident, True))"

section \<open>Bounds of a thumbnail\<close>

lemma float_to_int64_bounds:
  assumes "0 \<le> r" "r < of_int (m + 1)" "m < 2 ^ 63"
  shows "0 \<le> float_to_int64 r" "float_to_int64 r \<le> m"
proof -
  have f: "0 \<le> \<lfloor>r\<rfloor>" "\<lfloor>r\<rfloor> \<le> m" using assms(1,2) by (simp_all add: floor_le_iff)
  then have "float_to_int64 r = \<lfloor>r\<rfloor>"
    using assms(1,3) le_less_trans [OF f(2), of "2 ^ 63"] order_trans [of "- (2 ^ 63)" 0 "\<lfloor>r\<rfloor>"]
    by (simp only: float_to_int64_def trunc_rat_def Let_def if_True) simp
  with f show "0 \<le> float_to_int64 r" "float_to_int64 r \<le> m" by simp_all
qed

lemma float64_upper:
  assumes "2 powi (- 1022) \<le> r"
  shows "0 < float64 r" "float64 r \<le> r * (1 + 1 / 2 ^ 53)" "r * (1 - 1 / 2 ^ 53) \<le> float64 r"
proof -
  have r: "0 < r" using assms by (meson less_le_trans zero_less_numeral zero_less_power_int)
  have "\<bar>float64 r - r\<bar> \<le> r / 2 ^ 53" by (rule float64_error [OF r assms])
  then have b: "r - r / 2 ^ 53 \<le> float64 r" "float64 r \<le> r + r / 2 ^ 53" by linarith+
  have "r / 2 ^ 53 < r" using r by simp
  with b show "0 < float64 r" by linarith
  show "float64 r \<le> r * (1 + 1 / 2 ^ 53)" "r * (1 - 1 / 2 ^ 53) \<le> float64 r"
    using b by (simp_all add: distrib_left right_diff_distrib)
qed

lemma normal_if_large: "1 / 2 ^ 70 \<le> r \<Longrightarrow> 2 powi (- 1022) \<le> (r::rat)"
proof -
  have "(2::rat) powi (- 1022) \<le> 2 powi (- 70)" by (rule power_int_increasing) simp_all
  then show "1 / 2 ^ 70 \<le> r \<Longrightarrow> 2 powi (- 1022) \<le> r" by (simp add: power_int_minus inverse_eq_divide)
qed

text \<open>An edge scaled by the factor of the longer one is between one and the limit.\<close>

lemma scaled_product:
  assumes "0 < n" "n \<le> m" "m \<le> 2 ^ 26"
  shows "0 \<le> float64 (float64 (of_int n) * float64 (float64 640 / float64 (of_int m)))"
    "float64 (float64 (of_int n) * float64 (float64 640 / float64 (of_int m))) < 641"
proof -
  define u :: rat where "u = 1 / 2 ^ 53"
  define a b c where "a = float64 640" and "b = float64 (of_int m)" and "c = float64 (of_int n)"
  have ge: "(1::rat) \<le> of_int n" "(1::rat) \<le> of_int m" "(of_int n :: rat) \<le> of_int m" "(of_int m :: rat) \<le> 2 ^ 26"
    using assms by (simp_all add: of_int_le_iff [of n m, where 'a = rat, symmetric] del: of_int_le_iff)
  have a: "640 * (1 - u) \<le> a" "a \<le> 640 * (1 + u)"
    using float64_upper [OF normal_if_large, of 640] by (simp_all add: a_def u_def)
  have b: "of_int m * (1 - u) \<le> b" "b \<le> of_int m * (1 + u)"
    using float64_upper [OF normal_if_large, of "of_int m"] ge by (simp_all add: b_def u_def)
  have c: "0 < c" "c \<le> of_int n * (1 + u)" "of_int n * (1 - u) \<le> c"
    using float64_upper [OF normal_if_large, of "of_int n"] ge by (simp_all add: c_def u_def)
  have u: "0 < u" "u < 1 / 1000000" by (simp_all add: u_def)
  have b1: "0 < b" "b \<le> 2 ^ 27"
  proof -
    have "of_int m * (1 + u) \<le> 2 ^ 26 * 2" using u ge by (intro mult_mono) simp_all
    moreover have "0 < of_int m * (1 - u)" using u ge by (intro mult_pos_pos) simp_all
    ultimately show "0 < b" "b \<le> 2 ^ 27" using b by simp_all
  qed
  have large: "1 / 2 ^ 70 \<le> x" if "1 \<le> x * b" "0 \<le> x" for x
  proof -
    have "1 \<le> x * 2 ^ 27" using mult_left_mono [OF b1(2) that(2)] that(1) by linarith
    then show ?thesis by simp
  qed
  have a1: "1 \<le> a" using a(1) u(2) by simp
  define q where "q = a / b"
  have qb: "q * b = a" "0 < q" using b1 a1 by (simp_all add: q_def)
  have q: "q * (1 - u) \<le> float64 q" "float64 q \<le> q * (1 + u)" "0 < float64 q"
    using float64_upper [OF normal_if_large [OF large], of q] a1 qb by (simp_all add: u_def)
  define p where "p = c * float64 q"
  have pb_le: "p * b \<le> (of_int n * (1 + u)) * (q * (1 + u)) * b"
    unfolding p_def using c q qb(2) b1(1) u ge by (intro mult_right_mono mult_mono) simp_all
  have pb_ge: "(of_int n * (1 - u)) * (q * (1 - u)) * b \<le> p * b"
    unfolding p_def using c q(1) qb(2) b1(1) u ge by (intro mult_right_mono mult_mono) simp_all
  have "p * b \<le> of_int n * (1 + u) ^ 2 * a" "of_int n * (1 - u) ^ 2 * a \<le> p * b"
    using pb_le pb_ge by (simp_all add: qb(1) [symmetric] power2_eq_square algebra_simps)
  moreover have "of_int n * (1 + u) ^ 2 * a \<le> of_int m * (1 + u) ^ 2 * (640 * (1 + u))"
    using ge a a1 u by (intro mult_mono) simp_all
  moreover have "1 * (1 - u) ^ 2 * (640 * (1 - u)) \<le> of_int n * (1 - u) ^ 2 * a"
    using ge a u by (intro mult_mono) simp_all
  ultimately have pb: "p * b \<le> of_int m * (640 * (1 + u) ^ 3)" "640 * (1 - u) ^ 3 \<le> p * b"
    by (simp_all add: power3_eq_cube power2_eq_square algebra_simps)
  have p0: "0 < p" using c(1) q(3) by (simp add: p_def)
  have "p * (of_int m * (1 - u)) \<le> p * b" using b(1) p0 by (intro mult_left_mono) simp_all
  with pb(1) have "of_int m * (p * (1 - u)) \<le> of_int m * (640 * (1 + u) ^ 3)" by (simp add: algebra_simps)
  then have p1: "p * (1 - u) \<le> 640 * (1 + u) ^ 3" using ge(2) by simp
  have "1 \<le> 640 * (1 - u) ^ 3" by (simp add: u_def power3_eq_cube)
  with pb(2) p0 have f: "0 < float64 p" "float64 p \<le> p * (1 + u)"
    using float64_upper [OF normal_if_large [OF large], of p] by (simp_all add: u_def)
  have "float64 p * (1 - u) \<le> p * (1 + u) * (1 - u)" using f(2) u by (intro mult_right_mono) simp_all
  also have "\<dots> \<le> 640 * (1 + u) ^ 3 * (1 + u)"
    using mult_right_mono [OF p1, of "1 + u"] u by (simp add: algebra_simps)
  also have "\<dots> < 641 * (1 - u)" by (simp add: u_def power3_eq_cube)
  finally have "float64 p < 641" by (rule mult_right_less_imp_less) (use u in simp)
  with f(1) show "0 \<le> float64 (float64 (of_int n) * float64 (float64 640 / float64 (of_int m)))"
    "float64 (float64 (of_int n) * float64 (float64 640 / float64 (of_int m))) < 641"
    by (simp_all add: p_def q_def a_def b_def c_def)
qed

lemma thumbnail_size_bounds:
  assumes "0 < width" "0 < height" "width \<le> 2 ^ 26" "height \<le> 2 ^ 26" "thumbnail_size width height = (w, h)"
  shows "1 \<le> w" "w \<le> maxThumbnailEdge" "1 \<le> h" "h \<le> maxThumbnailEdge"
proof -
  have edge: "1 \<le> scaled_edge n (float64 (float64 640 / float64 (of_int m))) \<and>
      scaled_edge n (float64 (float64 640 / float64 (of_int m))) \<le> 640" if "0 < n" "n \<le> m" "m \<le> 2 ^ 26" for n m
    using scaled_product [OF that] float_to_int64_bounds(2) [of _ 640] by (auto simp: scaled_edge_def)
  show "1 \<le> w" "w \<le> maxThumbnailEdge" "1 \<le> h" "h \<le> maxThumbnailEdge"
    using assms edge [of width "if width < height then height else width"]
      edge [of height "if width < height then height else width"]
    by (auto simp: thumbnail_size_def maxThumbnailEdge_def Let_def split: if_splits)
qed

lemma over_white_bounds: "c \<le> 255 \<Longrightarrow> alpha \<le> 255 \<Longrightarrow> over_white c alpha = (c * alpha + 255 * (255 - alpha)) div 255"
proof -
  assume "c \<le> 255" "alpha \<le> 255"
  then have "c * alpha + 255 * (255 - alpha) \<le> 255 * alpha + 255 * (255 - alpha)" by simp
  also have "\<dots> = 255 * 255" using \<open>alpha \<le> 255\<close> by simp
  finally have "(c * alpha + 255 * (255 - alpha)) div 255 < 256" by (simp add: div_le_mono [of _ "255 * 255" 255, simplified] le_imp_less_Suc)
  then show ?thesis by (simp add: over_white_def)
qed

lemma source_index_bounds:
  assumes "0 \<le> x" "x < w" "0 < (width::int)"
  shows "0 \<le> x * width div w" "x * width div w < width"
proof -
  show "0 \<le> x * width div w" using assms by (simp add: pos_imp_zdiv_nonneg_iff)
  have "x * width < width * w" using assms by (simp add: mult.commute)
  moreover have "x * width div w * w \<le> x * width" using assms(1,2) pos_mod_sign [of w "x * width"]
    by (simp add: minus_mod_eq_div_mult [symmetric] del: pos_mod_sign)
  ultimately have "x * width div w * w < width * w" by linarith
  then show "x * width div w < width" using assms(1,2) by simp
qed

section \<open>Metadata never outlives the bytes\<close>

text \<open>
  Every entry of the metadata has its bytes in the directory, under a name that is the digest of
  its uploader and these bytes, and its preview when it names one.
\<close>

definition media_inv :: "media_env \<Rightarrow> disk \<Rightarrow> memory_store \<Rightarrow> bool" where
  "media_inv e d s \<longleftrightarrow>
     (\<forall>ident file. GetMedia s ident = Some file \<longrightarrow>
        mf_ID file = ident
        \<and> (\<exists>data. gm_get d ident = Some data \<and> ident = contentID e (mf_UploaderID file) data)
        \<and> (mf_ThumbnailURL file \<noteq> [] \<longrightarrow> gm_get d (thumb_name ident) \<noteq> None))"

text \<open>What is assumed of SHA-256: the digest is written in hexadecimal digits.\<close>

definition digest_hex :: "media_env \<Rightarrow> bool" where
  "digest_hex e \<longleftrightarrow> (\<forall>v. length (mx_digest e v) = 64 \<and> list_all hex_digit (mx_digest e v))"

text \<open>The names in the directory that metadata refers to: identifiers and their previews.\<close>

definition media_name :: "string \<Rightarrow> bool" where
  "media_name name \<longleftrightarrow> (\<exists>ident. validID ident \<and> (name = ident \<or> name = thumb_name ident))"

lemma hex_digit_dot: "\<not> hex_digit (CHR ''.'')" "\<not> hex_digit (CHR ''/'')"
  by (simp_all add: hex_digit_def)

lemma validID_chars: "validID ident \<Longrightarrow> CHR ''.'' \<notin> set ident \<and> CHR ''/'' \<notin> set ident \<and> ident \<noteq> []"
  using hex_digit_dot by (auto simp: validID_def list_all_iff)

lemma hidden_not_media_name: "\<not> media_name (CHR ''.'' # v)"
proof
  assume "media_name (CHR ''.'' # v)"
  then obtain ident where i: "validID ident" "CHR ''.'' # v = ident \<or> CHR ''.'' # v = ident @ ''.thumb''"
    by (auto simp: media_name_def thumb_name_def)
  moreover have "CHR ''.'' \<notin> set ident" "ident \<noteq> []" using validID_chars [OF i(1)] by simp_all
  ultimately have "hd (CHR ''.'' # v) \<in> set ident" by (metis hd_append2 hd_in_set)
  then show False using \<open>CHR ''.'' \<notin> set ident\<close> by simp
qed

lemma thumb_name_inject [simp]: "thumb_name a = thumb_name b \<longleftrightarrow> a = b" "thumb_name a \<noteq> a" "a \<noteq> thumb_name a"
  by (auto simp: thumb_name_def dest: arg_cong [of _ _ length])

lemma validID_thumb: "validID b \<Longrightarrow> thumb_name a \<noteq> b"
proof
  assume "validID b" "thumb_name a = b"
  then have "CHR ''.'' \<in> set b" by (auto simp: thumb_name_def)
  then show False using validID_chars [OF \<open>validID b\<close>] by simp
qed

lemma validID_contentID: "digest_hex e \<Longrightarrow> validID (contentID e u data)"
  by (simp add: digest_hex_def validID_def contentID_def)

lemma write_file_get:
  assumes "write_file e temporary final data d = (d1, r)" "name \<noteq> temporary"
  shows "gm_get d1 name = (if r = None \<and> name = final then Some data else gm_get d name)"
  using assms by (auto simp: write_file_def remove_file_def Let_def split: if_splits)

lemma write_file_media:
  assumes "write_file e temporary final data d = (d1, r)" "HasPrefix temporary ''.''" "media_name name"
  shows "gm_get d1 name = (if r = None \<and> name = final then Some data else gm_get d name)"
proof -
  obtain v where "temporary = CHR ''.'' # v" using assms(2) by (auto simp: HasPrefix_iff)
  then have "name \<noteq> temporary" using assms(3) hidden_not_media_name [of v] by blast
  then show ?thesis by (rule write_file_get [OF assms(1)])
qed

lemma remove_file_get: "name \<noteq> victim \<Longrightarrow> gm_get (remove_file e victim d) name = gm_get d name"
  by (simp add: remove_file_def)

lemma media_invI:
  assumes "media_inv e d s"
    and "\<And>ident. GetMedia s ident \<noteq> None \<Longrightarrow> gm_get d1 ident = gm_get d ident \<and> gm_get d1 (thumb_name ident) = gm_get d (thumb_name ident)"
  shows "media_inv e d1 s"
  using assms unfolding media_inv_def by (metis option.distinct(1))

lemma media_inv_sub:
  assumes "media_inv e d s" "\<And>ident file. GetMedia s' ident = Some file \<Longrightarrow> GetMedia s ident = Some file"
  shows "media_inv e d s'"
  unfolding media_inv_def
proof (intro allI impI)
  fix ident f0
  assume "GetMedia s' ident = Some f0"
  then have "GetMedia s ident = Some f0" by (rule assms(2))
  then show "mf_ID f0 = ident \<and> (\<exists>data. gm_get d ident = Some data \<and> ident = contentID e (mf_UploaderID f0) data)
      \<and> (mf_ThumbnailURL f0 \<noteq> [] \<longrightarrow> gm_get d (thumb_name ident) \<noteq> None)"
    using assms(1) unfolding media_inv_def by (elim allE impE) assumption+
qed

lemma media_invD:
  assumes "media_inv e d s" "GetMedia s ident = Some file"
  shows "mf_ID file = ident" "\<exists>data. gm_get d ident = Some data \<and> ident = contentID e (mf_UploaderID file) data"
  using assms unfolding media_inv_def by simp_all

lemma media_inv_validID: "media_inv e d s \<Longrightarrow> digest_hex e \<Longrightarrow> GetMedia s ident \<noteq> None \<Longrightarrow> validID ident"
  using media_invD(2) validID_contentID by (metis not_None_eq)

lemma Save_keeps_media_inv:
  assumes "media_inv e d s" "digest_hex e" "LocalStore_Save e d s fn ft ct data u now = (d2, s2, r)"
  shows "media_inv e d2 s2"
proof (cases "GetMedia s (contentID e u data)")
  case (Some existing)
  with assms show ?thesis by (auto simp: LocalStore_Save_def Let_def split: if_splits)
next
  case None
  let ?id = "contentID e u data" and ?th = "makeThumbnail e data (media_type e ct data)"
  have id: "validID ?id" by (rule validID_contentID [OF assms(2)])
  have vid: "validID i" if "GetMedia s i \<noteq> None" for i
    by (rule media_inv_validID [OF assms(1,2) that])
  obtain d1 r1 where w1: "write_file e (''.upload-'' @ mx_random e) ?id data d = (d1, r1)" by fastforce
  obtain d3 r3 where w3: "(if fst ?th \<noteq> [] then write_file e (''.thumbnail-'' @ mx_random e) (thumb_name ?id) (fst ?th) d1
      else (d1, None)) = (d3, r3)" by fastforce
  have n1: "gm_get d1 name = (if r1 = None \<and> name = ?id then Some data else gm_get d name)" if "media_name name" for name
    by (rule write_file_media [OF w1 _ that]) simp
  have n3: "gm_get d3 name = (if r3 = None \<and> fst ?th \<noteq> [] \<and> name = thumb_name ?id then Some (fst ?th) else gm_get d1 name)"
    if "media_name name" for name
    using write_file_media [of e "''.thumbnail-'' @ mx_random e" _ _ d1 d3 r3, OF _ _ that] w3
    by (auto split: if_split_asm)
  have mn: "media_name i" "media_name (thumb_name i)" if "validID i" for i using that by (auto simp: media_name_def)
  have other: "i \<noteq> ?id" "thumb_name i \<noteq> ?id" "i \<noteq> thumb_name ?id" if "GetMedia s i \<noteq> None" for i
    using that None vid [OF that] id validID_thumb by auto
  have old: "media_inv e d' s" if "\<And>i. GetMedia s i \<noteq> None \<Longrightarrow> gm_get d' i = gm_get d i \<and> gm_get d' (thumb_name i) = gm_get d (thumb_name i)" for d'
    using media_invI [OF assms(1)] that by blast
  show ?thesis
  proof (cases "r1 = None \<and> r3 = None")
    case True
    let ?m = "media_metadata ?id (safeFileName fn) ft (media_type e ct data) data u ?th now"
    have "d2 = d3" "s2 = StoreMedia s ?m"
      using assms(3) None w1 w3 True by (auto simp: LocalStore_Save_def Let_def)
    moreover have "media_inv e d3 s" using n1 n3 mn vid other by (intro old) auto
    moreover have "gm_get d3 ?id = Some data" "fst ?th \<noteq> [] \<Longrightarrow> gm_get d3 (thumb_name ?id) \<noteq> None"
      using n1 n3 mn id True validID_thumb by auto
    ultimately show ?thesis unfolding media_inv_def
      by (auto simp: StoreMedia_def GetMedia_def media_metadata_def split: if_split_asm)
  next
    case False
    have "s2 = s" and d2: "d2 = (if r1 = None then remove_file e ?id d3 else d1)"
      using assms(3) None w1 w3 False by (auto simp: LocalStore_Save_def Let_def split: option.splits)
    moreover have "media_inv e d2 s"
      unfolding d2 using n1 n3 mn vid other False by (intro old) (auto simp: remove_file_get)
    ultimately show ?thesis by simp
  qed
qed

lemma Delete_keeps_media_inv:
  assumes "media_inv e d s" "digest_hex e" "LocalStore_Delete e d s ident = (d2, s2, r)"
  shows "media_inv e d2 s2"
proof -
  let ?tomb = "''.'' @ ident @ ''.deleting''"
  have same: "gm_get d2 name = gm_get d name" if "media_name name" "name \<noteq> ident" "name \<noteq> thumb_name ident" for name
  proof -
    have "name \<noteq> ?tomb" using that(1) hidden_not_media_name by auto
    with that(2,3) assms(3) show ?thesis
      by (auto simp: LocalStore_Delete_def Let_def split: if_splits option.splits)
  qed
  consider "d2 = d \<and> s2 = s" | "s2 = DeleteMedia s ident" "validID ident"
    using assms(3) by (auto simp: LocalStore_Delete_def Let_def split: if_splits)
  then show ?thesis
  proof cases
    case 2
    have name: "media_name i" "media_name (thumb_name i)" "i \<noteq> thumb_name ident" "thumb_name i \<noteq> ident"
      if "GetMedia s i \<noteq> None" for i
    proof -
      have i: "validID i" by (rule media_inv_validID [OF assms(1,2) that])
      then show "media_name i" "media_name (thumb_name i)" unfolding media_name_def by blast+
      show "i \<noteq> thumb_name ident" "thumb_name i \<noteq> ident"
        using validID_thumb [OF i, of ident] validID_thumb [OF 2(2), of i] by metis+
    qed
    from same [OF name(1)] same [OF name(2)] name(3,4) have "gm_get d2 i = gm_get d i \<and> gm_get d2 (thumb_name i) = gm_get d (thumb_name i)"
      if "GetMedia s2 i \<noteq> None" for i
      using that by (simp add: 2(1) DeleteMedia_def GetMedia_def split: if_split_asm)
    moreover have "media_inv e d s2"
      by (rule media_inv_sub [OF assms(1)]) (simp add: 2(1) DeleteMedia_def GetMedia_def split: if_split_asm)
    ultimately show ?thesis using media_invI [of e d s2 d2] by blast
  qed (use assms(1) in simp)
qed

text \<open>Every history of uploads and deletions, with any faults; the digest stays the same function.\<close>

inductive media_reachable :: "(string \<Rightarrow> string) \<Rightarrow> disk \<Rightarrow> memory_store \<Rightarrow> bool" for H where
  media_start: "media_reachable H [] NewMemoryStore"
| media_save: "media_reachable H d s \<Longrightarrow> mx_digest e = H \<Longrightarrow>
    LocalStore_Save e d s fn ft ct data u now = (d', s', r) \<Longrightarrow> media_reachable H d' s'"
| media_delete: "media_reachable H d s \<Longrightarrow> mx_digest e = H \<Longrightarrow>
    LocalStore_Delete e d s ident = (d', s', r') \<Longrightarrow> media_reachable H d' s'"

lemma media_inv_digest: "mx_digest e = mx_digest e' \<Longrightarrow> media_inv e d s = media_inv e' d s"
  by (simp add: media_inv_def contentID_def)

section \<open>Serving\<close>

lemma split_slash_simple: "CHR ''/'' \<notin> set v \<Longrightarrow> split_slash v = [v]"
  by (induction v) auto

lemma split_slash_nonempty [simp]: "split_slash v \<noteq> []"
  by (induction v) (auto split: list.splits)

lemma split_slash_append: "CHR ''/'' \<notin> set v \<Longrightarrow> split_slash (v @ CHR ''/'' # w) = v # split_slash w"
  by (induction v) (auto split: list.splits)

lemma ServeHTTP_served:
  assumes "LocalStore_ServeHTTP e d s meth path = Served a"
  shows "\<exists>ident file. validID ident \<and> GetMedia s ident = Some file \<and> sv_path a \<in> {ident, thumb_name ident}
     \<and> gm_get d (sv_path a) = Some (sv_body a)
     \<and> sv_ContentType a = (if sv_path a = ident then mf_MimeType file else ''image/jpeg'')
     \<and> sv_disposition a = content_disposition (sv_ContentType a)"
  using assms by (auto simp: LocalStore_ServeHTTP_def Let_def split: if_split_asm option.splits)

text \<open>A path below an identifier: what follows the next slash decides whether the preview is meant.\<close>

lemma serve_path:
  assumes "validID ident"
  shows "split_slash (TrimPrefix (''/files/'' @ ident @ ''/'' @ name) ''/files/'') = ident # split_slash name"
  using validID_chars [OF assms] by (simp add: TrimPrefix_def split_slash_append)

lemma Serve_uploaded:
  assumes "validID ident" "GetMedia s ident = Some file" "gm_get d ident = Some data"
    and "\<And>step f. \<not> mx_fault e step f" "meth \<in> {''GET'', ''HEAD''}"
    and "hd (split_slash name) = ''thumb'' \<Longrightarrow> gm_get d (thumb_name ident) = None"
  shows "LocalStore_ServeHTTP e d s meth (''/files/'' @ ident @ ''/'' @ name) =
     Served \<lparr> sv_path = ident, sv_ContentType = mf_MimeType file, sv_disposition = content_disposition (mf_MimeType file),
              sv_fileName = mf_FileName file, sv_body = data \<rparr>"
proof -
  have "split_slash name ! 0 = ''thumb'' \<Longrightarrow> gm_get d (thumb_name ident) = None"
    using assms(6) by (simp add: hd_conv_nth)
  with assms(1-5) show ?thesis
    unfolding LocalStore_ServeHTTP_def Let_def serve_path [OF assms(1)] by auto
qed

text \<open>The preview of a file.\<close>

lemma Serve_preview:
  assumes "validID ident" "GetMedia s ident = Some file" "gm_get d (thumb_name ident) = Some data"
    and "\<And>step f. \<not> mx_fault e step f" "meth \<in> {''GET'', ''HEAD''}" "hd (split_slash name) = ''thumb''"
  shows "LocalStore_ServeHTTP e d s meth (''/files/'' @ ident @ ''/'' @ name) =
     Served \<lparr> sv_path = thumb_name ident, sv_ContentType = ''image/jpeg'', sv_disposition = ''inline'',
              sv_fileName = ''thumb-'' @ mf_FileName file, sv_body = data \<rparr>"
proof -
  have "split_slash name ! 0 = ''thumb''" using assms(6) by (simp add: hd_conv_nth)
  moreover have "0 < length (split_slash name)" by simp
  ultimately show ?thesis using assms(1-5)
    unfolding LocalStore_ServeHTTP_def Let_def serve_path [OF assms(1)]
    by (auto simp: content_disposition_def HasPrefix_iff)
qed

text \<open>What a successful upload leaves behind.\<close>

lemma Save_stored:
  assumes "digest_hex e" "GetMedia s (contentID e u data) = None" "LocalStore_Save e d s fn ft ct data u now = (d2, s2, Inr file)"
  shows "mf_ID file = contentID e u data" "GetMedia s2 (mf_ID file) = Some file" "gm_get d2 (mf_ID file) = Some data"
    "mf_FileName file = safeFileName fn" "mf_MimeType file = media_type e ct data"
    "mf_ThumbnailURL file \<noteq> [] \<Longrightarrow> gm_get d2 (thumb_name (mf_ID file)) = Some (fst (makeThumbnail e data (media_type e ct data)))"
proof -
  let ?id = "contentID e u data" and ?th = "makeThumbnail e data (media_type e ct data)"
  have id: "validID ?id" by (rule validID_contentID [OF assms(1)])
  obtain d1 r1 where w1: "write_file e (''.upload-'' @ mx_random e) ?id data d = (d1, r1)" by fastforce
  obtain d3 r3 where w3: "(if fst ?th \<noteq> [] then write_file e (''.thumbnail-'' @ mx_random e) (thumb_name ?id) (fst ?th) d1
      else (d1, None)) = (d3, r3)" by fastforce
  have r: "r1 = None" "r3 = None" "d2 = d3"
    "file = media_metadata ?id (safeFileName fn) ft (media_type e ct data) data u ?th now" "s2 = StoreMedia s file"
    using assms(2,3) w1 w3 by (auto simp: LocalStore_Save_def Let_def split: option.splits)
  have mn: "media_name ?id" "media_name (thumb_name ?id)" using id by (auto simp: media_name_def)
  have one: "gm_get d1 ?id = Some data"
    using write_file_media [OF w1 _ mn(1)] r(1) by simp
  have two: "gm_get d3 name = (if fst ?th \<noteq> [] \<and> name = thumb_name ?id then Some (fst ?th) else gm_get d1 name)" if "media_name name" for name
    using write_file_media [of e "''.thumbnail-'' @ mx_random e" _ _ d1 d3 r3, OF _ _ that] w3 r(2) by (auto split: if_split_asm)
  show "mf_ID file = ?id" "mf_FileName file = safeFileName fn" "mf_MimeType file = media_type e ct data"
    by (simp_all add: r(4) media_metadata_def)
  then show "GetMedia s2 (mf_ID file) = Some file" "gm_get d2 (mf_ID file) = Some data"
    using two [OF mn(1)] one by (simp_all add: r(3,5) GetMedia_def StoreMedia_def)
  show "mf_ThumbnailURL file \<noteq> [] \<Longrightarrow> gm_get d2 (thumb_name (mf_ID file)) = Some (fst ?th)"
    using two [OF mn(2)] by (simp add: r(3,4) media_metadata_def split: if_split_asm)
qed

lemma reachable_media_inv: "media_reachable (mx_digest e) d s \<Longrightarrow> digest_hex e \<Longrightarrow> media_inv e d s"
proof (induction rule: media_reachable.induct)
  case media_start
  show ?case by (simp add: media_inv_def GetMedia_def NewMemoryStore_def)
next
  case (media_save d s e' fn ft ct data u now d' s' r)
  then show ?case using Save_keeps_media_inv [of e' d s] media_inv_digest [of e e'] by (simp add: digest_hex_def)
next
  case (media_delete d s e' ident d' s' r')
  then show ?case using Delete_keeps_media_inv [of e' d s] media_inv_digest [of e e'] by (simp add: digest_hex_def)
qed

end
