(* ===== verification/Gateway_Core.thy ===== *)
theory Gateway_Core
  imports Store_System Dynamic_Actions Media_Files
begin

text \<open>
  The gateway (\<open>internal/gateway/gateway.go\<close>): connections, presence, routing of events to the
  participants of a conversation, queued push work, and the permission helpers the request
  handlers share. A connection is an index into \<open>gw_conns\<close>; \<open>gw_clients\<close> is the registry from
  users to their connections. A handler is a function of the gateway state, so one request is
  handled as a whole; \<open>time.Now()\<close> is the sequence \<open>env_now\<close>, read in program order.
\<close>

section \<open>Protocol values\<close>

record sender =
  sd_UserID :: string
  sd_Nickname :: string
  sd_Avatar :: string

record message_event =
  me_PostType :: string
  me_MessageType :: string
  me_MessageID :: string
  me_ConversationID :: string
  me_Sender :: sender
  me_Message :: "message_segment list"
  me_Reactions :: "reaction list"
  me_Timestamp :: int
  me_TimestampMS :: int
  me_LocalAgent :: bool
  me_FairyOwned :: bool
  me_DynamicEventAudit :: bool

record notice_event =
  ne_PostType :: string
  ne_NoticeType :: string
  ne_UserID :: string
  ne_GroupID :: string
  ne_MessageID :: string
  ne_OperatorID :: string
  ne_TargetID :: string
  ne_ConversationID :: string
  ne_LastReadMessageID :: string
  ne_ReadAt :: int
  ne_SubType :: string
  ne_Duration :: int
  ne_Enabled :: bool
  ne_EmojiID :: string
  ne_Removed :: bool
  ne_Online :: "bool option"
  ne_IsPinned :: "bool option"
  ne_IsMuted :: "bool option"
  ne_NotificationLevel :: string
  ne_AnnouncementID :: string
  ne_Action :: string
  ne_Reactions :: "reaction list"
  ne_Nickname :: string
  ne_Avatar :: string
  ne_ProfileVersion :: int

record request_event =
  re_PostType :: string
  re_RequestType :: string
  re_UserID :: string
  re_GroupID :: string
  re_Comment :: string
  re_Flag :: string

record request =
  rqs_Action :: string
  rqs_Params :: json
  rqs_Echo :: string

record response =
  rp_Status :: string
  rp_RetCode :: int
  rp_Data :: json
  rp_Msg :: string
  rp_Echo :: string

text \<open>
  What is queued for a client. The server encodes these with \<open>json.Marshal\<close>, which does not fail
  on them; the model queues the value itself.
\<close>

datatype outgoing =
    OResponse response
  | OMessage message_event
  | ONotice notice_event
  | ORequest request_event

text \<open>A notice with \<open>post_type\<close> set and every other field at its zero value.\<close>

definition notice :: "string \<Rightarrow> notice_event" where
  "notice ty =
     \<lparr> ne_PostType = ''notice'', ne_NoticeType = ty, ne_UserID = [], ne_GroupID = [], ne_MessageID = [],
       ne_OperatorID = [], ne_TargetID = [], ne_ConversationID = [], ne_LastReadMessageID = [],
       ne_ReadAt = 0, ne_SubType = [], ne_Duration = 0, ne_Enabled = False, ne_EmojiID = [],
       ne_Removed = False, ne_Online = None, ne_IsPinned = None, ne_IsMuted = None,
       ne_NotificationLevel = [], ne_AnnouncementID = [], ne_Action = [], ne_Reactions = [],
       ne_Nickname = [], ne_Avatar = [], ne_ProfileVersion = 0 \<rparr>"

section \<open>State\<close>

record client =
  cl_userID :: string
  cl_deviceID :: string
  cl_terminalSessionID :: string
  cl_capabilities :: capabilities
  cl_send :: "outgoing list"
  cl_sendDone :: bool

text \<open>Work a handler leaves to a goroutine.\<close>

datatype push_job =
    PushMessage string message "string list" bool jobject
  | PushEvent string jobject

record gateway =
  gw_store :: memory_store
  gw_conns :: "client list"
  gw_clients :: "(string, nat list) gomap"
  gw_pokeLast :: "(string, gotime) gomap"
  gw_pushEnabled :: bool
  gw_accessToken :: string
  gw_inviteCode :: string
  gw_jobs :: "push_job list"
  gw_media :: "disk option"

text \<open>
  What a handler takes from outside: the standard library, the readings of the clock, the token
  digest (SHA-256 in hexadecimal), the bcrypt check of a password against a stored hash, the token
  the random generator yields, the digests that identify messages, updates and interaction events
  (\<open>None\<close> where encoding fails), the RFC 3339 renderings of a time in a text and in JSON and their
  parser, the text functions of \<open>go_text\<close>, the bcrypt hash, base64 decoding, the address of a host
  (with the classes \<open>net.IP\<close> tells), the world of the media store, and the public key of
  the push sender.
\<close>

record ip_kind =
  ip_Loopback :: bool
  ip_Private :: bool
  ip_Unspecified :: bool
  ip_LinkLocalUnicast :: bool
  ip_LinkLocalMulticast :: bool
  ip_Multicast :: bool

record env =
  env_std :: go_std
  env_now :: "nat \<Rightarrow> gotime"
  env_hash :: "string \<Rightarrow> string"
  env_checkPassword :: "string \<Rightarrow> string \<Rightarrow> bool"
  env_token :: string
  env_msgDigest :: msg_digest
  env_updateDigest :: "string \<times> message_segment \<Rightarrow> string option"
  env_eventDigest :: event_digest
  env_legacyEvent :: "string \<Rightarrow> string \<Rightarrow> jobject \<Rightarrow> string"
  env_RFC3339 :: "gotime \<Rightarrow> string"
  env_timeJSON :: "gotime \<Rightarrow> string"
  env_text :: go_text
  env_parseRFC3339 :: "string \<Rightarrow> gotime option"
  env_bcrypt :: "string \<Rightarrow> string option"
  env_base64 :: "string \<Rightarrow> string option"
  env_ParseIP :: "string \<Rightarrow> ip_kind option"
  env_media :: media_env
  env_publicKey :: string

definition NewGateway :: "memory_store \<Rightarrow> bool \<Rightarrow> gateway" where
  "NewGateway database pushEnabled =
     \<lparr> gw_store = database, gw_conns = [], gw_clients = [], gw_pokeLast = [],
       gw_pushEnabled = pushEnabled, gw_accessToken = [], gw_inviteCode = [], gw_jobs = [], gw_media = None \<rparr>"

definition SetMediaUploader :: "gateway \<Rightarrow> disk \<Rightarrow> gateway" where
  "SetMediaUploader g media = g\<lparr>gw_media := Some media\<rparr>"

definition SetAccessToken :: "gateway \<Rightarrow> string \<Rightarrow> gateway" where
  "SetAccessToken g token = g\<lparr>gw_accessToken := token\<rparr>"

definition SetInviteCode :: "gateway \<Rightarrow> string \<Rightarrow> gateway" where
  "SetInviteCode g code = g\<lparr>gw_inviteCode := TrimSpace code\<rparr>"

definition RegistrationEnabled :: "gateway \<Rightarrow> bool" where
  "RegistrationEnabled g \<longleftrightarrow> gw_inviteCode g \<noteq> []"

definition conn :: "gateway \<Rightarrow> nat \<Rightarrow> client" where
  "conn g c = gw_conns g ! c"

definition on_conn :: "gateway \<Rightarrow> nat \<Rightarrow> (client \<Rightarrow> client) \<Rightarrow> gateway" where
  "on_conn g c f = g\<lparr>gw_conns := (gw_conns g)[c := f (gw_conns g ! c)]\<rparr>"

definition on_store :: "gateway \<Rightarrow> (memory_store \<Rightarrow> memory_store) \<Rightarrow> gateway" where
  "on_store g f = g\<lparr>gw_store := f (gw_store g)\<rparr>"

text \<open>\<open>HandleWebSocket\<close>: a new connection, not yet bound to a user.\<close>

definition new_client :: client where
  "new_client = \<lparr> cl_userID = [], cl_deviceID = [], cl_terminalSessionID = [],
     cl_capabilities = no_capabilities, cl_send = [], cl_sendDone = False \<rparr>"

definition HandleWebSocket :: "gateway \<Rightarrow> gateway \<times> nat" where
  "HandleWebSocket g = (g\<lparr>gw_conns := gw_conns g @ [new_client]\<rparr>, length (gw_conns g))"

section \<open>Sending\<close>

definition send_capacity :: nat where "send_capacity = 256"

definition enqueue :: "client \<Rightarrow> outgoing \<Rightarrow> client \<times> bool" where
  "enqueue cl data =
     (if cl_sendDone cl then (cl, False)
      else if length (cl_send cl) < send_capacity then (cl\<lparr>cl_send := cl_send cl @ [data]\<rparr>, True)
      else (cl, False))"

definition closeSend :: "client \<Rightarrow> client" where
  "closeSend cl = (if cl_sendDone cl then cl else cl\<lparr>cl_sendDone := True\<rparr>)"

text \<open>One turn of \<open>writePump\<close>: the oldest queued event goes out.\<close>

definition writePump :: "gateway \<Rightarrow> nat \<Rightarrow> gateway \<times> outgoing option" where
  "writePump g c =
     (case cl_send (conn g c) of
        [] \<Rightarrow> (g, None)
      | data # rest \<Rightarrow> (on_conn g c (\<lambda>cl. cl\<lparr>cl_send := rest\<rparr>), Some data))"

definition sendJSON :: "gateway \<Rightarrow> nat \<Rightarrow> response \<Rightarrow> gateway" where
  "sendJSON g c v = on_conn g c (\<lambda>cl. fst (enqueue cl (OResponse v)))"

definition ok_response :: "json \<Rightarrow> string \<Rightarrow> response" where
  "ok_response data echo = \<lparr> rp_Status = ''ok'', rp_RetCode = 0, rp_Data = data, rp_Msg = [], rp_Echo = echo \<rparr>"

definition sendError :: "gateway \<Rightarrow> nat \<Rightarrow> string \<Rightarrow> string \<Rightarrow> gateway" where
  "sendError g c echo msg =
     sendJSON g c \<lparr> rp_Status = ''error'', rp_RetCode = 100, rp_Data = JNull, rp_Msg = msg, rp_Echo = echo \<rparr>"

section \<open>Routing\<close>

definition clientMessageSegments :: "go_std \<Rightarrow> client \<Rightarrow> message_segment list \<Rightarrow> message_segment list" where
  "clientMessageSegments std cl segments =
     (case segmentsForClient std (cl_capabilities cl) segments of None \<Rightarrow> [] | Some result \<Rightarrow> result)"

definition marshalClientEvent :: "go_std \<Rightarrow> client \<Rightarrow> message_event \<Rightarrow> outgoing option" where
  "marshalClientEvent std cl event =
     map_option (\<lambda>segments. OMessage (event\<lparr>me_Message := segments\<rparr>))
       (segmentsForClient std (cl_capabilities cl) (me_Message event))"

text \<open>The bytes one client is sent for an event; \<open>None\<close> skips the client.\<close>

definition outgoing_for :: "go_std \<Rightarrow> client \<Rightarrow> outgoing \<Rightarrow> outgoing option" where
  "outgoing_for std cl event =
     (case event of
        OMessage messageEvent \<Rightarrow>
          if hasCapabilitySensitiveSegment (me_Message messageEvent)
          then marshalClientEvent std cl messageEvent else Some event
      | _ \<Rightarrow> Some event)"

definition deliver :: "go_std \<Rightarrow> outgoing \<Rightarrow> gateway \<Rightarrow> nat \<Rightarrow> gateway" where
  "deliver std event g c =
     (case outgoing_for std (conn g c) event of
        None \<Rightarrow> g
      | Some data \<Rightarrow> on_conn g c (\<lambda>cl. fst (enqueue cl data)))"

definition clientsForUser :: "gateway \<Rightarrow> string \<Rightarrow> nat list" where
  "clientsForUser g userID = gm_list (gw_clients g) userID"

definition sendToUser :: "go_std \<Rightarrow> gateway \<Rightarrow> string \<Rightarrow> outgoing \<Rightarrow> gateway" where
  "sendToUser std g userID event = foldl (deliver std event) g (clientsForUser g userID)"

text \<open>The users an event in a conversation goes to, in order and with repetitions.\<close>

definition conversation_users :: "memory_store \<Rightarrow> string \<Rightarrow> string list" where
  "conversation_users s convID =
     (case GetConversation s convID of
        None \<Rightarrow> []
      | Some conv \<Rightarrow>
          if c_Type conv = ''private'' then c_Participants conv
          else map mb_UserID (GetGroupMembers s convID))"

definition broadcastToConversation :: "go_std \<Rightarrow> gateway \<Rightarrow> string \<Rightarrow> outgoing \<Rightarrow> string \<Rightarrow> gateway" where
  "broadcastToConversation std g convID event excludeUserID =
     foldl (deliver std event) g
       (concat (map (clientsForUser g)
          (filter (\<lambda>userID. userID \<noteq> excludeUserID) (conversation_users (gw_store g) convID))))"

definition broadcastToConversationExceptClient ::
  "go_std \<Rightarrow> gateway \<Rightarrow> string \<Rightarrow> outgoing \<Rightarrow> nat \<Rightarrow> gateway" where
  "broadcastToConversationExceptClient std g convID event excluded =
     foldl (deliver std event) g
       (filter (\<lambda>current. current \<noteq> excluded)
          (concat (map (clientsForUser g) (conversation_users (gw_store g) convID))))"

section \<open>Presence\<close>

definition notifyFriendPresence :: "go_std \<Rightarrow> gateway \<Rightarrow> string \<Rightarrow> bool \<Rightarrow> gateway" where
  "notifyFriendPresence std g userID online =
     foldl (\<lambda>h friend. sendToUser std h (u_ID friend)
              (ONotice ((notice ''friend_presence'')\<lparr>ne_UserID := userID, ne_Online := Some online\<rparr>)))
       g (GetFriends (gw_store g) userID)"

text \<open>\<open>addClient\<close> binds an unbound connection to a user; the result is whether it is the user's first.\<close>

definition addClient :: "gateway \<Rightarrow> nat \<Rightarrow> string \<Rightarrow> gateway \<times> bool" where
  "addClient g c userID =
     (if cl_userID (conn g c) \<noteq> [] then (g, False)
      else
        (let clients = gm_list (gw_clients g) userID;
             firstConnection = (clients = []);
             g1 = (if firstConnection then on_store g (\<lambda>s. SetUserOnline s userID True) else g);
             g2 = on_conn g1 c (\<lambda>cl. cl\<lparr>cl_userID := userID\<rparr>)
         in (g2\<lparr>gw_clients := gm_set userID (if c \<in> set clients then clients else clients @ [c])
                  (gw_clients g2)\<rparr>, firstConnection)))"

definition detachClient :: "gateway \<Rightarrow> nat \<Rightarrow> gateway \<times> string \<times> bool" where
  "detachClient g c =
     (let userID = cl_userID (conn g c) in
      if userID = [] then (g, [], False)
      else
        (let g1 = on_conn g c (\<lambda>cl. cl\<lparr>cl_userID := []\<rparr>) in
         case gm_get (gw_clients g1) userID of
           None \<Rightarrow> (g1, userID, False)
         | Some clients \<Rightarrow>
             (let rest = filter (\<lambda>d. d \<noteq> c) clients in
              if rest = []
              then (on_store (g1\<lparr>gw_clients := gm_del userID (gw_clients g1)\<rparr>)
                      (\<lambda>s. SetUserOnline s userID False), userID, True)
              else (g1\<lparr>gw_clients := gm_set userID rest (gw_clients g1)\<rparr>, userID, False))))"

definition isZZZTermDevice :: "string \<Rightarrow> bool" where
  "isZZZTermDevice deviceID \<longleftrightarrow> HasPrefix deviceID ''zzzterm-'' \<and> length ''zzzterm-'' < length deviceID"

definition removeClient :: "env \<Rightarrow> gateway \<Rightarrow> nat \<Rightarrow> gateway" where
  "removeClient e g c =
     (case detachClient g c of
        (g1, userID, lastConnection) \<Rightarrow>
          (let terminal = cl_terminalSessionID (conn g1 c);
               g2 = (if terminal \<noteq> []
                     then on_conn (on_store g1 (\<lambda>s. EndTerminalSession s terminal (env_now e 0) (env_now e 1)))
                            c (\<lambda>cl. cl\<lparr>cl_terminalSessionID := []\<rparr>)
                     else g1);
               g3 = on_conn g2 c closeSend
           in if \<not> lastConnection then g3 else notifyFriendPresence (env_std e) g3 userID False))"

section \<open>Permissions\<close>

definition validUserID :: "string \<Rightarrow> bool" where
  "validUserID value \<longleftrightarrow>
     value \<noteq> [] \<and> length value \<le> 128 \<and> value = TrimSpace value
     \<and> \<not> list_ex (\<lambda>(r, _). unicode_IsControl r) (rune_split value)"

definition isExactAgentConversationParticipants :: "string list \<Rightarrow> string \<Rightarrow> bool" where
  "isExactAgentConversationParticipants participants userID =
     (if length participants \<noteq> 2 \<or> userID = [] then False
      else
        list_all (\<lambda>p. p = userID \<or> p = ''fairy'') participants
        \<and> userID \<in> set participants \<and> list_ex (\<lambda>p. p \<noteq> userID \<and> p = ''fairy'') participants)"

definition isEitherBlocked :: "memory_store \<Rightarrow> string \<Rightarrow> string \<Rightarrow> bool" where
  "isEitherBlocked s firstID secondID =
     (if IsUserBlocked s firstID secondID then True else IsUserBlocked s secondID firstID)"

definition canAccessConversation :: "memory_store \<Rightarrow> string \<Rightarrow> string \<Rightarrow> bool" where
  "canAccessConversation s userID conversationID =
     (if userID = [] \<or> conversationID = [] then False
      else if HasPrefix conversationID ''group_'' then IsGroupMember s conversationID userID
      else
        (case GetConversation s conversationID of
           None \<Rightarrow> False
         | Some conv \<Rightarrow>
             (let participant = userID \<in> set (c_Participants conv);
                  otherUserID = foldl (\<lambda>other candidate.
                     if candidate \<noteq> userID \<and> other = [] then candidate else other) [] (c_Participants conv)
              in if \<not> participant then False
                 else if c_Type conv = ''private''
                 then (if otherUserID = ''fairy'' then True
                       else AreFriends s userID otherUserID \<and> \<not> isEitherBlocked s userID otherUserID)
                 else True)))"

definition groupMemberRole :: "memory_store \<Rightarrow> string \<Rightarrow> string \<Rightarrow> string" where
  "groupMemberRole s groupID userID =
     (case List.find (\<lambda>m. mb_UserID m = userID) (GetGroupMembers s groupID) of
        None \<Rightarrow> [] | Some m \<Rightarrow> mb_Role m)"

definition isGroupAdmin :: "memory_store \<Rightarrow> string \<Rightarrow> string \<Rightarrow> bool" where
  "isGroupAdmin s groupID userID \<longleftrightarrow>
     (let role = groupMemberRole s groupID userID in role = ''owner'' \<or> role = ''admin'')"

definition maxGroupMembers :: nat where "maxGroupMembers = 500"
definition maxGroupInviteBatch :: nat where "maxGroupInviteBatch = 100"
definition maxGroupBanSeconds :: int where "maxGroupBanSeconds = 30 * 24 * 60 * 60"

definition groupRoleOrder :: "string \<Rightarrow> nat" where
  "groupRoleOrder role = (if role = ''owner'' then 0 else if role = ''admin'' then 1 else 2)"

definition canManageGroupMember :: "string \<Rightarrow> string \<Rightarrow> bool" where
  "canManageGroupMember actorRole targetRole \<longleftrightarrow>
     (actorRole = ''owner'' \<and> (targetRole = ''admin'' \<or> targetRole = ''member''))
     \<or> (actorRole = ''admin'' \<and> targetRole = ''member'')"

definition unixTimeOrZero :: "gotime \<Rightarrow> int" where
  "unixTimeOrZero value = (if value = zero_time then 0 else Unix value)"

section \<open>The conversation projection of a group\<close>

definition member_less :: "group_member \<Rightarrow> group_member \<Rightarrow> bool" where
  "member_less x y =
     (if groupRoleOrder (mb_Role x) \<noteq> groupRoleOrder (mb_Role y)
      then groupRoleOrder (mb_Role x) < groupRoleOrder (mb_Role y)
      else if mb_JoinedAt x \<noteq> mb_JoinedAt y then mb_JoinedAt x < mb_JoinedAt y
      else mb_UserID x < mb_UserID y)"

definition syncGroupConversationParticipants ::
  "memory_store \<Rightarrow> string \<Rightarrow> memory_store \<times> (string + string list)" where
  "syncGroupConversationParticipants s groupID =
     (case GetGroup s groupID of
        None \<Rightarrow> (s, Inl ''group not found'')
      | Some grp \<Rightarrow>
          (let participants = map mb_UserID (go_sort member_less (GetGroupMembers s groupID));
               conv0 = (case GetConversation s groupID of
                          Some conv \<Rightarrow> conv
                        | None \<Rightarrow> \<lparr> c_ID = groupID, c_Type = [], c_Title = [], c_Avatar = [], c_OwnerID = [],
                                    c_Participants = [], c_CreatedAt = g_CreatedAt grp \<rparr>);
               conv1 = (if c_CreatedAt conv0 = zero_time then conv0\<lparr>c_CreatedAt := g_CreatedAt grp\<rparr> else conv0)
           in (SaveConversation s (conv1\<lparr>c_Type := ''group'', c_Title := g_Name grp, c_Avatar := g_Avatar grp,
                 c_OwnerID := g_OwnerID grp, c_Participants := participants\<rparr>), Inr participants)))"

text \<open>\<open>seen\<close> starts with the inviter, so a request for oneself or a repetition is skipped.\<close>

fun invite_targets :: "memory_store \<Rightarrow> string \<Rightarrow> json list \<Rightarrow> string list \<Rightarrow> string list \<Rightarrow> string + string list" where
  "invite_targets s inviterID [] seen targets = Inr targets"
| "invite_targets s inviterID (v # vs) seen targets =
     (case as_str v of
        None \<Rightarrow> Inl ''invalid member id''
      | Some targetID \<Rightarrow>
          if \<not> validUserID targetID then Inl ''invalid member id''
          else if targetID \<in> set seen then invite_targets s inviterID vs seen targets
          else if GetUser s targetID = None then Inl (''member account not found: '' @ targetID)
          else if \<not> AreFriends s inviterID targetID then Inl (''only friends can be invited: '' @ targetID)
          else invite_targets s inviterID vs (targetID # seen) (targets @ [targetID]))"

definition validateGroupInviteTargets :: "memory_store \<Rightarrow> string \<Rightarrow> json \<Rightarrow> string + string list" where
  "validateGroupInviteTargets s inviterID raw =
     (case raw of
        JNull \<Rightarrow> Inr []
      | JArr values \<Rightarrow>
          if maxGroupInviteBatch < length values
          then Inl (''invite at most '' @ show_nat maxGroupInviteBatch @ '' members at once'')
          else invite_targets s inviterID values [inviterID] []
      | _ \<Rightarrow> Inl ''members must be a list'')"

text \<open>The two guards every handler opens with: a bound connection and an object of parameters.\<close>

definition with_params :: "gateway \<Rightarrow> nat \<Rightarrow> request \<Rightarrow> string \<Rightarrow> (jobject \<Rightarrow> gateway) \<Rightarrow> gateway" where
  "with_params g c req msg k =
     (if cl_userID (conn g c) = [] then sendError g c (rqs_Echo req) ''not authenticated''
      else (case as_obj (rqs_Params req) of
              None \<Rightarrow> sendError g c (rqs_Echo req) msg
            | Some params \<Rightarrow> k params))"

section \<open>What sending does to the state\<close>

lemma on_conn_fields [simp]:
  "gw_store (on_conn g c f) = gw_store g" "gw_clients (on_conn g c f) = gw_clients g"
  "length (gw_conns (on_conn g c f)) = length (gw_conns g)"
  "gw_pokeLast (on_conn g c f) = gw_pokeLast g" "gw_jobs (on_conn g c f) = gw_jobs g"
  by (simp_all add: on_conn_def)

lemma on_store_fields [simp]:
  "gw_store (on_store g f) = f (gw_store g)" "gw_clients (on_store g f) = gw_clients g"
  "gw_conns (on_store g f) = gw_conns g" "gw_jobs (on_store g f) = gw_jobs g"
  by (simp_all add: on_store_def)

lemma conn_on_store [simp]: "conn (on_store g f) c = conn g c" "conn (g\<lparr>gw_clients := m\<rparr>) c = conn g c"
  by (simp_all add: conn_def)

lemma conn_on_conn: "c < length (gw_conns g) \<Longrightarrow> conn (on_conn g d f) c = (if c = d then f (conn g c) else conn g c)"
  by (auto simp: conn_def on_conn_def)

definition receive :: "go_std \<Rightarrow> outgoing \<Rightarrow> client \<Rightarrow> client" where
  "receive std event cl =
     (case outgoing_for std cl event of None \<Rightarrow> cl | Some data \<Rightarrow> fst (enqueue cl data))"

lemma deliver_conn: "deliver std event g c = on_conn g c (receive std event)"
  by (auto simp: deliver_def receive_def on_conn_def conn_def split: option.splits)

lemma foldl_deliver_fields [simp]:
  "gw_store (foldl (deliver std ev) g cs) = gw_store g" "gw_clients (foldl (deliver std ev) g cs) = gw_clients g"
  "length (gw_conns (foldl (deliver std ev) g cs)) = length (gw_conns g)"
  "gw_jobs (foldl (deliver std ev) g cs) = gw_jobs g"
  by (induction cs arbitrary: g) (simp_all add: deliver_conn)

lemma foldl_deliver_conn:
  "c < length (gw_conns g) \<Longrightarrow> distinct cs \<Longrightarrow>
   conn (foldl (deliver std ev) g cs) c = (if c \<in> set cs then receive std ev (conn g c) else conn g c)"
  by (induction cs arbitrary: g) (auto simp: deliver_conn conn_on_conn)

lemma send_fields [simp]:
  "gw_store (sendJSON g c v) = gw_store g" "gw_clients (sendJSON g c v) = gw_clients g"
  "gw_store (sendError g c echo msg) = gw_store g" "gw_clients (sendError g c echo msg) = gw_clients g"
  "gw_store (sendToUser std g u ev) = gw_store g" "gw_clients (sendToUser std g u ev) = gw_clients g"
  "gw_store (broadcastToConversation std g i ev u) = gw_store g"
  "gw_clients (broadcastToConversation std g i ev u) = gw_clients g"
  "gw_store (broadcastToConversationExceptClient std g i ev c) = gw_store g"
  "gw_clients (broadcastToConversationExceptClient std g i ev c) = gw_clients g"
  by (simp_all add: sendJSON_def sendError_def sendToUser_def broadcastToConversation_def
      broadcastToConversationExceptClient_def)

lemma foldl_sendToUser_fields [simp]:
  "gw_store (foldl (\<lambda>h x. sendToUser std h (f x) (ev x)) g xs) = gw_store g"
  "gw_clients (foldl (\<lambda>h x. sendToUser std h (f x) (ev x)) g xs) = gw_clients g"
  by (induction xs arbitrary: g) simp_all

lemma foldl_broadcast_fields [simp]:
  "gw_store (foldl (\<lambda>h x. broadcastToConversation std h i (ev x) u) g xs) = gw_store g"
  by (induction xs arbitrary: g) simp_all

lemma presence_fields [simp]:
  "gw_store (notifyFriendPresence std g u b) = gw_store g" "gw_clients (notifyFriendPresence std g u b) = gw_clients g"
  by (simp_all add: notifyFriendPresence_def)

lemma with_params_store:
  "gw_store (with_params g c req msg k) =
     (if cl_userID (conn g c) = [] then gw_store g
      else (case as_obj (rqs_Params req) of None \<Rightarrow> gw_store g | Some params \<Rightarrow> gw_store (k params)))"
  by (simp add: with_params_def split: option.splits)

section \<open>The connection registry\<close>

text \<open>
  The registry lists exactly the connections that are bound to a user, each under that user and
  once; a user without connections has no entry; no queue is longer than its channel; and an
  account is marked online exactly when the registry has a connection for it.
\<close>

definition registry_inv :: "gateway \<Rightarrow> bool" where
  "registry_inv g \<longleftrightarrow>
     gm_wf (gw_clients g)
     \<and> (\<forall>u cs. gm_get (gw_clients g) u = Some cs \<longrightarrow> cs \<noteq> [] \<and> distinct cs \<and> u \<noteq> [])
     \<and> (\<forall>u c. c \<in> set (gm_list (gw_clients g) u) \<longleftrightarrow>
          c < length (gw_conns g) \<and> cl_userID (conn g c) = u \<and> u \<noteq> [])
     \<and> (\<forall>c < length (gw_conns g). length (cl_send (conn g c)) \<le> send_capacity)"

definition online_inv :: "gateway \<Rightarrow> bool" where
  "online_inv g \<longleftrightarrow>
     (\<forall>u usr. GetUser (gw_store g) u = Some usr \<longrightarrow> u_Online usr = (gm_list (gw_clients g) u \<noteq> []))"

text \<open>Accounts are filed under their own identifier, and a connected user has one that is marked online.\<close>

definition live_inv :: "gateway \<Rightarrow> bool" where
  "live_inv g \<longleftrightarrow>
     (\<forall>u usr. GetUser (gw_store g) u = Some usr \<longrightarrow> u_ID usr = u)
     \<and> (\<forall>u. gm_list (gw_clients g) u \<noteq> [] \<longrightarrow> (\<exists>usr. GetUser (gw_store g) u = Some usr \<and> u_Online usr))"

lemma registry_invD:
  assumes "registry_inv g"
  shows "gm_wf (gw_clients g)" "gm_get (gw_clients g) u = Some cs \<Longrightarrow> cs \<noteq> []"
    "distinct (gm_list (gw_clients g) u)"
    "c \<in> set (gm_list (gw_clients g) u) \<longleftrightarrow> c < length (gw_conns g) \<and> cl_userID (conn g c) = u \<and> u \<noteq> []"
    "c < length (gw_conns g) \<Longrightarrow> length (cl_send (conn g c)) \<le> send_capacity"
  using assms by (auto simp: registry_inv_def gm_list_def split: option.splits)

lemma registry_inv_new: "registry_inv (NewGateway s b)"
  by (simp add: registry_inv_def NewGateway_def)

text \<open>A change of one connection that keeps its user and the bound of its queue keeps the registry.\<close>

lemma registry_inv_on_conn:
  assumes "registry_inv g" "cl_userID (f (conn g c)) = cl_userID (conn g c)"
    and "length (cl_send (conn g c)) \<le> send_capacity \<Longrightarrow> length (cl_send (f (conn g c))) \<le> send_capacity"
  shows "registry_inv (on_conn g c f)"
proof -
  have "cl_userID (conn (on_conn g c f) d) = cl_userID (conn g d)"
    "length (cl_send (conn (on_conn g c f) d)) \<le> send_capacity" if "d < length (gw_conns g)" for d
    using that assms(2,3) registry_invD(5) [OF assms(1) that] by (auto simp: conn_on_conn)
  then show ?thesis using assms(1) unfolding registry_inv_def by (simp cong: conj_cong)
qed

lemma receive_keeps:
  "cl_userID (receive std ev cl) = cl_userID cl" "cl_sendDone (receive std ev cl) = cl_sendDone cl"
  "length (cl_send cl) \<le> send_capacity \<Longrightarrow> length (cl_send (receive std ev cl)) \<le> send_capacity"
  by (auto simp: receive_def enqueue_def split: option.splits)

text \<open>No send changes to whom a connection is bound.\<close>

lemma user_on_conn:
  assumes "\<And>cl. cl_userID (f cl) = cl_userID cl"
  shows "cl_userID (conn (on_conn g d f) c) = cl_userID (conn g c)"
  using assms by (cases "d < length (gw_conns g)") (auto simp: conn_def on_conn_def nth_list_update list_update_beyond)

lemma user_foldl_deliver: "cl_userID (conn (foldl (deliver std ev) g cs) c) = cl_userID (conn g c)"
  by (induction cs arbitrary: g) (simp_all add: deliver_conn user_on_conn receive_keeps)

lemma user_sends [simp]:
  "cl_userID (conn (sendJSON g d v) c) = cl_userID (conn g c)"
  "cl_userID (conn (sendError g d echo msg) c) = cl_userID (conn g c)"
  "cl_userID (conn (sendToUser std g u ev) c) = cl_userID (conn g c)"
  "cl_userID (conn (broadcastToConversation std g i ev u) c) = cl_userID (conn g c)"
  "cl_userID (conn (broadcastToConversationExceptClient std g i ev d) c) = cl_userID (conn g c)"
  by (simp_all add: sendJSON_def sendError_def sendToUser_def broadcastToConversation_def
      broadcastToConversationExceptClient_def user_foldl_deliver user_on_conn enqueue_def)

lemma user_presence [simp]: "cl_userID (conn (notifyFriendPresence std g u b) c) = cl_userID (conn g c)"
proof -
  have "cl_userID (conn (foldl (\<lambda>h f. sendToUser std h (u_ID f) ev) g fs) c) = cl_userID (conn g c)" for ev fs
    by (induction fs arbitrary: g) simp_all
  then show ?thesis by (simp add: notifyFriendPresence_def)
qed

lemma registry_inv_foldl: "registry_inv g \<Longrightarrow> registry_inv (foldl (deliver std ev) g cs)"
proof (induction cs arbitrary: g)
  case (Cons c cs)
  have "registry_inv (on_conn g c (receive std ev))"
    by (rule registry_inv_on_conn [OF Cons.prems]) (simp_all add: receive_keeps)
  with Cons.IH show ?case by (simp add: deliver_conn)
qed simp

lemma registry_inv_sends:
  assumes "registry_inv g"
  shows "registry_inv (sendJSON g c v)" "registry_inv (sendToUser std g u ev)"
    "registry_inv (broadcastToConversation std g i ev u)"
    "registry_inv (broadcastToConversationExceptClient std g i ev d)"
    "registry_inv (on_store g k)" "registry_inv (fst (writePump g c))"
proof -
  show "registry_inv (sendJSON g c v)"
    unfolding sendJSON_def by (rule registry_inv_on_conn [OF assms]) (simp_all add: enqueue_def)
  show "registry_inv (sendToUser std g u ev)" "registry_inv (broadcastToConversation std g i ev u)"
    "registry_inv (broadcastToConversationExceptClient std g i ev d)"
    using assms by (simp_all add: sendToUser_def broadcastToConversation_def
        broadcastToConversationExceptClient_def registry_inv_foldl)
  show "registry_inv (on_store g k)" using assms by (simp add: registry_inv_def)
  show "registry_inv (fst (writePump g c))"
    using assms by (cases "cl_send (conn g c)") (auto simp: writePump_def intro!: registry_inv_on_conn)
qed

text \<open>A broadcast reaches each connection of each addressed user once and no other.\<close>

lemma broadcast_conn:
  assumes "registry_inv g" "c < length (gw_conns g)" "distinct (conversation_users (gw_store g) i)"
  shows "conn (broadcastToConversation std g i ev u) c =
     (if cl_userID (conn g c) \<noteq> [] \<and> cl_userID (conn g c) \<noteq> u
         \<and> cl_userID (conn g c) \<in> set (conversation_users (gw_store g) i)
      then receive std ev (conn g c) else conn g c)"
proof -
  define us where "us = filter (\<lambda>v. v \<noteq> u) (conversation_users (gw_store g) i)"
  define cs where "cs = concat (map (clientsForUser g) us)"
  note reg = registry_invD(4) [OF assms(1)]
  have "distinct us" using assms(3) by (simp add: us_def)
  then have "distinct cs" unfolding cs_def
  proof (induction us)
    case (Cons v us)
    have "set (clientsForUser g v) \<inter> set (concat (map (clientsForUser g) us)) = {}"
      using Cons.prems by (auto simp: clientsForUser_def reg)
    with Cons show ?case by (simp add: clientsForUser_def registry_invD(3) [OF assms(1)])
  qed simp
  moreover have "c \<in> set cs \<longleftrightarrow> cl_userID (conn g c) \<noteq> [] \<and> cl_userID (conn g c) \<in> set us"
    using assms(2) by (auto simp: cs_def clientsForUser_def reg)
  ultimately show ?thesis
    using foldl_deliver_conn [OF assms(2), of cs std ev]
    by (auto simp: broadcastToConversation_def cs_def us_def)
qed

section \<open>Connecting and disconnecting\<close>

lemma HandleWebSocket_inv:
  assumes "registry_inv g"
  shows "registry_inv (fst (HandleWebSocket g))"
proof -
  have "conn (fst (HandleWebSocket g)) c = (if c = length (gw_conns g) then new_client else conn g c)"
    if "c < Suc (length (gw_conns g))" for c
    using that by (auto simp: conn_def HandleWebSocket_def nth_append)
  then show ?thesis
    using assms unfolding registry_inv_def
    by (auto simp: HandleWebSocket_def new_client_def less_Suc_eq)
qed

lemma addClient_registry:
  assumes "registry_inv g" "c < length (gw_conns g)" "u \<noteq> []"
  shows "registry_inv (fst (addClient g c u))"
proof (cases "cl_userID (conn g c) = []")
  case False
  with assms show ?thesis by (simp add: addClient_def)
next
  case True
  define g' where "g' = fst (addClient g c u)"
  define cs where "cs = gm_list (gw_clients g) u"
  note reg = registry_invD [OF assms(1)]
  have c: "c \<notin> set (gm_list (gw_clients g) v)" for v using True reg(4) by auto
  have cl: "gw_clients g' = gm_set u (cs @ [c]) (gw_clients g)" and len: "length (gw_conns g') = length (gw_conns g)"
    using True c by (simp_all add: g'_def addClient_def cs_def Let_def)
  have cn: "conn g' d = (if d = c then (conn g c)\<lparr>cl_userID := u\<rparr> else conn g d)" if "d < length (gw_conns g)" for d
    using True that by (auto simp: g'_def addClient_def Let_def conn_def on_conn_def on_store_def)
  have "distinct (cs @ [c])" using c reg(3) by (simp add: cs_def)
  moreover have "d \<in> set (gm_list (gw_clients g') v) \<longleftrightarrow> d < length (gw_conns g') \<and> cl_userID (conn g' d) = v \<and> v \<noteq> []" for d v
    using assms(2,3) c reg(4) True by (auto simp: cl len cn cs_def)
  moreover have "length (cl_send (conn g' d)) \<le> send_capacity" if "d < length (gw_conns g')" for d
    using that reg(5) by (auto simp: len cn)
  ultimately show ?thesis
    using assms(1,3) unfolding registry_inv_def g'_def [symmetric] by (auto simp: cl)
qed

lemma addClient_online:
  assumes "online_inv g" "u \<noteq> []"
  shows "online_inv (fst (addClient g c u))"
  using assms by (auto simp: online_inv_def addClient_def Let_def GetUser_SetUserOnline split: if_splits)

lemma detachClient_inv:
  assumes "registry_inv g" "c < length (gw_conns g)"
  shows "registry_inv (fst (detachClient g c))"
    "online_inv g \<Longrightarrow> online_inv (fst (detachClient g c))" "live_inv g \<Longrightarrow> live_inv (fst (detachClient g c))"
    "length (gw_conns (fst (detachClient g c))) = length (gw_conns g)"
proof -
  define g' where "g' = fst (detachClient g c)"
  define u where "u = cl_userID (conn g c)"
  note reg = registry_invD [OF assms(1)]
  show "length (gw_conns (fst (detachClient g c))) = length (gw_conns g)"
    by (simp add: detachClient_def Let_def split: option.splits)
  have "registry_inv g' \<and> (online_inv g \<longrightarrow> online_inv g') \<and> (live_inv g \<longrightarrow> live_inv g')"
  proof (cases "u = []")
    case True
    with assms show ?thesis by (simp add: g'_def detachClient_def u_def)
  next
    case False
    define rest where "rest = filter (\<lambda>d. d \<noteq> c) (gm_list (gw_clients g) u)"
    have "c \<in> set (gm_list (gw_clients g) u)" using reg(4) assms(2) False by (simp add: u_def)
    then obtain cs where cs: "gm_get (gw_clients g) u = Some cs"
      by (cases "gm_get (gw_clients g) u") (simp_all add: gm_list_def)
    have eq: "g' = (let g1 = on_conn g c (\<lambda>cl. cl\<lparr>cl_userID := []\<rparr>) in
        if rest = [] then on_store (g1\<lparr>gw_clients := gm_del u (gw_clients g)\<rparr>) (\<lambda>s. SetUserOnline s u False)
        else g1\<lparr>gw_clients := gm_set u rest (gw_clients g)\<rparr>)"
      using False cs by (simp add: g'_def detachClient_def u_def [symmetric] Let_def rest_def gm_list_def)
    have cl: "gw_clients g' = (if rest = [] then gm_del u (gw_clients g) else gm_set u rest (gw_clients g))"
      and cn: "\<And>d. d < length (gw_conns g) \<Longrightarrow> conn g' d = (if d = c then (conn g c)\<lparr>cl_userID := []\<rparr> else conn g d)"
      and len: "length (gw_conns g') = length (gw_conns g)"
      and st: "gw_store g' = (if rest = [] then SetUserOnline (gw_store g) u False else gw_store g)"
      by (simp_all add: eq Let_def conn_on_conn)
    have mem: "gm_list (gw_clients g') v = (if v = u then rest else gm_list (gw_clients g) v)" for v
      by (simp add: cl)
    have "d \<in> set (gm_list (gw_clients g') v) \<longleftrightarrow> d < length (gw_conns g') \<and> cl_userID (conn g' d) = v \<and> v \<noteq> []" for d v
      using assms(2) False reg(4) by (cases "d = c") (auto simp: mem len cn rest_def u_def)
    moreover have "length (cl_send (conn g' d)) \<le> send_capacity" if "d < length (gw_conns g')" for d
      using that reg(5) by (auto simp: len cn)
    moreover have "distinct rest" using reg(3) by (simp add: rest_def)
    ultimately have "registry_inv g'"
      using assms(1) False unfolding registry_inv_def by (auto simp: cl)
    moreover have some: "gm_list (gw_clients g) u \<noteq> []" using \<open>c \<in> _\<close> by auto
    moreover have "online_inv g \<Longrightarrow> online_inv g'"
      using some unfolding online_inv_def mem by (auto simp: st GetUser_SetUserOnline split: if_splits)
    moreover have "live_inv g \<Longrightarrow> live_inv g'"
      using some unfolding live_inv_def mem by (auto simp: st GetUser_SetUserOnline split: if_splits)
    ultimately show ?thesis by simp
  qed
  then show "registry_inv (fst (detachClient g c))" "online_inv g \<Longrightarrow> online_inv (fst (detachClient g c))"
    "live_inv g \<Longrightarrow> live_inv (fst (detachClient g c))" by (simp_all add: g'_def)
qed

lemma GetUser_EndTerminal [simp]: "GetUser (EndTerminalSession s i t now) u = GetUser s u"
  by (simp add: GetUser_def EndTerminalSession_def Let_def split: option.splits)

lemma notify_registry: "registry_inv g \<Longrightarrow> registry_inv (notifyFriendPresence std g u b)"
proof -
  have "registry_inv (foldl (\<lambda>h f. sendToUser std h (u_ID f) ev) g fs)" if "registry_inv g" for fs ev g
    using that by (induction fs arbitrary: g) (simp_all add: registry_inv_sends)
  then show "registry_inv g \<Longrightarrow> registry_inv (notifyFriendPresence std g u b)"
    by (simp add: notifyFriendPresence_def)
qed

lemma removeClient_inv:
  assumes "registry_inv g" "c < length (gw_conns g)"
  shows "registry_inv (removeClient e g c)" "online_inv g \<Longrightarrow> online_inv (removeClient e g c)"
    "live_inv g \<Longrightarrow> live_inv (removeClient e g c)"
proof -
  obtain g1 u last where d: "detachClient g c = (g1, u, last)" by (metis surj_pair)
  define g2 where "g2 = (if cl_terminalSessionID (conn g1 c) \<noteq> []
     then on_conn (on_store g1 (\<lambda>s. EndTerminalSession s (cl_terminalSessionID (conn g1 c)) (env_now e 0) (env_now e 1)))
            c (\<lambda>cl. cl\<lparr>cl_terminalSessionID := []\<rparr>) else g1)"
  have r: "removeClient e g c = (let g3 = on_conn g2 c closeSend in
      if \<not> last then g3 else notifyFriendPresence (env_std e) g3 u False)"
    by (simp add: removeClient_def d g2_def Let_def)
  have 1: "registry_inv g1" "online_inv g \<Longrightarrow> online_inv g1" "live_inv g \<Longrightarrow> live_inv g1"
    using detachClient_inv [OF assms] by (simp_all add: d)
  have 2: "registry_inv g2" using 1(1) by (auto simp: g2_def intro!: registry_inv_on_conn registry_inv_sends)
  have 3: "registry_inv (on_conn g2 c closeSend)"
    using 2 by (auto simp: closeSend_def intro!: registry_inv_on_conn)
  then show "registry_inv (removeClient e g c)" by (simp add: r Let_def notify_registry)
  have "gw_clients (removeClient e g c) = gw_clients g1" "GetUser (gw_store (removeClient e g c)) v = GetUser (gw_store g1) v" for v
    by (simp_all add: r g2_def Let_def)
  with 1(2,3) show "online_inv g \<Longrightarrow> online_inv (removeClient e g c)" "live_inv g \<Longrightarrow> live_inv (removeClient e g c)"
    by (simp_all add: online_inv_def live_inv_def)
qed

section \<open>Starting\<close>

text \<open>The store a gateway starts on: no account is marked online.\<close>

definition offline_store :: "memory_store \<Rightarrow> bool" where
  "offline_store s \<longleftrightarrow> list_all (\<lambda>(i, usr). \<not> u_Online usr) (s_users s)"

lemma offline_online_inv: "offline_store s \<Longrightarrow> online_inv (NewGateway s b)"
  by (auto simp: offline_store_def online_inv_def NewGateway_def GetUser_def list_all_iff dest!: map_of_SomeD)

end
