(* ===== verification/Gateway_Push.thy ===== *)
theory Gateway_Push
  imports Gateway_Core
begin

text \<open>
  Web push in the gateway (\<open>internal/gateway/gateway.go\<close>, \<open>pushToConversation\<close> to \<open>pushBody\<close>): who is
  notified of a message, with which text, and what the background delivery does to the
  subscriptions. A handler queues a job; \<open>run_push_job\<close> is the goroutine that works it off. Whether
  the push service reports a subscription as expired is a parameter, a function of the
  subscription and the payload.
\<close>

section \<open>Recipients and text\<close>

fun distinct_recipients :: "string \<Rightarrow> string list \<Rightarrow> string list \<Rightarrow> string list" where
  "distinct_recipients excludeUserID [] seen = []"
| "distinct_recipients excludeUserID (userID # rest) seen =
     (if userID = [] \<or> userID = excludeUserID \<or> userID \<in> set seen
      then distinct_recipients excludeUserID rest seen
      else userID # distinct_recipients excludeUserID rest (userID # seen))"

definition conversationRecipients :: "memory_store \<Rightarrow> string \<Rightarrow> string \<Rightarrow> string list" where
  "conversationRecipients s convID excludeUserID =
     (case GetConversation s convID of
        None \<Rightarrow> []
      | Some conv \<Rightarrow>
          distinct_recipients excludeUserID
            (if c_Type conv \<noteq> ''private'' then map mb_UserID (GetGroupMembers s convID) else c_Participants conv) [])"

definition messageMentionsUser :: "message_segment list \<Rightarrow> string \<Rightarrow> bool" where
  "messageMentionsUser segments userID =
     list_ex (\<lambda>segment. seg_Type segment = ''at''
        \<and> list_ex (\<lambda>key. jstr (seg_Data segment) key = userID \<or> jstr (seg_Data segment) key = ''all'')
            [''qq'', ''user_id'', ''target_id'']) segments"

definition conversationNotificationLevel :: "conversation_preference option \<Rightarrow> string" where
  "conversationNotificationLevel preference =
     (case preference of
        None \<Rightarrow> NotificationLevelNormal
      | Some p \<Rightarrow> NormalizeNotificationLevel (cp_NotificationLevel p) (cp_IsMuted p))"

text \<open>A labelled text: the label alone when the value is missing or blank.\<close>

definition labelled :: "string \<Rightarrow> json \<Rightarrow> string" where
  "labelled label v =
     (case as_str v of
        Some text \<Rightarrow> if TrimSpace text \<noteq> [] then label @ '' '' @ text else label
      | None \<Rightarrow> label)"

definition segment_text :: "message_segment \<Rightarrow> string" where
  "segment_text segment =
     (let ty = seg_Type segment; data = seg_Data segment in
      if ty = ''text'' then jstr data ''text''
      else if ty = ''image'' then ''[Image]''
      else if ty = ''record'' then ''[Voice message]''
      else if ty = ''video'' then ''[Video]''
      else if ty = ''file'' then ''[File]''
      else if ty = ''sticker'' then ''[Sticker]''
      else if ty = ''share'' then labelled ''[Link]'' (jget data ''title'')
      else if ty = ''location'' then labelled ''[Location]'' (jget data ''name'')
      else if ty = ''forward'' then ''[Chat records]''
      else if ty = ''poke'' then ''[Poke]''
      else if ty = ''system''
      then (case as_str (jget data ''text'') of Some v \<Rightarrow> v | None \<Rightarrow> ''[System message]'')
      else if ty = ''terminal_request'' then ''[Terminal approval request]''
      else if ty = ''terminal_result'' then ''[Terminal operation result]''
      else if ty = ''dynamic_content'' then ''[Interactive content]''
      else [])"

text \<open>\<open>string(runes[:n])\<close>: an invalid byte was decoded to U+FFFD and is encoded as such.\<close>

definition rune_bytes :: "nat \<times> string \<Rightarrow> string" where
  "rune_bytes rb = (if fst rb = 65533 then map (char_of :: nat \<Rightarrow> char) [239, 191, 189] else snd rb)"

definition maxRunes :: nat where "maxRunes = 160"

definition pushBody :: "message_segment list \<Rightarrow> string" where
  "pushBody segments =
     (let result = TrimSpace (concat (map segment_text segments)) in
      if result = [] then ''New message''
      else if maxRunes < rune_count result
      then concat (map rune_bytes (take maxRunes (rune_split result))) @ ''...''
      else result)"

section \<open>Queueing and delivering\<close>

definition pushToConversation :: "gateway \<Rightarrow> string \<Rightarrow> message \<Rightarrow> string \<Rightarrow> bool \<Rightarrow> gateway" where
  "pushToConversation g convID message excludeUserID important =
     (if \<not> gw_pushEnabled g then g
      else
        (let recipients = conversationRecipients (gw_store g) convID excludeUserID in
         if recipients = [] then g
         else g\<lparr>gw_jobs := gw_jobs g @ [PushMessage convID message recipients important
                [(''title'', JStr (m_SenderNickname message)), (''body'', JStr (pushBody (m_Segments message))),
                 (''conversation_id'', JStr (m_ConversationID message)), (''message_id'', JStr (m_ID message))]]\<rparr>))"

definition pushEventToUser :: "gateway \<Rightarrow> string \<Rightarrow> jobject \<Rightarrow> gateway" where
  "pushEventToUser g userID payload =
     (if \<not> gw_pushEnabled g \<or> userID = [] then g
      else g\<lparr>gw_jobs := gw_jobs g @ [PushEvent userID payload]\<rparr>)"

text \<open>The loop over one user's subscriptions; the second result lists the deliveries attempted.\<close>

definition push_user ::
  "(push_subscription \<Rightarrow> jobject \<Rightarrow> bool) \<Rightarrow> jobject \<Rightarrow> memory_store \<Rightarrow> string
     \<Rightarrow> memory_store \<times> (string \<times> push_subscription) list" where
  "push_user expired payload s userID =
     (let subscriptions = GetPushSubscriptions s userID in
      (foldl (\<lambda>t sub. if expired sub payload then DeletePushSubscription t userID (ps_Endpoint sub) else t)
         s subscriptions,
       map (\<lambda>sub. (userID, sub)) subscriptions))"

definition wants_push :: "memory_store \<Rightarrow> string \<Rightarrow> message \<Rightarrow> bool \<Rightarrow> string \<Rightarrow> bool" where
  "wants_push s convID message important userID \<longleftrightarrow>
     (let level = conversationNotificationLevel (GetConversationPreference s convID userID) in
      \<not> (level = NotificationLevelMuted
         \<or> (level = NotificationLevelMentionsOnly \<and> \<not> important
            \<and> \<not> messageMentionsUser (m_Segments message) userID)))"

fun push_users ::
  "(push_subscription \<Rightarrow> jobject \<Rightarrow> bool) \<Rightarrow> jobject \<Rightarrow> (memory_store \<Rightarrow> string \<Rightarrow> bool) \<Rightarrow> string list
     \<Rightarrow> memory_store \<Rightarrow> memory_store \<times> (string \<times> push_subscription) list" where
  "push_users expired payload wants [] s = (s, [])"
| "push_users expired payload wants (userID # rest) s =
     (if \<not> wants s userID then push_users expired payload wants rest s
      else
        (case push_user expired payload s userID of
           (s1, sent) \<Rightarrow>
             (case push_users expired payload wants rest s1 of (s2, later) \<Rightarrow> (s2, sent @ later))))"

definition run_push_job ::
  "(push_subscription \<Rightarrow> jobject \<Rightarrow> bool) \<Rightarrow> memory_store \<Rightarrow> push_job
     \<Rightarrow> memory_store \<times> (string \<times> push_subscription) list" where
  "run_push_job expired s job =
     (case job of
        PushMessage convID message recipients important payload \<Rightarrow>
          push_users expired payload (\<lambda>t. wants_push t convID message important) recipients s
      | PushEvent userID payload \<Rightarrow> push_user expired payload s userID)"

section \<open>Who is notified\<close>

lemma distinct_recipients_spec:
  "distinct (distinct_recipients x us seen) \<and>
   set (distinct_recipients x us seen) = set us - {[], x} - set seen"
  by (induction x us seen rule: distinct_recipients.induct) auto

lemma conversationRecipients_spec:
  "distinct (conversationRecipients s i x)"
  "u \<in> set (conversationRecipients s i x) \<longleftrightarrow> u \<in> set (conversation_users s i) \<and> u \<noteq> [] \<and> u \<noteq> x"
  by (cases "GetConversation s i"; force simp: conversationRecipients_def conversation_users_def
      distinct_recipients_spec)+

lemma DeletePush_frame:
  "GetConversationPreference (DeletePushSubscription s u ep) i v = GetConversationPreference s i v"
  "v \<noteq> u \<Longrightarrow> GetPushSubscriptions (DeletePushSubscription s u ep) v = GetPushSubscriptions s v"
  by (auto simp: GetConversationPreference_def GetPushSubscriptions_def DeletePushSubscription_def Let_def)

lemma push_user_frame:
  "GetConversationPreference (fst (push_user ex p s u)) i v = GetConversationPreference s i v"
  "v \<noteq> u \<Longrightarrow> GetPushSubscriptions (fst (push_user ex p s u)) v = GetPushSubscriptions s v"
proof -
  define f where "f = (\<lambda>t sub. if ex sub p then DeletePushSubscription t u (ps_Endpoint sub) else t)"
  have "GetConversationPreference (foldl f s subs) i v = GetConversationPreference s i v"
    "v \<noteq> u \<Longrightarrow> GetPushSubscriptions (foldl f s subs) v = GetPushSubscriptions s v" for subs
    by (induction subs arbitrary: s) (simp_all add: f_def DeletePush_frame)
  then show "GetConversationPreference (fst (push_user ex p s u)) i v = GetConversationPreference s i v"
    "v \<noteq> u \<Longrightarrow> GetPushSubscriptions (fst (push_user ex p s u)) v = GetPushSubscriptions s v"
    by (simp_all add: push_user_def Let_def f_def)
qed

text \<open>The deliveries of a message: every subscription of every recipient who wants it, and no other.\<close>

lemma push_users_sent:
  "distinct us \<Longrightarrow>
   snd (push_users ex p (\<lambda>t. wants_push t i m im) us s) =
     concat (map (\<lambda>u. map (\<lambda>sub. (u, sub)) (GetPushSubscriptions s u)) (filter (wants_push s i m im) us))"
proof (induction us arbitrary: s)
  case (Cons u us)
  show ?case
  proof (cases "wants_push s i m im u")
    case True
    define s1 where "s1 = fst (push_user ex p s u)"
    have "wants_push s1 i m im = wants_push s i m im"
      by (simp add: wants_push_def s1_def push_user_frame fun_eq_iff)
    moreover have "GetPushSubscriptions s1 v = GetPushSubscriptions s v" if "v \<in> set us" for v
      using that Cons.prems unfolding s1_def by (intro push_user_frame) auto
    ultimately have "snd (push_users ex p (\<lambda>t. wants_push t i m im) us s1) =
        concat (map (\<lambda>u. map (\<lambda>sub. (u, sub)) (GetPushSubscriptions s u)) (filter (wants_push s i m im) us))"
      using Cons.IH [of s1] Cons.prems by (auto intro!: arg_cong [of _ _ concat] map_cong)
    moreover have "push_user ex p s u = (s1, map (\<lambda>sub. (u, sub)) (GetPushSubscriptions s u))"
      by (simp add: s1_def push_user_def Let_def)
    ultimately show ?thesis using True by (simp add: split_beta)
  qed (use Cons in simp)
qed simp

end
