(* ===== verification/Gateway_Groups.thy ===== *)
theory Gateway_Groups
  imports Gateway_Core
begin

text \<open>
  The group requests of the gateway (\<open>internal/gateway/gateway.go\<close>, \<open>handleGetGroupList\<close> to
  \<open>handleGroupMuteAll\<close>): one definition per handler with all of its guards, the store operations
  it performs, its answer and its notices. The lemmas show that every handler keeps groups
  well-formed and their conversations in step with their members, and who may do what.
\<close>

abbreviation jint :: "int \<Rightarrow> json" where "jint i \<equiv> JNum (of_int i)"
abbreviation jstrs :: "string list \<Rightarrow> json" where "jstrs xs \<equiv> JArr (map JStr xs)"

definition set_store :: "gateway \<Rightarrow> memory_store \<Rightarrow> gateway" where
  "set_store g s = g\<lparr>gw_store := s\<rparr>"

section \<open>Reading\<close>

text \<open>Struct fields tagged \<open>omitempty\<close> are left out at their zero value.\<close>

definition omit_str :: "string \<Rightarrow> string \<Rightarrow> (string \<times> json) list" where
  "omit_str key v = (if v = [] then [] else [(key, JStr v)])"

definition omit_int :: "string \<Rightarrow> int \<Rightarrow> (string \<times> json) list" where
  "omit_int key v = (if v = 0 then [] else [(key, jint v)])"

definition group_info :: "memory_store \<Rightarrow> group \<Rightarrow> json" where
  "group_info s grp =
     JObj ([(''group_id'', JStr (g_ID grp)), (''name'', JStr (g_Name grp))]
       @ omit_str ''avatar_url'' (g_Avatar grp) @ omit_str ''announcement'' (g_Announcement grp)
       @ [(''owner_id'', JStr (g_OwnerID grp)),
          (''member_count'', jint (int (if g_Members grp = [] then length (GetGroupMembers s (g_ID grp))
                                        else length (g_Members grp)))),
          (''mute_all'', JBool (g_MuteAll grp))])"

definition handleGetGroupList :: "gateway \<Rightarrow> nat \<Rightarrow> request \<Rightarrow> gateway" where
  "handleGetGroupList g c req =
     (let userID = cl_userID (conn g c) in
      if userID = [] then sendError g c (rqs_Echo req) ''not authenticated''
      else sendJSON g c (ok_response
             (JArr (map (group_info (gw_store g)) (GetUserGroups (gw_store g) userID))) (rqs_Echo req)))"

definition member_info :: "memory_store \<Rightarrow> group_member \<Rightarrow> json" where
  "member_info s m =
     JObj ([(''user_id'', JStr (mb_UserID m)),
        (''nickname'', JStr (case GetUser s (mb_UserID m) of Some usr \<Rightarrow> u_Nickname usr | None \<Rightarrow> mb_UserID m))]
       @ omit_str ''avatar_url'' (case GetUser s (mb_UserID m) of Some usr \<Rightarrow> u_Avatar usr | None \<Rightarrow> [])
       @ [(''role'', JStr (mb_Role m))] @ omit_int ''joined_at'' (Unix (mb_JoinedAt m))
       @ omit_int ''muted_until'' (unixTimeOrZero (mb_MutedUntil m)))"

definition handleGetGroupInfo :: "gateway \<Rightarrow> nat \<Rightarrow> request \<Rightarrow> gateway" where
  "handleGetGroupInfo g c req =
     with_params g c req ''invalid params'' (\<lambda>params.
       let groupID = jstr params ''group_id''; s = gw_store g in
       if \<not> IsGroupMember s groupID (cl_userID (conn g c))
       then sendError g c (rqs_Echo req) ''group access denied''
       else
         (case GetGroup s groupID of
            None \<Rightarrow> sendError g c (rqs_Echo req) ''group not found''
          | Some grp \<Rightarrow>
              (let members = GetGroupMembers s groupID in
               sendJSON g c (ok_response (JObj
                 [(''group_id'', JStr (g_ID grp)), (''name'', JStr (g_Name grp)), (''avatar_url'', JStr (g_Avatar grp)),
                  (''announcement'', JStr (g_Announcement grp)), (''owner_id'', JStr (g_OwnerID grp)),
                  (''mute_all'', JBool (g_MuteAll grp)), (''member_count'', jint (int (length members))),
                  (''members'', JArr (map (member_info s) members))]) (rqs_Echo req)))))"

section \<open>Creating and inviting\<close>

text \<open>
  The loop that adds members and takes the added ones out again when one fails; it reads the clock
  once per member.
\<close>

fun add_members ::
  "memory_store \<Rightarrow> string \<Rightarrow> (nat \<Rightarrow> gotime) \<Rightarrow> string list \<Rightarrow> string list \<Rightarrow> memory_store \<times> string list option" where
  "add_members s groupID clk [] added = (s, Some added)"
| "add_members s groupID clk (m # ms) added =
     (case AddGroupMember s groupID m (clk 0) of
        (s1, ok) \<Rightarrow>
          if ok then add_members s1 groupID (\<lambda>n. clk (Suc n)) ms (added @ [m])
          else (foldl (\<lambda>t r. fst (RemoveGroupMember t groupID r)) s1 added, None))"

definition group_increase :: "string \<Rightarrow> string \<Rightarrow> string \<Rightarrow> outgoing" where
  "group_increase groupID userID operatorID =
     ONotice ((notice ''group_increase'')\<lparr>ne_GroupID := groupID, ne_UserID := userID, ne_OperatorID := operatorID\<rparr>)"

definition handleCreateGroup :: "env \<Rightarrow> gateway \<Rightarrow> nat \<Rightarrow> request \<Rightarrow> gateway" where
  "handleCreateGroup e g c req =
     with_params g c req ''invalid params'' (\<lambda>params.
       let userID = cl_userID (conn g c); s = gw_store g; fail = (\<lambda>h. sendError h c (rqs_Echo req));
           name = TrimSpace (jstr params ''name''); avatar = jstr params ''avatar'' in
       if name = [] \<or> 80 < length name then fail g ''group name must be 1-80 characters''
       else if 2048 < length avatar then fail g ''group avatar is invalid''
       else
         (case validateGroupInviteTargets s userID (jget params ''members'') of
            Inl err \<Rightarrow> fail g err
          | Inr memberIDs \<Rightarrow>
              (let groupID = ''group_'' @ show_int (UnixNano (env_now e 0)) in
               case CreateGroup s groupID name avatar userID (env_now e 1) (env_now e 2) of
                 (s1, grp) \<Rightarrow>
                   (case add_members s1 groupID (\<lambda>n. env_now e (n + 3)) memberIDs [] of
                      (s2, None) \<Rightarrow> fail (set_store g s2) ''failed to add group members''
                    | (s2, Some added) \<Rightarrow>
                        (case syncGroupConversationParticipants s2 groupID of
                           (s3, Inl _) \<Rightarrow> fail (set_store g s3) ''failed to create group conversation''
                         | (s3, Inr _) \<Rightarrow>
                             (let g1 = sendJSON (set_store g s3) c (ok_response (JObj
                                    [(''group_id'', JStr (g_ID grp)), (''name'', JStr (g_Name grp)),
                                     (''avatar_url'', JStr (g_Avatar grp)), (''owner_id'', JStr (g_OwnerID grp)),
                                     (''member_count'', jint (int (length (userID # added)))),
                                     (''participants'', jstrs (userID # added))]) (rqs_Echo req))
                              in foldl (\<lambda>h memberID. sendToUser (env_std e) h memberID
                                          (group_increase groupID memberID userID)) g1 added))))))"

definition handleGroupInvite :: "env \<Rightarrow> gateway \<Rightarrow> nat \<Rightarrow> request \<Rightarrow> gateway" where
  "handleGroupInvite e g c req =
     with_params g c req ''invalid group_invite params'' (\<lambda>params.
       let userID = cl_userID (conn g c); s = gw_store g; fail = (\<lambda>h. sendError h c (rqs_Echo req));
           groupID = jstr params ''group_id'' in
       case GetGroup s groupID of
         None \<Rightarrow> fail g ''group not found''
       | Some _ \<Rightarrow>
           if \<not> isGroupAdmin s groupID userID then fail g ''group permission denied''
           else
             (case validateGroupInviteTargets s userID (jget params ''members'') of
                Inl err \<Rightarrow> fail g err
              | Inr validated \<Rightarrow>
                  (let members = GetGroupMembers s groupID;
                       targets = filter (\<lambda>t. t \<notin> set (map mb_UserID members)) validated in
                   if maxGroupMembers < length members + length targets
                   then fail g (''group member limit is '' @ show_nat maxGroupMembers)
                   else
                     (case add_members s groupID (env_now e) targets [] of
                        (s1, None) \<Rightarrow> fail (set_store g s1) ''failed to invite group members''
                      | (s1, Some added) \<Rightarrow>
                          (case syncGroupConversationParticipants s1 groupID of
                             (s2, Inl _) \<Rightarrow>
                               fail (set_store g (fst (syncGroupConversationParticipants
                                 (foldl (\<lambda>t r. fst (RemoveGroupMember t groupID r)) s2 added) groupID)))
                                 ''failed to update group conversation''
                           | (s2, Inr participants) \<Rightarrow>
                               foldl (\<lambda>h targetID. broadcastToConversation (env_std e) h groupID
                                        (group_increase groupID targetID userID) [])
                                 (sendJSON (set_store g s2) c (ok_response (JObj
                                    [(''added_members'', jstrs added), (''participants'', jstrs participants),
                                     (''member_count'', jint (int (length participants)))]) (rqs_Echo req)))
                                 added)))))"

definition handleJoinGroup :: "env \<Rightarrow> gateway \<Rightarrow> nat \<Rightarrow> request \<Rightarrow> gateway" where
  "handleJoinGroup e g c req =
     with_params g c req ''invalid params'' (\<lambda>params.
       let userID = cl_userID (conn g c); s = gw_store g; fail = (\<lambda>h. sendError h c (rqs_Echo req));
           groupID = jstr params ''group_id'' in
       if GetGroup s groupID = None then fail g ''group not found''
       else
         (case AddGroupMember s groupID userID (env_now e 0) of
            (s1, addOk) \<Rightarrow>
              if addOk
              then
                (case syncGroupConversationParticipants s1 groupID of
                   (s2, Inl _) \<Rightarrow>
                     fail (set_store g (fst (RemoveGroupMember s2 groupID userID))) ''failed to update group conversation''
                 | (s2, Inr participants) \<Rightarrow>
                     broadcastToConversation (env_std e)
                       (sendJSON (set_store g s2) c
                          (ok_response (JObj [(''participants'', jstrs participants)]) (rqs_Echo req)))
                       groupID
                       (ONotice ((notice ''group_increase'')\<lparr>ne_GroupID := groupID, ne_UserID := userID\<rparr>)) [])
              else fail (set_store g s1) ''failed to join group''))"

section \<open>Leaving and removing\<close>

definition group_decrease :: "string \<Rightarrow> string \<Rightarrow> string \<Rightarrow> outgoing" where
  "group_decrease groupID userID operatorID =
     ONotice ((notice ''group_decrease'')\<lparr>ne_GroupID := groupID, ne_UserID := userID, ne_OperatorID := operatorID\<rparr>)"

text \<open>
  The common tail of \<open>handleLeaveGroup\<close> and \<open>handleGroupKick\<close>: remove the member, bring the
  conversation in step or undo, answer, tell the removed user and the remaining members.
\<close>

definition remove_from_group ::
  "env \<Rightarrow> gateway \<Rightarrow> nat \<Rightarrow> request \<Rightarrow> string \<Rightarrow> string \<Rightarrow> string \<Rightarrow> gateway" where
  "remove_from_group e g c req groupID userID failure =
     (case RemoveGroupMember (gw_store g) groupID userID of
        (s1, removeOk) \<Rightarrow>
          if removeOk
          then
            (case syncGroupConversationParticipants s1 groupID of
               (s2, Inl _) \<Rightarrow>
                 sendError (set_store g (fst (syncGroupConversationParticipants
                     (fst (AddGroupMember s2 groupID userID (env_now e 0))) groupID)))
                   c (rqs_Echo req) ''failed to update group conversation''
             | (s2, Inr _) \<Rightarrow>
                 (let event = group_decrease groupID userID (cl_userID (conn g c));
                      g1 = sendJSON (set_store g s2) c (ok_response JNull (rqs_Echo req));
                      g2 = sendToUser (env_std e) g1 userID event
                  in broadcastToConversation (env_std e) g2 groupID event userID))
          else sendError (set_store g s1) c (rqs_Echo req) failure)"

definition handleLeaveGroup :: "env \<Rightarrow> gateway \<Rightarrow> nat \<Rightarrow> request \<Rightarrow> gateway" where
  "handleLeaveGroup e g c req =
     with_params g c req ''invalid params'' (\<lambda>params.
       let userID = cl_userID (conn g c); fail = sendError g c (rqs_Echo req);
           groupID = jstr params ''group_id'' in
       case GetGroup (gw_store g) groupID of
         None \<Rightarrow> fail ''group not found''
       | Some grp \<Rightarrow>
           if g_OwnerID grp = userID then fail ''group owner cannot leave''
           else remove_from_group e g c req groupID userID ''failed to leave group'')"

definition handleGroupKick :: "env \<Rightarrow> gateway \<Rightarrow> nat \<Rightarrow> request \<Rightarrow> gateway" where
  "handleGroupKick e g c req =
     with_params g c req ''invalid params'' (\<lambda>params.
       let actorID = cl_userID (conn g c); s = gw_store g; fail = sendError g c (rqs_Echo req);
           groupID = jstr params ''group_id''; userID = jstr params ''user_id'' in
       case GetGroup s groupID of
         None \<Rightarrow> fail ''group not found''
       | Some grp \<Rightarrow>
           if \<not> canManageGroupMember (groupMemberRole s groupID actorID) (groupMemberRole s groupID userID)
              \<or> userID = actorID \<or> userID = g_OwnerID grp
           then fail ''group permission denied''
           else remove_from_group e g c req groupID userID ''failed to kick user'')"

section \<open>Muting, settings and roles\<close>

definition handleGroupBan :: "env \<Rightarrow> gateway \<Rightarrow> nat \<Rightarrow> request \<Rightarrow> gateway" where
  "handleGroupBan e g c req =
     with_params g c req ''invalid group_ban params'' (\<lambda>params.
       let actorID = cl_userID (conn g c); s = gw_store g; fail = (\<lambda>h. sendError h c (rqs_Echo req));
           groupID = jstr params ''group_id''; userID = jstr params ''user_id'' in
       case as_num (jget params ''duration'') of
         None \<Rightarrow> fail g ''duration must be 0-2592000 seconds''
       | Some durationValue \<Rightarrow>
           (let duration = float_to_int64 durationValue in
            if groupID = [] \<or> userID = [] \<or> durationValue \<noteq> of_int duration \<or> duration < 0
               \<or> maxGroupBanSeconds < duration
            then fail g ''duration must be 0-2592000 seconds''
            else if GetGroup s groupID = None then fail g ''group not found''
            else if userID = actorID
                    \<or> \<not> canManageGroupMember (groupMemberRole s groupID actorID) (groupMemberRole s groupID userID)
            then fail g ''group permission denied''
            else
              (let mutedUntil = (if 0 < duration then env_now e 0 + duration * second else zero_time) in
               case SetGroupMemberMute s groupID userID mutedUntil of
                 (s1, Inl _) \<Rightarrow> fail (set_store g s1) ''failed to update member mute''
               | (s1, Inr _) \<Rightarrow>
                   broadcastToConversation (env_std e)
                     (sendJSON (set_store g s1) c (ok_response (JObj
                        [(''group_id'', JStr groupID), (''user_id'', JStr userID),
                         (''muted_until'', jint (unixTimeOrZero mutedUntil))]) (rqs_Echo req)))
                     groupID
                     (ONotice ((notice ''group_ban'')\<lparr>ne_GroupID := groupID, ne_UserID := userID,
                        ne_OperatorID := actorID, ne_SubType := (if 0 < duration then ''ban'' else ''lift_ban''),
                        ne_Duration := duration\<rparr>)) [])))"

text \<open>One optional string field of \<open>handleUpdateGroup\<close>: absent, refused, or a new value.\<close>

definition group_field ::
  "jobject \<Rightarrow> string \<Rightarrow> (string \<Rightarrow> string) \<Rightarrow> (string \<Rightarrow> bool) \<Rightarrow> string \<Rightarrow> unit + string \<times> bool" where
  "group_field params key prep valid old =
     (case gm_get params key of
        None \<Rightarrow> Inr (old, False)
      | Some raw \<Rightarrow>
          (case as_str raw of
             None \<Rightarrow> Inl ()
           | Some v \<Rightarrow> if valid (prep v) then Inr (prep v, True) else Inl ()))"

definition handleUpdateGroup :: "env \<Rightarrow> gateway \<Rightarrow> nat \<Rightarrow> request \<Rightarrow> gateway" where
  "handleUpdateGroup e g c req =
     with_params g c req ''invalid update_group params'' (\<lambda>params.
       let userID = cl_userID (conn g c); s = gw_store g; fail = (\<lambda>h. sendError h c (rqs_Echo req));
           groupID = jstr params ''group_id'' in
       case GetGroup s groupID of
         None \<Rightarrow> fail g ''group not found''
       | Some grp \<Rightarrow>
           if \<not> isGroupAdmin s groupID userID then fail g ''group permission denied''
           else
             (case group_field params ''name'' TrimSpace (\<lambda>v. v \<noteq> [] \<and> length v \<le> 80) (g_Name grp) of
                Inl _ \<Rightarrow> fail g ''group name must be 1-80 characters''
              | Inr (name, c1) \<Rightarrow>
                  (case group_field params ''avatar_url'' id (\<lambda>v. length v \<le> 2048) (g_Avatar grp) of
                     Inl _ \<Rightarrow> fail g ''group avatar is invalid''
                   | Inr (avatar, c2) \<Rightarrow>
                       (case group_field params ''announcement'' TrimSpace (\<lambda>v. length v \<le> 2000) (g_Announcement grp) of
                          Inl _ \<Rightarrow> fail g ''group announcement is too long''
                        | Inr (announcement, c3) \<Rightarrow>
                            if \<not> (c1 \<or> c2 \<or> c3) then fail g ''at least one group field is required''
                            else
                              (case UpdateGroup s groupID name avatar announcement (g_MuteAll grp) of
                                 (s1, Inl _) \<Rightarrow> fail (set_store g s1) ''failed to update group''
                               | (s1, Inr _) \<Rightarrow>
                                   (case syncGroupConversationParticipants s1 groupID of
                                      (s2, Inl _) \<Rightarrow>
                                        fail (set_store g (fst (UpdateGroup s2 groupID (g_Name grp) (g_Avatar grp)
                                          (g_Announcement grp) (g_MuteAll grp)))) ''failed to update group conversation''
                                    | (s2, Inr _) \<Rightarrow>
                                        broadcastToConversation (env_std e)
                                          (sendJSON (set_store g s2) c (ok_response (JObj
                                             [(''group_id'', JStr groupID), (''name'', JStr name),
                                              (''avatar_url'', JStr avatar), (''announcement'', JStr announcement)])
                                             (rqs_Echo req)))
                                          groupID
                                          (ONotice ((notice ''group_update'')\<lparr>ne_GroupID := groupID,
                                             ne_OperatorID := userID\<rparr>)) []))))))"

definition handleSetGroupAdmin :: "env \<Rightarrow> gateway \<Rightarrow> nat \<Rightarrow> request \<Rightarrow> gateway" where
  "handleSetGroupAdmin e g c req =
     with_params g c req ''invalid set_group_admin params'' (\<lambda>params.
       let actorID = cl_userID (conn g c); s = gw_store g; fail = (\<lambda>h. sendError h c (rqs_Echo req));
           groupID = jstr params ''group_id''; userID = jstr params ''user_id'';
           enabledOK = (as_bool (jget params ''enabled'') \<noteq> None); enabled = jbool params ''enabled'' in
       case GetGroup s groupID of
         None \<Rightarrow> fail g ''group not found''
       | Some grp \<Rightarrow>
           if g_OwnerID grp \<noteq> actorID \<or> userID = actorID
           then fail g ''only the group owner can manage administrators''
           else
             (let targetRole = groupMemberRole s groupID userID in
              if \<not> enabledOK \<or> targetRole = [] \<or> targetRole = ''owner''
                 \<or> enabled \<and> targetRole \<noteq> ''member'' \<or> \<not> enabled \<and> targetRole \<noteq> ''admin''
              then fail g ''invalid administrator change''
              else
                (case SetGroupMemberRole s groupID userID (if enabled then ''admin'' else ''member'') of
                   (s1, Inl _) \<Rightarrow> fail (set_store g s1) ''failed to update administrator''
                 | (s1, Inr _) \<Rightarrow>
                     broadcastToConversation (env_std e)
                       (sendJSON (set_store g s1) c (ok_response JNull (rqs_Echo req))) groupID
                       (ONotice ((notice ''group_admin'')\<lparr>ne_GroupID := groupID, ne_UserID := userID,
                          ne_OperatorID := actorID, ne_SubType := (if enabled then ''set'' else ''unset''),
                          ne_Enabled := enabled\<rparr>)) [])))"

definition handleTransferGroup :: "env \<Rightarrow> gateway \<Rightarrow> nat \<Rightarrow> request \<Rightarrow> gateway" where
  "handleTransferGroup e g c req =
     with_params g c req ''invalid transfer_group params'' (\<lambda>params.
       let actorID = cl_userID (conn g c); s = gw_store g; fail = (\<lambda>h. sendError h c (rqs_Echo req));
           groupID = jstr params ''group_id''; userID = jstr params ''user_id'' in
       case GetGroup s groupID of
         None \<Rightarrow> fail g ''group not found''
       | Some grp \<Rightarrow>
           if g_OwnerID grp \<noteq> actorID \<or> userID = actorID \<or> groupMemberRole s groupID userID = []
           then fail g ''group ownership transfer denied''
           else
             (case TransferGroupOwnership s groupID actorID userID of
                (s1, Inl _) \<Rightarrow> fail (set_store g s1) ''failed to transfer group ownership''
              | (s1, Inr _) \<Rightarrow>
                  (case syncGroupConversationParticipants s1 groupID of
                     (s2, Inl _) \<Rightarrow>
                       fail (set_store g (fst (TransferGroupOwnership s2 groupID userID actorID)))
                         ''failed to update group conversation''
                   | (s2, Inr _) \<Rightarrow>
                       broadcastToConversation (env_std e)
                         (sendJSON (set_store g s2) c (ok_response JNull (rqs_Echo req))) groupID
                         (ONotice ((notice ''group_transfer'')\<lparr>ne_GroupID := groupID, ne_UserID := userID,
                            ne_OperatorID := actorID\<rparr>)) [])))"

definition handleDismissGroup :: "env \<Rightarrow> gateway \<Rightarrow> nat \<Rightarrow> request \<Rightarrow> gateway" where
  "handleDismissGroup e g c req =
     with_params g c req ''invalid dismiss_group params'' (\<lambda>params.
       let actorID = cl_userID (conn g c); s = gw_store g; fail = (\<lambda>h. sendError h c (rqs_Echo req));
           groupID = jstr params ''group_id'' in
       case GetGroup s groupID of
         None \<Rightarrow> fail g ''group not found''
       | Some grp \<Rightarrow>
           if g_OwnerID grp \<noteq> actorID then fail g ''only the group owner can dismiss the group''
           else
             (let members = GetGroupMembers s groupID in
              case DeleteGroup s groupID of
                (s1, Inl _) \<Rightarrow> fail (set_store g s1) ''failed to dismiss group''
              | (s1, Inr _) \<Rightarrow>
                  foldl (\<lambda>h member. sendToUser (env_std e) h (mb_UserID member)
                           (ONotice ((notice ''group_dismiss'')\<lparr>ne_GroupID := groupID, ne_OperatorID := actorID\<rparr>)))
                    (sendJSON (set_store g s1) c (ok_response JNull (rqs_Echo req))) members))"

definition handleGroupMuteAll :: "env \<Rightarrow> gateway \<Rightarrow> nat \<Rightarrow> request \<Rightarrow> gateway" where
  "handleGroupMuteAll e g c req =
     with_params g c req ''invalid group_mute_all params'' (\<lambda>params.
       let actorID = cl_userID (conn g c); s = gw_store g; fail = (\<lambda>h. sendError h c (rqs_Echo req));
           groupID = jstr params ''group_id'';
           enabledOK = (as_bool (jget params ''enabled'') \<noteq> None); enabled = jbool params ''enabled'' in
       case GetGroup s groupID of
         None \<Rightarrow> fail g ''group not found''
       | Some grp \<Rightarrow>
           if \<not> enabledOK \<or> \<not> isGroupAdmin s groupID actorID then fail g ''group permission denied''
           else
             (case UpdateGroup s groupID (g_Name grp) (g_Avatar grp) (g_Announcement grp) enabled of
                (s1, Inl _) \<Rightarrow> fail (set_store g s1) ''failed to update group mute''
              | (s1, Inr _) \<Rightarrow>
                  broadcastToConversation (env_std e)
                    (sendJSON (set_store g s1) c (ok_response JNull (rqs_Echo req))) groupID
                    (ONotice ((notice ''group_mute_all'')\<lparr>ne_GroupID := groupID, ne_OperatorID := actorID,
                       ne_SubType := (if enabled then ''enable'' else ''disable''), ne_Enabled := enabled\<rparr>)) []))"

section \<open>What the group requests may do\<close>

text \<open>
  The specification of group management: what a user may turn a group into. \<open>None\<close> is no group.
  Everything it says is about the group's members, roles, owner and settings; how the handlers
  search, store and answer is not mentioned.
\<close>

definition member_ids :: "group \<Rightarrow> string list" where
  "member_ids grp = map mb_UserID (g_Members grp)"

definition role_of :: "group \<Rightarrow> string \<Rightarrow> string" where
  "role_of grp userID = (case List.find (\<lambda>m. mb_UserID m = userID) (g_Members grp) of None \<Rightarrow> [] | Some m \<Rightarrow> mb_Role m)"

text \<open>People a user may bring into a group: other accounts the user is friends with.\<close>

definition invitable :: "memory_store \<Rightarrow> string \<Rightarrow> string \<Rightarrow> bool" where
  "invitable s userID targetID \<longleftrightarrow>
     targetID \<noteq> userID \<and> GetUser s targetID \<noteq> None \<and> AreFriends s userID targetID"

definition plain_members :: "string list \<Rightarrow> group_member list \<Rightarrow> bool" where
  "plain_members ids ms \<longleftrightarrow> map mb_UserID ms = ids \<and> list_all (\<lambda>m. mb_Role m = ''member'' \<and> mb_MutedUntil m = zero_time) ms"

text \<open>Whom a role may manage: the owner everybody else, an administrator the plain members.\<close>

definition outranks :: "string \<Rightarrow> string \<Rightarrow> bool" where
  "outranks r t \<longleftrightarrow> (r, t) \<in> {(''owner'', ''admin''), (''owner'', ''member''), (''admin'', ''member'')}"

inductive group_action :: "memory_store \<Rightarrow> string \<Rightarrow> group option \<Rightarrow> group option \<Rightarrow> bool"
  for s :: memory_store and actor :: string where
  create: "g_OwnerID grp = actor \<Longrightarrow> g_Members grp = own # ms \<Longrightarrow> mb_UserID own = actor \<Longrightarrow>
    mb_Role own = ''owner'' \<Longrightarrow> plain_members ids ms \<Longrightarrow> distinct ids \<Longrightarrow> length ids \<le> 100 \<Longrightarrow>
    list_all (invitable s actor) ids \<Longrightarrow> group_action s actor old (Some grp)"
| invite: "role_of grp actor \<in> {''owner'', ''admin''} \<Longrightarrow> plain_members ids ms \<Longrightarrow> distinct ids \<Longrightarrow>
    list_all (invitable s actor) ids \<Longrightarrow> set ids \<inter> set (member_ids grp) = {} \<Longrightarrow>
    length (g_Members grp) + length ids \<le> 500 \<Longrightarrow>
    group_action s actor (Some grp) (Some (grp\<lparr>g_Members := g_Members grp @ ms\<rparr>))"
| join: "actor \<notin> set (member_ids grp) \<Longrightarrow> plain_members [actor] ms \<Longrightarrow>
    group_action s actor (Some grp) (Some (grp\<lparr>g_Members := g_Members grp @ ms\<rparr>))"
| leave: "actor \<in> set (member_ids grp) \<Longrightarrow> g_OwnerID grp \<noteq> actor \<Longrightarrow>
    group_action s actor (Some grp) (Some (grp\<lparr>g_Members := remove_first (\<lambda>m. mb_UserID m = actor) (g_Members grp)\<rparr>))"
| kick: "outranks (role_of grp actor) (role_of grp userID) \<Longrightarrow> userID \<noteq> actor \<Longrightarrow>
    userID \<noteq> g_OwnerID grp \<Longrightarrow>
    group_action s actor (Some grp) (Some (grp\<lparr>g_Members := remove_first (\<lambda>m. mb_UserID m = userID) (g_Members grp)\<rparr>))"
| mute: "outranks (role_of grp actor) (role_of grp userID) \<Longrightarrow> userID \<noteq> actor \<Longrightarrow>
    group_action s actor (Some grp) (Some (grp\<lparr>g_Members :=
      update_first (\<lambda>m. mb_UserID m = userID) (\<lambda>m. m\<lparr>mb_MutedUntil := till\<rparr>) (g_Members grp)\<rparr>))"
| settings: "role_of grp actor \<in> {''owner'', ''admin''} \<Longrightarrow> g_Members grp1 = g_Members grp \<Longrightarrow>
    g_OwnerID grp1 = g_OwnerID grp \<Longrightarrow> g_CreatedAt grp1 = g_CreatedAt grp \<Longrightarrow>
    group_action s actor (Some grp) (Some grp1)"
| set_admin: "g_OwnerID grp = actor \<Longrightarrow> userID \<noteq> actor \<Longrightarrow>
    (role_of grp userID, role) \<in> {(''member'', ''admin''), (''admin'', ''member'')} \<Longrightarrow>
    group_action s actor (Some grp) (Some (grp\<lparr>g_Members :=
      update_first (\<lambda>m. mb_UserID m = userID) (\<lambda>m. m\<lparr>mb_Role := role\<rparr>) (g_Members grp)\<rparr>))"
| transfer: "g_OwnerID grp = actor \<Longrightarrow> userID \<noteq> actor \<Longrightarrow> userID \<in> set (member_ids grp) \<Longrightarrow>
    group_action s actor (Some grp)
      (Some (grp\<lparr>g_Members := map (transferred actor userID) (g_Members grp), g_OwnerID := userID\<rparr>))"
| dismiss: "g_OwnerID grp = actor \<Longrightarrow> group_action s actor (Some grp) None"

text \<open>
  The same on stores: at most one group changes, and its conversation is rewritten from the group
  whenever the change could be seen in it.
\<close>

definition conv_fields :: "group \<Rightarrow> string \<times> string \<times> string \<times> string list" where
  "conv_fields grp = (g_Name grp, g_Avatar grp, g_OwnerID grp, member_ids grp)"

definition synced :: "memory_store \<Rightarrow> string \<Rightarrow> memory_store" where
  "synced s i = fst (syncGroupConversationParticipants s i)"

inductive group_change :: "string \<Rightarrow> memory_store \<Rightarrow> memory_store \<Rightarrow> bool"
  for actor :: string and s :: memory_store where
  unchanged: "group_change actor s s"
| synced: "group_action s actor (GetGroup s i) (Some grp) \<Longrightarrow> g_ID grp = i \<Longrightarrow>
    group_change actor s (synced (put_group s i grp) i)"
| unsynced: "group_action s actor (GetGroup s i) (Some grp) \<Longrightarrow> g_ID grp = i \<Longrightarrow>
    map_option conv_fields (GetGroup s i) = Some (conv_fields grp) \<Longrightarrow>
    group_change actor s (put_group s i grp)"
| dismissed: "group_action s actor (GetGroup s i) None \<Longrightarrow> group_change actor s (fst (DeleteGroup s i))"

section \<open>Lemmas on the group operations\<close>

lemma put_group_get [simp]:
  "GetGroup (put_group s i grp) j = (if j = i then Some grp else GetGroup s j)"
  "GetConversation (put_group s i grp) j = GetConversation s j" "GetUser (put_group s i grp) j = GetUser s j"
  by (simp_all add: GetGroup_def put_group_def GetConversation_def GetUser_def)

lemma gm_set_same: "gm_get m k = Some v \<Longrightarrow> gm_set k v m = m"
  by (induction m) (auto split: if_splits)

lemma put_group_same: "GetGroup s i = Some grp \<Longrightarrow> put_group s i grp = s"
  by (simp add: put_group_def GetGroup_def gm_set_same)

lemma put_group_twice [simp]: "put_group (put_group s i a) i b = put_group s i b"
  by (simp add: put_group_def)

lemma GetGroup_Save [simp]: "GetGroup (SaveConversation s c) j = GetGroup s j"
  by (simp add: GetGroup_def SaveConversation_def)

lemma members_of_group: "GetGroup s i = Some grp \<Longrightarrow> GetGroupMembers s i = g_Members grp"
  by (simp add: GetGroup_def GetGroupMembers_def)

lemma role_of_group: "GetGroup s i = Some grp \<Longrightarrow> groupMemberRole s i u = role_of grp u"
  by (simp add: groupMemberRole_def role_of_def members_of_group)

lemma role_of_member: "role_of grp u \<noteq> [] \<Longrightarrow> u \<in> set (member_ids grp)"
  by (auto simp: role_of_def member_ids_def find_Some_iff split: option.splits)

lemma CreateGroup_put:
  "CreateGroup s i n a u t1 t2 = (put_group s i (snd (CreateGroup s i n a u t1 t2)), snd (CreateGroup s i n a u t1 t2))"
  by (simp add: CreateGroup_def put_group_def Let_def)

lemma AddGroupMember_put:
  assumes "GetGroup s i = Some grp" "u \<notin> set (member_ids grp)"
  shows "AddGroupMember s i u now = (put_group s i (grp\<lparr>g_Members := g_Members grp @
     [\<lparr> mb_UserID = u, mb_Role = ''member'', mb_JoinedAt = now, mb_MutedUntil = zero_time \<rparr>]\<rparr>), True)"
  using assms by (auto simp: AddGroupMember_def GetGroup_def member_ids_def list_ex_iff)

lemma add_members_ok:
  assumes "GetGroup s i = Some grp" "distinct ms" "set ms \<inter> set (member_ids grp) = {}"
  shows "\<exists>new. add_members s i clk ms added =
      (put_group s i (grp\<lparr>g_Members := g_Members grp @ new\<rparr>), Some (added @ ms)) \<and> plain_members ms new"
  using assms
proof (induction ms arbitrary: s grp clk added)
  case Nil
  then show ?case by (auto simp: put_group_same plain_members_def intro!: exI [of _ "[]"])
next
  case (Cons m ms)
  define mb where "mb = \<lparr> mb_UserID = m, mb_Role = ''member'', mb_JoinedAt = clk 0, mb_MutedUntil = zero_time \<rparr>"
  define grp1 where "grp1 = grp\<lparr>g_Members := g_Members grp @ [mb]\<rparr>"
  have "AddGroupMember s i m (clk 0) = (put_group s i grp1, True)"
    using Cons.prems by (simp add: AddGroupMember_put grp1_def mb_def)
  moreover have "set ms \<inter> set (member_ids grp1) = {}" "distinct ms"
    using Cons.prems by (auto simp: grp1_def member_ids_def mb_def)
  then obtain new where "add_members (put_group s i grp1) i (\<lambda>n. clk (Suc n)) ms (added @ [m]) =
      (put_group (put_group s i grp1) i (grp1\<lparr>g_Members := g_Members grp1 @ new\<rparr>), Some ((added @ [m]) @ ms))"
    "plain_members ms new" using Cons.IH [of "put_group s i grp1" grp1] by fastforce
  ultimately show ?case
    by (intro exI [of _ "mb # new"]) (simp add: grp1_def mb_def plain_members_def)
qed

lemma invite_targets_spec:
  "invite_targets s u vs seen acc = Inr ts \<Longrightarrow> u \<in> set seen \<Longrightarrow> set acc \<subseteq> set seen \<Longrightarrow> distinct acc \<Longrightarrow>
   list_all (invitable s u) acc \<Longrightarrow>
   distinct ts \<and> list_all (invitable s u) ts \<and> length ts \<le> length acc + length vs"
proof (induction s u vs seen acc rule: invite_targets.induct)
  case (2 s u v vs seen acc)
  from 2(3) obtain t where t: "as_str v = Some t" "\<not> \<not> validUserID t" by (auto split: option.splits if_splits)
  show ?case
  proof (cases "t \<in> set seen")
    case True
    with 2(3) t have "invite_targets s u vs seen acc = Inr ts" by simp
    from 2(1) [OF t True this 2(4-7)] show ?thesis by simp
  next
    case False
    with 2(3) t have i: "GetUser s t \<noteq> None" "\<not> \<not> AreFriends s u t"
      "invite_targets s u vs (t # seen) (acc @ [t]) = Inr ts" by (auto split: if_splits)
    have "invitable s u t" using 2(4) False i(1,2) by (auto simp: invitable_def)
    with 2(7) have "list_all (invitable s u) (acc @ [t])" by simp
    from 2(2) [OF t False i _ _ _ this] 2(4-6) False show ?thesis by auto
  qed
qed simp

lemma validated_targets:
  assumes "validateGroupInviteTargets s u raw = Inr ts"
  shows "distinct ts" "list_all (invitable s u) ts" "length ts \<le> 100"
proof -
  have "distinct ts \<and> list_all (invitable s u) ts \<and> length ts \<le> 100"
  proof (cases raw)
    case (JArr vs)
    with assms have "invite_targets s u vs [u] [] = Inr ts" "length vs \<le> 100"
      by (auto simp: validateGroupInviteTargets_def maxGroupInviteBatch_def split: if_splits)
    with invite_targets_spec [of s u vs "[u]" "[]" ts] show ?thesis by auto
  qed (use assms in \<open>auto simp: validateGroupInviteTargets_def\<close>)
  then show "distinct ts" "list_all (invitable s u) ts" "length ts \<le> 100" by simp_all
qed

lemma sync_group:
  assumes "GetGroup s i = Some grp"
  obtains conv where "syncGroupConversationParticipants s i = (SaveConversation s conv, Inr (c_Participants conv))"
    "c_Type conv = ''group''" "c_Title conv = g_Name grp" "c_Avatar conv = g_Avatar grp"
    "c_OwnerID conv = g_OwnerID grp" "mset (c_Participants conv) = mset (member_ids grp)"
    "c_ID conv = (case GetConversation s i of Some conv0 \<Rightarrow> c_ID conv0 | None \<Rightarrow> i)"
proof -
  define conv where "conv = (let conv0 = (case GetConversation s i of Some conv \<Rightarrow> conv
        | None \<Rightarrow> \<lparr> c_ID = i, c_Type = [], c_Title = [], c_Avatar = [], c_OwnerID = [],
                    c_Participants = [], c_CreatedAt = g_CreatedAt grp \<rparr>);
      conv1 = (if c_CreatedAt conv0 = zero_time then conv0\<lparr>c_CreatedAt := g_CreatedAt grp\<rparr> else conv0)
     in conv1\<lparr>c_Type := ''group'', c_Title := g_Name grp, c_Avatar := g_Avatar grp, c_OwnerID := g_OwnerID grp,
          c_Participants := map mb_UserID (go_sort member_less (GetGroupMembers s i))\<rparr>)"
  have "syncGroupConversationParticipants s i = (SaveConversation s conv, Inr (c_Participants conv))"
    using assms by (simp add: syncGroupConversationParticipants_def conv_def Let_def)
  moreover have "mset (c_Participants conv) = mset (member_ids grp)"
    using assms by (simp add: conv_def Let_def members_of_group member_ids_def)
  moreover have "c_ID conv = (case GetConversation s i of Some conv0 \<Rightarrow> c_ID conv0 | None \<Rightarrow> i)"
    by (simp add: conv_def Let_def split: option.split)
  ultimately show ?thesis using that [of conv] by (simp add: conv_def Let_def)
qed

section \<open>The handlers refine the specification\<close>

lemma set_store_fields [simp]: "gw_store (set_store g s) = s" "conn (set_store g s) c = conn g c"
  "gw_conns (set_store g s) = gw_conns g" "gw_clients (set_store g s) = gw_clients g" "gw_jobs (set_store g s) = gw_jobs g"
  by (simp_all add: set_store_def conn_def)

lemma with_params_run:
  "cl_userID (conn g c) \<noteq> [] \<Longrightarrow> as_obj (rqs_Params req) = Some params \<Longrightarrow> with_params g c req msg k = k params"
  by (simp add: with_params_def)

text \<open>A refused request changes nothing; a handler runs its body otherwise.\<close>

lemma request_cases:
  assumes "(\<And>msg k. gw_store (with_params g c req msg k) = gw_store g) \<Longrightarrow> P"
    and "\<And>params. (\<And>msg k. with_params g c req msg k = k params) \<Longrightarrow> P"
  shows P
  using assms by (cases "cl_userID (conn g c) = []"; cases "as_obj (rqs_Params req)") (auto simp: with_params_def)

definition sync_participants :: "memory_store \<Rightarrow> string \<Rightarrow> string list" where
  "sync_participants s i = projr (snd (syncGroupConversationParticipants s i))"

lemma sync_run:
  "GetGroup s i = Some grp \<Longrightarrow> syncGroupConversationParticipants s i = (synced s i, Inr (sync_participants s i))"
  by (erule sync_group) (simp add: synced_def sync_participants_def)

lemma group_id: "groups_inv s \<Longrightarrow> GetGroup s i = Some grp \<Longrightarrow> g_ID grp = i"
  by (simp add: GetGroup_def groups_inv_get)

lemma group_changeI:
  assumes "groups_inv s" "GetGroup s i = Some grp" "group_action s u (Some grp) (Some grp1)" "g_ID grp1 = g_ID grp"
  shows "group_change u s (synced (put_group s i grp1) i)"
    "conv_fields grp1 = conv_fields grp \<Longrightarrow> group_change u s (put_group s i grp1)"
  using assms group_id [OF assms(1,2)] by (auto intro: group_change.synced group_change.unsynced)

lemma handleJoinGroup_change:
  assumes "groups_inv (gw_store g)"
  shows "group_change (cl_userID (conn g c)) (gw_store g) (gw_store (handleJoinGroup e g c req))"
proof (rule request_cases [of g c req])
  fix params assume run: "\<And>msg k. with_params g c req msg k = k params"
  let ?s = "gw_store g" and ?u = "cl_userID (conn g c)" and ?i = "jstr params ''group_id''"
  show ?thesis
  proof (cases "GetGroup ?s ?i")
    case (Some grp)
    show ?thesis
    proof (cases "?u \<in> set (member_ids grp)")
      case True
      then have "AddGroupMember ?s ?i ?u (env_now e 0) = (?s, False)"
        using Some by (auto simp: AddGroupMember_def GetGroup_def member_ids_def list_ex_iff)
      with Some show ?thesis by (simp add: handleJoinGroup_def run group_change.unchanged)
    next
      case False
      define ms where "ms = [\<lparr> mb_UserID = ?u, mb_Role = ''member'', mb_JoinedAt = env_now e 0, mb_MutedUntil = zero_time \<rparr>]"
      define grp1 where "grp1 = grp\<lparr>g_Members := g_Members grp @ ms\<rparr>"
      have "group_action ?s ?u (Some grp) (Some grp1)"
        unfolding grp1_def using False by (rule group_action.join) (simp add: ms_def plain_members_def)
      then have "group_change ?u ?s (synced (put_group ?s ?i grp1) ?i)"
        by (rule group_changeI(1) [OF assms Some]) (simp add: grp1_def)
      moreover have "AddGroupMember ?s ?i ?u (env_now e 0) = (put_group ?s ?i grp1, True)"
        using AddGroupMember_put [OF Some False] by (simp add: grp1_def ms_def)
      ultimately show ?thesis using Some by (simp add: handleJoinGroup_def run Let_def sync_run [of _ _ grp1])
    qed
  qed (simp add: handleJoinGroup_def run group_change.unchanged)
qed (simp add: handleJoinGroup_def group_change.unchanged)

lemma RemoveGroupMember_put:
  assumes "GetGroup s i = Some grp"
  shows "RemoveGroupMember s i u = (if u \<in> set (member_ids grp)
     then (put_group s i (grp\<lparr>g_Members := remove_first (\<lambda>m. mb_UserID m = u) (g_Members grp)\<rparr>), True)
     else (s, False))"
  using assms by (auto simp: RemoveGroupMember_def GetGroup_def member_ids_def list_ex_iff)

lemma remove_from_group_change:
  assumes "groups_inv (gw_store g)" "GetGroup (gw_store g) i = Some grp"
    and "u \<in> set (member_ids grp) \<Longrightarrow> group_action (gw_store g) a (Some grp)
      (Some (grp\<lparr>g_Members := remove_first (\<lambda>m. mb_UserID m = u) (g_Members grp)\<rparr>))"
  shows "group_change a (gw_store g) (gw_store (remove_from_group e g c req i u msg))"
proof (cases "u \<in> set (member_ids grp)")
  case True
  define grp1 where "grp1 = grp\<lparr>g_Members := remove_first (\<lambda>m. mb_UserID m = u) (g_Members grp)\<rparr>"
  have "group_change a (gw_store g) (synced (put_group (gw_store g) i grp1) i)"
    by (rule group_changeI(1) [OF assms(1,2)]) (use assms(3) True in \<open>simp_all add: grp1_def\<close>)
  with True assms(2) show ?thesis
    by (simp add: remove_from_group_def RemoveGroupMember_put grp1_def [symmetric] sync_run [of _ _ grp1] Let_def)
next
  case False
  with assms(2) show ?thesis by (simp add: remove_from_group_def RemoveGroupMember_put group_change.unchanged)
qed

lemma handleLeaveGroup_change:
  assumes "groups_inv (gw_store g)"
  shows "group_change (cl_userID (conn g c)) (gw_store g) (gw_store (handleLeaveGroup e g c req))"
proof (rule request_cases [of g c req])
  fix params assume run: "\<And>msg k. with_params g c req msg k = k params"
  show ?thesis
  proof (cases "GetGroup (gw_store g) (jstr params ''group_id'')")
    case (Some grp)
    with assms show ?thesis
      by (auto simp: handleLeaveGroup_def run Let_def
          intro: group_change.unchanged remove_from_group_change group_action.leave)
  qed (simp add: handleLeaveGroup_def run group_change.unchanged)
qed (simp add: handleLeaveGroup_def group_change.unchanged)

lemma manage_outranks: "canManageGroupMember r t = outranks r t"
  by (auto simp: canManageGroupMember_def outranks_def)

lemma handleGroupKick_change:
  assumes "groups_inv (gw_store g)"
  shows "group_change (cl_userID (conn g c)) (gw_store g) (gw_store (handleGroupKick e g c req))"
proof (rule request_cases [of g c req])
  fix params assume run: "\<And>msg k. with_params g c req msg k = k params"
  show ?thesis
  proof (cases "GetGroup (gw_store g) (jstr params ''group_id'')")
    case (Some grp)
    with assms show ?thesis
      by (auto simp: handleGroupKick_def run Let_def role_of_group manage_outranks
          intro: group_change.unchanged remove_from_group_change group_action.kick)
  qed (simp add: handleGroupKick_def run group_change.unchanged)
qed (simp add: handleGroupKick_def group_change.unchanged)

lemma SetGroupMemberMute_put:
  assumes "GetGroup s i = Some grp" "u \<in> set (member_ids grp)"
  shows "SetGroupMemberMute s i u till = (put_group s i (grp\<lparr>g_Members :=
     update_first (\<lambda>m. mb_UserID m = u) (\<lambda>m. m\<lparr>mb_MutedUntil := till\<rparr>) (g_Members grp)\<rparr>), Inr ())"
  using assms by (auto simp: SetGroupMemberMute_def GetGroup_def member_ids_def list_ex_iff)

lemma SetGroupMemberRole_put:
  assumes "GetGroup s i = Some grp" "u \<in> set (member_ids grp)"
  shows "SetGroupMemberRole s i u role = (put_group s i (grp\<lparr>g_Members :=
     update_first (\<lambda>m. mb_UserID m = u) (\<lambda>m. m\<lparr>mb_Role := role\<rparr>) (g_Members grp)\<rparr>), Inr ())"
  using assms by (auto simp: SetGroupMemberRole_def GetGroup_def member_ids_def list_ex_iff)

lemma managed_member: "canManageGroupMember r (role_of grp u) \<Longrightarrow> u \<in> set (member_ids grp)"
  by (rule role_of_member) (auto simp: canManageGroupMember_def)

lemma conv_fields_members:
  "map mb_UserID ms = member_ids grp \<Longrightarrow> conv_fields (grp\<lparr>g_Members := ms\<rparr>) = conv_fields grp"
  by (simp add: conv_fields_def member_ids_def)

lemma handleGroupBan_change:
  assumes "groups_inv (gw_store g)"
  shows "group_change (cl_userID (conn g c)) (gw_store g) (gw_store (handleGroupBan e g c req))"
proof (rule request_cases [of g c req])
  fix params assume run: "\<And>msg k. with_params g c req msg k = k params"
  let ?s = "gw_store g" and ?u = "cl_userID (conn g c)"
  let ?i = "jstr params ''group_id''" and ?t = "jstr params ''user_id''"
  have muted: "group_change ?u ?s (put_group ?s ?i grp1)"
    if "GetGroup ?s ?i = Some grp" "canManageGroupMember (role_of grp ?u) (role_of grp ?t)" "?t \<noteq> ?u"
      "grp1 = grp\<lparr>g_Members := update_first (\<lambda>m. mb_UserID m = ?t) (\<lambda>m. m\<lparr>mb_MutedUntil := till\<rparr>) (g_Members grp)\<rparr>"
    for grp grp1 till
    using that
    by (intro group_changeI(2) [OF assms that(1)])
      (auto intro: group_action.mute simp: manage_outranks conv_fields_members map_update_first member_ids_def)
  show ?thesis
  proof (cases "GetGroup ?s ?i")
    case None
    then show ?thesis by (simp add: handleGroupBan_def run Let_def group_change.unchanged split: option.split)
  next
    case (Some grp)
    show ?thesis
    proof (cases "?t = ?u \<or> \<not> canManageGroupMember (role_of grp ?u) (role_of grp ?t)")
      case True
      with Some show ?thesis
        by (auto simp: handleGroupBan_def run Let_def role_of_group group_change.unchanged split: option.split)
    next
      case False
      with Some show ?thesis
        by (auto simp: handleGroupBan_def run Let_def role_of_group SetGroupMemberMute_put managed_member
            intro: group_change.unchanged muted split: option.split)
    qed
  qed
qed (simp add: handleGroupBan_def group_change.unchanged)

lemma UpdateGroup_put:
  "GetGroup s i = Some grp \<Longrightarrow>
   UpdateGroup s i n a ann mu =
     (put_group s i (grp\<lparr>g_Name := n, g_Avatar := a, g_Announcement := ann, g_MuteAll := mu\<rparr>), Inr ())"
  by (simp add: UpdateGroup_def GetGroup_def)

lemma isGroupAdmin_role:
  "GetGroup s i = Some grp \<Longrightarrow> isGroupAdmin s i u \<longleftrightarrow> role_of grp u \<in> {''owner'', ''admin''}"
  by (simp add: isGroupAdmin_def role_of_group Let_def)

lemma handleUpdateGroup_change:
  assumes "groups_inv (gw_store g)"
  shows "group_change (cl_userID (conn g c)) (gw_store g) (gw_store (handleUpdateGroup e g c req))"
proof (rule request_cases [of g c req])
  fix params assume run: "\<And>msg k. with_params g c req msg k = k params"
  let ?s = "gw_store g" and ?u = "cl_userID (conn g c)" and ?i = "jstr params ''group_id''"
  show ?thesis
  proof (cases "GetGroup ?s ?i")
    case None
    then show ?thesis by (simp add: handleUpdateGroup_def run Let_def group_change.unchanged)
  next
    case (Some grp)
    have upd: "group_change ?u ?s (synced (put_group ?s ?i grp1) ?i)"
      if "isGroupAdmin ?s ?i ?u" "g_Members grp1 = g_Members grp" "g_OwnerID grp1 = g_OwnerID grp"
        "g_CreatedAt grp1 = g_CreatedAt grp" "g_ID grp1 = g_ID grp" for grp1
      using that Some by (intro group_changeI(1) [OF assms Some]) (auto intro: group_action.settings simp: isGroupAdmin_role)
    note sy = sync_run [OF put_group_get(1) [THEN trans, OF if_P, OF refl]]
    show ?thesis
    proof (cases "isGroupAdmin ?s ?i ?u")
      case True
      with Some upd show ?thesis
        unfolding handleUpdateGroup_def run Let_def
        by (auto simp: UpdateGroup_put sy group_change.unchanged split: sum.split)
    qed (simp add: handleUpdateGroup_def run Let_def Some group_change.unchanged)
  qed
qed (simp add: handleUpdateGroup_def group_change.unchanged)

lemma handleGroupMuteAll_change:
  assumes "groups_inv (gw_store g)"
  shows "group_change (cl_userID (conn g c)) (gw_store g) (gw_store (handleGroupMuteAll e g c req))"
proof (rule request_cases [of g c req])
  fix params assume run: "\<And>msg k. with_params g c req msg k = k params"
  let ?s = "gw_store g" and ?u = "cl_userID (conn g c)" and ?i = "jstr params ''group_id''"
  show ?thesis
  proof (cases "GetGroup ?s ?i")
    case (Some grp)
    have "group_change ?u ?s (put_group ?s ?i (grp\<lparr>g_MuteAll := mu\<rparr>))" if "isGroupAdmin ?s ?i ?u" for mu
      using that Some
      by (intro group_changeI(2) [OF assms Some])
        (auto intro!: group_action.settings simp: isGroupAdmin_role conv_fields_def member_ids_def)
    with Some show ?thesis
      by (auto simp: handleGroupMuteAll_def run Let_def UpdateGroup_put intro: group_change.unchanged)
  qed (simp add: handleGroupMuteAll_def run Let_def group_change.unchanged)
qed (simp add: handleGroupMuteAll_def group_change.unchanged)

lemma handleSetGroupAdmin_change:
  assumes "groups_inv (gw_store g)"
  shows "group_change (cl_userID (conn g c)) (gw_store g) (gw_store (handleSetGroupAdmin e g c req))"
proof (rule request_cases [of g c req])
  fix params assume run: "\<And>msg k. with_params g c req msg k = k params"
  let ?s = "gw_store g" and ?u = "cl_userID (conn g c)"
  let ?i = "jstr params ''group_id''" and ?t = "jstr params ''user_id''"
  show ?thesis
  proof (cases "GetGroup ?s ?i")
    case (Some grp)
    have ch: "group_change ?u ?s (put_group ?s ?i (grp\<lparr>g_Members :=
        update_first (\<lambda>m. mb_UserID m = ?t) (\<lambda>m. m\<lparr>mb_Role := role\<rparr>) (g_Members grp)\<rparr>))"
      if "g_OwnerID grp = ?u" "?t \<noteq> ?u"
        "(role_of grp ?t, role) \<in> {(''member'', ''admin''), (''admin'', ''member'')}" for role
      using that
      by (intro group_changeI(2) [OF assms Some])
        (auto intro: group_action.set_admin simp: conv_fields_members map_update_first member_ids_def)
    show ?thesis
    proof (cases "role_of grp ?t = []")
      case False
      then have "?t \<in> set (member_ids grp)" by (rule role_of_member)
      with Some ch show ?thesis
        by (auto simp: handleSetGroupAdmin_def run Let_def role_of_group SetGroupMemberRole_put
            intro: group_change.unchanged)
    qed (use Some in \<open>simp add: handleSetGroupAdmin_def run Let_def role_of_group group_change.unchanged\<close>)
  qed (simp add: handleSetGroupAdmin_def run Let_def group_change.unchanged)
qed (simp add: handleSetGroupAdmin_def group_change.unchanged)

lemma handleDismissGroup_change:
  shows "group_change (cl_userID (conn g c)) (gw_store g) (gw_store (handleDismissGroup e g c req))"
proof (rule request_cases [of g c req])
  fix params assume run: "\<And>msg k. with_params g c req msg k = k params"
  let ?s = "gw_store g" and ?u = "cl_userID (conn g c)" and ?i = "jstr params ''group_id''"
  show ?thesis
  proof (cases "GetGroup ?s ?i")
    case (Some grp)
    have "group_change ?u ?s (fst (DeleteGroup ?s ?i))" if "g_OwnerID grp = ?u"
      using that Some by (intro group_change.dismissed) (auto intro: group_action.dismiss)
    with Some show ?thesis
      by (auto simp: handleDismissGroup_def run Let_def DeleteGroup_def GetGroup_def intro: group_change.unchanged)
  qed (simp add: handleDismissGroup_def run Let_def group_change.unchanged)
qed (simp add: handleDismissGroup_def group_change.unchanged)

lemma handleTransferGroup_change:
  assumes "groups_inv (gw_store g)"
  shows "group_change (cl_userID (conn g c)) (gw_store g) (gw_store (handleTransferGroup e g c req))"
proof (rule request_cases [of g c req])
  fix params assume run: "\<And>msg k. with_params g c req msg k = k params"
  let ?s = "gw_store g" and ?u = "cl_userID (conn g c)"
  let ?i = "jstr params ''group_id''" and ?t = "jstr params ''user_id''"
  show ?thesis
  proof (cases "GetGroup ?s ?i")
    case (Some grp)
    define grp1 where "grp1 = grp\<lparr>g_Members := map (transferred ?u ?t) (g_Members grp), g_OwnerID := ?t\<rparr>"
    show ?thesis
    proof (cases "g_OwnerID grp \<noteq> ?u \<or> ?t = ?u \<or> role_of grp ?t = []")
      case False
      then have h: "g_OwnerID grp = ?u" "?t \<noteq> ?u" "?t \<in> set (member_ids grp)" by (auto intro: role_of_member)
      have "group_change ?u ?s (synced (put_group ?s ?i grp1) ?i)"
        by (rule group_changeI(1) [OF assms Some]) (use h in \<open>auto simp: grp1_def intro: group_action.transfer\<close>)
      moreover have "TransferGroupOwnership ?s ?i ?u ?t = (put_group ?s ?i grp1, Inr ())"
        using TransferGroupOwnership_ok [OF assms, of ?i grp ?u ?t] h Some
        by (simp add: GetGroup_def grp1_def member_ids_def)
      ultimately show ?thesis
        using False Some by (simp add: handleTransferGroup_def run Let_def role_of_group sync_run [of _ _ grp1])
    qed (use Some in \<open>auto simp: handleTransferGroup_def run Let_def role_of_group group_change.unchanged\<close>)
  qed (simp add: handleTransferGroup_def run Let_def group_change.unchanged)
qed (simp add: handleTransferGroup_def group_change.unchanged)

lemma handleGroupInvite_change:
  assumes "groups_inv (gw_store g)"
  shows "group_change (cl_userID (conn g c)) (gw_store g) (gw_store (handleGroupInvite e g c req))"
proof (rule request_cases [of g c req])
  fix params assume run: "\<And>msg k. with_params g c req msg k = k params"
  let ?s = "gw_store g" and ?u = "cl_userID (conn g c)" and ?i = "jstr params ''group_id''"
  show ?thesis
  proof (cases "GetGroup ?s ?i")
    case (Some grp)
    note mem = members_of_group [OF Some]
    show ?thesis
    proof (cases "isGroupAdmin ?s ?i ?u")
      case admin: True
      show ?thesis
      proof (cases "validateGroupInviteTargets ?s ?u (jget params ''members'')")
        case (Inr vs)
        note v = validated_targets [OF Inr]
        define ts where "ts = filter (\<lambda>t. t \<notin> mb_UserID ` set (g_Members grp)) vs"
        show ?thesis
        proof (cases "maxGroupMembers < length (g_Members grp) + length ts")
          case False
          have dist: "distinct ts" "set ts \<inter> set (member_ids grp) = {}" using v(1) by (auto simp: ts_def member_ids_def)
          from add_members_ok [OF Some dist, of "env_now e" "[]"] obtain ms where
            add: "add_members ?s ?i (env_now e) ts [] = (put_group ?s ?i (grp\<lparr>g_Members := g_Members grp @ ms\<rparr>), Some ts)"
            and ms: "plain_members ts ms" by auto
          define grp1 where "grp1 = grp\<lparr>g_Members := g_Members grp @ ms\<rparr>"
          have "list_all (invitable ?s ?u) ts" using v(2) by (auto simp: ts_def list_all_iff)
          then have "group_action ?s ?u (Some grp) (Some grp1)"
            unfolding grp1_def using admin Some False dist ms
            by (intro group_action.invite [of grp ?u ts]) (auto simp: isGroupAdmin_role maxGroupMembers_def)
          then have "group_change ?u ?s (synced (put_group ?s ?i grp1) ?i)"
            by (rule group_changeI(1) [OF assms Some]) (simp add: grp1_def)
          with False admin Some Inr add mem show ?thesis
            by (simp add: handleGroupInvite_def run Let_def ts_def [symmetric] grp1_def [symmetric] sync_run [of _ _ grp1])
        next
          case True
          with admin Some Inr mem show ?thesis
            by (simp add: handleGroupInvite_def run Let_def ts_def [symmetric] group_change.unchanged)
        qed
      qed (use admin Some in \<open>simp add: handleGroupInvite_def run Let_def group_change.unchanged\<close>)
    qed (use Some in \<open>simp add: handleGroupInvite_def run Let_def group_change.unchanged\<close>)
  qed (simp add: handleGroupInvite_def run Let_def group_change.unchanged)
qed (simp add: handleGroupInvite_def group_change.unchanged)

lemma handleCreateGroup_change:
  shows "group_change (cl_userID (conn g c)) (gw_store g) (gw_store (handleCreateGroup e g c req))"
proof (rule request_cases [of g c req])
  fix params assume run: "\<And>msg k. with_params g c req msg k = k params"
  let ?s = "gw_store g" and ?u = "cl_userID (conn g c)"
  let ?n = "TrimSpace (jstr params ''name'')" and ?a = "jstr params ''avatar''"
  let ?i = "''group_'' @ show_int (UnixNano (env_now e 0))"
  show ?thesis
  proof (cases "(?n = [] \<or> 80 < length ?n) \<or> 2048 < length ?a")
    case ok: False
    show ?thesis
    proof (cases "validateGroupInviteTargets ?s ?u (jget params ''members'')")
      case (Inr ts)
      note v = validated_targets [OF Inr]
      define grp where "grp = snd (CreateGroup ?s ?i ?n ?a ?u (env_now e 1) (env_now e 2))"
      have cr: "CreateGroup ?s ?i ?n ?a ?u (env_now e 1) (env_now e 2) = (put_group ?s ?i grp, grp)"
        using CreateGroup_put [of ?s ?i] by (simp add: grp_def)
      have ids: "member_ids grp = [?u]" "g_OwnerID grp = ?u" "g_ID grp = ?i"
        by (simp_all add: grp_def CreateGroup_def Let_def member_ids_def)
      have "set ts \<inter> set (member_ids grp) = {}" using v(2) by (auto simp: ids list_all_iff invitable_def)
      with add_members_ok [of "put_group ?s ?i grp" ?i grp ts "\<lambda>n. env_now e (n + 3)" "[]"] v(1) obtain ms where
        add: "add_members (put_group ?s ?i grp) ?i (\<lambda>n. env_now e (n + 3)) ts [] =
           (put_group ?s ?i (grp\<lparr>g_Members := g_Members grp @ ms\<rparr>), Some ts)" and ms: "plain_members ts ms" by auto
      define grp1 where "grp1 = grp\<lparr>g_Members := g_Members grp @ ms\<rparr>"
      have "group_action ?s ?u (GetGroup ?s ?i) (Some grp1)"
        by (rule group_action.create [OF _ _ _ _ ms v(1) v(3) v(2)])
          (auto simp: grp1_def grp_def CreateGroup_def Let_def)
      then have "group_change ?u ?s (synced (put_group ?s ?i grp1) ?i)"
        by (rule group_change.synced) (simp add: grp1_def ids)
      with ok Inr cr add show ?thesis
        by (simp add: handleCreateGroup_def run Let_def grp1_def [symmetric] sync_run [of _ _ grp1])
    qed (use ok in \<open>simp add: handleCreateGroup_def run Let_def group_change.unchanged\<close>)
  qed (auto simp: handleCreateGroup_def run Let_def group_change.unchanged)
qed (simp add: handleCreateGroup_def group_change.unchanged)

lemmas group_handlers_change =
  handleGroupInvite_change handleJoinGroup_change handleLeaveGroup_change handleGroupKick_change
  handleGroupBan_change handleUpdateGroup_change handleSetGroupAdmin_change handleTransferGroup_change
  handleGroupMuteAll_change

section \<open>The invariant of groups and their conversations\<close>

text \<open>
  Every group is well-formed and its conversation has the group's name, avatar and owner and the
  group's members as participants; every conversation is stored under its own identifier.
\<close>

definition projects :: "group \<Rightarrow> conversation \<Rightarrow> bool" where
  "projects grp conv \<longleftrightarrow> c_Type conv = ''group'' \<and> c_Title conv = g_Name grp \<and> c_Avatar conv = g_Avatar grp
     \<and> c_OwnerID conv = g_OwnerID grp \<and> mset (c_Participants conv) = mset (member_ids grp)"

definition projection_inv :: "memory_store \<Rightarrow> bool" where
  "projection_inv s \<longleftrightarrow> groups_inv s
     \<and> (\<forall>i conv. GetConversation s i = Some conv \<longrightarrow> c_ID conv = i)
     \<and> (\<forall>i grp. GetGroup s i = Some grp \<longrightarrow> (\<exists>conv. GetConversation s i = Some conv \<and> projects grp conv))"

lemma plain_members_ids: "plain_members ids ms \<Longrightarrow> map mb_UserID ms = ids \<and> (\<forall>m \<in> set ms. mb_Role m \<noteq> ''owner'')"
  by (auto simp: plain_members_def list_all_iff)

lemma group_ok_append:
  assumes "group_ok grp" "plain_members ids ms" "distinct ids" "set ids \<inter> set (member_ids grp) = {}"
  shows "group_ok (grp\<lparr>g_Members := g_Members grp @ ms\<rparr>)"
proof -
  note p = plain_members_ids [OF assms(2)]
  have "mb_UserID m \<noteq> g_OwnerID grp" if "m \<in> set ms" for m
  proof -
    have "mb_UserID m \<in> set ids" using that p by auto
    with assms(4) have "mb_UserID m \<notin> set (member_ids grp)" by blast
    then show ?thesis using group_ok_owner [OF assms(1)] by (auto simp: member_ids_def)
  qed
  with assms p show ?thesis by (auto simp: group_ok_def list_all_iff member_ids_def)
qed

lemma group_ok_removed:
  assumes "group_ok grp" "g_OwnerID grp \<noteq> u"
  shows "group_ok (grp\<lparr>g_Members := remove_first (\<lambda>m. mb_UserID m = u) (g_Members grp)\<rparr>)"
  using assms map_remove_first_distinct [OF group_ok_ids [OF assms(1)]]
    set_remove_member [OF group_ok_ids [OF assms(1)], of u]
  by (auto simp: group_ok_def list_all_iff)

lemma group_ok_changed:
  assumes "group_ok grp" "\<And>m. mb_UserID (f m) = mb_UserID m"
    and "\<And>m. m \<in> set (g_Members grp) \<Longrightarrow> mb_UserID m = u \<Longrightarrow> (mb_Role (f m) = ''owner'') = (u = g_OwnerID grp)"
  shows "group_ok (grp\<lparr>g_Members := update_first (\<lambda>m. mb_UserID m = u) f (g_Members grp)\<rparr>)"
proof -
  have "group_ok (grp\<lparr>g_Members := map (\<lambda>m. if mb_UserID m = u then f m else m) (g_Members grp), g_OwnerID := g_OwnerID grp\<rparr>)"
    using assms(2,3) group_ok_role [OF assms(1)] group_ok_owner [OF assms(1)]
    by (intro group_ok_map [OF assms(1)]) auto
  then show ?thesis
    by (simp add: group_ok_owner_update update_first_eq_map [OF group_ok_ids [OF assms(1)]])
qed

lemma role_of_owner: "group_ok grp \<Longrightarrow> role_of grp (g_OwnerID grp) = ''owner''"
  using group_ok_owner [of grp] group_ok_role [of grp]
  by (auto simp: role_of_def find_None_iff find_Some_iff split: option.splits dest!: nth_mem)

lemma group_action_ok:
  assumes "group_action s actor old (Some grp')" "\<And>grp. old = Some grp \<Longrightarrow> group_ok grp"
  shows "group_ok grp'"
  using assms
proof (cases rule: group_action.cases)
  case (create own ms ids)
  then have "actor \<notin> set ids" "\<forall>m \<in> set ms. mb_Role m \<noteq> ''owner''" "map mb_UserID ms = ids"
    by (auto simp: invitable_def list_all_iff plain_members_def)
  moreover from this have "\<forall>m \<in> set ms. mb_UserID m \<noteq> actor" by auto
  ultimately show ?thesis using create by (auto simp: group_ok_def list_all_iff)
next
  case (invite grp ids ms)
  with assms(2) show ?thesis by (auto intro: group_ok_append)
next
  case (join grp ms)
  with assms(2) group_ok_append [of grp "[actor]" ms] show ?thesis by auto
next
  case (leave grp)
  with assms(2) show ?thesis by (auto intro: group_ok_removed)
next
  case (kick grp userID)
  with assms(2) show ?thesis by (auto intro: group_ok_removed)
next
  case (mute grp userID till)
  with assms(2) group_ok_role [of grp] show ?thesis by (auto intro!: group_ok_changed)
next
  case (settings grp)
  with assms(2) [of grp] show ?thesis by (simp add: group_ok_def)
next
  case (set_admin grp userID role)
  with assms(2) role_of_owner [of grp] show ?thesis by (auto intro!: group_ok_changed)
next
  case (transfer grp userID)
  with assms(2) [of grp] transferred_group_ok [of grp userID] show ?thesis by (auto simp: member_ids_def)
qed

text \<open>Rewriting a group and its conversation keeps the invariant; so does a change the conversation does not show.\<close>

lemma projection_invD:
  assumes "projection_inv s"
  shows "groups_inv s" "GetConversation s i = Some conv \<Longrightarrow> c_ID conv = i"
    "GetGroup s i = Some grp \<Longrightarrow> \<exists>conv. GetConversation s i = Some conv \<and> projects grp conv"
  using assms by (auto simp: projection_inv_def)

lemma groups_inv_Save [simp]: "groups_inv (SaveConversation s c) = groups_inv s"
  by (simp add: groups_inv_def SaveConversation_def)

lemma synced_projection:
  assumes "projection_inv s" "group_ok grp" "g_ID grp = i"
  shows "projection_inv (synced (put_group s i grp) i)"
proof -
  note inv = projection_invD [OF assms(1)]
  obtain conv where conv: "syncGroupConversationParticipants (put_group s i grp) i = (SaveConversation (put_group s i grp) conv, Inr (c_Participants conv))"
    "c_Type conv = ''group''" "c_Title conv = g_Name grp" "c_Avatar conv = g_Avatar grp"
    "c_OwnerID conv = g_OwnerID grp" "mset (c_Participants conv) = mset (member_ids grp)"
    "c_ID conv = (case GetConversation (put_group s i grp) i of Some conv0 \<Rightarrow> c_ID conv0 | None \<Rightarrow> i)"
    by (rule sync_group [of "put_group s i grp" i grp]) auto
  have cid: "c_ID conv = i" using conv(7) inv(2) by (auto split: option.splits)
  have "synced (put_group s i grp) i = SaveConversation (put_group s i grp) conv" by (simp add: synced_def conv(1))
  moreover have "groups_inv (put_group s i grp)" using inv(1) assms(2,3) by (simp add: put_group_inv)
  moreover have "projects grp conv" using conv by (simp add: projects_def)
  ultimately show ?thesis using inv(2,3) unfolding projection_inv_def by (auto simp: cid)
qed

lemma unsynced_projection:
  assumes "projection_inv s" "group_ok grp" "g_ID grp = i" "GetGroup s i = Some grp0" "conv_fields grp0 = conv_fields grp"
  shows "projection_inv (put_group s i grp)"
proof -
  note inv = projection_invD [OF assms(1)]
  obtain conv where "GetConversation s i = Some conv" "projects grp0 conv" using inv(3) [OF assms(4)] by blast
  moreover have "projects grp conv" using calculation assms(5) by (simp add: projects_def conv_fields_def)
  ultimately show ?thesis
    using inv assms(2,3) unfolding projection_inv_def by (auto simp: put_group_inv)
qed

lemma dismissed_projection:
  assumes "projection_inv s"
  shows "projection_inv (fst (DeleteGroup s i))"
proof -
  note inv = projection_invD [OF assms]
  have "groups_inv (fst (DeleteGroup s i))" by (rule DeleteGroup_inv [OF inv(1)])
  moreover have "GetConversation (fst (DeleteGroup s i)) j = Some conv \<Longrightarrow> c_ID conv = j" for j conv
    using inv(2) by (auto simp: DeleteGroup_def GetConversation_def split: option.splits if_splits)
  moreover have "GetGroup (fst (DeleteGroup s i)) j = Some grp \<Longrightarrow>
      \<exists>conv. GetConversation (fst (DeleteGroup s i)) j = Some conv \<and> projects grp conv" for j grp
    using inv(3) [of j grp] by (auto simp: DeleteGroup_def GetConversation_def GetGroup_def split: option.splits if_splits)
  ultimately show ?thesis unfolding projection_inv_def by blast
qed

lemma group_change_projection:
  assumes "group_change actor s t" "projection_inv s"
  shows "projection_inv t"
  using assms(1)
proof (cases rule: group_change.cases)
  case (synced i grp)
  have "group_ok grp"
    by (rule group_action_ok [OF synced(2)]) (auto simp: GetGroup_def intro: groups_inv_get(2) [OF projection_invD(1) [OF assms(2)]])
  with synced assms(2) show ?thesis by (simp add: synced_projection)
next
  case (unsynced i grp)
  then obtain grp0 where g0: "GetGroup s i = Some grp0" "conv_fields grp0 = conv_fields grp" by auto
  have "group_ok grp"
    by (rule group_action_ok [OF unsynced(2)]) (auto simp: GetGroup_def intro: groups_inv_get(2) [OF projection_invD(1) [OF assms(2)]])
  with unsynced g0 assms(2) show ?thesis by (auto intro: unsynced_projection)
qed (use assms(2) in \<open>simp_all add: dismissed_projection\<close>)

text \<open>At most one group changes, and only in a way the specification allows the actor.\<close>

lemma GetGroup_synced [simp]: "GetGroup (synced s i) j = GetGroup s j"
  by (cases "GetGroup s i") (auto simp: synced_def syncGroupConversationParticipants_def Let_def)

lemma group_change_groups:
  assumes "group_change actor s t"
  shows "t = s \<or> (\<exists>i. (\<forall>j. j \<noteq> i \<longrightarrow> GetGroup t j = GetGroup s j) \<and> group_action s actor (GetGroup s i) (GetGroup t i))"
  using assms
proof (cases rule: group_change.cases)
  case (dismissed i)
  then have "GetGroup (fst (DeleteGroup s i)) j = (if j = i then None else GetGroup s j)" for j
    by (auto simp: DeleteGroup_def GetGroup_def split: option.splits)
  with dismissed show ?thesis by auto
qed auto

section \<open>Group requests as a system\<close>

text \<open>
  Any interleaving of group requests on any connections, with anything else the server does that
  leaves groups and conversations alone.
\<close>

inductive group_step :: "gateway \<Rightarrow> gateway \<Rightarrow> bool" where
  create: "group_step g (handleCreateGroup e g c req)"
| invite: "group_step g (handleGroupInvite e g c req)"
| join: "group_step g (handleJoinGroup e g c req)"
| leave: "group_step g (handleLeaveGroup e g c req)"
| kick: "group_step g (handleGroupKick e g c req)"
| ban: "group_step g (handleGroupBan e g c req)"
| update: "group_step g (handleUpdateGroup e g c req)"
| set_admin: "group_step g (handleSetGroupAdmin e g c req)"
| transfer: "group_step g (handleTransferGroup e g c req)"
| dismiss: "group_step g (handleDismissGroup e g c req)"
| mute_all: "group_step g (handleGroupMuteAll e g c req)"
| elsewhere: "s_groups (gw_store h) = s_groups (gw_store g) \<Longrightarrow>
    s_conversations (gw_store h) = s_conversations (gw_store g) \<Longrightarrow> group_step g h"

lemma projection_inv_cong:
  "projection_inv s \<Longrightarrow> s_groups t = s_groups s \<Longrightarrow> s_conversations t = s_conversations s \<Longrightarrow> projection_inv t"
  by (simp add: projection_inv_def groups_inv_def GetGroup_def GetConversation_def)

lemma group_step_inv:
  assumes "group_step g h" "projection_inv (gw_store g)"
  shows "projection_inv (gw_store h)"
  using assms(1)
  by cases (auto intro: group_change_projection [OF _ assms(2)] projection_inv_cong [OF assms(2)]
      group_handlers_change [OF projection_invD(1) [OF assms(2)]] handleCreateGroup_change handleDismissGroup_change)

lemma projection_inv_init: "projection_inv NewMemoryStore"
  by (simp add: projection_inv_def groups_inv_init) (simp add: GetGroup_def GetConversation_def NewMemoryStore_def)

interpretation group_requests: invariant_system "NewGateway NewMemoryStore b" group_step "\<lambda>g. projection_inv (gw_store g)" for b
  by unfold_locales (auto simp: NewGateway_def projection_inv_init intro: group_step_inv)

end
