(* ===== verification/Gateway_Sending.thy ===== *)
theory Gateway_Sending
  imports Gateway_Push Gateway_Groups
begin

text \<open>
  Messages through the gateway (\<open>internal/gateway/gateway.go\<close>): \<open>handleSendMessage\<close> with the checks of
  every kind of segment, \<open>handleDynamicMutation\<close>, reactions, recalls, histories, read marks and
  preferences.
\<close>

section \<open>Decoding a message\<close>

text \<open>
  \<open>json.Unmarshal\<close> into a slice of segments. The keys of an object arrive sorted; a key that matches
  a field up to case is decoded into it, \<open>null\<close> leaves a text as it is and clears a map, and objects
  decoded into the same map are merged.
\<close>

definition empty_segment :: message_segment where
  "empty_segment = \<lparr> seg_Type = [], seg_Data = [] \<rparr>"

definition decode_segment_key :: "message_segment option \<Rightarrow> string \<times> json \<Rightarrow> message_segment option" where
  "decode_segment_key acc kv =
     (case acc of
        None \<Rightarrow> None
      | Some seg \<Rightarrow>
          if fold_key (fst kv) = fold_key ''type''
          then (case snd kv of
                  JStr v \<Rightarrow> Some (seg\<lparr>seg_Type := v\<rparr>) | JNull \<Rightarrow> Some seg | _ \<Rightarrow> None)
          else if fold_key (fst kv) = fold_key ''data''
          then (case snd kv of
                  JObj m \<Rightarrow> Some (seg\<lparr>seg_Data := foldl (\<lambda>d (k, v). gm_set k v d) (seg_Data seg) m\<rparr>)
                | JNull \<Rightarrow> Some (seg\<lparr>seg_Data := []\<rparr>)
                | _ \<Rightarrow> None)
          else Some seg)"

fun decode_segment :: "json \<Rightarrow> message_segment option" where
  "decode_segment JNull = Some empty_segment"
| "decode_segment (JObj m) = foldl decode_segment_key (Some empty_segment) (sort_key fst m)"
| "decode_segment _ = None"

fun decode_segments :: "json \<Rightarrow> message_segment list option" where
  "decode_segments JNull = Some []"
| "decode_segments (JArr xs) = those (map decode_segment xs)"
| "decode_segments _ = None"

section \<open>Checks of single segments\<close>

definition validClientMessageID :: "string \<Rightarrow> bool" where
  "validClientMessageID value \<longleftrightarrow>
     value \<noteq> [] \<and> length value \<le> 128
     \<and> list_all (\<lambda>c. ascii_alnum c \<or> c = CHR ''.'' \<or> c = CHR '':'' \<or> c = CHR ''-'' \<or> c = CHR ''_'') value"

definition dynamicUpdateRequestFingerprint :: "env \<Rightarrow> string \<Rightarrow> message_segment \<Rightarrow> string option" where
  "dynamicUpdateRequestFingerprint e conversationID segment = env_updateDigest e (conversationID, segment)"

definition minute :: int where "minute = 60 * second"

text \<open>The two readings of the clock are \<open>now\<close> and \<open>now'\<close>.\<close>

definition validateTerminalSegment :: "message_segment \<Rightarrow> string \<Rightarrow> gotime \<Rightarrow> gotime \<Rightarrow> unit res" where
  "validateTerminalSegment segment conversationType now now' =
     (let data = seg_Data segment; operation = jstr data ''operation''; hostID = jstr data ''host_id'';
          command = jstr data ''command'' in
      if seg_Type segment \<noteq> ''terminal_request'' \<and> seg_Type segment \<noteq> ''terminal_result'' then Inr ()
      else if conversationType \<noteq> ''private'' then Inl ''terminal operations are only allowed in private conversations''
      else if \<not> validClientMessageID (jstr data ''request_id'') then Inl ''terminal request_id is invalid''
      else if seg_Type segment = ''terminal_result''
      then (if jstr data ''status'' \<notin> {''approved'', ''denied'', ''expired'', ''failed'', ''completed''}
            then Inl ''terminal result status is invalid''
            else if 64 * 1024 < length (jstr data ''output'') then Inl ''terminal result output is too large''
            else Inr ())
      else if operation \<notin> {''list_hosts'', ''get_host'', ''run_command''} then Inl ''terminal operation is invalid''
      else
        (case exactInt64 (jget data ''expires_at'') of
           None \<Rightarrow> Inl ''terminal expires_at is invalid''
         | Some expiresAt \<Rightarrow>
             if expiresAt \<le> 0 then Inl ''terminal expires_at is invalid''
             else if expiresAt < UnixMilli (now - minute) \<or> UnixMilli (now' + 10 * minute) < expiresAt
             then Inl ''terminal request expiry is outside the allowed window''
             else if operation \<in> {''get_host'', ''run_command''} \<and> (TrimSpace hostID = [] \<or> 128 < length hostID)
             then Inl ''terminal host_id is required''
             else if operation = ''run_command'' \<and> (TrimSpace command = [] \<or> 8192 < length command)
             then Inl ''terminal command is required and must not exceed 8192 bytes''
             else Inr ()))"

definition image_url_check :: "go_std \<Rightarrow> string \<Rightarrow> unit res" where
  "image_url_check std rawURL =
     (if rawURL = [] then Inr ()
      else if 2048 < length rawURL \<or> rawURL \<noteq> TrimSpace rawURL then Inl ''image URL is invalid''
      else if HasPrefix rawURL ''/files/''
      then (case gs_ParseRequestURI std rawURL of
              None \<Rightarrow> Inl ''image URL is invalid''
            | Some u \<Rightarrow> if url_Scheme u \<noteq> [] \<or> url_Host u \<noteq> [] then Inl ''image URL is invalid'' else Inr ())
      else (case gs_ParseRequestURI std rawURL of
              None \<Rightarrow> Inl ''external image URL must use HTTPS''
            | Some u \<Rightarrow>
                if url_Scheme u \<noteq> ''https'' \<or> url_Host u = [] \<or> url_User u
                then Inl ''external image URL must use HTTPS'' else Inr ()))"

text \<open>The first error of a list of checks.\<close>

fun first_error :: "unit res list \<Rightarrow> unit res" where
  "first_error [] = Inr ()"
| "first_error (Inl err # rs) = Inl err"
| "first_error (Inr _ # rs) = first_error rs"

definition validateImageSegmentURL :: "go_std \<Rightarrow> message_segment \<Rightarrow> unit res" where
  "validateImageSegmentURL std segment =
     (if seg_Type segment \<noteq> ''image'' then Inr ()
      else first_error (map (\<lambda>key. image_url_check std (jstr (seg_Data segment) key)) [''url'', ''thumbnail_url'']))"

definition validStickerIdentifier :: "string \<Rightarrow> bool" where
  "validStickerIdentifier value \<longleftrightarrow>
     value \<noteq> [] \<and> length value \<le> 64
     \<and> list_all (\<lambda>c. ascii_alnum c \<or> c = CHR ''-'' \<or> c = CHR ''_'' \<or> c = CHR ''.'') value"

definition validateStickerSegment :: "message_segment \<Rightarrow> unit res" where
  "validateStickerSegment segment =
     (let data = seg_Data segment in
      if seg_Type segment \<noteq> ''sticker'' then Inr ()
      else if length data \<noteq> 3 then Inl ''sticker data is invalid''
      else
        (case (as_str (jget data ''pack_id''), as_str (jget data ''asset_id'')) of
           (Some packID, Some assetID) \<Rightarrow>
             if \<not> validStickerIdentifier packID \<or> \<not> validStickerIdentifier assetID
             then Inl ''sticker pack_id and asset_id are invalid''
             else
               (case as_num (jget data ''version'') of
                  None \<Rightarrow> Inl ''sticker version is invalid''
                | Some version \<Rightarrow>
                    if version < 1 \<or> 1000 < version \<or> version \<noteq> of_int (trunc_rat version)
                    then Inl ''sticker version is invalid'' else Inr ())
         | _ \<Rightarrow> Inl ''sticker pack_id and asset_id are invalid''))"

definition validateRecordSegment :: "message_segment \<Rightarrow> unit res" where
  "validateRecordSegment segment =
     (let data = seg_Data segment;
          outside = (\<lambda>key limit. case as_num (jget data key) of
                       Some v \<Rightarrow> v < 0 \<or> limit < v | None \<Rightarrow> False) in
      if seg_Type segment \<noteq> ''record'' then Inr ()
      else if outside ''duration_ms'' 120000 then Inl ''voice message duration must not exceed 2 minutes''
      else if outside ''size'' (10 * 1024 * 1024) then Inl ''voice message must not exceed 10 MB''
      else Inr ())"

definition validateShareSegment :: "go_std \<Rightarrow> message_segment \<Rightarrow> unit res" where
  "validateShareSegment std segment =
     (let rawURL = jstr (seg_Data segment) ''url'' in
      if seg_Type segment \<noteq> ''share'' then Inr ()
      else if rawURL = [] \<or> 2048 < length rawURL \<or> rawURL \<noteq> TrimSpace rawURL then Inl ''link URL is invalid''
      else
        (case gs_ParseRequestURI std rawURL of
           None \<Rightarrow> Inl ''link URL must use HTTP or HTTPS''
         | Some u \<Rightarrow>
             if (url_Scheme u \<noteq> ''https'' \<and> url_Scheme u \<noteq> ''http'') \<or> url_Host u = [] \<or> url_User u
             then Inl ''link URL must use HTTP or HTTPS''
             else if 160 < rune_count (jstr (seg_Data segment) ''title'') then Inl ''link title is too long''
             else Inr ()))"

text \<open>A number decoded from JSON is neither infinite nor NaN.\<close>

definition validateLocationSegment :: "message_segment \<Rightarrow> unit res" where
  "validateLocationSegment segment =
     (let data = seg_Data segment; name = jstr data ''name'' in
      if seg_Type segment \<noteq> ''location'' then Inr ()
      else if TrimSpace name = [] \<or> 120 < rune_count name
      then Inl ''location name is required and must not exceed 120 characters''
      else
        (case (as_num (jget data ''lat''), as_num (jget data ''lon'')) of
           (None, None) \<Rightarrow> Inr ()
         | (Some lat, Some lon) \<Rightarrow>
             if lat < -90 \<or> 90 < lat \<or> lon < -180 \<or> 180 < lon then Inl ''location coordinates are invalid''
             else Inr ()
         | _ \<Rightarrow> Inl ''location coordinates must include both latitude and longitude''))"

definition validateForwardSegment :: "memory_store \<Rightarrow> message_segment \<Rightarrow> string \<Rightarrow> unit res" where
  "validateForwardSegment s segment conversationID =
     (if seg_Type segment \<noteq> ''forward'' then Inr ()
      else
        (case GetForward s (jstr (seg_Data segment) ''id'') of
           None \<Rightarrow> Inl ''forward not found''
         | Some forward \<Rightarrow>
             if fw_ConversationID forward \<noteq> conversationID then Inl ''forward belongs to another conversation''
             else Inr ()))"

definition poke_allowed :: "memory_store \<Rightarrow> string \<Rightarrow> conversation \<Rightarrow> string \<Rightarrow> bool" where
  "poke_allowed s conversationID conv targetID =
     (if c_Type conv = ''group'' then IsGroupMember s conversationID targetID
      else targetID \<in> set (c_Participants conv))"

definition poke_key :: "string \<Rightarrow> string \<Rightarrow> string" where
  "poke_key senderID conversationID = senderID @ [CHR 0x00] @ conversationID"

definition validatePokeSegment ::
  "gateway \<Rightarrow> message_segment \<Rightarrow> string \<Rightarrow> string \<Rightarrow> gotime \<Rightarrow> gateway \<times> unit res" where
  "validatePokeSegment g segment conversationID senderID now =
     (let targetID = jstr (seg_Data segment) ''target_id''; key = poke_key senderID conversationID in
      if seg_Type segment \<noteq> ''poke'' then (g, Inr ())
      else if targetID = [] \<or> targetID = senderID then (g, Inl ''poke target is invalid'')
      else
        (case GetConversation (gw_store g) conversationID of
           None \<Rightarrow> (g, Inl ''conversation not found'')
         | Some conv \<Rightarrow>
             if \<not> poke_allowed (gw_store g) conversationID conv targetID
             then (g, Inl ''poke target is not in this conversation'')
             else
               (let previous = (case gm_get (gw_pokeLast g) key of Some t \<Rightarrow> t | None \<Rightarrow> zero_time) in
                if previous \<noteq> zero_time \<and> now - previous < 5 * second
                then (g, Inl ''please wait before poking again'')
                else (g\<lparr>gw_pokeLast := gm_set key now (gw_pokeLast g)\<rparr>, Inr ()))))"

section \<open>The local agent route\<close>

fun route_role :: "memory_store \<Rightarrow> client \<Rightarrow> string \<Rightarrow> string \<Rightarrow> message_segment list \<Rightarrow> string \<Rightarrow> string res" where
  "route_role s cl conversationID conversationType [] routeRole = Inr routeRole"
| "route_role s cl conversationID conversationType (segment # rest) routeRole =
     (let role = jstr (seg_Data segment) ''role'' in
      if seg_Type segment \<noteq> ''agent_route'' then route_role s cl conversationID conversationType rest routeRole
      else if \<not> isZZZTermDevice (cl_deviceID cl) then Inl ''agent_route is only available to ZZZTerm devices''
      else if conversationType \<noteq> ''private'' \<or> conversationID = []
      then Inl ''agent_route requires a private Agent conversation''
      else
        (case GetConversation s conversationID of
           None \<Rightarrow> Inl ''agent_route conversation was not found''
         | Some conv \<Rightarrow>
             if c_Type conv \<noteq> ''private'' then Inl ''agent_route conversation was not found''
             else if \<not> isExactAgentConversationParticipants (c_Participants conv) (cl_userID cl)
             then Inl ''agent_route requires a private conversation with only the current user and Fairy''
             else if jstr (seg_Data segment) ''route'' \<noteq> ''local'' then Inl ''agent_route route is invalid''
             else if role \<noteq> ''user'' \<and> role \<noteq> ''assistant'' then Inl ''agent_route role is invalid''
             else if routeRole \<noteq> [] \<and> routeRole \<noteq> role then Inl ''agent_route roles must agree''
             else route_role s cl conversationID conversationType rest role))"

definition validateAgentRouteSegments ::
  "memory_store \<Rightarrow> client \<Rightarrow> string \<Rightarrow> string \<Rightarrow> message_segment list \<Rightarrow> unit res" where
  "validateAgentRouteSegments s cl conversationID conversationType segments =
     (case route_role s cl conversationID conversationType segments [] of
        Inl err \<Rightarrow> Inl err
      | Inr routeRole \<Rightarrow>
          if routeRole = ''user''
          then (case List.find (\<lambda>seg. seg_Type seg \<in> {''dynamic_content'', ''terminal_request'', ''terminal_result''}) segments of
                  Some seg \<Rightarrow> Inl (''local Agent user messages cannot contain '' @ seg_Type seg)
                | None \<Rightarrow> Inr ())
          else Inr ())"

section \<open>Sending a message\<close>

text \<open>
  The permission part of \<open>handleSendMessage\<close>, after the access check: blocks in a private
  conversation, and mutes in a group.
\<close>

definition send_refusal :: "env \<Rightarrow> memory_store \<Rightarrow> string \<Rightarrow> string \<Rightarrow> string \<Rightarrow> gotime \<Rightarrow> string option" where
  "send_refusal e s userID convID convType now =
     (if convType = ''private''
         \<and> (case GetConversation s convID of
              None \<Rightarrow> False
            | Some conv \<Rightarrow> list_ex (\<lambda>p. p \<noteq> userID \<and> p \<noteq> ''fairy'' \<and> isEitherBlocked s userID p) (c_Participants conv))
      then Some ''direct messages are blocked''
      else if convType = ''group''
      then
        (case GetGroup s convID of
           None \<Rightarrow> Some ''failed to load group permissions''
         | Some grp \<Rightarrow>
             (case List.find (\<lambda>m. mb_UserID m = userID) (GetGroupMembers s convID) of
                None \<Rightarrow> Some ''group access denied''
              | Some currentMember \<Rightarrow>
                  if g_MuteAll grp \<and> mb_Role currentMember = ''member''
                  then Some ''the group is muted for all members''
                  else if mb_Role currentMember \<noteq> ''owner'' \<and> now < mb_MutedUntil currentMember
                  then Some (''you are muted until '' @ env_RFC3339 e (mb_MutedUntil currentMember))
                  else None))
      else None)"

text \<open>
  The loop that checks dynamic segments: the result is the mutation or the event the message
  consists of. A mutation and an event must be the only segment.
\<close>

definition dynamic_segment ::
  "go_std \<Rightarrow> memory_store \<Rightarrow> string \<Rightarrow> string \<Rightarrow> string \<Rightarrow> nat
     \<Rightarrow> message_segment option \<times> message_segment option \<Rightarrow> message_segment
     \<Rightarrow> (message_segment option \<times> message_segment option) res" where
  "dynamic_segment std s userID convID convType n found segment =
     (let ty = seg_Type segment;
          mutation = (\<lambda>valid. if fst found \<noteq> None \<or> n \<noteq> 1 then Inl (ty @ '' must be the only message segment'')
                       else (case valid of Inl err \<Rightarrow> Inl err | Inr _ \<Rightarrow> Inr (Some segment, snd found))) in
      if ty = ''dynamic_content''
      then (case validateDynamicContentSegment std segment of
              Inl err \<Rightarrow> Inl err
            | Inr _ \<Rightarrow>
                if convType = ''group''
                then (case dynamicSchemaFromData std (seg_Data segment) of
                        Inl err \<Rightarrow> Inl err
                      | Inr schema \<Rightarrow>
                          if jstr schema ''source'' = ''user'' \<and> \<not> isGroupAdmin s convID userID
                          then Inl ''only group owners and administrators can send custom bubbles''
                          else Inr found)
                else Inr found)
      else if ty = ''dynamic_update'' then mutation (validateDynamicUpdateSegment std segment)
      else if ty = ''dynamic_replace'' then mutation (validateDynamicReplaceSegment std segment)
      else if ty = ''dynamic_remove'' then mutation (validateDynamicRemoveSegment segment)
      else if ty = ''dynamic_event''
      then (if snd found \<noteq> None \<or> n \<noteq> 1 then Inl ''dynamic_event must be the only message segment''
            else (case validateDynamicEventSegment segment of
                    Inl err \<Rightarrow> Inl err | Inr _ \<Rightarrow> Inr (fst found, Some segment)))
      else Inr found)"

fun dynamic_segments ::
  "go_std \<Rightarrow> memory_store \<Rightarrow> string \<Rightarrow> string \<Rightarrow> string \<Rightarrow> nat
     \<Rightarrow> message_segment option \<times> message_segment option \<Rightarrow> message_segment list
     \<Rightarrow> (message_segment option \<times> message_segment option) res" where
  "dynamic_segments std s userID convID convType n found [] = Inr found"
| "dynamic_segments std s userID convID convType n found (segment # rest) =
     (case dynamic_segment std s userID convID convType n found segment of
        Inl err \<Rightarrow> Inl err
      | Inr found' \<Rightarrow> dynamic_segments std s userID convID convType n found' rest)"

text \<open>The reply of a message: the referenced message must be one of the conversation.\<close>

definition reply_check :: "memory_store \<Rightarrow> string \<Rightarrow> message_segment \<Rightarrow> unit res" where
  "reply_check s convID segment =
     (let replyID = jstr (seg_Data segment) ''id'' in
      if TrimSpace replyID = [] then Inl ''reply message_id required''
      else
        (case GetMessage s replyID of
           None \<Rightarrow> Inl ''reply message not found''
         | Some replied \<Rightarrow>
             if m_ConversationID replied \<noteq> convID then Inl ''reply message belongs to another conversation''
             else Inr ()))"

text \<open>
  The loop over the remaining checks. A poke is recorded as soon as its own check passes, even when
  a later check refuses the message. The clock is read three times per segment.
\<close>

fun check_segments ::
  "env \<Rightarrow> string \<Rightarrow> string \<Rightarrow> string \<Rightarrow> nat \<Rightarrow> nat \<Rightarrow> message_segment list \<Rightarrow> gateway \<Rightarrow> gateway \<times> unit res" where
  "check_segments e userID convID convType replyCount n [] g = (g, Inr ())"
| "check_segments e userID convID convType replyCount n (segment # rest) g =
     (case first_error [validateImageSegmentURL (env_std e) segment, validateStickerSegment segment,
              validateRecordSegment segment, validateShareSegment (env_std e) segment,
              validateLocationSegment segment, validateForwardSegment (gw_store g) segment convID] of
        Inl err \<Rightarrow> (g, Inl err)
      | Inr _ \<Rightarrow>
          (case validatePokeSegment g segment convID userID (env_now e n) of
             (g1, Inl err) \<Rightarrow> (g1, Inl err)
           | (g1, Inr _) \<Rightarrow>
               (case validateTerminalSegment segment convType (env_now e (n + 1)) (env_now e (n + 2)) of
                  Inl err \<Rightarrow> (g1, Inl err)
                | Inr _ \<Rightarrow>
                    if seg_Type segment \<noteq> ''reply''
                    then check_segments e userID convID convType replyCount (n + 3) rest g1
                    else if 1 < replyCount + 1 then (g1, Inl ''only one reply segment is allowed'')
                    else
                      (case reply_check (gw_store g1) convID segment of
                         Inl err \<Rightarrow> (g1, Inl err)
                       | Inr _ \<Rightarrow> check_segments e userID convID convType (replyCount + 1) (n + 3) rest g1))))"

definition sender_of :: "memory_store \<Rightarrow> string \<Rightarrow> sender" where
  "sender_of s userID =
     (case GetUser s userID of
        None \<Rightarrow> \<lparr> sd_UserID = userID, sd_Nickname = userID, sd_Avatar = [] \<rparr>
      | Some usr \<Rightarrow> \<lparr> sd_UserID = userID, sd_Nickname = u_Nickname usr, sd_Avatar = u_Avatar usr \<rparr>)"

definition stored_event :: "string \<Rightarrow> string \<Rightarrow> sender \<Rightarrow> message_segment list \<Rightarrow> message \<Rightarrow> message_event" where
  "stored_event convType convID sender segments msg =
     \<lparr> me_PostType = ''message'', me_MessageType = convType, me_MessageID = m_ID msg, me_ConversationID = convID,
       me_Sender = sender, me_Message = segments, me_Reactions = m_Reactions msg,
       me_Timestamp = Unix (m_Timestamp msg), me_TimestampMS = UnixMilli (m_Timestamp msg),
       me_LocalAgent = False, me_FairyOwned = False, me_DynamicEventAudit = False \<rparr>"

text \<open>Storing, answering, broadcasting and notifying: the end of \<open>handleSendMessage\<close>.\<close>

definition store_and_send ::
  "env \<Rightarrow> gateway \<Rightarrow> nat \<Rightarrow> request \<Rightarrow> string \<Rightarrow> string \<Rightarrow> string \<Rightarrow> message_segment list \<Rightarrow> gateway" where
  "store_and_send e g c req convID convType clientMessageID segments =
     (let userID = cl_userID (conn g c);
          s1 = fst (GetOrCreateConversation (gw_store g) convID convType convID (env_now e 1));
          sender = sender_of s1 userID in
      case StoreMessageIdempotent (env_msgDigest e) s1 convID userID (sd_Nickname sender) clientMessageID segments
             (env_now e 2) of
        (s2, Inl err) \<Rightarrow>
          sendError (set_store g s2) c (rqs_Echo req)
            (if err = ErrMessageIdempotencyConflict then ''client_message_id was already used for a different message''
             else ''failed to store message'')
      | (s2, Inr (msg, duplicate)) \<Rightarrow>
          (let g1 = sendJSON (set_store g s2) c (ok_response (JObj
                 [(''message_id'', JStr (m_ID msg)), (''timestamp_ms'', jint (UnixMilli (m_Timestamp msg))),
                  (''client_message_id'', JStr clientMessageID), (''duplicate'', JBool duplicate)]) (rqs_Echo req));
               event = OMessage (stored_event convType convID sender segments msg)
           in if duplicate then g1
              else pushToConversation
                (if isZZZTermDevice (cl_deviceID (conn g c))
                 then broadcastToConversationExceptClient (env_std e) g1 convID event c
                 else broadcastToConversation (env_std e) g1 convID event userID)
                convID msg userID False))"

definition handleDynamicMutation ::
  "env \<Rightarrow> gateway \<Rightarrow> nat \<Rightarrow> request \<Rightarrow> string \<Rightarrow> string \<Rightarrow> string \<Rightarrow> message_segment \<Rightarrow> gateway" where
  "handleDynamicMutation e g c req conversationID conversationType clientMessageID segment =
     (let fail = (\<lambda>h. sendError h c (rqs_Echo req)); s = gw_store g; userID = cl_userID (conn g c);
          answer = (\<lambda>h m dup. sendJSON h c (ok_response (JObj
             [(''message_id'', JStr (m_ID m)), (''updated'', JBool True), (''duplicate'', JBool dup),
              (''client_message_id'', JStr clientMessageID), (''timestamp_ms'', jint (UnixMilli (m_Timestamp m)))])
             (rqs_Echo req))) in
      case dynamicMutationMessageID (env_std e) segment of
        Inl err \<Rightarrow> fail g err
      | Inr messageID \<Rightarrow>
          (case (if clientMessageID \<noteq> [] then dynamicUpdateRequestFingerprint e conversationID segment else Some []) of
             None \<Rightarrow> fail g ''invalid dynamic update fingerprint''
           | Some fingerprint \<Rightarrow>
               (case LookupDynamicUpdateIdempotency s userID clientMessageID fingerprint of
                  Inl err \<Rightarrow> fail g ''client_message_id was already used for a different dynamic update''
                | Inr (Some cached, True) \<Rightarrow> answer g cached True
                | Inr (None, True) \<Rightarrow> fail g ''dynamic update target message not found''
                | Inr (_, False) \<Rightarrow>
                    (case GetMessage s messageID of
                       None \<Rightarrow> fail g ''dynamic update target message not found''
                     | Some target \<Rightarrow>
                         if m_ConversationID target \<noteq> conversationID
                         then fail g ''dynamic update target belongs to another conversation''
                         else if m_Recalled target then fail g ''cannot update a recalled message''
                         else
                           (case applyDynamicMutationToSegments (env_std e) (m_Segments target) segment of
                              Inl err \<Rightarrow> fail g err
                            | Inr (updatedSegments, _) \<Rightarrow>
                                (case StoreDynamicUpdateIdempotent s userID clientMessageID fingerprint (m_ID target)
                                        updatedSegments of
                                   (s1, Inl err) \<Rightarrow>
                                     fail (set_store g s1) (if err = ErrDynamicUpdateIdempotencyConflict
                                       then ''client_message_id was already used for a different dynamic update''
                                       else ''failed to update dynamic content'')
                                 | (s1, Inr (None, _)) \<Rightarrow>
                                     fail (set_store g s1) ''dynamic update target message not found''
                                 | (s1, Inr (Some updated, duplicate)) \<Rightarrow>
                                     (let g1 = answer (set_store g s1) updated duplicate
                                      in if duplicate then g1
                                         else broadcastToConversation (env_std e) g1 conversationID
                                                (OMessage (stored_event conversationType conversationID
                                                   (sender_of s1 userID) [segment] updated)) []))))))) "

end
