(* ===== verification/Gateway_Interaction.thy ===== *)
theory Gateway_Interaction
  imports Gateway_Sending
begin

text \<open>
  Interaction events through the gateway (\<open>internal/gateway/gateway.go\<close>, \<open>handleDynamicEvent\<close>,
  \<open>handleGetDynamicInteractions\<close>): an event on a card is checked against the card and its policy, the
  card's next state is computed from the ledger with the event added, and event and state are
  committed together.
\<close>

definition maxDynamicInteractionEvents :: int where "maxDynamicInteractionEvents = 10000"

text \<open>
  \<open>fmt.Sprint\<close> of a field of the event. After \<open>validateDynamicEventSegment\<close> the fields it is used on
  are texts, except the action, which may be missing.
\<close>

definition sprint_field :: "json \<Rightarrow> string" where
  "sprint_field v = (case v of JStr s \<Rightarrow> s | JBool b \<Rightarrow> (if b then ''true'' else ''false'') | _ \<Rightarrow> ''<nil>'')"

definition dynamicInteractionEventID :: "env \<Rightarrow> string \<Rightarrow> string \<Rightarrow> jobject \<Rightarrow> string" where
  "dynamicInteractionEventID e conversationID actorID data =
     (if validDynamicIdentifier (jstr data ''event_id'') then jstr data ''event_id''
      else ''legacy-dynamic-event-'' @ env_legacyEvent e conversationID actorID data)"

definition sameDynamicInteractionEvent :: "dynamic_interaction_event \<Rightarrow> dynamic_interaction_event \<Rightarrow> bool" where
  "sameDynamicInteractionEvent existing candidate \<longleftrightarrow>
     di_EventID existing = di_EventID candidate \<and> di_ConversationID existing = di_ConversationID candidate
     \<and> di_MessageID existing = di_MessageID candidate \<and> di_ContentID existing = di_ContentID candidate
     \<and> di_NodeID existing = di_NodeID candidate \<and> di_Event existing = di_Event candidate
     \<and> di_Action existing = di_Action candidate
     \<and> json_equal (JObj (di_Payload existing)) (JObj (di_Payload candidate))"

definition existingDynamicInteractionEvent ::
  "dynamic_interaction_event list \<Rightarrow> string \<Rightarrow> string \<Rightarrow> dynamic_interaction_event option" where
  "existingDynamicInteractionEvent events actorID eventID =
     List.find (\<lambda>ev. di_ActorID ev = actorID \<and> di_EventID ev = eventID) events"

definition dynamicInteractionTotal :: "memory_store \<Rightarrow> string \<Rightarrow> int" where
  "dynamicInteractionTotal s conversationID =
     (case GetConversation s conversationID of
        None \<Rightarrow> 1
      | Some conv \<Rightarrow>
          if c_Type conv = ''group'' \<and> GetGroupMembers s conversationID \<noteq> []
          then int (length (GetGroupMembers s conversationID))
          else if c_Participants conv \<noteq> [] then int (length (c_Participants conv))
          else 1)"

definition interaction_event_less :: "dynamic_interaction_event \<Rightarrow> dynamic_interaction_event \<Rightarrow> bool" where
  "interaction_event_less x y =
     (if di_CreatedAt x = di_CreatedAt y then di_EventID x < di_EventID y else di_CreatedAt x < di_CreatedAt y)"

definition sortedDynamicInteractionEvents :: "dynamic_interaction_event list \<Rightarrow> dynamic_interaction_event list" where
  "sortedDynamicInteractionEvents events = go_sort interaction_event_less events"

definition ownership_step :: "go_std \<Rightarrow> bool \<times> bool \<Rightarrow> message_segment \<Rightarrow> bool \<times> bool" where
  "ownership_step std own segment =
     (if seg_Type segment = ''agent_route'' then (fst own \<or> jstr (seg_Data segment) ''route'' = ''local'', snd own)
      else if seg_Type segment = ''dynamic_content''
      then (case dynamicSchemaFromData std (seg_Data segment) of
              Inl _ \<Rightarrow> own
            | Inr schema \<Rightarrow>
                (fst own, snd own \<or> jstr schema ''source'' = ''ai'' \<or> jstr schema ''source'' = ''plugin''))
      else own)"

text \<open>The pair is \<open>(localAgent, fairyOwned)\<close>.\<close>

definition dynamicEventTargetOwnership :: "go_std \<Rightarrow> message \<Rightarrow> bool \<times> bool" where
  "dynamicEventTargetOwnership std msg =
     foldl (ownership_step std) (False, m_SenderID msg = ''fairy'') (m_Segments msg)"

definition dynamicEventShouldRouteToFairy :: "interaction_config \<Rightarrow> bool \<Rightarrow> interaction_reduction \<Rightarrow> bool" where
  "dynamicEventShouldRouteToFairy config configured reduction =
     (if \<not> configured then True
      else if ic_fairyRoute config = ''each_event'' then True
      else if ic_fairyRoute config = ''on_close'' then red_closed reduction
      else if ic_fairyRoute config = ''on_threshold''
      then 0 < ic_fairyThreshold config \<and> ic_fairyThreshold config \<le> int (red_responded reduction)
      else False)"

text \<open>A nil state is encoded as \<open>null\<close>.\<close>

definition state_json :: "interaction_reduction \<Rightarrow> json" where
  "state_json reduction = (if red_state reduction = [] then JNull else JObj (red_state reduction))"

definition event_candidate ::
  "env \<Rightarrow> memory_store \<Rightarrow> string \<Rightarrow> string \<Rightarrow> jobject \<Rightarrow> gotime \<Rightarrow> dynamic_interaction_event" where
  "event_candidate e s userID conversationID data now =
     \<lparr> di_EventID = dynamicInteractionEventID e conversationID userID data, di_ConversationID = conversationID,
       di_MessageID = jstr data ''message_id'', di_ContentID = jstr data ''content_id'',
       di_NodeID = sprint_field (jget data ''node_id''), di_Event = sprint_field (jget data ''event''),
       di_Action = sprint_field (jget data ''action''), di_Payload = cloneDynamicMap (as_map (jget data ''payload'')),
       di_ActorID = userID, di_ActorNickname = sd_Nickname (sender_of s userID),
       di_ActorKind = (if userID = ''fairy'' then ''agent'' else ''user''), di_CreatedAt = now \<rparr>"

text \<open>
  The next contents of the message, the replacement to broadcast and the reduction. The two error
  texts are those of the two stages.
\<close>

definition next_state ::
  "env \<Rightarrow> memory_store \<Rightarrow> message \<Rightarrow> interaction_config \<Rightarrow> bool \<Rightarrow> string \<Rightarrow> jobject
     \<Rightarrow> dynamic_interaction_event list \<Rightarrow> gotime
     \<Rightarrow> (message_segment list \<times> message_segment option \<times> interaction_reduction) res" where
  "next_state e s target config configured conversationID data events now =
     (let contentID = jstr data ''content_id'' in
      case (if configured
            then applyDynamicInteraction (env_std e) (env_text e) target contentID events
                   (dynamicInteractionTotal s conversationID) now
            else Inr (m_Segments target, None, zero_reduction)) of
        Inl _ \<Rightarrow> Inl ''failed to update interaction state''
      | Inr (segments, replacement, reduction) \<Rightarrow>
          if \<not> configured \<or> ic_reducer config = ''none''
          then
            (case applyDynamicActionProjection (env_std e) (env_text e) target contentID
                    (sprint_field (jget data ''event'')) (sprint_field (jget data ''action''))
                    (as_map (jget data ''payload'')) of
               Inl _ \<Rightarrow> Inl ''failed to update dynamic action state''
             | Inr (_, None) \<Rightarrow> Inr (segments, replacement, reduction)
             | Inr (segments1, Some replacement1) \<Rightarrow> Inr (segments1, Some replacement1, reduction))
          else Inr (segments, replacement, reduction))"

definition transient_event ::
  "string \<Rightarrow> string \<Rightarrow> sender \<Rightarrow> string \<Rightarrow> message_segment \<Rightarrow> gotime \<Rightarrow> bool \<times> bool \<Rightarrow> message_event" where
  "transient_event conversationType conversationID sender messageID segment now own =
     \<lparr> me_PostType = ''message'', me_MessageType = conversationType, me_MessageID = messageID,
       me_ConversationID = conversationID, me_Sender = sender, me_Message = [segment], me_Reactions = [],
       me_Timestamp = Unix now, me_TimestampMS = UnixMilli now, me_LocalAgent = fst own, me_FairyOwned = snd own,
       me_DynamicEventAudit = False \<rparr>"

text \<open>The clock readings are the event's time and the store's.\<close>

definition handleDynamicEvent ::
  "env \<Rightarrow> gateway \<Rightarrow> nat \<Rightarrow> request \<Rightarrow> string \<Rightarrow> string \<Rightarrow> message_segment \<Rightarrow> gateway" where
  "handleDynamicEvent e g c req conversationID conversationType segment =
     (let fail = (\<lambda>h. sendError h c (rqs_Echo req)); s = gw_store g; userID = cl_userID (conn g c);
          data = seg_Data segment; messageID = jstr data ''message_id''; contentID = jstr data ''content_id'';
          now = env_now e 0; candidate = event_candidate e s userID conversationID data now;
          eventID = di_EventID candidate; sender = sender_of s userID;
          answer = (\<lambda>h extra. sendJSON h c (ok_response (JObj ([(''message_id'', JStr messageID),
            (''content_id'', JStr contentID), (''event_id'', JStr eventID), (''dispatched'', JBool True)] @ extra))
            (rqs_Echo req))) in
      if messageID = [] \<or> contentID = [] then fail g ''dynamic event message_id and content_id are required''
      else
        (case GetMessage s messageID of
           None \<Rightarrow> fail g ''dynamic event target message not found''
         | Some target \<Rightarrow>
             if m_ConversationID target \<noteq> conversationID
             then fail g ''dynamic event target belongs to another conversation''
             else if m_Recalled target then fail g ''cannot interact with a recalled message''
             else
               (case validateDynamicEventTarget (env_std e) (m_Segments target) data of
                  Inl err \<Rightarrow> fail g err
                | Inr _ \<Rightarrow>
                    (case dynamicInteractionSchema (env_std e) (env_text e) target contentID of
                       Inl err \<Rightarrow> fail g err
                     | Inr (_, config, configured) \<Rightarrow>
                         (let events = GetDynamicInteractionEvents s conversationID messageID contentID
                                         maxDynamicInteractionEvents in
                          case existingDynamicInteractionEvent events userID eventID of
                            Some existing \<Rightarrow>
                              if \<not> sameDynamicInteractionEvent existing candidate
                              then fail g ''dynamic event_id was already used for a different event''
                              else answer g [(''duplicate'', JBool True)]
                          | None \<Rightarrow>
                              (let groupRole = (if conversationType = ''group'' then groupMemberRole s conversationID userID
                                                else []);
                                   withCandidate = sortedDynamicInteractionEvents (events @ [candidate]) in
                               case validateDynamicInteractionPolicy (env_text e) config configured events candidate
                                      groupRole (m_SenderID target = userID) now of
                                 Inl err \<Rightarrow> fail g err
                               | Inr _ \<Rightarrow>
                                   (case next_state e s target config configured conversationID data withCandidate now of
                                      Inl err \<Rightarrow> fail g err
                                    | Inr (segments, replacement, reduction) \<Rightarrow>
                                        (case CommitDynamicInteractionEvent (env_eventDigest e) s (Some candidate)
                                                segments (env_now e 1) of
                                           (s1, Inl err) \<Rightarrow>
                                             fail (set_store g s1)
                                               (if err = ErrDynamicInteractionIdempotencyConflict
                                                then ''dynamic event_id was already used for a different event''
                                                else ''failed to commit dynamic interaction'')
                                         | (s1, Inr True) \<Rightarrow>
                                             answer (set_store g s1)
                                               [(''duplicate'', JBool True), (''state'', state_json reduction)]
                                         | (s1, Inr False) \<Rightarrow>
                                             (let own = dynamicEventTargetOwnership (env_std e) target;
                                                  routed = (fst own, snd own
                                                    \<and> dynamicEventShouldRouteToFairy config configured reduction);
                                                  g1 = answer (set_store g s1)
                                                    [(''duplicate'', JBool False), (''state'', state_json reduction)];
                                                  g2 = broadcastToConversationExceptClient (env_std e) g1 conversationID
                                                    (OMessage (transient_event conversationType conversationID sender
                                                       messageID segment now routed)) c
                                              in case replacement of
                                                   None \<Rightarrow> g2
                                                 | Some new \<Rightarrow>
                                                     broadcastToConversation (env_std e) g2 conversationID
                                                       (OMessage (transient_event conversationType conversationID sender
                                                          (m_ID target) new now (False, False))) [])))))))))"

section \<open>Reading the ledger\<close>

text \<open>
  What a reader is shown of the events: nothing under the aggregate visibilities, one's own events
  under \<open>actor_only\<close>, and everything to those allowed the detail.
\<close>

definition detail_allowed :: "interaction_config \<Rightarrow> string \<Rightarrow> bool \<Rightarrow> bool" where
  "detail_allowed config role isAuthor \<longleftrightarrow>
     ic_visibility config = ''public_detail''
     \<or> (ic_visibility config = ''admin_detail'' \<and> (role = ''owner'' \<or> role = ''admin'' \<or> isAuthor))"

definition visible_event :: "interaction_config \<Rightarrow> bool \<Rightarrow> string \<Rightarrow> dynamic_interaction_event \<Rightarrow> bool" where
  "visible_event config detailAllowed userID event \<longleftrightarrow>
     \<not> (ic_visibility config = ''public_aggregate'' \<or> ic_visibility config = ''anonymous_aggregate'')
     \<and> \<not> (ic_visibility config = ''actor_only'' \<and> di_ActorID event \<noteq> userID)
     \<and> \<not> (ic_visibility config = ''admin_detail'' \<and> \<not> detailAllowed)"

definition shown_event :: "interaction_config \<Rightarrow> bool \<Rightarrow> dynamic_interaction_event \<Rightarrow> jobject" where
  "shown_event config detailAllowed event =
     (let item = dynamicInteractionEventDetail event in
      if \<not> detailAllowed \<and> ic_visibility config \<noteq> ''actor_only''
      then gm_set ''payload'' JNull (gm_set ''actor_nickname'' (JStr []) (gm_set ''actor_id'' (JStr []) item))
      else item)"

definition handleGetDynamicInteractions :: "env \<Rightarrow> gateway \<Rightarrow> nat \<Rightarrow> request \<Rightarrow> gateway" where
  "handleGetDynamicInteractions e g c req =
     with_params g c req ''invalid dynamic interaction params'' (\<lambda>params.
       let fail = sendError g c (rqs_Echo req); s = gw_store g; userID = cl_userID (conn g c);
           conversationID = jstr params ''conversation_id''; messageID = jstr params ''message_id'';
           contentID = jstr params ''content_id'' in
       if conversationID = [] \<or> messageID = [] \<or> contentID = [] \<or> \<not> canAccessConversation s userID conversationID
       then fail ''dynamic interaction target is invalid''
       else
         (case GetMessage s messageID of
            None \<Rightarrow> fail ''dynamic interaction target not found''
          | Some target \<Rightarrow>
              if m_ConversationID target \<noteq> conversationID then fail ''dynamic interaction target not found''
              else
                (case dynamicInteractionSchema (env_std e) (env_text e) target contentID of
                   Inl _ \<Rightarrow> fail ''dynamic interaction is not configured''
                 | Inr (schema, config, configured) \<Rightarrow>
                     if \<not> configured then fail ''dynamic interaction is not configured''
                     else
                       (let events = GetDynamicInteractionEvents s conversationID messageID contentID
                                       maxDynamicInteractionEvents;
                            role = (case GetConversation s conversationID of
                                      Some conv \<Rightarrow> if c_Type conv = ''group'' then groupMemberRole s conversationID userID else []
                                    | None \<Rightarrow> []);
                            allowed = detail_allowed config role (m_SenderID target = userID);
                            filtered = map (JObj \<circ> shown_event config allowed)
                                         (filter (visible_event config allowed userID) events);
                            state = (case as_obj (jget (as_map (jget schema ''metadata'')) ''interaction_state'') of
                                       Some m \<Rightarrow> JObj m | None \<Rightarrow> JNull)
                        in sendJSON g c (ok_response (JObj
                             [(''message_id'', JStr messageID), (''content_id'', JStr contentID),
                              (''visibility'', JStr (ic_visibility config)), (''events'', JArr filtered), (''state'', state)])
                             (rqs_Echo req))))))"

end
