(* ===== verification/Gateway_Messages.thy ===== *)
theory Gateway_Messages
  imports Gateway_Interaction
begin

text \<open>
  The message requests of the gateway (\<open>internal/gateway/gateway.go\<close>): \<open>handleSendMessage\<close> as a whole,
  reactions, recalls, conversation lists, preferences, histories, read marks, forwards and push
  registrations.
\<close>

section \<open>Sending\<close>

text \<open>\<open>len(convID) > 6 && convID[:6] == "group_"\<close>\<close>

definition conversation_kind :: "string \<Rightarrow> string" where
  "conversation_kind convID = (if 6 < length convID \<and> HasPrefix convID ''group_'' then ''group'' else ''private'')"

text \<open>The identifier of the request; \<open>None\<close> is an invalid one.\<close>

definition client_message_id :: "jobject \<Rightarrow> string option" where
  "client_message_id params =
     (case gm_get params ''client_message_id'' of
        None \<Rightarrow> Some []
      | Some raw \<Rightarrow>
          (case as_str raw of
             None \<Rightarrow> None
           | Some v \<Rightarrow> if validClientMessageID v then Some v else None))"

definition handleSendMessage :: "env \<Rightarrow> gateway \<Rightarrow> nat \<Rightarrow> request \<Rightarrow> gateway" where
  "handleSendMessage e g c req =
     with_params g c req ''invalid send_message params'' (\<lambda>params.
       let fail = (\<lambda>h. sendError h c (rqs_Echo req)); s = gw_store g; userID = cl_userID (conn g c);
           convID = jstr params ''conversation_id''; convType = conversation_kind convID in
       if convID = [] then fail g ''conversation_id required''
       else
         (case client_message_id params of
            None \<Rightarrow> fail g ''client_message_id must contain 1-128 letters, digits, dots, colons, dashes, or underscores''
          | Some clientMessageID \<Rightarrow>
              (case decode_segments (jget params ''message'') of
                 None \<Rightarrow> fail g ''invalid message segments''
               | Some segments \<Rightarrow>
                   if segments = [] \<or> 20 < length segments
                   then fail g ''message must contain between 1 and 20 segments''
                   else
                     (case validateAgentRouteSegments s (conn g c) convID convType segments of
                        Inl err \<Rightarrow> fail g err
                      | Inr _ \<Rightarrow>
                          if \<not> canAccessConversation s userID convID then fail g ''conversation access denied''
                          else
                            (case send_refusal e s userID convID convType (env_now e 0) of
                               Some err \<Rightarrow> fail g err
                             | None \<Rightarrow>
                                 (case dynamic_segments (env_std e) s userID convID convType (length segments)
                                         (None, None) segments of
                                    Inl err \<Rightarrow> fail g err
                                  | Inr (Some mutation, _) \<Rightarrow>
                                      handleDynamicMutation e g c req convID convType clientMessageID mutation
                                  | Inr (None, Some event) \<Rightarrow> handleDynamicEvent e g c req convID convType event
                                  | Inr (None, None) \<Rightarrow>
                                      (case check_segments e userID convID convType 0 3 segments g of
                                         (g1, Inl err) \<Rightarrow> fail g1 err
                                       | (g1, Inr _) \<Rightarrow>
                                           store_and_send e g1 c req convID convType clientMessageID segments)))))))"

section \<open>Reactions and recalls\<close>

definition reactions_json :: "reaction list \<Rightarrow> json" where
  "reactions_json rs =
     JArr (map (\<lambda>r. JObj [(''emoji_id'', JStr (r_EmojiID r)), (''count'', JNum (of_nat (r_Count r)))]) rs)"

text \<open>A nil slice of reactions is encoded as \<open>null\<close>.\<close>

definition nil_or_array :: "'a list \<Rightarrow> json \<Rightarrow> json" where
  "nil_or_array xs v = (if xs = [] then JNull else v)"

definition handleReactMessage :: "env \<Rightarrow> gateway \<Rightarrow> nat \<Rightarrow> request \<Rightarrow> gateway" where
  "handleReactMessage e g c req =
     with_params g c req ''invalid react_message params'' (\<lambda>params.
       let fail = (\<lambda>h. sendError h c (rqs_Echo req)); s = gw_store g; userID = cl_userID (conn g c);
           messageID = TrimSpace (jstr params ''message_id''); emojiID = TrimSpace (jstr params ''emoji_id'');
           removed = jbool params ''remove'' in
       if messageID = [] then fail g ''message_id required''
       else if emojiID = [] \<or> 32 < rune_count emojiID then fail g ''emoji_id must contain 1-32 characters''
       else if list_ex (\<lambda>(r, _). unicode_IsControl r) (rune_split emojiID)
       then fail g ''emoji_id contains invalid characters''
       else
         (case GetMessage s messageID of
            None \<Rightarrow> fail g ''message not found''
          | Some msg \<Rightarrow>
              if \<not> canAccessConversation s userID (m_ConversationID msg) then fail g ''conversation access denied''
              else
                (case ReactToMessage s messageID userID emojiID removed of
                   (s1, Inl err) \<Rightarrow>
                     fail (set_store g s1) (''failed to update reaction: ''
                       @ (case err of Errorf t \<Rightarrow> t | _ \<Rightarrow> []))
                 | (s1, Inr None) \<Rightarrow> fail (set_store g s1) ''message not found or recalled''
                 | (s1, Inr (Some updated)) \<Rightarrow>
                     (let mine = GetMessageReactionIDs s1 messageID userID;
                          g1 = sendJSON (set_store g s1) c (ok_response (JObj
                            [(''message_id'', JStr messageID), (''emoji_id'', JStr emojiID), (''removed'', JBool removed),
                             (''reactions'', nil_or_array (m_Reactions updated) (reactions_json (m_Reactions updated))),
                             (''my_reactions'', jstrs mine)]) (rqs_Echo req))
                      in broadcastToConversation (env_std e) g1 (m_ConversationID msg)
                           (ONotice ((notice ''message_reaction'')\<lparr>ne_ConversationID := m_ConversationID msg,
                              ne_MessageID := messageID, ne_UserID := userID, ne_EmojiID := emojiID, ne_Removed := removed,
                              ne_Reactions := m_Reactions updated\<rparr>)) []))))"

definition handleRecallMessage :: "env \<Rightarrow> gateway \<Rightarrow> nat \<Rightarrow> request \<Rightarrow> gateway" where
  "handleRecallMessage e g c req =
     with_params g c req ''invalid params'' (\<lambda>params.
       let fail = (\<lambda>h. sendError h c (rqs_Echo req)); s = gw_store g; userID = cl_userID (conn g c);
           msgID = jstr params ''message_id'' in
       if msgID = [] then fail g ''message_id required''
       else
         (case GetMessage s msgID of
            None \<Rightarrow> fail g ''message not found''
          | Some msg \<Rightarrow>
              if \<not> canAccessConversation s userID (m_ConversationID msg) then fail g ''conversation access denied''
              else if m_Recalled msg then fail g ''message already recalled''
              else if 2 * minute < env_now e 0 - m_Timestamp msg
              then fail g ''message can only be recalled within two minutes''
              else
                (case GetConversation s (m_ConversationID msg) of
                   None \<Rightarrow> fail g ''failed to load conversation''
                 | Some conv \<Rightarrow>
                     (let isGroup = (c_Type conv = ''group'') in
                      if m_SenderID msg \<noteq> userID \<and> (\<not> isGroup \<or> \<not> isGroupAdmin s (m_ConversationID msg) userID)
                      then fail g ''message recall permission denied''
                      else
                        (case RecallMessage s msgID of
                           (s1, False) \<Rightarrow> fail (set_store g s1) ''message not found''
                         | (s1, True) \<Rightarrow>
                             broadcastToConversation (env_std e)
                               (sendJSON (set_store g s1) c (ok_response JNull (rqs_Echo req))) (m_ConversationID msg)
                               (ONotice ((notice (if isGroup then ''group_recall'' else ''friend_recall''))
                                  \<lparr>ne_ConversationID := m_ConversationID msg, ne_MessageID := msgID,
                                   ne_UserID := m_SenderID msg, ne_OperatorID := userID\<rparr>)) [])))))"

section \<open>Conversations\<close>

text \<open>A private conversation is listed under the name of the first other participant.\<close>

definition conversation_title :: "memory_store \<Rightarrow> string \<Rightarrow> conversation \<Rightarrow> string \<times> string" where
  "conversation_title s userID conv =
     (if c_Type conv = ''private''
      then (case List.find (\<lambda>p. p \<noteq> userID) (c_Participants conv) of
              None \<Rightarrow> (c_Title conv, c_Avatar conv)
            | Some p \<Rightarrow>
                (case GetUser s p of
                   Some peer \<Rightarrow> (u_Nickname peer, u_Avatar peer) | None \<Rightarrow> (c_Title conv, c_Avatar conv)))
      else (c_Title conv, c_Avatar conv))"

definition last_message_text :: "message \<Rightarrow> string" where
  "last_message_text msg =
     (case m_Segments msg of
        [] \<Rightarrow> []
      | seg # _ \<Rightarrow> if seg_Type seg = ''text'' then jstr (seg_Data seg) ''text'' else [])"

definition conversation_json :: "memory_store \<Rightarrow> string \<Rightarrow> conversation \<Rightarrow> json" where
  "conversation_json s userID conv =
     (let shown = conversation_title s userID conv; newest = GetMessages s (c_ID conv) 1;
          preference = GetConversationPreference s (c_ID conv) userID;
          stamp = (\<lambda>f. case newest of [] \<Rightarrow> 0 | msg # _ \<Rightarrow> f (m_Timestamp msg)) in
      JObj ([(''conversation_id'', JStr (c_ID conv)), (''type'', JStr (c_Type conv)), (''title'', JStr (fst shown))]
        @ omit_str ''avatar_url'' (snd shown)
        @ [(''unread_count'', jint (int (CountUnreadMessages s (c_ID conv) userID))),
           (''is_pinned'', JBool (case preference of Some p \<Rightarrow> cp_IsPinned p | None \<Rightarrow> False)),
           (''is_muted'', JBool (case preference of Some p \<Rightarrow> cp_IsMuted p | None \<Rightarrow> False)),
           (''notification_level'', JStr (conversationNotificationLevel preference))]
        @ omit_str ''last_message'' (case newest of [] \<Rightarrow> [] | msg # _ \<Rightarrow> last_message_text msg)
        @ [(''last_timestamp'', jint (stamp Unix)), (''last_timestamp_ms'', jint (stamp UnixMilli))]
        @ (if c_Participants conv = [] then [] else [(''participants'', jstrs (c_Participants conv))])))"

definition handleGetConversations :: "gateway \<Rightarrow> nat \<Rightarrow> request \<Rightarrow> gateway" where
  "handleGetConversations g c req =
     (let s = gw_store g; userID = cl_userID (conn g c) in
      if userID = [] then sendError g c (rqs_Echo req) ''not authenticated''
      else sendJSON g c (ok_response (JArr (map (conversation_json s userID)
             (filter (\<lambda>conv. canAccessConversation s userID (c_ID conv)) (GetUserConversations s userID))))
             (rqs_Echo req)))"

definition preference_json :: "env \<Rightarrow> conversation_preference \<Rightarrow> json" where
  "preference_json e p =
     JObj [(''conversation_id'', JStr (cp_ConversationID p)), (''user_id'', JStr (cp_UserID p)),
           (''is_pinned'', JBool (cp_IsPinned p)), (''notification_level'', JStr (cp_NotificationLevel p)),
           (''is_muted'', JBool (cp_IsMuted p)), (''updated_at'', JStr (env_timeJSON e (cp_UpdatedAt p)))]"

definition handleSetConversationPreferences :: "env \<Rightarrow> gateway \<Rightarrow> nat \<Rightarrow> request \<Rightarrow> gateway" where
  "handleSetConversationPreferences e g c req =
     with_params g c req ''invalid params'' (\<lambda>params.
       let fail = sendError g c (rqs_Echo req); s = gw_store g; userID = cl_userID (conn g c);
           conversationID = jstr params ''conversation_id'';
           pinned = as_bool (jget params ''is_pinned''); muted = as_bool (jget params ''is_muted'');
           named = as_str (jget params ''notification_level'') in
       if conversationID = [] \<or> pinned = None \<or> (named = None \<and> muted = None)
       then fail ''conversation_id, is_pinned and notification_level required''
       else if named \<noteq> None \<and> the named \<notin> {NotificationLevelNormal, NotificationLevelMentionsOnly, NotificationLevelMuted}
       then fail ''invalid notification_level''
       else
         (let level = NormalizeNotificationLevel (case named of Some v \<Rightarrow> v | None \<Rightarrow> [])
                        (case muted of Some b \<Rightarrow> b | None \<Rightarrow> False);
              isPinned = (case pinned of Some b \<Rightarrow> b | None \<Rightarrow> False); isMuted = (level = NotificationLevelMuted);
              preference = \<lparr> cp_ConversationID = conversationID, cp_UserID = userID, cp_IsPinned = isPinned,
                             cp_NotificationLevel = level, cp_IsMuted = isMuted, cp_UpdatedAt = zero_time \<rparr> in
          if \<not> canAccessConversation s userID conversationID then fail ''conversation access denied''
          else
            sendToUser (env_std e)
              (sendJSON (set_store g (SetConversationPreference s preference (env_now e 0))) c
                 (ok_response (preference_json e preference) (rqs_Echo req)))
              userID (ONotice ((notice ''conversation_preferences'')\<lparr>ne_UserID := userID,
                 ne_ConversationID := conversationID, ne_IsPinned := Some isPinned, ne_IsMuted := Some isMuted,
                 ne_NotificationLevel := level\<rparr>))))"

section \<open>History and read marks\<close>

definition hasReadMessage :: "read_state option \<Rightarrow> message \<Rightarrow> bool" where
  "hasReadMessage state msg =
     (case state of
        None \<Rightarrow> False
      | Some st \<Rightarrow>
          m_Timestamp msg < rs_ReadAt st \<or> rs_ReadAt st = m_Timestamp msg \<or> rs_LastReadMessageID st = m_ID msg)"

text \<open>\<open>limit\<close> is 50, or the request's number, kept between 1 and 100.\<close>

definition history_limit :: "jobject \<Rightarrow> int" where
  "history_limit params =
     (let limit = (case as_num (jget params ''limit'') of Some r \<Rightarrow> float_to_int64 r | None \<Rightarrow> 50) in
      if limit < 1 then 1 else if 100 < limit then 100 else limit)"

definition segment_json :: "message_segment \<Rightarrow> json" where
  "segment_json seg = JObj [(''type'', JStr (seg_Type seg)), (''data'', JObj (seg_Data seg))]"

definition message_json ::
  "env \<Rightarrow> memory_store \<Rightarrow> client \<Rightarrow> (string, read_state) gomap \<Rightarrow> string list \<Rightarrow> message \<Rightarrow> json" where
  "message_json e s cl readStateByUser recipients msg =
     (let userID = cl_userID cl; mine = (m_SenderID msg = userID);
          readCount = (if mine then length (filter (\<lambda>r. hasReadMessage (gm_get readStateByUser r) msg) recipients) else 0) in
      JObj [(''message_id'', JStr (m_ID msg)), (''conversation_id'', JStr (m_ConversationID msg)),
        (''sender'', JObj [(''user_id'', JStr (m_SenderID msg)), (''nickname'', JStr (m_SenderNickname msg)),
           (''avatar_url'', JStr (case GetUser s (m_SenderID msg) of Some usr \<Rightarrow> u_Avatar usr | None \<Rightarrow> []))]),
        (''message'', JArr (map segment_json (clientMessageSegments (env_std e) cl (m_Segments msg)))),
        (''timestamp'', jint (Unix (m_Timestamp msg))), (''timestamp_ms'', jint (UnixMilli (m_Timestamp msg))),
        (''recalled'', JBool (m_Recalled msg)), (''reactions'', nil_or_array (m_Reactions msg) (reactions_json (m_Reactions msg))),
        (''my_reactions'', jstrs (GetMessageReactionIDs s (m_ID msg) userID)),
        (''status'', JStr (if 0 < readCount then ''read'' else ''sent'')), (''read_count'', jint (int readCount)),
        (''recipient_count'', jint (int (if mine then length recipients else 0)))])"

definition handleGetMessages :: "env \<Rightarrow> gateway \<Rightarrow> nat \<Rightarrow> request \<Rightarrow> gateway" where
  "handleGetMessages e g c req =
     with_params g c req ''invalid params'' (\<lambda>params.
       let fail = sendError g c (rqs_Echo req); s = gw_store g; userID = cl_userID (conn g c);
           convID = jstr params ''conversation_id'' in
       if convID = [] then fail ''conversation_id required''
       else if \<not> canAccessConversation s userID convID then fail ''conversation access denied''
       else
         (let msgs = GetMessagesBefore s convID (jstr params ''before_message_id'') (history_limit params);
              states = foldl (\<lambda>m st. gm_set (rs_UserID st) st m) [] (GetConversationReadStates s convID);
              recipients = conversationRecipients s convID userID
          in sendJSON g c (ok_response (JArr (map (message_json e s (conn g c) states recipients) msgs)) (rqs_Echo req))))"

definition read_state_json :: "env \<Rightarrow> read_state \<Rightarrow> json" where
  "read_state_json e st =
     JObj ([(''conversation_id'', JStr (rs_ConversationID st)), (''user_id'', JStr (rs_UserID st))]
       @ omit_str ''last_read_message_id'' (rs_LastReadMessageID st)
       @ [(''read_at'', JStr (env_timeJSON e (rs_ReadAt st)))])"

definition handleMarkRead :: "env \<Rightarrow> gateway \<Rightarrow> nat \<Rightarrow> request \<Rightarrow> gateway" where
  "handleMarkRead e g c req =
     with_params g c req ''invalid params'' (\<lambda>params.
       let fail = sendError g c (rqs_Echo req); s = gw_store g; userID = cl_userID (conn g c);
           conversationID = jstr params ''conversation_id'' in
       if conversationID = [] then fail ''conversation_id required''
       else if \<not> canAccessConversation s userID conversationID then fail ''conversation access denied''
       else
         (case MarkConversationRead s conversationID userID (env_now e 0) of
            (s1, state) \<Rightarrow>
              broadcastToConversation (env_std e)
                (sendJSON (set_store g s1) c (ok_response (read_state_json e state) (rqs_Echo req))) conversationID
                (ONotice ((notice ''message_read'')\<lparr>ne_UserID := userID, ne_ConversationID := conversationID,
                   ne_LastReadMessageID := rs_LastReadMessageID state, ne_ReadAt := Unix (rs_ReadAt state)\<rparr>)) userID))"

section \<open>Forwards\<close>

text \<open>
  The messages a forward copies; encoding and decoding a stored message gives an equal copy.
\<close>

fun forward_sources :: "memory_store \<Rightarrow> string \<Rightarrow> json list \<Rightarrow> string list \<Rightarrow> message list \<Rightarrow> message list res" where
  "forward_sources s userID [] seen acc = Inr acc"
| "forward_sources s userID (raw # rest) seen acc =
     (case as_str raw of
        None \<Rightarrow> Inl ''message_ids contains an invalid or duplicate ID''
      | Some messageID \<Rightarrow>
          if TrimSpace messageID = [] \<or> messageID \<in> set seen
          then Inl ''message_ids contains an invalid or duplicate ID''
          else
            (case GetMessage s messageID of
               None \<Rightarrow> Inl ''forward source message is unavailable''
             | Some msg \<Rightarrow>
                 if m_Recalled msg \<or> \<not> canAccessConversation s userID (m_ConversationID msg)
                 then Inl ''forward source message is unavailable''
                 else forward_sources s userID rest (messageID # seen) (acc @ [msg])))"

definition handleCreateForward :: "env \<Rightarrow> gateway \<Rightarrow> nat \<Rightarrow> request \<Rightarrow> gateway" where
  "handleCreateForward e g c req =
     with_params g c req ''invalid create_forward params'' (\<lambda>params.
       let fail = sendError g c (rqs_Echo req); s = gw_store g; userID = cl_userID (conn g c);
           conversationID = jstr params ''conversation_id'' in
       if conversationID = [] \<or> \<not> canAccessConversation s userID conversationID then fail ''conversation access denied''
       else
         (case as_arr (jget params ''message_ids'') of
            None \<Rightarrow> fail ''message_ids must contain between 1 and 100 messages''
          | Some rawIDs \<Rightarrow>
              if rawIDs = [] \<or> 100 < length rawIDs then fail ''message_ids must contain between 1 and 100 messages''
              else
                (case forward_sources s userID rawIDs [] [] of
                   Inl err \<Rightarrow> fail err
                 | Inr messages \<Rightarrow>
                     (case StoreForward s conversationID messages (env_now e 0) (env_now e 1) of
                        (s1, forward) \<Rightarrow>
                          sendJSON (set_store g s1) c (ok_response (JObj
                            [(''forward_id'', JStr (fw_ID forward)), (''count'', jint (int (length messages)))])
                            (rqs_Echo req))))))"

definition handleGetForwardMessage :: "env \<Rightarrow> gateway \<Rightarrow> nat \<Rightarrow> request \<Rightarrow> gateway" where
  "handleGetForwardMessage e g c req =
     with_params g c req ''invalid params'' (\<lambda>params.
       let fail = sendError g c (rqs_Echo req); s = gw_store g; userID = cl_userID (conn g c) in
       case GetForward s (jstr params ''forward_id'') of
         None \<Rightarrow> fail ''forward not found''
       | Some forward \<Rightarrow>
           if fw_ConversationID forward = [] \<or> \<not> canAccessConversation s userID (fw_ConversationID forward)
           then fail ''forward access denied''
           else sendJSON g c (ok_response (JArr (map (\<lambda>msg. JObj
                  [(''message_id'', JStr (m_ID msg)),
                   (''sender'', JObj [(''user_id'', JStr (m_SenderID msg)), (''nickname'', JStr (m_SenderNickname msg))]),
                   (''message'', JArr (map segment_json (clientMessageSegments (env_std e) (conn g c) (m_Segments msg)))),
                   (''timestamp'', jint (Unix (m_Timestamp msg))), (''timestamp_ms'', jint (UnixMilli (m_Timestamp msg)))])
                  (fw_Messages forward))) (rqs_Echo req)))"

section \<open>Push registrations\<close>

text \<open>The public key is the sender's.\<close>

definition handleGetPushConfig :: "string \<Rightarrow> gateway \<Rightarrow> nat \<Rightarrow> request \<Rightarrow> gateway" where
  "handleGetPushConfig publicKey g c req =
     (if cl_userID (conn g c) = [] then sendError g c (rqs_Echo req) ''not authenticated''
      else sendJSON g c (ok_response (JObj
             [(''enabled'', JBool (gw_pushEnabled g)), (''public_key'', JStr (if gw_pushEnabled g then publicKey else []))])
             (rqs_Echo req)))"

definition handleRegisterPush :: "env \<Rightarrow> gateway \<Rightarrow> nat \<Rightarrow> request \<Rightarrow> gateway" where
  "handleRegisterPush e g c req =
     (let fail = sendError g c (rqs_Echo req); userID = cl_userID (conn g c) in
      if userID = [] then fail ''not authenticated''
      else if \<not> gw_pushEnabled g then fail ''web push is not configured''
      else
        (case as_obj (rqs_Params req) of
           None \<Rightarrow> fail ''invalid push subscription''
         | Some params \<Rightarrow>
             (let endpoint = jstr params ''endpoint''; keys = as_map (jget params ''keys'');
                  p256dh = jstr keys ''p256dh''; auth = jstr keys ''auth'' in
              if endpoint = [] \<or> p256dh = [] \<or> auth = []
              then fail ''endpoint, keys.p256dh, and keys.auth are required''
              else sendJSON (set_store g (UpsertPushSubscription (gw_store g)
                     \<lparr> ps_UserID = userID, ps_Endpoint = endpoint, ps_P256DH = p256dh, ps_Auth = auth,
                       ps_CreatedAt = zero_time, ps_UpdatedAt = zero_time \<rparr> (env_now e 0)))
                     c (ok_response JNull (rqs_Echo req)))))"

definition handleUnregisterPush :: "gateway \<Rightarrow> nat \<Rightarrow> request \<Rightarrow> gateway" where
  "handleUnregisterPush g c req =
     with_params g c req ''invalid unregister_push params'' (\<lambda>params.
       let endpoint = jstr params ''endpoint'' in
       if endpoint = [] then sendError g c (rqs_Echo req) ''endpoint required''
       else sendJSON (set_store g (DeletePushSubscription (gw_store g) (cl_userID (conn g c)) endpoint)) c
              (ok_response JNull (rqs_Echo req)))"

end
