(* ===== verification/Gateway_Auth.thy ===== *)
theory Gateway_Auth
  imports Gateway_Groups
begin

text \<open>
  Authentication (\<open>internal/gateway/gateway.go\<close>, \<open>handleAuth\<close>, \<open>handleLogout\<close>, \<open>issueSession\<close>,
  \<open>userForSession\<close>): which identity a connection is given, session tokens, and the binding of the
  connection. The token digest, the password check and the random token are parameters.
\<close>

definition sessionTTL :: int where "sessionTTL = 90 * 24 * 3600 * second"

definition hashSessionToken :: "env \<Rightarrow> string \<Rightarrow> string" where
  "hashSessionToken e token = env_hash e token"

definition issueSession :: "env \<Rightarrow> memory_store \<Rightarrow> string \<Rightarrow> gotime \<Rightarrow> gotime \<Rightarrow> memory_store \<times> string" where
  "issueSession e s userID now now' =
     (UpsertSession s \<lparr> ss_TokenHash = hashSessionToken e (env_token e), ss_UserID = userID,
        ss_ExpiresAt = now + sessionTTL, ss_CreatedAt = zero_time \<rparr> now', env_token e)"

definition userForSession :: "env \<Rightarrow> memory_store \<Rightarrow> string \<Rightarrow> gotime \<Rightarrow> memory_store \<times> string option" where
  "userForSession e s token now =
     (case GetSession s (hashSessionToken e token) of
        None \<Rightarrow> (s, None)
      | Some sess \<Rightarrow>
          if \<not> now < ss_ExpiresAt sess then (DeleteSession s (ss_TokenHash sess), None)
          else (s, Some (ss_UserID sess)))"

definition handleLogout :: "env \<Rightarrow> gateway \<Rightarrow> nat \<Rightarrow> request \<Rightarrow> gateway" where
  "handleLogout e g c req =
     (case as_obj (rqs_Params req) of
        None \<Rightarrow> sendError g c (rqs_Echo req) ''invalid logout params''
      | Some params \<Rightarrow>
          (let token = jstr params ''session_token'' in
           if token = [] then sendError g c (rqs_Echo req) ''session_token required''
           else sendJSON (set_store g (DeleteSession (gw_store g) (hashSessionToken e token))) c
                  (ok_response JNull (rqs_Echo req))))"

section \<open>Who a connection is\<close>

text \<open>
  The credential checks of \<open>handleAuth\<close>: \<open>Inr\<close> is the user the request may be bound to. Resolving a
  session token removes it when it has expired.
\<close>

definition credential_verdict ::
  "env \<Rightarrow> gateway \<Rightarrow> jobject \<Rightarrow> string \<Rightarrow> memory_store \<Rightarrow> string option \<Rightarrow> string res" where
  "credential_verdict e g params sessionToken s1 resolved =
     (let password = jstr params ''password'';
          wrongToken = (gw_accessToken g \<noteq> [] \<and> sessionToken \<noteq> gw_accessToken g);
          userID = (case resolved of Some u \<Rightarrow> u | None \<Rightarrow> jstr params ''user_id'') in
      if sessionToken \<noteq> [] \<and> resolved = None \<and> wrongToken \<and> password = [] then Inl ''invalid credentials''
      else if password \<noteq> []
              \<and> (case GetUser s1 userID of
                   None \<Rightarrow> True
                 | Some usr \<Rightarrow> u_PasswordHash usr = [] \<or> \<not> env_checkPassword e (u_PasswordHash usr) password)
      then Inl ''invalid credentials''
      else if password = [] \<and> userID = [] \<and> gw_accessToken g = [] then Inl ''user_id required''
      else if password = [] \<and> resolved = None \<and> wrongToken then Inl ''invalid credentials''
      else if \<not> validUserID userID then Inl ''valid user_id required''
      else Inr userID)"

definition auth_identity :: "env \<Rightarrow> gateway \<Rightarrow> jobject \<Rightarrow> memory_store \<times> string res" where
  "auth_identity e g params =
     (let sessionToken = (if jstr params ''session_token'' = [] then jstr params ''token''
                          else jstr params ''session_token'') in
      case (if sessionToken \<noteq> [] then userForSession e (gw_store g) sessionToken (env_now e 0)
            else (gw_store g, None)) of
        (s1, resolved) \<Rightarrow> (s1, credential_verdict e g params sessionToken s1 resolved))"

section \<open>Binding and answering\<close>

text \<open>No list of a capability is nil, so an empty one is encoded as an empty array.\<close>

definition dynamic_caps_json :: "dynamic_content_capabilities \<Rightarrow> json" where
  "dynamic_caps_json d =
     JObj ([(''schema_versions'', jstrs (dc_SchemaVersions d)), (''component_version'', JStr (dc_ComponentVersion d))]
       @ [(''components'', jstrs (dc_Components d)), (''events'', JBool (dc_Events d)), (''node_id_patch'', JBool (dc_NodeIDPatch d)),
          (''content_operations'', JBool (dc_ContentOperations d))])"

definition caps_json :: "capabilities \<Rightarrow> json" where
  "caps_json caps =
     JObj ((''protocol_version'', JStr (cap_ProtocolVersion caps))
       # (case cap_DynamicContent caps of Some d \<Rightarrow> [(''dynamic_content'', dynamic_caps_json d)] | None \<Rightarrow> []))"

definition new_account :: "string \<Rightarrow> user" where
  "new_account userID =
     \<lparr> u_ID = userID, u_Nickname = userID, u_Avatar = [], u_Bio = [], u_CardBackgroundURL = [],
       u_CardBackgroundColor = [], u_CardBackgroundSensitive = False, u_ShowMutualGroups = True,
       u_ShowAccountID = True, u_Online = False, u_PasswordHash = [], u_CreatedAt = zero_time \<rparr>"

text \<open>
  The second half of \<open>handleAuth\<close>, once the identity is settled: the account, the connection, the
  terminal session, the answer and the presence notice. \<open>user.Online = true\<close> repeats what
  \<open>addClient\<close> stored.
\<close>

definition bind_connection :: "env \<Rightarrow> gateway \<Rightarrow> nat \<Rightarrow> request \<Rightarrow> string \<Rightarrow> string \<Rightarrow> string \<Rightarrow> capabilities \<Rightarrow> user \<Rightarrow> gateway" where
  "bind_connection e g c req userID password deviceID negotiated usr =
     (let wasAuthenticated = (cl_userID (conn g c) \<noteq> []) in
      case (if \<not> wasAuthenticated
            then addClient (on_conn g c (\<lambda>cl. cl\<lparr>cl_capabilities := negotiated\<rparr>)) c userID
            else (g, False)) of
        (g1, firstConnection) \<Rightarrow>
          (let terminalID = ''term-session-'' @ show_int (UnixNano (env_now e 1));
               g2 = (if \<not> wasAuthenticated \<and> isZZZTermDevice deviceID
                     then on_store (on_conn g1 c (\<lambda>cl. cl\<lparr>cl_deviceID := deviceID, cl_terminalSessionID := terminalID\<rparr>))
                            (\<lambda>s. UpsertTerminalSession s
                               \<lparr> ts_ID = terminalID, ts_UserID = userID, ts_DeviceID = deviceID,
                                 ts_ClientType = ''desktop'', ts_Connected = True, ts_LoginAt = env_now e 2,
                                 ts_LastSeenAt = env_now e 2, ts_LogoutAt = None \<rparr> (env_now e 3))
                     else g1);
               data = [(''user_id'', JStr (u_ID usr)), (''nickname'', JStr (u_Nickname usr)),
                       (''avatar_url'', JStr (u_Avatar usr)), (''bio'', JStr (u_Bio usr)),
                       (''card_background_url'', JStr (u_CardBackgroundURL usr)),
                       (''card_background_color'', JStr (u_CardBackgroundColor usr)),
                       (''card_background_sensitive'', JBool (u_CardBackgroundSensitive usr)),
                       (''show_mutual_groups'', JBool (u_ShowMutualGroups usr)),
                       (''show_account_id'', JBool (u_ShowAccountID usr)),
                       (''server_capabilities'', caps_json CurrentServerCapabilities),
                       (''negotiated_capabilities'', caps_json (cl_capabilities (conn g2 c)))];
               issued = issueSession e (gw_store g2) userID (env_now e 4) (env_now e 5);
               g3 = (if password \<noteq> [] then set_store g2 (fst issued) else g2);
               g4 = sendJSON g3 c (ok_response
                      (JObj (if password \<noteq> [] then gm_set ''session_token'' (JStr (snd issued)) data else data))
                      (rqs_Echo req))
           in if firstConnection then notifyFriendPresence (env_std e) g4 userID True else g4))"

definition handleAuth :: "env \<Rightarrow> gateway \<Rightarrow> nat \<Rightarrow> request \<Rightarrow> gateway" where
  "handleAuth e g c req =
     (let fail = (\<lambda>h. sendError h c (rqs_Echo req)) in
      case as_obj (rqs_Params req) of
        None \<Rightarrow> fail g ''invalid auth params''
      | Some params \<Rightarrow>
          (let deviceID = TrimSpace (jstr params ''device_id''); password = jstr params ''password'' in
           if 128 < length deviceID then fail g ''device_id must not exceed 128 bytes''
           else
             (case parseClientCapabilities (env_std e) (jget params ''capabilities'') of
                Inl err \<Rightarrow> fail g err
              | Inr advertised \<Rightarrow>
                  (case auth_identity e g params of
                     (s1, Inl err) \<Rightarrow> fail (set_store g s1) err
                   | (s1, Inr userID) \<Rightarrow>
                       if cl_userID (conn g c) \<noteq> [] \<and> cl_userID (conn g c) \<noteq> userID
                       then fail (set_store g s1) ''connection already authenticated as another user''
                       else
                         (case GetUser s1 userID of
                            Some usr \<Rightarrow>
                              bind_connection e (set_store g s1) c req userID password deviceID
                                (negotiateCapabilities advertised) usr
                          | None \<Rightarrow>
                              if password \<noteq> [] then fail (set_store g s1) ''account not found''
                              else bind_connection e (set_store g (SetUser s1 (new_account userID))) c req userID
                                     password deviceID (negotiateCapabilities advertised) (new_account userID))))))"

section \<open>What authentication guarantees\<close>

text \<open>The identity rests on a live session, the account's password, or the configured shared token.\<close>

lemma userForSession_spec:
  "userForSession e s token now = (t, r) \<Longrightarrow>
     GetUser t v = GetUser s v
     \<and> (r = Some u \<longrightarrow> (\<exists>sess. GetSession s (env_hash e token) = Some sess \<and> ss_UserID sess = u \<and> now < ss_ExpiresAt sess))"
  by (auto simp: userForSession_def hashSessionToken_def GetUser_def DeleteSession_def split: option.splits if_splits)

lemma verdict_session: "credential_verdict e g params tok s (Some v) = Inr u \<Longrightarrow> u = v"
  by (simp add: credential_verdict_def Let_def split: if_split_asm)

lemma verdict_token:
  assumes "credential_verdict e g params tok s None = Inr u" "gw_accessToken g \<noteq> []" "jstr params ''password'' = []"
  shows "tok = gw_accessToken g"
  using assms by (simp add: credential_verdict_def Let_def split: if_split_asm)

lemma verdict_password:
  assumes "credential_verdict e g params tok s None = Inr u" "jstr params ''password'' \<noteq> []"
  shows "\<exists>usr. GetUser s u = Some usr \<and> u_PasswordHash usr \<noteq> []
     \<and> env_checkPassword e (u_PasswordHash usr) (jstr params ''password'')"
proof -
  let ?u = "jstr params ''user_id''"
  have u: "u = ?u" using assms by (simp add: credential_verdict_def Let_def split: if_split_asm)
  show ?thesis
  proof (cases "GetUser s ?u")
    case None
    with assms show ?thesis by (simp add: credential_verdict_def Let_def)
  next
    case (Some usr)
    with assms u show ?thesis by (simp add: credential_verdict_def Let_def split: if_split_asm)
  qed
qed

lemma auth_identity_sound:
  assumes "auth_identity e g params = (s1, Inr u)" "gw_accessToken g \<noteq> []"
  shows "(\<exists>token sess. token \<in> {jstr params ''session_token'', jstr params ''token''}
             \<and> GetSession (gw_store g) (env_hash e token) = Some sess \<and> ss_UserID sess = u
             \<and> env_now e 0 < ss_ExpiresAt sess)
     \<or> (\<exists>usr. GetUser (gw_store g) u = Some usr \<and> u_PasswordHash usr \<noteq> []
             \<and> env_checkPassword e (u_PasswordHash usr) (jstr params ''password''))
     \<or> gw_accessToken g \<in> {jstr params ''session_token'', jstr params ''token''}"
proof -
  define tok where "tok = (if jstr params ''session_token'' = [] then jstr params ''token'' else jstr params ''session_token'')"
  have tok: "tok \<in> {jstr params ''session_token'', jstr params ''token''}" by (simp add: tok_def)
  obtain s2 r where r: "(if tok \<noteq> [] then userForSession e (gw_store g) tok (env_now e 0) else (gw_store g, None)) = (s2, r)"
    by fastforce
  have v: "credential_verdict e g params tok s2 r = Inr u"
    using assms(1) r by (auto simp: auth_identity_def tok_def [symmetric])
  have spec: "GetUser s2 w = GetUser (gw_store g) w
     \<and> (r = Some x \<longrightarrow> (\<exists>sess. GetSession (gw_store g) (env_hash e tok) = Some sess \<and> ss_UserID sess = x
          \<and> env_now e 0 < ss_ExpiresAt sess))" for w x
    using r userForSession_spec [of e "gw_store g" tok "env_now e 0" s2 r w x] by (auto split: if_split_asm)
  show ?thesis
  proof (cases r)
    case (Some x)
    with v verdict_session have "u = x" by blast
    with spec Some tok show ?thesis by blast
  next
    case None
    show ?thesis
    proof (cases "jstr params ''password'' = []")
      case True
      with v None assms(2) verdict_token tok show ?thesis by metis
    next
      case False
      with v None verdict_password [of e g params tok s2 u] spec show ?thesis by auto
    qed
  qed
qed

text \<open>A connection gets the identity the credentials establish and no other.\<close>

lemma addClient_user:
  "c < length (gw_conns g) \<Longrightarrow> cl_userID (conn g c) = [] \<Longrightarrow> cl_userID (conn (fst (addClient g c u)) c) = u"
  by (auto simp: addClient_def Let_def conn_def on_conn_def on_store_def)

lemma bind_connection_user:
  assumes "c < length (gw_conns g)"
  shows "cl_userID (conn (bind_connection e g c req u pw dev caps usr) c) =
     (if cl_userID (conn g c) = [] then u else cl_userID (conn g c))"
proof (cases "cl_userID (conn g c) = []")
  case True
  define g1 where "g1 = on_conn g c (\<lambda>cl. cl\<lparr>cl_capabilities := caps\<rparr>)"
  have "cl_userID (conn g1 c) = []" using True by (simp add: g1_def user_on_conn)
  then have a: "cl_userID (conn (fst (addClient g1 c u)) c) = u"
    using addClient_user assms by (simp add: g1_def)
  obtain g2 first where p: "addClient g1 c u = (g2, first)" by fastforce
  with a True show ?thesis
    by (cases "isZZZTermDevice dev"; cases "pw = []"; cases first)
      (simp_all add: bind_connection_def g1_def [symmetric] Let_def user_on_conn)
qed (cases "pw = []"; simp add: bind_connection_def Let_def)

lemma handleAuth_user:
  assumes "c < length (gw_conns g)" "cl_userID (conn g c) = []" "cl_userID (conn (handleAuth e g c req) c) = u" "u \<noteq> []"
  shows "\<exists>params s1. as_obj (rqs_Params req) = Some params \<and> auth_identity e g params = (s1, Inr u)"
proof -
  have "cl_userID (conn (bind_connection e (set_store g s) c req v pw dev caps usr) c) = v" for s v pw dev caps usr
    using assms(1,2) by (simp add: bind_connection_user)
  then show ?thesis
    using assms(2-) by (auto simp: handleAuth_def Let_def split: option.splits sum.splits prod.splits if_splits)
qed

end
