(* ===== verification/Gateway_Friends.thy ===== *)
theory Gateway_Friends
  imports Gateway_Push Gateway_Groups
begin

text \<open>
  Friend requests, removal, blocking and the opening of conversations
  (\<open>internal/gateway/gateway.go\<close>, \<open>handleFriendRequest\<close>, \<open>handleFriendHandle\<close>, \<open>handleRemoveFriend\<close>,
  \<open>handleEnsureConversation\<close>; \<open>internal/gateway/profile_cards.go\<close>, \<open>handleSetUserBlocked\<close>).
\<close>

section \<open>Friend requests\<close>

text \<open>The name a user is shown with in a push notification.\<close>

definition display_name :: "memory_store \<Rightarrow> string \<Rightarrow> string" where
  "display_name s userID =
     (case GetUser s userID of
        Some usr \<Rightarrow> if u_Nickname usr \<noteq> [] then u_Nickname usr else userID
      | None \<Rightarrow> userID)"

definition handleFriendRequest :: "env \<Rightarrow> gateway \<Rightarrow> nat \<Rightarrow> request \<Rightarrow> gateway" where
  "handleFriendRequest e g c req =
     with_params g c req ''invalid params'' (\<lambda>params.
       let userID = cl_userID (conn g c); s = gw_store g; fail = sendError g c (rqs_Echo req);
           targetID = TrimSpace (jstr params ''user_id''); comment = TrimSpace (jstr params ''comment'') in
       if targetID = [] \<or> targetID = userID then fail ''valid target user required''
       else if 200 < length comment then fail ''comment is too long''
       else if GetUser s targetID = None then fail ''user not found''
       else if isEitherBlocked s userID targetID then fail ''friend requests are blocked''
       else if AreFriends s userID targetID then fail ''already friends''
       else if list_ex (\<lambda>existing. (fr_FromID existing = userID \<and> fr_ToID existing = targetID)
                              \<or> (fr_FromID existing = targetID \<and> fr_ToID existing = userID))
                 (GetPendingFriendRequests s userID)
       then fail ''friend request already pending''
       else
         (case CreateFriendRequest s userID targetID comment (env_now e 0) of
            (s1, friendReq) \<Rightarrow>
              (let g1 = sendToUser (env_std e) (set_store g s1) targetID
                     (ORequest \<lparr> re_PostType = ''request'', re_RequestType = ''friend'', re_UserID = userID,
                        re_GroupID = [], re_Comment = comment, re_Flag = fr_ID friendReq \<rparr>);
                   body = display_name s1 userID @ '' wants to connect''
                     @ (if comment \<noteq> [] then '': '' @ comment else []);
                   g2 = pushEventToUser g1 targetID
                     [(''type'', JStr ''friend_request''), (''title'', JStr ''New friend request''), (''body'', JStr body),
                      (''request_id'', JStr (fr_ID friendReq)), (''user_id'', JStr userID), (''path'', JStr ''/contacts'')]
               in sendJSON g2 c (ok_response (JObj [(''flag'', JStr (fr_ID friendReq))]) (rqs_Echo req)))))"

definition normalized_action :: "string \<Rightarrow> string option" where
  "normalized_action action =
     (if action \<in> {''accept'', ''accepted''} then Some ''accepted''
      else if action \<in> {''reject'', ''rejected''} then Some ''rejected''
      else None)"

text \<open>
  The store steps of \<open>handleFriendHandle\<close>: the friendship is added before the request is decided,
  and taken back when deciding fails and this request had added it.
\<close>

definition decide_friend_request ::
  "memory_store \<Rightarrow> friend_request \<Rightarrow> string \<Rightarrow> string \<Rightarrow> gotime \<Rightarrow> memory_store \<times> bool" where
  "decide_friend_request s friendReq flag action now =
     (case (if action = ''accepted'' then AddFriend s (fr_FromID friendReq) (fr_ToID friendReq) now else (s, False)) of
        (s1, friendAdded) \<Rightarrow>
          (case HandleFriendRequest s1 flag action of
             (s2, handleOk) \<Rightarrow>
               (if \<not> handleOk \<and> friendAdded
                then fst (RemoveFriend s2 (fr_FromID friendReq) (fr_ToID friendReq)) else s2, handleOk)))"

definition handleFriendHandle :: "env \<Rightarrow> gateway \<Rightarrow> nat \<Rightarrow> request \<Rightarrow> gateway" where
  "handleFriendHandle e g c req =
     with_params g c req ''invalid params'' (\<lambda>params.
       let userID = cl_userID (conn g c); s = gw_store g; fail = (\<lambda>h. sendError h c (rqs_Echo req));
           flag = jstr params ''flag'' in
       case GetFriendRequest s flag of
         None \<Rightarrow> fail g ''friend request not found''
       | Some friendReq \<Rightarrow>
           if fr_ToID friendReq \<noteq> userID \<or> fr_Status friendReq \<noteq> ''pending''
           then fail g ''friend request not found''
           else
             (case normalized_action (jstr params ''action'') of
                None \<Rightarrow> fail g ''action must be accept or reject''
              | Some action \<Rightarrow>
                  (case decide_friend_request s friendReq flag action (env_now e 0) of
                     (s1, handleOk) \<Rightarrow>
                       if handleOk
                       then
                         (let g1 = sendJSON (set_store g s1) c (ok_response JNull (rqs_Echo req));
                              event = (if action = ''accepted''
                                 then (notice ''friend_add'')\<lparr>ne_UserID := userID\<rparr>
                                 else (notice ''friend_request_result'')\<lparr>ne_UserID := userID, ne_SubType := action\<rparr>);
                              g2 = sendToUser (env_std e) g1 (fr_FromID friendReq) (ONotice event);
                              resultText = (if action = ''accepted'' then ''accepted your friend request''
                                            else ''declined your friend request'')
                          in pushEventToUser g2 (fr_FromID friendReq)
                               [(''type'', JStr ''friend_request_result''), (''title'', JStr ''Friend request updated''),
                                (''body'', JStr (display_name s1 userID @ '' '' @ resultText)),
                                (''request_id'', JStr (fr_ID friendReq)), (''user_id'', JStr userID),
                                (''path'', JStr ''/contacts'')])
                       else fail (set_store g s1) ''failed to handle request'')))"

definition handleRemoveFriend :: "env \<Rightarrow> gateway \<Rightarrow> nat \<Rightarrow> request \<Rightarrow> gateway" where
  "handleRemoveFriend e g c req =
     with_params g c req ''invalid remove_friend params'' (\<lambda>params.
       let userID = cl_userID (conn g c); friendID = jstr params ''user_id'' in
       case RemoveFriend (gw_store g) userID friendID of
         (s1, removed) \<Rightarrow>
           if \<not> removed then sendError (set_store g s1) c (rqs_Echo req) ''friend relationship not found''
           else sendToUser (env_std e) (sendJSON (set_store g s1) c (ok_response JNull (rqs_Echo req)))
                  friendID (ONotice ((notice ''friend_remove'')\<lparr>ne_UserID := userID\<rparr>)))"

section \<open>Blocking\<close>

definition handleSetUserBlocked :: "env \<Rightarrow> gateway \<Rightarrow> nat \<Rightarrow> request \<Rightarrow> gateway" where
  "handleSetUserBlocked e g c req =
     with_params g c req ''invalid set_user_blocked params'' (\<lambda>params.
       let userID = cl_userID (conn g c); s = gw_store g; fail = sendError g c (rqs_Echo req);
           targetID = TrimSpace (jstr params ''user_id'') in
       case as_bool (jget params ''blocked'') of
         None \<Rightarrow> fail ''valid target user and blocked state required''
       | Some blocked \<Rightarrow>
           if targetID = [] \<or> targetID = userID then fail ''valid target user and blocked state required''
           else if GetUser s targetID = None then fail ''user not found''
           else
             (let s1 = SetUserBlocked s userID targetID blocked (env_now e 0);
                  g2 = (if blocked
                        then (case RemoveFriend s1 userID targetID of
                                (s2, removed) \<Rightarrow>
                                  if removed
                                  then sendToUser (env_std e) (set_store g s2) targetID
                                         (ONotice ((notice ''friend_remove'')\<lparr>ne_UserID := userID\<rparr>))
                                  else set_store g s2)
                        else set_store g s1)
              in sendJSON g2 c (ok_response (JObj [(''user_id'', JStr targetID), (''blocked'', JBool blocked)]) (rqs_Echo req))))"

section \<open>Opening a conversation\<close>

text \<open>The participants named in the request: texts that are not empty, each once.\<close>

fun named_participants :: "json list \<Rightarrow> string list \<Rightarrow> string list" where
  "named_participants [] acc = acc"
| "named_participants (v # vs) acc =
     (case as_str v of
        Some participant \<Rightarrow>
          if participant = [] \<or> participant \<in> set acc then named_participants vs acc
          else named_participants vs (acc @ [participant])
      | None \<Rightarrow> named_participants vs acc)"

definition requested_participants :: "jobject \<Rightarrow> string \<Rightarrow> string list" where
  "requested_participants params userID =
     (case as_arr (jget params ''participants'') of
        Some raw \<Rightarrow>
          (let named = named_participants raw [] in if userID \<in> set named then named else named @ [userID])
      | None \<Rightarrow> [userID])"

text \<open>Why a direct conversation may not be opened.\<close>

definition direct_refusal :: "memory_store \<Rightarrow> string \<Rightarrow> string \<Rightarrow> string list \<Rightarrow> string option" where
  "direct_refusal s userID ident participants =
     (case GetConversation s ident of
        Some _ \<Rightarrow>
          if \<not> canAccessConversation s userID ident then Some ''direct messages require a friend relationship'' else None
      | None \<Rightarrow>
          (let otherUserID = (case List.find (\<lambda>p. p \<noteq> userID) participants of Some p \<Rightarrow> p | None \<Rightarrow> []) in
           if otherUserID = [] \<or> (otherUserID \<noteq> ''fairy'' \<and> \<not> AreFriends s userID otherUserID)
           then Some ''direct messages require a friend relationship''
           else if otherUserID \<noteq> ''fairy'' \<and> isEitherBlocked s userID otherUserID
           then Some ''direct messages are blocked''
           else None))"

definition handleEnsureConversation :: "env \<Rightarrow> gateway \<Rightarrow> nat \<Rightarrow> request \<Rightarrow> gateway" where
  "handleEnsureConversation e g c req =
     with_params g c req ''invalid ensure_conversation params'' (\<lambda>params.
       let userID = cl_userID (conn g c); s = gw_store g; fail = sendError g c (rqs_Echo req);
           ident = jstr params ''conversation_id'' in
       if ident = [] then fail ''conversation_id required''
       else if HasPrefix ident ''group_'' \<and> GetGroup s ident \<noteq> None \<and> \<not> IsGroupMember s ident userID
       then fail ''group access denied''
       else
         (let convType = (if jstr params ''type'' \<noteq> ''group'' then ''private'' else ''group'');
              title = (if jstr params ''title'' = [] then ident else jstr params ''title'');
              participants = requested_participants params userID in
          if HasPrefix ident ''agent_''
             \<and> (convType \<noteq> ''private'' \<or> \<not> isExactAgentConversationParticipants participants userID)
          then fail ''Agent conversations must contain only the current user and Fairy''
          else
            (case (if convType = ''private'' then direct_refusal s userID ident participants else None) of
               Some msg \<Rightarrow> fail msg
             | None \<Rightarrow>
                 sendJSON (set_store g (SaveConversation s
                   \<lparr> c_ID = ident, c_Type = convType, c_Title = title, c_Avatar = jstr params ''avatar_url'',
                     c_OwnerID = [], c_Participants = participants, c_CreatedAt = env_now e 0 \<rparr>))
                   c (ok_response JNull (rqs_Echo req)))))"

section \<open>What these requests do to friendships and access\<close>

lemma push_event_store [simp]: "gw_store (pushEventToUser g u p) = gw_store g"
  by (simp add: pushEventToUser_def)

lemma decide_friend_request_spec:
  assumes "GetFriendRequest s flag = Some fr" "fr_Status fr = ''pending''"
  shows "\<exists>s'. decide_friend_request s fr flag action now = (s', True)
     \<and> GetFriendRequest s' flag = Some (fr\<lparr>fr_Status := action\<rparr>)
     \<and> (\<forall>j. j \<noteq> flag \<longrightarrow> GetFriendRequest s' j = GetFriendRequest s j)
     \<and> (\<forall>x y. AreFriends s' x y \<longleftrightarrow> (if action = ''accepted'' then
          AreFriends (fst (AddFriend s (fr_FromID fr) (fr_ToID fr) now)) x y else AreFriends s x y))"
proof -
  define a where "a = (if action = ''accepted'' then AddFriend s (fr_FromID fr) (fr_ToID fr) now else (s, False))"
  have req: "s_friendRequests (fst a) = s_friendRequests s" by (simp add: a_def AddFriend_frame)
  have h: "HandleFriendRequest (fst a) flag action =
      ((fst a)\<lparr>s_friendRequests := gm_set flag (fr\<lparr>fr_Status := action\<rparr>) (s_friendRequests s)\<rparr>, True)"
    using assms by (simp add: HandleFriendRequest_def req GetFriendRequest_def)
  have "decide_friend_request s fr flag action now = (fst (HandleFriendRequest (fst a) flag action), True)"
    unfolding decide_friend_request_def a_def [symmetric] by (simp add: split_beta h)
  then show ?thesis
    unfolding h by (auto simp: GetFriendRequest_def AreFriends_def a_def)
qed

lemma handleFriendHandle_cases:
  "gw_store (handleFriendHandle e g c req) = gw_store g
   \<or> (\<exists>flag fr action. GetFriendRequest (gw_store g) flag = Some fr \<and> fr_ToID fr = cl_userID (conn g c)
        \<and> fr_Status fr = ''pending'' \<and> cl_userID (conn g c) \<noteq> []
        \<and> gw_store (handleFriendHandle e g c req) = fst (decide_friend_request (gw_store g) fr flag action (env_now e 0)))"
proof (cases "cl_userID (conn g c) = []")
  case False
  show ?thesis
  proof (cases "as_obj (rqs_Params req)")
    case (Some params)
    let ?s = "gw_store g" and ?f = "jstr params ''flag''"
    have run: "with_params g c req msg k = k params" for msg k using False Some by (simp add: with_params_def)
    show ?thesis
    proof (cases "GetFriendRequest ?s ?f")
      case fr: (Some fr)
      show ?thesis
      proof (cases "fr_ToID fr \<noteq> cl_userID (conn g c) \<or> fr_Status fr \<noteq> ''pending''")
        case ok: False
        show ?thesis
        proof (cases "normalized_action (jstr params ''action'')")
          case act: (Some action)
          from decide_friend_request_spec [OF fr] ok obtain s' where
            "decide_friend_request ?s fr ?f action (env_now e 0) = (s', True)" by blast
          with fr ok act False show ?thesis
            by (intro disjI2 exI [of _ ?f] exI [of _ fr] exI [of _ action]) (simp add: handleFriendHandle_def run Let_def)
        qed (use fr ok in \<open>simp add: handleFriendHandle_def run Let_def\<close>)
      qed (use fr in \<open>auto simp: handleFriendHandle_def run Let_def\<close>)
    qed (simp add: handleFriendHandle_def run Let_def)
  qed (use False in \<open>simp add: handleFriendHandle_def with_params_def\<close>)
qed (simp add: handleFriendHandle_def with_params_def)

lemma no_access_when_blocked:
  assumes "isEitherBlocked s u v" "GetConversation s i = Some conv" "c_Type conv = ''private''"
    and "set (c_Participants conv) = {u, v}" "v \<noteq> u" "v \<noteq> []" "v \<noteq> ''fairy''" "\<not> HasPrefix i ''group_''"
  shows "\<not> canAccessConversation s u i"
proof -
  have "foldl (\<lambda>other candidate. if candidate \<noteq> u \<and> other = [] then candidate else other) acc ps =
      (if acc \<noteq> [] then acc else if v \<in> set ps then v else [])"
    if "set ps \<subseteq> {u, v}" "acc = [] \<or> acc = v" for ps acc
    using that assms(5,6) by (induction ps arbitrary: acc) auto
  from this [of "c_Participants conv" "[]"] assms(4)
  have "foldl (\<lambda>other candidate. if candidate \<noteq> u \<and> other = [] then candidate else other) [] (c_Participants conv) = v"
    by simp
  with assms show ?thesis by (simp add: canAccessConversation_def Let_def)
qed

lemma blocked_sym: "isEitherBlocked s u v = isEitherBlocked s v u"
  by (auto simp: isEitherBlocked_def)

text \<open>The store after a block request that passes its guards.\<close>

lemma handleSetUserBlocked_store:
  assumes "cl_userID (conn g c) = u" "u \<noteq> []" "as_obj (rqs_Params req) = Some params"
    and "TrimSpace (jstr params ''user_id'') = v" "jget params ''blocked'' = JBool True"
    and "v \<noteq> []" "v \<noteq> u" "GetUser (gw_store g) v \<noteq> None"
  shows "gw_store (handleSetUserBlocked e g c req) =
     fst (RemoveFriend (SetUserBlocked (gw_store g) u v True (env_now e 0)) u v)"
proof -
  define r where "r = RemoveFriend (SetUserBlocked (gw_store g) u v True (env_now e 0)) u v"
  have "with_params g c req msg k = k params" for msg k using assms(1-3) by (simp add: with_params_def)
  then show ?thesis
    using assms unfolding r_def [symmetric]
    by (auto simp: handleSetUserBlocked_def Let_def r_def [symmetric] split_beta)
qed

text \<open>Every other request of this theory adds no friendship.\<close>

lemma AreFriends_frame:
  "AreFriends (fst (CreateFriendRequest s u v cm now)) x y = AreFriends s x y"
  "AreFriends (SetUserBlocked s u v b now) x y = AreFriends s x y"
  "AreFriends (SaveConversation s conv) x y = AreFriends s x y"
  by (simp_all add: AreFriends_def CreateFriendRequest_def SetUserBlocked_def SaveConversation_def Let_def)

lemma no_friendship_added:
  "AreFriends (gw_store (handleFriendRequest e g c req)) x y \<Longrightarrow> AreFriends (gw_store g) x y"
  "AreFriends (gw_store (handleRemoveFriend e g c req)) x y \<Longrightarrow> AreFriends (gw_store g) x y"
  "AreFriends (gw_store (handleSetUserBlocked e g c req)) x y \<Longrightarrow> AreFriends (gw_store g) x y"
  "AreFriends (gw_store (handleEnsureConversation e g c req)) x y \<Longrightarrow> AreFriends (gw_store g) x y"
proof -
  have store: "(\<And>p. f (gw_store (k p)) \<Longrightarrow> f (gw_store g)) \<Longrightarrow> f (gw_store (with_params g c req msg k)) \<Longrightarrow> f (gw_store g)"
    for f :: "memory_store \<Rightarrow> bool" and msg k by (auto simp: with_params_store split: if_split_asm option.split_asm)
  have cr: "AreFriends s1 x y = AreFriends s x y" if "CreateFriendRequest s u v cm now = (s1, r)" for s s1 u v cm now r
    using that AreFriends_frame(1) [of s u v cm now] by simp
  have rm: "AreFriends s1 x y \<Longrightarrow> AreFriends s x y" if "RemoveFriend s u v = (s1, r)" for s s1 u v r
    using that AreFriends_RemoveFriend [of s u v] by simp
  show "AreFriends (gw_store (handleFriendRequest e g c req)) x y \<Longrightarrow> AreFriends (gw_store g) x y"
    unfolding handleFriendRequest_def
    by (rule store) (auto simp: Let_def cr split: if_split_asm prod.split_asm)
  show "AreFriends (gw_store (handleRemoveFriend e g c req)) x y \<Longrightarrow> AreFriends (gw_store g) x y"
    unfolding handleRemoveFriend_def
    by (rule store) (auto simp: Let_def dest: rm split: if_split_asm prod.split_asm)
  show "AreFriends (gw_store (handleSetUserBlocked e g c req)) x y \<Longrightarrow> AreFriends (gw_store g) x y"
    unfolding handleSetUserBlocked_def
    by (rule store) (auto simp: Let_def AreFriends_frame dest!: rm split: if_split_asm prod.split_asm option.split_asm)
  show "AreFriends (gw_store (handleEnsureConversation e g c req)) x y \<Longrightarrow> AreFriends (gw_store g) x y"
    unfolding handleEnsureConversation_def
    by (rule store) (auto simp: Let_def AreFriends_frame split: if_split_asm option.split_asm)
qed

text \<open>An accepted request between the two is the only way a friendship appears.\<close>

lemma friendship_by_accepting:
  assumes "AreFriends (gw_store (handleFriendHandle e g c req)) x y" "\<not> AreFriends (gw_store g) x y"
  shows "\<exists>flag fr. GetFriendRequest (gw_store g) flag = Some fr \<and> fr_Status fr = ''pending''
     \<and> fr_ToID fr = cl_userID (conn g c) \<and> {fr_FromID fr, fr_ToID fr} = {x, y}
     \<and> GetFriendRequest (gw_store (handleFriendHandle e g c req)) flag = Some (fr\<lparr>fr_Status := ''accepted''\<rparr>)"
proof -
  let ?s = "gw_store g" and ?t = "gw_store (handleFriendHandle e g c req)"
  obtain flag fr action where fr: "GetFriendRequest ?s flag = Some fr" "fr_ToID fr = cl_userID (conn g c)"
      "fr_Status fr = ''pending''" and t: "?t = fst (decide_friend_request ?s fr flag action (env_now e 0))"
    using handleFriendHandle_cases [of e g c req] assms by metis
  obtain s' where s': "decide_friend_request ?s fr flag action (env_now e 0) = (s', True)"
      "GetFriendRequest s' flag = Some (fr\<lparr>fr_Status := action\<rparr>)"
      "AreFriends s' x y \<longleftrightarrow> (if action = ''accepted'' then
          AreFriends (fst (AddFriend ?s (fr_FromID fr) (fr_ToID fr) (env_now e 0))) x y else AreFriends ?s x y)"
    using decide_friend_request_spec [OF fr(1,3)] by metis
  with assms t have "action = ''accepted''" "{fr_FromID fr, fr_ToID fr} = {x, y}"
    by (auto simp: AreFriends_AddFriend split: if_split_asm)
  with fr s' t show ?thesis by (intro exI [of _ flag] exI [of _ fr]) simp
qed

end
