(* ===== verification/Gateway_Profiles.thy ===== *)
theory Gateway_Profiles
  imports Gateway_Auth Gateway_Friends
begin

text \<open>
  Accounts and profile cards through the gateway (\<open>internal/gateway/gateway.go\<close>, \<open>handleRegister\<close>,
  \<open>handleUpdateProfile\<close>, the user lists, \<open>handleUploadFile\<close>; \<open>internal/gateway/profile_cards.go\<close>).
\<close>

section \<open>Checks\<close>

definition allowedTitleStyles :: "string list" where
  "allowedTitleStyles = [''gold'', ''red'', ''yellow'', ''aurora'', ''ember'']"

definition allowedReportReasons :: "string list" where
  "allowedReportReasons = [''spam'', ''harassment'', ''impersonation'', ''inappropriate'', ''other'']"

text \<open>\<open>URL.Hostname\<close>: the host without its port and brackets.\<close>

definition valid_port :: "string \<Rightarrow> bool" where
  "valid_port v \<longleftrightarrow> v = [] \<or> (hd v = CHR '':'' \<and> list_all (\<lambda>c. c \<in> set ''0123456789'') (tl v))"

definition Hostname :: "string \<Rightarrow> string" where
  "Hostname hostPort =
     (let port = rev (takeWhile (\<lambda>c. c \<noteq> CHR '':'') (rev hostPort)); colon = length hostPort - length port - 1;
          host = (if CHR '':'' \<in> set hostPort \<and> valid_port (CHR '':'' # port) then take colon hostPort else hostPort)
      in if 1 < length host \<and> hd host = CHR ''['' \<and> last host = CHR '']'' then butlast (tl host) else host)"

definition HasSuffix :: "string \<Rightarrow> string \<Rightarrow> bool" where
  "HasSuffix v suffix \<longleftrightarrow> HasPrefix (rev v) (rev suffix)"

definition validProfileBackgroundURL :: "env \<Rightarrow> string \<Rightarrow> bool" where
  "validProfileBackgroundURL e raw =
     (if raw = [] then True
      else if 2048 < length raw \<or> raw \<noteq> TrimSpace raw then False
      else
        (case gs_ParseRequestURI (env_std e) raw of
           None \<Rightarrow> False
         | Some u \<Rightarrow>
             if url_Scheme u \<noteq> ''https'' \<or> url_Host u = [] \<or> url_User u then False
             else
               (let lower = gt_ToLower (env_text e) (Hostname (url_Host u));
                    host = (if HasSuffix lower ''.'' then butlast lower else lower) in
                if host = ''localhost'' \<or> HasSuffix host ''.localhost'' then False
                else
                  (case env_ParseIP e host of
                     None \<Rightarrow> True
                   | Some addr \<Rightarrow>
                       \<not> ip_Loopback addr \<and> \<not> ip_Private addr \<and> \<not> ip_Unspecified addr \<and> \<not> ip_LinkLocalUnicast addr
                       \<and> \<not> ip_LinkLocalMulticast addr \<and> \<not> ip_Multicast addr))))"

definition validProfileBackgroundColor :: "string \<Rightarrow> bool" where
  "validProfileBackgroundColor raw \<longleftrightarrow>
     raw = [] \<or> (length raw = 7 \<and> hd raw = CHR ''#'' \<and> list_all hex_digit (tl raw))"

text \<open>\<open>strings.ToUpper\<close> on the hexadecimal digits a valid colour consists of\<close>

definition upper_char :: "char \<Rightarrow> char" where
  "upper_char c = (if c \<in> set ''abcdef'' then char_of ((of_char c :: nat) - 32) else c)"

section \<open>Cards\<close>

record protocol_user =
  pu_UserID :: string
  pu_Nickname :: string
  pu_Avatar :: string
  pu_Bio :: string
  pu_CardBackgroundURL :: string
  pu_CardBackgroundColor :: string
  pu_CardBackgroundSensitive :: bool
  pu_ShowMutualGroups :: bool
  pu_ShowAccountID :: bool
  pu_Online :: bool
  pu_Relationship :: string
  pu_Titles :: "json list"
  pu_MutualGroups :: "json list"

definition omit_list :: "string \<Rightarrow> json list \<Rightarrow> (string \<times> json) list" where
  "omit_list key xs = (if xs = [] then [] else [(key, JArr xs)])"

definition user_json :: "protocol_user \<Rightarrow> json" where
  "user_json u =
     JObj (omit_str ''user_id'' (pu_UserID u) @ [(''nickname'', JStr (pu_Nickname u))] @ omit_str ''avatar_url'' (pu_Avatar u)
       @ omit_str ''bio'' (pu_Bio u) @ omit_str ''card_background_url'' (pu_CardBackgroundURL u)
       @ omit_str ''card_background_color'' (pu_CardBackgroundColor u)
       @ [(''card_background_sensitive'', JBool (pu_CardBackgroundSensitive u)),
          (''show_mutual_groups'', JBool (pu_ShowMutualGroups u)), (''show_account_id'', JBool (pu_ShowAccountID u)),
          (''online'', JBool (pu_Online u))]
       @ omit_str ''relationship'' (pu_Relationship u) @ omit_list ''titles'' (pu_Titles u)
       @ omit_list ''mutual_groups'' (pu_MutualGroups u))"

text \<open>The short form of the lists: identifier, name, avatar and presence.\<close>

definition brief_user :: "user \<Rightarrow> protocol_user" where
  "brief_user u =
     \<lparr> pu_UserID = u_ID u, pu_Nickname = u_Nickname u, pu_Avatar = u_Avatar u, pu_Bio = [], pu_CardBackgroundURL = [],
       pu_CardBackgroundColor = [], pu_CardBackgroundSensitive = False, pu_ShowMutualGroups = False,
       pu_ShowAccountID = False, pu_Online = u_Online u, pu_Relationship = [], pu_Titles = [], pu_MutualGroups = [] \<rparr>"

definition protocolTitle :: "user_title \<Rightarrow> json" where
  "protocolTitle t =
     JObj ([(''title_id'', JStr (ut_ID t)), (''scope_type'', JStr (ut_ScopeType t))] @ omit_str ''scope_id'' (ut_ScopeID t)
       @ [(''text'', JStr (ut_Text t)), (''style'', JStr (ut_Style t)), (''granted_by'', JStr (ut_GrantedBy t))]
       @ omit_int ''expires_at'' (case ut_ExpiresAt t of Some x \<Rightarrow> Unix x | None \<Rightarrow> 0)
       @ [(''created_at'', jint (Unix (ut_CreatedAt t)))])"

definition mutualGroups :: "memory_store \<Rightarrow> string \<Rightarrow> string \<Rightarrow> json list" where
  "mutualGroups s viewerID targetID =
     map (\<lambda>grp. JObj ([(''group_id'', JStr (g_ID grp)), (''name'', JStr (g_Name grp))] @ omit_str ''avatar_url'' (g_Avatar grp)
            @ [(''owner_id'', JStr (g_OwnerID grp)), (''member_count'', jint (int (length (GetGroupMembers s (g_ID grp))))),
               (''mute_all'', JBool (g_MuteAll grp))]))
       (filter (\<lambda>grp. g_ID grp \<in> set (map g_ID (GetUserGroups s viewerID))) (GetUserGroups s targetID))"

definition profileUser :: "memory_store \<Rightarrow> string \<Rightarrow> user \<Rightarrow> string \<Rightarrow> gotime \<Rightarrow> protocol_user" where
  "profileUser s viewerID u groupID now =
     \<lparr> pu_UserID = (if viewerID \<noteq> u_ID u \<and> \<not> u_ShowAccountID u then [] else u_ID u),
       pu_Nickname = u_Nickname u, pu_Avatar = u_Avatar u, pu_Bio = u_Bio u,
       pu_CardBackgroundURL = u_CardBackgroundURL u, pu_CardBackgroundColor = u_CardBackgroundColor u,
       pu_CardBackgroundSensitive = u_CardBackgroundSensitive u, pu_ShowMutualGroups = u_ShowMutualGroups u,
       pu_ShowAccountID = u_ShowAccountID u, pu_Online = u_Online u,
       pu_Relationship = (if IsUserBlocked s viewerID (u_ID u) then ''blocked''
          else if IsUserBlocked s (u_ID u) viewerID then ''blocked_by''
          else if AreFriends s viewerID (u_ID u) then ''friend'' else []),
       pu_Titles = map protocolTitle (GetUserTitles s (u_ID u) groupID now),
       pu_MutualGroups = (if u_ShowMutualGroups u \<or> viewerID = u_ID u then mutualGroups s viewerID (u_ID u) else []) \<rparr>"

section \<open>Media uploads\<close>

text \<open>\<open>g.media.Save\<close> on the local store; the caller has checked that there is one.\<close>

definition save_media ::
  "env \<Rightarrow> gateway \<Rightarrow> string \<Rightarrow> string \<Rightarrow> string \<Rightarrow> string \<Rightarrow> string \<Rightarrow> gotime \<Rightarrow> gateway \<times> (media_error + media_file)" where
  "save_media e g fileName fileType contentType data uploaderID now =
     (case LocalStore_Save (env_media e) (case gw_media g of Some d \<Rightarrow> d | None \<Rightarrow> []) (gw_store g)
             fileName fileType contentType data uploaderID now of
        (d, s, r) \<Rightarrow> (g\<lparr>gw_media := Some d, gw_store := s\<rparr>, r))"

definition handleUploadFile :: "env \<Rightarrow> gateway \<Rightarrow> nat \<Rightarrow> request \<Rightarrow> gateway" where
  "handleUploadFile e g c req =
     with_params g c req ''invalid params'' (\<lambda>params.
       let fail = (\<lambda>h. sendError h c (rqs_Echo req)); fileName = jstr params ''file_name''; fileData = jstr params ''file'';
           fileType = jstr params ''file_type'';
           maxBytes = (if fileType = ''voice'' then 10 * 1024 * 1024 else 20 * 1024 * 1024) in
       if fileName = [] \<or> fileData = [] then fail g ''file_name and file required''
       else if fileType \<notin> {''image'', ''voice'', ''video'', ''file''} then fail g ''invalid file_type''
       else if gw_media g = None then fail g ''media storage is not configured''
       else if maxBytes * 4 div 3 + 16 < length fileData then fail g ''file exceeds the size limit''
       else
         (case env_base64 e fileData of
            None \<Rightarrow> fail g ''invalid base64 file data''
          | Some data \<Rightarrow>
              if data = [] \<or> maxBytes < length data then fail g ''file exceeds the size limit''
              else
                (case save_media e g fileName fileType (jstr params ''mime_type'') data (cl_userID (conn g c)) (env_now e 0) of
                   (g1, Inl _) \<Rightarrow> fail g1 ''failed to store file''
                 | (g1, Inr media) \<Rightarrow>
                     sendJSON g1 c (ok_response (JObj
                       [(''file_id'', JStr (mf_ID media)), (''url'', JStr (mf_URL media)),
                        (''thumbnail_url'', JStr (mf_ThumbnailURL media)), (''mime_type'', JStr (mf_MimeType media)),
                        (''size'', jint (mf_Size media)), (''width'', jint (mf_Width media)),
                        (''height'', jint (mf_Height media))]) (rqs_Echo req)))))"

section \<open>Registration\<close>

text \<open>The avatar of a new account: its URL, after an upload where the request carries a file.\<close>

definition register_avatar :: "env \<Rightarrow> gateway \<Rightarrow> jobject \<Rightarrow> string \<Rightarrow> string \<Rightarrow> gateway \<times> string res" where
  "register_avatar e g params userID avatarURL =
     (let avatarFile = jstr params ''avatar_file''; mx = env_media e in
      if avatarFile = [] then (g, Inr avatarURL)
      else if gw_media g = None then (g, Inl ''avatar storage is not configured'')
      else if 7 * 1024 * 1024 < length avatarFile then (g, Inl ''avatar must be 5 MB or smaller'')
      else
        (case env_base64 e avatarFile of
           None \<Rightarrow> (g, Inl ''invalid avatar file'')
         | Some avatarData \<Rightarrow>
             if avatarData = [] \<or> 5 * 1024 * 1024 < length avatarData then (g, Inl ''invalid avatar file'')
             else
               (let detectedType = mx_DetectContentType mx avatarData; given = jstr params ''avatar_mime_type'' in
                if \<not> HasPrefix detectedType ''image/'' \<or> detectedType = ''image/svg+xml''
                then (g, Inl ''avatar must be a supported raster image'')
                else
                  (case save_media e g (if TrimSpace (jstr params ''avatar_file_name'') = [] then ''avatar''
                                        else jstr params ''avatar_file_name'')
                          ''image'' (if HasPrefix given ''image/'' then given else detectedType) avatarData userID (env_now e 0) of
                     (g1, Inl _) \<Rightarrow> (g1, Inl ''failed to store avatar'')
                   | (g1, Inr media) \<Rightarrow>
                       (g1, if mf_URL media = [] then Inl ''failed to store avatar'' else Inr (mf_URL media))))))"

definition registered_user :: "string \<Rightarrow> string \<Rightarrow> string \<Rightarrow> string \<Rightarrow> gotime \<Rightarrow> user" where
  "registered_user userID nickname avatarURL hash now =
     (new_account userID)\<lparr>u_Nickname := nickname, u_Avatar := avatarURL, u_PasswordHash := hash, u_Online := True,
       u_CreatedAt := now\<rparr>"

definition handleRegister :: "env \<Rightarrow> gateway \<Rightarrow> nat \<Rightarrow> request \<Rightarrow> gateway" where
  "handleRegister e g c req =
     (let fail = (\<lambda>h. sendError h c (rqs_Echo req)) in
      case as_obj (rqs_Params req) of
        None \<Rightarrow> fail g ''invalid register params''
      | Some params \<Rightarrow>
          (let userID = TrimSpace (jstr params ''user_id''); password = jstr params ''password'';
               nickname = (let v = TrimSpace (jstr params ''nickname'') in if v = [] then userID else v);
               inviteCode = TrimSpace (jstr params ''invite_code''); avatarURL = TrimSpace (jstr params ''avatar_url'') in
           if gw_inviteCode g = [] then fail g ''registration is disabled''
           else if env_hash e (gw_inviteCode g) \<noteq> env_hash e inviteCode then fail g ''invalid invite code''
           else if \<not> validUserID userID \<or> length userID < 3 \<or> 32 < length userID
           then fail g ''user_id must be 3-32 characters''
           else if length password < 8 \<or> 72 < length password then fail g ''password must be 8-72 characters''
           else if 64 < length nickname then fail g ''nickname is too long''
           else if 2048 < length avatarURL \<or> (avatarURL \<noteq> [] \<and> jstr params ''avatar_file'' \<noteq> [])
           then fail g ''choose either a built-in or uploaded avatar''
           else if GetUser (gw_store g) userID \<noteq> None then fail g ''account already exists''
           else
             (case env_bcrypt e password of
                None \<Rightarrow> fail g ''failed to create account''
              | Some hash \<Rightarrow>
                  (case register_avatar e g params userID avatarURL of
                     (g1, Inl err) \<Rightarrow> fail g1 err
                   | (g1, Inr avatar) \<Rightarrow>
                       (let usr = registered_user userID nickname avatar hash (env_now e 1);
                            issued = issueSession e (SetUser (gw_store g1) usr) userID (env_now e 2) (env_now e 3)
                        in sendJSON (set_store g1 (fst issued)) c (ok_response (JObj
                             [(''user_id'', JStr userID), (''nickname'', JStr nickname), (''avatar_url'', JStr avatar),
                              (''session_token'', JStr (snd issued))]) (rqs_Echo req)))))))"

section \<open>Profiles\<close>

text \<open>
  The store hands out the live account, so a field that is set before a later check fails stays
  set. A field is a key of the request and what its value does to the account.
\<close>

type_synonym profile_field = "string \<times> (json \<Rightarrow> user \<Rightarrow> user res)"

definition text_value :: "string \<Rightarrow> (string \<Rightarrow> bool) \<Rightarrow> (string \<Rightarrow> string) \<Rightarrow> (string \<Rightarrow> user \<Rightarrow> user) \<Rightarrow> json \<Rightarrow> user \<Rightarrow> user res" where
  "text_value err valid clean put v u =
     (case as_str v of None \<Rightarrow> Inl err | Some t \<Rightarrow> if valid (clean t) then Inr (put (clean t) u) else Inl err)"

definition bool_value :: "string \<Rightarrow> (bool \<Rightarrow> user \<Rightarrow> user) \<Rightarrow> json \<Rightarrow> user \<Rightarrow> user res" where
  "bool_value err put v u = (case as_bool v of None \<Rightarrow> Inl err | Some b \<Rightarrow> Inr (put b u))"

definition profile_fields :: "env \<Rightarrow> profile_field list" where
  "profile_fields e =
     [(''nickname'', text_value ''nickname must be 1-64 characters'' (\<lambda>t. t \<noteq> [] \<and> length t \<le> 64) TrimSpace
         (\<lambda>t u. u\<lparr>u_Nickname := t\<rparr>)),
      (''avatar_url'', text_value ''avatar url is invalid'' (\<lambda>t. length t \<le> 2048) (\<lambda>t. t) (\<lambda>t u. u\<lparr>u_Avatar := t\<rparr>)),
      (''bio'', text_value ''bio must not exceed 280 characters'' (\<lambda>t. rune_count t \<le> 280) TrimSpace (\<lambda>t u. u\<lparr>u_Bio := t\<rparr>)),
      (''card_background_url'', text_value ''card background must be a public HTTPS image URL''
         (validProfileBackgroundURL e) TrimSpace (\<lambda>t u. u\<lparr>u_CardBackgroundURL := t\<rparr>)),
      (''card_background_color'', text_value ''card background color must use #RRGGBB'' validProfileBackgroundColor TrimSpace
         (\<lambda>t u. u\<lparr>u_CardBackgroundColor := map upper_char t\<rparr>)),
      (''card_background_sensitive'', bool_value ''card background sensitivity is invalid''
         (\<lambda>b u. u\<lparr>u_CardBackgroundSensitive := b\<rparr>)),
      (''show_mutual_groups'', bool_value ''mutual group privacy is invalid'' (\<lambda>b u. u\<lparr>u_ShowMutualGroups := b\<rparr>)),
      (''show_account_id'', bool_value ''account ID privacy is invalid'' (\<lambda>b u. u\<lparr>u_ShowAccountID := b\<rparr>))]"

fun update_fields :: "jobject \<Rightarrow> profile_field list \<Rightarrow> user \<Rightarrow> user \<times> string option" where
  "update_fields params [] u = (u, None)"
| "update_fields params ((key, put) # rest) u =
     (case gm_get params key of
        None \<Rightarrow> update_fields params rest u
      | Some v \<Rightarrow> (case put v u of Inl err \<Rightarrow> (u, Some err) | Inr u' \<Rightarrow> update_fields params rest u'))"

definition notifyProfileUpdate :: "env \<Rightarrow> gateway \<Rightarrow> user \<Rightarrow> nat \<Rightarrow> gotime \<Rightarrow> gateway" where
  "notifyProfileUpdate e g u exclude now =
     (let event = ONotice ((notice ''profile_update'')\<lparr>ne_UserID := u_ID u, ne_Nickname := u_Nickname u,
            ne_Avatar := u_Avatar u, ne_ProfileVersion := UnixMilli now\<rparr>);
          g1 = foldl (deliver (env_std e) event) g (filter (\<lambda>d. d \<noteq> exclude) (clientsForUser g (u_ID u)))
      in foldl (\<lambda>h friend. sendToUser (env_std e) h (u_ID friend) event) g1
           (filter (\<lambda>friend. u_ID friend \<noteq> u_ID u) (GetFriends (gw_store g) (u_ID u))))"

definition handleUpdateProfile :: "env \<Rightarrow> gateway \<Rightarrow> nat \<Rightarrow> request \<Rightarrow> gateway" where
  "handleUpdateProfile e g c req =
     with_params g c req ''invalid update_profile params'' (\<lambda>params.
       let userID = cl_userID (conn g c) in
       case GetUser (gw_store g) userID of
         None \<Rightarrow> sendError g c (rqs_Echo req) ''account not found''
       | Some u \<Rightarrow>
           (case update_fields params (profile_fields e) u of
              (u1, Some err) \<Rightarrow> sendError (set_store g (SetUser (gw_store g) u1)) c (rqs_Echo req) err
            | (u1, None) \<Rightarrow>
                (let g1 = set_store g (SetUser (gw_store g) u1); g2 = notifyProfileUpdate e g1 u1 c (env_now e 0)
                 in sendJSON g2 c (ok_response (user_json (profileUser (gw_store g2) userID u1 [] (env_now e 1))) (rqs_Echo req)))))"

section \<open>Looking up users\<close>

definition handleGetUser :: "env \<Rightarrow> gateway \<Rightarrow> nat \<Rightarrow> request \<Rightarrow> gateway" where
  "handleGetUser e g c req =
     with_params g c req ''invalid params'' (\<lambda>params.
       let s = gw_store g; viewer = cl_userID (conn g c); userID = jstr params ''user_id'';
           asked = jstr params ''group_id'';
           groupID = (if asked \<noteq> [] \<and> (\<not> IsGroupMember s asked viewer \<or> \<not> IsGroupMember s asked userID) then [] else asked) in
       case GetUser s userID of
         None \<Rightarrow> sendError g c (rqs_Echo req) ''user not found''
       | Some u \<Rightarrow> sendJSON g c (ok_response (user_json (profileUser s viewer u groupID (env_now e 0))) (rqs_Echo req)))"

definition handleGetUsers :: "gateway \<Rightarrow> nat \<Rightarrow> request \<Rightarrow> gateway" where
  "handleGetUsers g c req =
     (if cl_userID (conn g c) = [] then sendError g c (rqs_Echo req) ''not authenticated''
      else sendJSON g c (ok_response (JArr (map (user_json \<circ> brief_user) (GetFriends (gw_store g) (cl_userID (conn g c)))))
             (rqs_Echo req)))"

definition handleGetFriends :: "gateway \<Rightarrow> nat \<Rightarrow> request \<Rightarrow> gateway" where
  "handleGetFriends g c req =
     (if cl_userID (conn g c) = [] then sendError g c (rqs_Echo req) ''not authenticated''
      else sendJSON g c (ok_response (JArr (map (user_json \<circ> brief_user)
             (filter (\<lambda>u. u_ID u \<noteq> cl_userID (conn g c)) (GetFriends (gw_store g) (cl_userID (conn g c)))))) (rqs_Echo req)))"

definition relationship :: "memory_store \<Rightarrow> string \<Rightarrow> friend_request list \<Rightarrow> string \<Rightarrow> string" where
  "relationship s viewer requests userID =
     (if AreFriends s viewer userID then ''friend''
      else
        (case List.find (\<lambda>r. (fr_FromID r = viewer \<and> fr_ToID r = userID) \<or> (fr_ToID r = viewer \<and> fr_FromID r = userID)) requests of
           None \<Rightarrow> ''none''
         | Some r \<Rightarrow> if fr_FromID r = viewer \<and> fr_ToID r = userID then ''outgoing'' else ''incoming''))"

definition search_less :: "go_text \<Rightarrow> string \<Rightarrow> protocol_user \<Rightarrow> protocol_user \<Rightarrow> bool" where
  "search_less gt query x y =
     (let lower = gt_ToLower gt; exact = (\<lambda>u. lower (pu_UserID u) = query) in
      if exact x \<noteq> exact y then exact x else lower (pu_Nickname x) < lower (pu_Nickname y))"

definition handleSearchUsers :: "env \<Rightarrow> gateway \<Rightarrow> nat \<Rightarrow> request \<Rightarrow> gateway" where
  "handleSearchUsers e g c req =
     with_params g c req ''invalid search_users params'' (\<lambda>params.
       let s = gw_store g; viewer = cl_userID (conn g c); lower = gt_ToLower (env_text e);
           query = lower (TrimSpace (jstr params ''query''));
           requests = GetPendingFriendRequests s viewer;
           matches = filter (\<lambda>u. \<not> (u_ID u = viewer \<or> (\<not> contains_text (lower (u_ID u)) query
                               \<and> \<not> contains_text (lower (u_Nickname u)) query))) (GetUsers s);
           result = map (\<lambda>u. (brief_user u)\<lparr>pu_Relationship := relationship s viewer requests (u_ID u)\<rparr>) matches in
       if query = [] \<or> 64 < length query then sendError g c (rqs_Echo req) ''query must be 1-64 characters''
       else sendJSON g c (ok_response (JArr (map user_json (take 20 (go_sort (search_less (env_text e) query) result))))
              (rqs_Echo req)))"

definition handleGetFriendRequests :: "gateway \<Rightarrow> nat \<Rightarrow> request \<Rightarrow> gateway" where
  "handleGetFriendRequests g c req =
     (let s = gw_store g in
      if cl_userID (conn g c) = [] then sendError g c (rqs_Echo req) ''not authenticated''
      else sendJSON g c (ok_response (JArr (concat (map (\<lambda>r.
             case (GetUser s (fr_FromID r), GetUser s (fr_ToID r)) of
               (Some sender, Some receiver) \<Rightarrow>
                 [JObj ([(''flag'', JStr (fr_ID r)), (''from_user'', user_json (brief_user sender)),
                         (''to_user'', user_json (brief_user receiver))] @ omit_str ''comment'' (fr_Comment r)
                    @ [(''status'', JStr (fr_Status r)), (''created_at'', jint (Unix (fr_CreatedAt r)))])]
             | _ \<Rightarrow> []) (GetPendingFriendRequests s (cl_userID (conn g c)))))) (rqs_Echo req)))"

section \<open>Reports and titles\<close>

definition handleReportUser :: "env \<Rightarrow> gateway \<Rightarrow> nat \<Rightarrow> request \<Rightarrow> gateway" where
  "handleReportUser e g c req =
     with_params g c req ''invalid report_user params'' (\<lambda>params.
       let fail = sendError g c (rqs_Echo req); s = gw_store g; userID = cl_userID (conn g c);
           targetID = TrimSpace (jstr params ''user_id''); reason = TrimSpace (jstr params ''reason'');
           details = TrimSpace (jstr params ''details'') in
       if targetID = [] \<or> targetID = userID \<or> reason \<notin> set allowedReportReasons \<or> 500 < rune_count details
       then fail ''report target, reason, or details are invalid''
       else if GetUser s targetID = None then fail ''user not found''
       else
         (let report = \<lparr> ur_ID = ''report_'' @ show_int (UnixNano (env_now e 0)), ur_ReporterID = userID,
                         ur_TargetID = targetID, ur_Reason = reason, ur_Details = details, ur_CreatedAt = env_now e 1 \<rparr>
          in sendJSON (set_store g (CreateUserReport s report (env_now e 2))) c
               (ok_response (JObj [(''report_id'', JStr (ur_ID report))]) (rqs_Echo req))))"

text \<open>\<open>time.Unix(sec, 0)\<close> counts from year one in 64 bits.\<close>

definition parseTitleExpiration :: "env \<Rightarrow> json \<Rightarrow> gotime \<Rightarrow> gotime \<times> bool" where
  "parseTitleExpiration e raw now =
     (let parsed = (case raw of
            JStr v \<Rightarrow> (case env_parseRFC3339 e v of Some t \<Rightarrow> t | None \<Rightarrow> zero_time)
          | JNum r \<Rightarrow> wrap64 (float_to_int64 r + 62135596800) * 10 ^ 9
          | _ \<Rightarrow> zero_time)
      in (parsed, now < parsed))"

definition handleGrantUserTitle :: "env \<Rightarrow> gateway \<Rightarrow> nat \<Rightarrow> request \<Rightarrow> gateway" where
  "handleGrantUserTitle e g c req =
     with_params g c req ''invalid grant_user_title params'' (\<lambda>params.
       let fail = sendError g c (rqs_Echo req); s = gw_store g; userID = cl_userID (conn g c);
           groupID = TrimSpace (jstr params ''group_id''); targetID = TrimSpace (jstr params ''user_id'');
           title_text = TrimSpace (jstr params ''text''); style = TrimSpace (jstr params ''style'');
           raw = jget params ''expires_at''; limited = (raw \<noteq> JNull \<and> raw \<noteq> JStr []);
           expiry = parseTitleExpiration e raw (env_now e 0);
           title = \<lparr> ut_ID = ''title_'' @ show_int (UnixNano (env_now e 1)), ut_UserID = targetID, ut_ScopeType = ''group'',
                     ut_ScopeID = groupID, ut_Text = title_text, ut_Style = style, ut_GrantedBy = userID,
                     ut_ExpiresAt = (if limited then Some (fst expiry) else None), ut_CreatedAt = env_now e 2 \<rparr> in
       if groupID = [] \<or> targetID = [] \<or> rune_count title_text = 0 \<or> 24 < rune_count title_text \<or> style \<notin> set allowedTitleStyles
       then fail ''group title fields are invalid''
       else if \<not> isGroupAdmin s groupID userID then fail ''group manager permission required''
       else if \<not> IsGroupMember s groupID targetID then fail ''target user is not a group member''
       else if limited \<and> \<not> snd expiry then fail ''title expiration must be a future RFC3339 time''
       else
         (case GrantUserTitle s title (env_now e 3) of
            (s1, Inl err) \<Rightarrow>
              sendError (set_store g s1) c (rqs_Echo req)
                (if err = ErrActiveTitleLimit then ''a user may have at most five active titles'' else ''failed to grant title'')
          | (s1, Inr _) \<Rightarrow> sendJSON (set_store g s1) c (ok_response (protocolTitle title) (rqs_Echo req))))"

definition handleRevokeUserTitle :: "env \<Rightarrow> gateway \<Rightarrow> nat \<Rightarrow> request \<Rightarrow> gateway" where
  "handleRevokeUserTitle e g c req =
     with_params g c req ''invalid revoke_user_title params'' (\<lambda>params.
       let fail = sendError g c (rqs_Echo req); s = gw_store g; groupID = jstr params ''group_id'';
           targetID = jstr params ''user_id''; titleID = jstr params ''title_id'' in
       if \<not> isGroupAdmin s groupID (cl_userID (conn g c)) then fail ''group manager permission required''
       else if \<not> list_ex (\<lambda>t. ut_ID t = titleID \<and> ut_ScopeType t = ''group'' \<and> ut_ScopeID t = groupID)
                    (GetUserTitles s targetID groupID (env_now e 0))
       then fail ''group title not found''
       else
         (case DeleteUserTitle s titleID of
            (s1, False) \<Rightarrow> sendError (set_store g s1) c (rqs_Echo req) ''failed to revoke title''
          | (s1, True) \<Rightarrow> sendJSON (set_store g s1) c (ok_response JNull (rqs_Echo req))))"

end
