(* ===== verification/Gateway_Announcements.thy ===== *)
theory Gateway_Announcements
  imports Gateway_Sending
begin

text \<open>
  Group announcements (\<open>internal/gateway/group_announcements.go\<close>) and terminal vaults
  (\<open>internal/gateway/terminal_vault.go\<close>).
\<close>

section \<open>Announcements\<close>

definition announcement_json :: "env \<Rightarrow> group_announcement \<Rightarrow> json" where
  "announcement_json e a =
     JObj [(''announcement_id'', JStr (an_ID a)), (''group_id'', JStr (an_GroupID a)), (''content'', JStr (an_Content a)),
           (''author_id'', JStr (an_AuthorID a)), (''is_pinned'', JBool (an_IsPinned a)), (''is_read'', JBool (an_IsRead a)),
           (''created_at'', JStr (env_timeJSON e (an_CreatedAt a))), (''updated_at'', JStr (env_timeJSON e (an_UpdatedAt a)))]"

text \<open>The two lookups: \<open>Inl\<close> is the error that has to be sent.\<close>

definition groupAnnouncementTarget :: "memory_store \<Rightarrow> string \<Rightarrow> jobject \<Rightarrow> bool \<Rightarrow> string res" where
  "groupAnnouncementTarget s userID params requireManager =
     (let groupID = jstr params ''group_id'' in
      if groupID = [] \<or> \<not> IsGroupMember s groupID userID then Inl ''group access denied''
      else if requireManager \<and> \<not> isGroupAdmin s groupID userID then Inl ''group permission denied''
      else Inr groupID)"

definition groupAnnouncementByID :: "memory_store \<Rightarrow> string \<Rightarrow> jobject \<Rightarrow> bool \<Rightarrow> group_announcement res" where
  "groupAnnouncementByID s userID params requireManager =
     (let ident = jstr params ''announcement_id'' in
      if ident = [] then Inl ''group announcement not found''
      else
        (case GetGroupAnnouncement s ident of
           None \<Rightarrow> Inl ''group announcement not found''
         | Some a \<Rightarrow>
             if \<not> IsGroupMember s (an_GroupID a) userID then Inl ''group access denied''
             else if requireManager \<and> \<not> isGroupAdmin s (an_GroupID a) userID then Inl ''group permission denied''
             else Inr a))"

text \<open>The newest announcement, pinned ones first, is copied into the group.\<close>

definition syncLegacyGroupAnnouncement :: "memory_store \<Rightarrow> string \<Rightarrow> memory_store" where
  "syncLegacyGroupAnnouncement s groupID =
     (case GetGroup s groupID of
        None \<Rightarrow> s
      | Some grp \<Rightarrow>
          fst (UpdateGroup s groupID (g_Name grp) (g_Avatar grp)
            (case GetGroupAnnouncements s groupID [] of [] \<Rightarrow> [] | a # _ \<Rightarrow> an_Content a) (g_MuteAll grp)))"

definition broadcastGroupAnnouncementNotice :: "env \<Rightarrow> gateway \<Rightarrow> string \<Rightarrow> string \<Rightarrow> string \<Rightarrow> string \<Rightarrow> gateway" where
  "broadcastGroupAnnouncementNotice e g groupID announcementID operatorID action =
     broadcastToConversation (env_std e) g groupID (ONotice ((notice ''group_announcement'')\<lparr>ne_GroupID := groupID,
       ne_AnnouncementID := announcementID, ne_OperatorID := operatorID, ne_Action := action\<rparr>)) []"

definition announcement_segment :: "group_announcement \<Rightarrow> message_segment" where
  "announcement_segment a =
     \<lparr> seg_Type = ''system'',
       seg_Data = [(''text'', JStr (''Group announcement: '' @ an_Content a)), (''event'', JStr ''group_announcement''),
                   (''announcement_id'', JStr (an_ID a))] \<rparr>"

definition publishGroupAnnouncement :: "env \<Rightarrow> gateway \<Rightarrow> string \<Rightarrow> group_announcement \<Rightarrow> gotime \<Rightarrow> gateway" where
  "publishGroupAnnouncement e g authorID a now =
     (let s = gw_store g; sender = sender_of s authorID; segments = [announcement_segment a] in
      case StoreMessage (env_msgDigest e) s (an_GroupID a) authorID (sd_Nickname sender) segments now of
        (s1, Inl _) \<Rightarrow> broadcastGroupAnnouncementNotice e (set_store g s1) (an_GroupID a) (an_ID a) authorID ''created''
      | (s1, Inr msg) \<Rightarrow>
          (let event = OMessage ((stored_event ''group'' (an_GroupID a) sender segments msg)\<lparr>me_Reactions := []\<rparr>);
               g1 = broadcastToConversation (env_std e) (set_store g s1) (an_GroupID a) event []
           in broadcastGroupAnnouncementNotice e (pushToConversation g1 (an_GroupID a) msg authorID True)
                (an_GroupID a) (an_ID a) authorID ''created''))"

definition handleGetGroupAnnouncements :: "env \<Rightarrow> gateway \<Rightarrow> nat \<Rightarrow> request \<Rightarrow> gateway" where
  "handleGetGroupAnnouncements e g c req =
     with_params g c req ''invalid group announcement params'' (\<lambda>params.
       case groupAnnouncementTarget (gw_store g) (cl_userID (conn g c)) params False of
         Inl err \<Rightarrow> sendError g c (rqs_Echo req) err
       | Inr groupID \<Rightarrow> sendJSON g c (ok_response (JArr (map (announcement_json e)
           (GetGroupAnnouncements (gw_store g) groupID (cl_userID (conn g c))))) (rqs_Echo req)))"

text \<open>The trimmed content and the pin, when both are valid.\<close>

definition announcement_input :: "jobject \<Rightarrow> (string \<times> bool) option" where
  "announcement_input params =
     (case (as_str (jget params ''content''), as_bool (jget params ''is_pinned'')) of
        (Some raw, Some isPinned) \<Rightarrow>
          if TrimSpace raw = [] \<or> 2000 < length (TrimSpace raw) then None else Some (TrimSpace raw, isPinned)
      | _ \<Rightarrow> None)"

definition handleCreateGroupAnnouncement :: "env \<Rightarrow> gateway \<Rightarrow> nat \<Rightarrow> request \<Rightarrow> gateway" where
  "handleCreateGroupAnnouncement e g c req =
     with_params g c req ''invalid group announcement params'' (\<lambda>params.
       let fail = (\<lambda>h. sendError h c (rqs_Echo req)); userID = cl_userID (conn g c) in
       case groupAnnouncementTarget (gw_store g) userID params True of
         Inl err \<Rightarrow> fail g err
       | Inr groupID \<Rightarrow>
           (case announcement_input params of
              None \<Rightarrow> fail g ''announcement content must be 1-2000 characters''
            | Some (content, isPinned) \<Rightarrow>
                (case CreateGroupAnnouncement (gw_store g) groupID content userID isPinned (env_now e 0) of
                   (s1, Inl _) \<Rightarrow> fail (set_store g s1) ''failed to create group announcement''
                 | (s1, Inr a) \<Rightarrow>
                     (let s2 = syncLegacyGroupAnnouncement (fst (MarkGroupAnnouncementRead s1 (an_ID a) userID)) groupID;
                          a1 = a\<lparr>an_IsRead := True\<rparr>;
                          g1 = sendJSON (set_store g s2) c (ok_response (announcement_json e a1) (rqs_Echo req))
                      in publishGroupAnnouncement e g1 userID a1 (env_now e 1)))))"

definition handleUpdateGroupAnnouncement :: "env \<Rightarrow> gateway \<Rightarrow> nat \<Rightarrow> request \<Rightarrow> gateway" where
  "handleUpdateGroupAnnouncement e g c req =
     with_params g c req ''invalid group announcement params'' (\<lambda>params.
       let fail = (\<lambda>h. sendError h c (rqs_Echo req)); userID = cl_userID (conn g c) in
       case groupAnnouncementByID (gw_store g) userID params True of
         Inl err \<Rightarrow> fail g err
       | Inr found \<Rightarrow>
           (case announcement_input params of
              None \<Rightarrow> fail g ''announcement content must be 1-2000 characters''
            | Some (content, isPinned) \<Rightarrow>
                (case UpdateGroupAnnouncement (gw_store g) (an_ID found) content isPinned (env_now e 0) of
                   (s1, None) \<Rightarrow> fail (set_store g s1) ''failed to update group announcement''
                 | (s1, Some updated) \<Rightarrow>
                     (let s2 = syncLegacyGroupAnnouncement (fst (MarkGroupAnnouncementRead s1 (an_ID updated) userID))
                                 (an_GroupID updated);
                          g1 = sendJSON (set_store g s2) c (ok_response (announcement_json e (updated\<lparr>an_IsRead := True\<rparr>)) (rqs_Echo req))
                      in broadcastGroupAnnouncementNotice e g1 (an_GroupID updated) (an_ID updated) userID ''updated''))))"

definition handleDeleteGroupAnnouncement :: "env \<Rightarrow> gateway \<Rightarrow> nat \<Rightarrow> request \<Rightarrow> gateway" where
  "handleDeleteGroupAnnouncement e g c req =
     with_params g c req ''invalid group announcement params'' (\<lambda>params.
       let userID = cl_userID (conn g c) in
       case groupAnnouncementByID (gw_store g) userID params True of
         Inl err \<Rightarrow> sendError g c (rqs_Echo req) err
       | Inr found \<Rightarrow>
           (case DeleteGroupAnnouncement (gw_store g) (an_ID found) of
              (s1, False) \<Rightarrow> sendError (set_store g s1) c (rqs_Echo req) ''failed to delete group announcement''
            | (s1, True) \<Rightarrow>
                broadcastGroupAnnouncementNotice e
                  (sendJSON (set_store g (syncLegacyGroupAnnouncement s1 (an_GroupID found))) c (ok_response JNull (rqs_Echo req)))
                  (an_GroupID found) (an_ID found) userID ''deleted''))"

definition handleMarkGroupAnnouncementRead :: "env \<Rightarrow> gateway \<Rightarrow> nat \<Rightarrow> request \<Rightarrow> gateway" where
  "handleMarkGroupAnnouncementRead e g c req =
     with_params g c req ''invalid group announcement params'' (\<lambda>params.
       let userID = cl_userID (conn g c) in
       case groupAnnouncementByID (gw_store g) userID params False of
         Inl err \<Rightarrow> sendError g c (rqs_Echo req) err
       | Inr found \<Rightarrow>
           (case MarkGroupAnnouncementRead (gw_store g) (an_ID found) userID of
              (s1, Inl _) \<Rightarrow> sendError (set_store g s1) c (rqs_Echo req) ''failed to mark group announcement read''
            | (s1, Inr _) \<Rightarrow>
                sendToUser (env_std e) (sendJSON (set_store g s1) c (ok_response JNull (rqs_Echo req))) userID
                  (ONotice ((notice ''group_announcement'')\<lparr>ne_GroupID := an_GroupID found, ne_AnnouncementID := an_ID found,
                     ne_OperatorID := userID, ne_Action := ''read''\<rparr>))))"

section \<open>Terminal vaults\<close>

definition maxTerminalVaultPayloadBytes :: nat where "maxTerminalVaultPayloadBytes = 4 * 1024 * 1024"

definition vault_json :: "env \<Rightarrow> terminal_vault \<Rightarrow> json" where
  "vault_json e v =
     JObj [(''payload'', JStr (tv_Payload v)), (''revision'', jint (tv_Revision v)),
           (''updated_at'', JStr (env_timeJSON e (tv_UpdatedAt v)))]"

definition handleGetTerminalVault :: "env \<Rightarrow> gateway \<Rightarrow> nat \<Rightarrow> request \<Rightarrow> gateway" where
  "handleGetTerminalVault e g c req =
     (if cl_userID (conn g c) = [] then sendError g c (rqs_Echo req) ''not authenticated''
      else sendJSON g c (ok_response
             (case GetTerminalVault (gw_store g) (cl_userID (conn g c)) of
                None \<Rightarrow> JObj [(''revision'', jint 0)] | Some v \<Rightarrow> vault_json e v) (rqs_Echo req)))"

definition handlePutTerminalVault :: "env \<Rightarrow> gateway \<Rightarrow> nat \<Rightarrow> request \<Rightarrow> gateway" where
  "handlePutTerminalVault e g c req =
     with_params g c req ''invalid terminal vault params'' (\<lambda>params.
       let fail = sendError g c (rqs_Echo req); payload = jstr params ''payload'' in
       if TrimSpace payload = [] \<or> maxTerminalVaultPayloadBytes < length payload
       then fail ''terminal vault payload must contain 1-4194304 bytes''
       else
         (case as_num (jget params ''expected_revision'') of
            None \<Rightarrow> fail ''terminal vault expected_revision is invalid''
          | Some expected \<Rightarrow>
              if expected < 0 \<or> expected \<noteq> of_int (float_to_int64 expected)
              then fail ''terminal vault expected_revision is invalid''
              else
                (case PutTerminalVault (gw_store g) (cl_userID (conn g c)) payload (float_to_int64 expected) (env_now e 0) of
                   (s1, Inl (current, _)) \<Rightarrow>
                     sendJSON (set_store g s1) c
                       \<lparr> rp_Status = ''failed'', rp_RetCode = 409,
                         rp_Data = JObj [(''revision'', jint (case current of Some v \<Rightarrow> tv_Revision v | None \<Rightarrow> 0))],
                         rp_Msg = ''terminal vault revision conflict'', rp_Echo = rqs_Echo req \<rparr>
                 | (s1, Inr vault) \<Rightarrow> sendJSON (set_store g s1) c (ok_response (vault_json e vault) (rqs_Echo req)))))"

definition handleDeleteTerminalVault :: "gateway \<Rightarrow> nat \<Rightarrow> request \<Rightarrow> gateway" where
  "handleDeleteTerminalVault g c req =
     (if cl_userID (conn g c) = [] then sendError g c (rqs_Echo req) ''not authenticated''
      else sendJSON (set_store g (DeleteTerminalVault (gw_store g) (cl_userID (conn g c)))) c (ok_response JNull (rqs_Echo req)))"

end
