(* ===== verification/Gateway_Requests.thy ===== *)
theory Gateway_Requests
  imports Gateway_Messages Gateway_Profiles Gateway_Announcements
begin

text \<open>
  The dispatcher of the gateway (\<open>internal/gateway/gateway.go\<close>, \<open>readPump\<close>, \<open>handleRequest\<close>): every
  action of the protocol and the handler it goes to.
\<close>

definition handlePing :: "env \<Rightarrow> gateway \<Rightarrow> nat \<Rightarrow> request \<Rightarrow> gateway" where
  "handlePing e g c req =
     (let terminal = cl_terminalSessionID (conn g c) in
      sendJSON (if terminal \<noteq> [] then set_store g (TouchTerminalSession (gw_store g) terminal (env_now e 0)) else g) c
        (ok_response (JStr ''pong'') (rqs_Echo req)))"

definition handlers :: "(string, env \<Rightarrow> gateway \<Rightarrow> nat \<Rightarrow> request \<Rightarrow> gateway) gomap" where
  "handlers =
     [(''auth'', handleAuth),
      (''register'', handleRegister),
      (''logout'', handleLogout),
      (''ping'', handlePing),
      (''send_message'', handleSendMessage),
      (''ensure_conversation'', handleEnsureConversation),
      (''recall_message'', handleRecallMessage),
      (''react_message'', handleReactMessage),
      (''get_conversations'', \<lambda>e. handleGetConversations),
      (''set_conversation_preferences'', handleSetConversationPreferences),
      (''get_messages'', handleGetMessages),
      (''get_dynamic_interactions'', handleGetDynamicInteractions),
      (''mark_read'', handleMarkRead),
      (''get_user'', handleGetUser),
      (''update_profile'', handleUpdateProfile),
      (''grant_user_title'', handleGrantUserTitle),
      (''revoke_user_title'', handleRevokeUserTitle),
      (''set_user_blocked'', handleSetUserBlocked),
      (''report_user'', handleReportUser),
      (''get_users'', \<lambda>e. handleGetUsers),
      (''get_friends'', \<lambda>e. handleGetFriends),
      (''search_users'', handleSearchUsers),
      (''get_friend_requests'', \<lambda>e. handleGetFriendRequests),
      (''remove_friend'', handleRemoveFriend),
      (''get_group_list'', \<lambda>e. handleGetGroupList),
      (''get_group_info'', \<lambda>e. handleGetGroupInfo),
      (''create_group'', handleCreateGroup),
      (''group_invite'', handleGroupInvite),
      (''join_group'', handleJoinGroup),
      (''leave_group'', handleLeaveGroup),
      (''group_kick'', handleGroupKick),
      (''group_ban'', handleGroupBan),
      (''update_group'', handleUpdateGroup),
      (''set_group_admin'', handleSetGroupAdmin),
      (''transfer_group'', handleTransferGroup),
      (''dismiss_group'', handleDismissGroup),
      (''group_mute_all'', handleGroupMuteAll),
      (''get_group_announcements'', handleGetGroupAnnouncements),
      (''create_group_announcement'', handleCreateGroupAnnouncement),
      (''update_group_announcement'', handleUpdateGroupAnnouncement),
      (''delete_group_announcement'', handleDeleteGroupAnnouncement),
      (''mark_group_announcement_read'', handleMarkGroupAnnouncementRead),
      (''friend_request'', handleFriendRequest),
      (''friend_request_handle'', handleFriendHandle),
      (''get_forward_msg'', handleGetForwardMessage),
      (''create_forward'', handleCreateForward),
      (''upload_file'', handleUploadFile),
      (''get_push_config'', \<lambda>e. handleGetPushConfig (env_publicKey e)),
      (''register_push'', handleRegisterPush),
      (''unregister_push'', \<lambda>e. handleUnregisterPush),
      (''get_terminal_vault'', handleGetTerminalVault),
      (''put_terminal_vault'', handlePutTerminalVault),
      (''delete_terminal_vault'', \<lambda>e. handleDeleteTerminalVault)]"

definition handleRequest :: "env \<Rightarrow> gateway \<Rightarrow> nat \<Rightarrow> request \<Rightarrow> gateway" where
  "handleRequest e g c req =
     (case gm_get handlers (rqs_Action req) of
        Some handler \<Rightarrow> handler e g c req
      | None \<Rightarrow> sendError g c (rqs_Echo req) (''unknown action: '' @ rqs_Action req))"

text \<open>
  \<open>json.Unmarshal\<close> into a request, and one turn of \<open>readPump\<close>: a message that does not decode is
  answered and the connection stays open.
\<close>

fun decode_request :: "json \<Rightarrow> request option" where
  "decode_request JNull = Some \<lparr> rqs_Action = [], rqs_Params = JNull, rqs_Echo = [] \<rparr>"
| "decode_request (JObj m) =
     (case (decode_string (struct_field m ''action''), decode_string (struct_field m ''echo'')) of
        (Some action, Some echo) \<Rightarrow> Some \<lparr> rqs_Action = action, rqs_Params = struct_field m ''params'', rqs_Echo = echo \<rparr>
      | _ \<Rightarrow> None)"
| "decode_request _ = None"

definition readPump :: "env \<Rightarrow> gateway \<Rightarrow> nat \<Rightarrow> string \<Rightarrow> gateway" where
  "readPump e g c msg =
     (case gs_decode (env_std e) msg of
        None \<Rightarrow> sendError g c [] ''invalid JSON''
      | Some v \<Rightarrow> (case decode_request v of None \<Rightarrow> sendError g c [] ''invalid JSON'' | Some req \<Rightarrow> handleRequest e g c req))"

end
