(* ===== verification/Gateway_System.thy ===== *)
theory Gateway_System
  imports Gateway_Requests
begin

text \<open>
  The gateway as one transition system: connections are opened and closed, requests of every action
  arrive in any order, answers are written out and queued push work is done. Every request drives
  the store through its own operations only, and leaves the registry of connections as it is,
  except for authentication.
\<close>

section \<open>Requests and the registry\<close>

text \<open>The registry, the users of the connections and the bound of the queues are kept.\<close>

definition quiet :: "gateway \<Rightarrow> gateway \<Rightarrow> bool" where
  "quiet g h \<longleftrightarrow>
     gw_clients h = gw_clients g \<and> gw_inviteCode h = gw_inviteCode g \<and> length (gw_conns h) = length (gw_conns g)
     \<and> (\<forall>c < length (gw_conns g). cl_userID (conn h c) = cl_userID (conn g c)
          \<and> (length (cl_send (conn g c)) \<le> send_capacity \<longrightarrow> length (cl_send (conn h c)) \<le> send_capacity))"

lemma invite_fields [simp]:
  "gw_inviteCode (on_conn g c f) = gw_inviteCode g" "gw_inviteCode (on_store g k) = gw_inviteCode g"
  "gw_inviteCode (set_store g s) = gw_inviteCode g"
  by (simp_all add: on_conn_def on_store_def set_store_def)

lemma quiet_refl [simp]: "quiet g g"
  by (simp add: quiet_def)

lemma quiet_registry: "quiet g h \<Longrightarrow> registry_inv g \<Longrightarrow> registry_inv h"
  unfolding quiet_def registry_inv_def by (elim conjE, intro conjI) (simp_all, metis)

lemma quiet_on_conn:
  assumes "quiet g h" "\<And>cl. cl_userID (f cl) = cl_userID cl"
    and "\<And>cl. length (cl_send cl) \<le> send_capacity \<Longrightarrow> length (cl_send (f cl)) \<le> send_capacity"
  shows "quiet g (on_conn h d f)"
  using assms unfolding quiet_def by (auto simp: conn_on_conn)

lemma quiet_deliver: "quiet g h \<Longrightarrow> quiet g (foldl (deliver std ev) h cs)"
  by (induction cs arbitrary: h) (simp_all add: deliver_conn quiet_on_conn receive_keeps)

lemma quiet_sends:
  assumes "quiet g h"
  shows "quiet g (sendJSON h c v)" "quiet g (sendError h c ec msg)" "quiet g (sendToUser std h u ev)"
    "quiet g (broadcastToConversation std h i ev u)" "quiet g (broadcastToConversationExceptClient std h i ev d)"
    "quiet g (set_store h s)" "quiet g (pushToConversation h i m u b)" "quiet g (pushEventToUser h u p)"
proof -
  show j: "quiet g (sendJSON h c v)" for c v
    using assms by (simp add: sendJSON_def quiet_on_conn enqueue_def)
  show "quiet g (sendError h c ec msg)" using j by (simp add: sendError_def)
  show "quiet g (sendToUser std h u ev)" "quiet g (broadcastToConversation std h i ev u)"
    "quiet g (broadcastToConversationExceptClient std h i ev d)"
    using assms by (simp_all add: sendToUser_def broadcastToConversation_def broadcastToConversationExceptClient_def
        quiet_deliver)
  show "quiet g (set_store h s)" "quiet g (pushToConversation h i m u b)" "quiet g (pushEventToUser h u p)"
    using assms by (simp_all add: quiet_def pushToConversation_def pushEventToUser_def Let_def conn_def)
qed

section \<open>Requests and the store\<close>

text \<open>A step of the store that leaves the accounts alone.\<close>

definition data_step :: "memory_store \<Rightarrow> memory_store \<Rightarrow> bool" where
  "data_step s t \<longleftrightarrow> store_step s t \<and> s_users t = s_users s"

definition data_path :: "memory_store \<Rightarrow> memory_store \<Rightarrow> bool" where
  "data_path s t \<longleftrightarrow> data_step\<^sup>*\<^sup>* s t"

lemma data_path_refl: "data_path s s"
  by (simp add: data_path_def)

lemma data_path_step: "data_path s t \<Longrightarrow> store_step t t' \<Longrightarrow> s_users t' = s_users t \<Longrightarrow> data_path s t'"
  unfolding data_path_def data_step_def by (rule rtranclp.rtrancl_into_rtrancl) simp_all

lemma data_path_store: "data_path s t \<Longrightarrow> store_step\<^sup>*\<^sup>* s t"
  unfolding data_path_def by (induction rule: rtranclp_induct) (auto simp: data_step_def intro: rtranclp.rtrancl_into_rtrancl)

lemma data_path_users: "data_path s t \<Longrightarrow> s_users t = s_users s"
  unfolding data_path_def by (induction rule: rtranclp_induct) (simp_all add: data_step_def)

lemma data_path_trans: "data_path s t \<Longrightarrow> data_path t t' \<Longrightarrow> data_path s t'"
  unfolding data_path_def by simp

text \<open>A result of a store operation is on the path when the operation's store is.\<close>

lemma data_pair: "x = (t, r) \<Longrightarrow> data_path s (fst x) \<Longrightarrow> data_path s t"
  by simp

lemma data_if: "data_path s (fst x) \<Longrightarrow> data_path s (fst y) \<Longrightarrow> data_path s (fst (if b then x else y))"
  "data_path s t \<Longrightarrow> data_path s t' \<Longrightarrow> data_path s (if b then t else t')"
  "data_path s t \<Longrightarrow> data_path s (fst (t, r))"
  by simp_all

lemma users_frame:
  "s_users (fst (GetOrCreateConversation s i ty ti now)) = s_users s" "s_users (SaveConversation s cv) = s_users s"
  "s_users (SetConversationPreference s p now) = s_users s" "s_users (fst (MarkConversationRead s i u now)) = s_users s"
  "s_users (fst (StoreForward s i ms now now2)) = s_users s" "s_users (fst (GrantUserTitle s title now)) = s_users s"
  "s_users (fst (DeleteUserTitle s i)) = s_users s" "s_users (SetUserBlocked s u v b now) = s_users s"
  "s_users (CreateUserReport s rp now) = s_users s" "s_users (UpsertSession s ss now) = s_users s"
  "s_users (DeleteSession s h) = s_users s" "s_users (UpsertTerminalSession s ts now) = s_users s"
  "s_users (TouchTerminalSession s i t) = s_users s" "s_users (EndTerminalSession s i t now) = s_users s"
  "s_users (fst (PutTerminalVault s u content rv now)) = s_users s" "s_users (DeleteTerminalVault s u) = s_users s"
  "s_users (StoreMedia s f) = s_users s" "s_users (UpsertPushSubscription s ps now) = s_users s"
  "s_users (DeletePushSubscription s u ep) = s_users s"
  by (simp_all add: memory_store_defs MarkConversationRead_def StoreForward_def GrantUserTitle_def
        DeleteUserTitle_def SetUserBlocked_def CreateUserReport_def UpsertSession_def DeleteSession_def
        UpsertTerminalSession_def TouchTerminalSession_def UpsertPushSubscription_def DeletePushSubscription_def
        EndTerminalSession_def PutTerminalVault_def DeleteTerminalVault_def StoreMedia_def Let_def split: option.splits)

lemma users_frame_messages:
  "s_users (fst (StoreMessageIdempotent H s i u n k segs now)) = s_users s"
  "s_users (fst (CommitDynamicInteractionEvent HE s ev segs now)) = s_users s"
  "s_users (fst (StoreDynamicUpdateIdempotent s u k f i segs)) = s_users s"
  "s_users (fst (ReactToMessage s i u em rm)) = s_users s" "s_users (fst (RecallMessage s i)) = s_users s"
proof -
  have up: "s_users (fst (updateMessageSegmentsLocked s i segs)) = s_users s" for s i segs
    by (simp add: updateMessageSegmentsLocked_def put_msg_def Let_def split: option.splits)
  show "s_users (fst (StoreMessageIdempotent H s i u n k segs now)) = s_users s"
    by (simp add: StoreMessageIdempotent_def Let_def split: option.splits)
  show "s_users (fst (CommitDynamicInteractionEvent HE s ev segs now)) = s_users s"
    using up by (auto simp: CommitDynamicInteractionEvent_def record_event_def Let_def split: option.splits)
  obtain s1 r where u1: "updateMessageSegmentsLocked s i segs = (s1, r)" by fastforce
  have "s_users s1 = s_users s" using up [of s i segs] by (simp add: u1)
  then show "s_users (fst (StoreDynamicUpdateIdempotent s u k f i segs)) = s_users s"
    by (simp add: StoreDynamicUpdateIdempotent_def Let_def u1 split: option.splits)
  show "s_users (fst (ReactToMessage s i u em rm)) = s_users s" "s_users (fst (RecallMessage s i)) = s_users s"
    by (simp_all add: ReactToMessage_def RecallMessage_def put_msg_def Let_def split: option.splits)
qed

lemma users_frame_groups:
  "s_users (fst (CreateGroup s i n a u now1 now2)) = s_users s" "s_users (fst (UpdateGroup s i n a ann mute)) = s_users s"
  "s_users (fst (SetGroupMemberRole s i u role)) = s_users s" "s_users (fst (SetGroupMemberMute s i u t)) = s_users s"
  "s_users (fst (TransferGroupOwnership s i u v)) = s_users s" "s_users (fst (DeleteGroup s i)) = s_users s"
  "s_users (fst (AddGroupMember s i u now)) = s_users s" "s_users (fst (RemoveGroupMember s i u)) = s_users s"
  "s_users (fst (CreateGroupAnnouncement s i content u p now)) = s_users s"
  "s_users (fst (UpdateGroupAnnouncement s i content p now)) = s_users s"
  "s_users (fst (DeleteGroupAnnouncement s i)) = s_users s" "s_users (fst (MarkGroupAnnouncementRead s i u)) = s_users s"
  "s_users (fst (AddFriend s u v now)) = s_users s" "s_users (fst (RemoveFriend s u v)) = s_users s"
  "s_users (fst (CreateFriendRequest s u v content now)) = s_users s" "s_users (fst (HandleFriendRequest s i act)) = s_users s"
  by (simp_all add: CreateGroup_def UpdateGroup_def SetGroupMemberRole_def SetGroupMemberMute_def
        TransferGroupOwnership_def DeleteGroup_def AddGroupMember_def RemoveGroupMember_def CreateGroupAnnouncement_def
        UpdateGroupAnnouncement_def DeleteGroupAnnouncement_def MarkGroupAnnouncementRead_def AddFriend_def
        RemoveFriend_def CreateFriendRequest_def HandleFriendRequest_def put_group_def Let_def split: option.splits)

lemmas all_users_frame = users_frame users_frame_messages users_frame_groups

lemma data_ops:
  assumes "data_path s t"
  shows "data_path s (SaveConversation t cv)"
    "data_path s (SetConversationPreference t p now)"
    "data_path s (SetUserBlocked t u v b now)"
    "data_path s (CreateUserReport t rp now)"
    "data_path s (UpsertSession t ss now)"
    "data_path s (DeleteSession t h)"
    "data_path s (UpsertTerminalSession t ts now)"
    "data_path s (TouchTerminalSession t i tm)"
    "data_path s (EndTerminalSession t i tm now)"
    "data_path s (DeleteTerminalVault t u)"
    "data_path s (StoreMedia t f)"
    "data_path s (UpsertPushSubscription t ps now)"
    "data_path s (DeletePushSubscription t u ep)"
    "data_path s (fst (GetOrCreateConversation t i ty ti now))"
    "data_path s (fst (MarkConversationRead t i u now))"
    "data_path s (fst (StoreForward t i ms now now2))"
    "data_path s (fst (GrantUserTitle t title now))"
    "data_path s (fst (DeleteUserTitle t i))"
    "data_path s (fst (PutTerminalVault t u content rv now))"
    "data_path s (fst (CommitDynamicInteractionEvent HE t ev segs now))"
    "data_path s (fst (StoreDynamicUpdateIdempotent t u k f2 i segs))"
    "data_path s (fst (ReactToMessage t i u em rm))"
    "data_path s (fst (RecallMessage t i))"
    "data_path s (fst (CreateGroup t i n a u now now2))"
    "data_path s (fst (UpdateGroup t i n a ann mute))"
    "data_path s (fst (SetGroupMemberRole t i u role))"
    "data_path s (fst (SetGroupMemberMute t i u tm))"
    "data_path s (fst (TransferGroupOwnership t i u v))"
    "data_path s (fst (DeleteGroup t i))"
    "data_path s (fst (AddGroupMember t i u now))"
    "data_path s (fst (RemoveGroupMember t i u))"
    "data_path s (fst (UpdateGroupAnnouncement t i content b now))"
    "data_path s (fst (DeleteGroupAnnouncement t i))"
    "data_path s (fst (MarkGroupAnnouncementRead t i u))"
    "data_path s (fst (AddFriend t u v now))"
    "data_path s (fst (RemoveFriend t u v))"
    "data_path s (fst (HandleFriendRequest t i act))"
  by (rule data_path_step [OF assms]; (rule store_step.intros all_users_frame))+

text \<open>The operations that number what they create.\<close>

definition counters_free :: "memory_store \<Rightarrow> bool" where
  "counters_free s \<longleftrightarrow>
     s_msgCounter s < max_int64 \<and> s_announcementCounter s < max_int64 \<and> s_friendReqCounter s < max_int64"

lemma data_counted:
  assumes "data_path s t"
  shows "s_msgCounter t < max_int64 \<Longrightarrow> data_path s (fst (StoreMessageIdempotent H t i u n k segs now))"
    "s_announcementCounter t < max_int64 \<Longrightarrow> data_path s (fst (CreateGroupAnnouncement t i content u b now))"
    "s_friendReqCounter t < max_int64 \<Longrightarrow> data_path s (fst (CreateFriendRequest t u v content now))"
  by (rule data_path_step [OF assms]; (rule store_step.intros all_users_frame)?; assumption?)+

section \<open>What a request leaves\<close>

definition calm :: "gateway \<Rightarrow> gateway \<Rightarrow> bool" where
  "calm g h \<longleftrightarrow> quiet g h \<and> data_path (gw_store g) (gw_store h)"

lemma calm_refl: "calm g g"
  by (simp add: calm_def data_path_refl)

lemma calm_sends:
  assumes "calm g h"
  shows "calm g (sendJSON h c v)" "calm g (sendError h c ec msg)" "calm g (sendToUser std h u ev)"
    "calm g (broadcastToConversation std h i ev u)" "calm g (broadcastToConversationExceptClient std h i ev d)"
    "calm g (pushToConversation h i m u b)" "calm g (pushEventToUser h u p)"
  using assms by (simp_all add: calm_def quiet_sends pushToConversation_def pushEventToUser_def Let_def)
    (simp_all add: quiet_def conn_def)

lemma calm_set: "quiet g h \<Longrightarrow> data_path (gw_store g) s \<Longrightarrow> calm g (set_store h s)"
  by (simp add: calm_def quiet_sends)

lemma calm_foldl:
  assumes "\<And>h x. calm g h \<Longrightarrow> calm g (f h x)" "calm g h"
  shows "calm g (foldl f h xs)"
  using assms(2) by (induction xs arbitrary: h) (simp_all add: assms(1))

text \<open>Syntax-directed rules: a handler is calm when all its branches are.\<close>

lemma calm_if: "(b \<Longrightarrow> calm g x) \<Longrightarrow> (\<not> b \<Longrightarrow> calm g y) \<Longrightarrow> calm g (if b then x else y)"
  by simp

lemma calm_option: "(x = None \<Longrightarrow> calm g a) \<Longrightarrow> (\<And>v. x = Some v \<Longrightarrow> calm g (f v)) \<Longrightarrow> calm g (case x of None \<Rightarrow> a | Some v \<Rightarrow> f v)"
  by (cases x) simp_all

lemma calm_sum: "(\<And>v. x = Inl v \<Longrightarrow> calm g (a v)) \<Longrightarrow> (\<And>v. x = Inr v \<Longrightarrow> calm g (f v)) \<Longrightarrow> calm g (case x of Inl v \<Rightarrow> a v | Inr v \<Rightarrow> f v)"
  by (cases x) simp_all

lemma calm_prod: "(\<And>a b. x = (a, b) \<Longrightarrow> calm g (f a b)) \<Longrightarrow> calm g (case x of (a, b) \<Rightarrow> f a b)"
  by (cases x) simp

lemma calm_bool: "(x \<Longrightarrow> calm g a) \<Longrightarrow> (\<not> x \<Longrightarrow> calm g b) \<Longrightarrow> calm g (case x of True \<Rightarrow> a | False \<Rightarrow> b)"
  by (cases x) simp_all

lemma calm_with_params: "(\<And>params. calm g (k params)) \<Longrightarrow> calm g (with_params g c req msg k)"
  by (auto simp: with_params_def intro: calm_sends calm_refl split: option.split)

lemmas calm_cases = calm_with_params calm_if calm_option calm_sum calm_prod calm_bool

section \<open>Every request but authentication, registration and profile updates\<close>

text \<open>The compound store steps of the handlers.\<close>

lemma calm_data: "calm g h \<Longrightarrow> data_path (gw_store g) (gw_store h)"
  by (simp add: calm_def)

lemma calm_quiet: "calm g h \<Longrightarrow> quiet g h"
  by (simp add: calm_def)

lemma sync_data: "data_path s t \<Longrightarrow> data_path s (fst (syncGroupConversationParticipants t i))"
  by (auto simp: syncGroupConversationParticipants_def Let_def intro: data_ops split: option.split)

lemma removed_data: "data_path s t \<Longrightarrow> data_path s (foldl (\<lambda>t r. fst (RemoveGroupMember t i r)) t rs)"
  by (induction rs arbitrary: t) (simp_all add: data_ops)

lemma add_members_data: "data_path s t \<Longrightarrow> data_path s (fst (add_members t i clk ms added))"
proof (induction t i clk ms added rule: add_members.induct)
  case (2 t i clk m ms added)
  obtain t1 b where a: "AddGroupMember t i m (clk 0) = (t1, b)" by fastforce
  then have "data_path s t1" by (rule data_pair) (rule data_ops 2(2))+
  with 2(1) a show ?case by (simp add: removed_data)
qed simp

lemma decide_data: "data_path s t \<Longrightarrow> data_path s (fst (decide_friend_request t fr flag act now))"
  unfolding decide_friend_request_def
  by (auto split: prod.split intro!: data_if data_ops elim!: data_pair intro: data_path_refl)

lemma sync_legacy_data: "data_path s t \<Longrightarrow> data_path s (syncLegacyGroupAnnouncement t i)"
  by (simp add: syncLegacyGroupAnnouncement_def data_ops split: option.split)

lemmas data_parts = sync_data removed_data add_members_data decide_data sync_legacy_data
lemmas calm_rules = calm_cases calm_refl calm_sends calm_set quiet_refl quiet_sends calm_quiet data_path_refl data_if data_ops data_parts calm_data

lemma calm_groups:
  "calm g (handleGetGroupList g c req)" "calm g (handleGetGroupInfo g c req)" "calm g (handleCreateGroup e g c req)"
  "calm g (handleGroupInvite e g c req)" "calm g (handleJoinGroup e g c req)" 
  "calm g (remove_from_group e g c req i u failure)"
  "calm g (handleGroupBan e g c req)" "calm g (handleUpdateGroup e g c req)"
  "calm g (handleSetGroupAdmin e g c req)" "calm g (handleTransferGroup e g c req)" "calm g (handleDismissGroup e g c req)"
  "calm g (handleGroupMuteAll e g c req)"
  unfolding handleGetGroupList_def handleGetGroupInfo_def handleCreateGroup_def handleGroupInvite_def handleJoinGroup_def
    remove_from_group_def handleGroupBan_def handleUpdateGroup_def
    handleSetGroupAdmin_def handleTransferGroup_def handleDismissGroup_def handleGroupMuteAll_def Let_def
  by (rule calm_rules calm_foldl | assumption | erule data_pair)+

lemma calm_leaving: "calm g (handleLeaveGroup e g c req)" "calm g (handleGroupKick e g c req)"
  unfolding handleLeaveGroup_def handleGroupKick_def Let_def
  by (rule calm_rules calm_groups)+

lemma calm_media: "calm g (fst (save_media e g n ft ct data u now))"
proof -
  obtain d s r where l: "LocalStore_Save (env_media e) (case gw_media g of Some d \<Rightarrow> d | None \<Rightarrow> []) (gw_store g) n ft ct data u now
      = (d, s, r)" by (metis prod_cases3)
  then have "data_path (gw_store g) s"
    by (auto simp: LocalStore_Save_def Let_def split: option.splits if_splits prod.splits intro!: data_ops data_path_refl)
  then show ?thesis by (simp add: save_media_def l calm_def quiet_def conn_def)
qed

lemma calm_pair: "x = (h, r) \<Longrightarrow> calm g (fst x) \<Longrightarrow> calm g h"
  by simp

lemma calm_contacts:
  "calm g (handleFriendHandle e g c req)" "calm g (handleRemoveFriend e g c req)"
  "calm g (handleSetUserBlocked e g c req)" "calm g (handleEnsureConversation e g c req)"
  unfolding handleFriendHandle_def handleRemoveFriend_def handleSetUserBlocked_def handleEnsureConversation_def Let_def
  by (rule calm_rules calm_foldl | assumption | erule data_pair)+

lemma calm_lookups:
  "calm g (handleGetUser e g c req)" "calm g (handleGetUsers g c req)" "calm g (handleGetFriends g c req)"
  "calm g (handleSearchUsers e g c req)" "calm g (handleGetFriendRequests g c req)" "calm g (handleReportUser e g c req)"
  "calm g (handleGrantUserTitle e g c req)" "calm g (handleRevokeUserTitle e g c req)"
  unfolding handleGetUser_def handleGetUsers_def handleGetFriends_def handleSearchUsers_def handleGetFriendRequests_def
    handleReportUser_def handleGrantUserTitle_def handleRevokeUserTitle_def Let_def
  by (rule calm_rules | assumption | erule data_pair)+

lemma calm_upload: "calm g (handleUploadFile e g c req)"
  unfolding handleUploadFile_def Let_def
  by (rule calm_rules calm_media | assumption | erule data_pair calm_pair)+

lemma calm_conversations:
  "calm g (handleReactMessage e g c req)" "calm g (handleRecallMessage e g c req)" "calm g (handleGetConversations g c req)"
  "calm g (handleSetConversationPreferences e g c req)" "calm g (handleGetMessages e g c req)" "calm g (handleMarkRead e g c req)"
  "calm g (handleCreateForward e g c req)" "calm g (handleGetForwardMessage e g c req)" "calm g (handleGetPushConfig k g c req)"
  "calm g (handleRegisterPush e g c req)" "calm g (handleUnregisterPush g c req)" "calm g (handleGetDynamicInteractions e g c req)"
  unfolding handleReactMessage_def handleRecallMessage_def handleGetConversations_def handleSetConversationPreferences_def
    handleGetMessages_def handleMarkRead_def handleCreateForward_def handleGetForwardMessage_def handleGetPushConfig_def
    handleRegisterPush_def handleUnregisterPush_def handleGetDynamicInteractions_def Let_def
  by (rule calm_rules | assumption | erule data_pair)+

lemma calm_announcements:
  "calm g (handleGetGroupAnnouncements e g c req)" "calm g (handleUpdateGroupAnnouncement e g c req)"
  "calm g (handleDeleteGroupAnnouncement e g c req)" "calm g (handleMarkGroupAnnouncementRead e g c req)"
  "calm g (handleGetTerminalVault e g c req)" "calm g (handlePutTerminalVault e g c req)" "calm g (handleDeleteTerminalVault g c req)"
  "calm g (handlePing e g c req)"
  unfolding handleGetGroupAnnouncements_def handleUpdateGroupAnnouncement_def handleDeleteGroupAnnouncement_def
    handleMarkGroupAnnouncementRead_def handleGetTerminalVault_def handlePutTerminalVault_def handleDeleteTerminalVault_def
    handlePing_def broadcastGroupAnnouncementNotice_def Let_def
  by (rule calm_rules | assumption | erule data_pair)+

lemma calm_dynamic:
  "calm g (handleDynamicMutation e g c req i ty k seg)" "calm g (handleDynamicEvent e g c req i ty seg)"
  unfolding handleDynamicMutation_def handleDynamicEvent_def Let_def
  by (rule calm_rules | assumption | erule data_pair)+

lemma checked_segments:
  "quiet g h \<and> gw_store h = gw_store g \<Longrightarrow>
     quiet g (fst (check_segments e u i ty rc n segs h)) \<and> gw_store (fst (check_segments e u i ty rc n segs h)) = gw_store g"
proof (induction segs arbitrary: h rc n)
  case (Cons seg rest)
  obtain h1 r1 where p: "validatePokeSegment h seg i u (env_now e n) = (h1, r1)" by fastforce
  then have "gw_store h1 = gw_store h" "gw_conns h1 = gw_conns h" "gw_clients h1 = gw_clients h"
    "gw_inviteCode h1 = gw_inviteCode h"
    by (auto simp: validatePokeSegment_def Let_def split: if_splits option.splits)
  with Cons.prems have "quiet g h1 \<and> gw_store h1 = gw_store g" by (simp add: quiet_def conn_def)
  note rest = this Cons.IH [OF this]
  show ?case by (simp only: check_segments.simps p prod.case fst_conv rest Cons.prems split: sum.split if_split) (simp add: rest Cons.prems)
qed simp

lemma counters_frame:
  "s_msgCounter (fst (GetOrCreateConversation s i ty ti now)) = s_msgCounter s"
  "s_msgCounter (fst (CreateGroupAnnouncement s i content u p now)) = s_msgCounter s"
  "s_msgCounter (fst (MarkGroupAnnouncementRead s i u)) = s_msgCounter s"
  by (simp_all add: memory_store_defs CreateGroupAnnouncement_def MarkGroupAnnouncementRead_def Let_def split: option.split)

lemma counter_sync: "s_msgCounter (syncLegacyGroupAnnouncement s i) = s_msgCounter s"
  by (simp add: syncLegacyGroupAnnouncement_def UpdateGroup_def put_group_def Let_def split: option.split)

lemma stored_data:
  "data_path s t \<Longrightarrow> s_msgCounter t < max_int64 \<Longrightarrow> data_path s (fst (StoreMessage H t i u n segs now))"
  using data_counted(1) [of s t H i u n "[]" segs now] by (auto simp: StoreMessage_def split: prod.splits sum.splits)

lemma calm_friend_request: "counters_free (gw_store g) \<Longrightarrow> calm g (handleFriendRequest e g c req)"
  unfolding handleFriendRequest_def Let_def counters_free_def
  by (elim conjE) (rule calm_rules data_counted | assumption | erule data_pair)+

lemma calm_publish:
  assumes "calm g h" "s_msgCounter (gw_store h) < max_int64"
  shows "calm g (publishGroupAnnouncement e h u a now)"
  unfolding publishGroupAnnouncement_def broadcastGroupAnnouncementNotice_def Let_def
  by (rule calm_rules stored_data assms | erule data_pair)+

lemma calm_create_announcement:
  assumes "counters_free (gw_store g)"
  shows "calm g (handleCreateGroupAnnouncement e g c req)"
proof -
  have free: "s_msgCounter (gw_store g) < max_int64" "s_announcementCounter (gw_store g) < max_int64"
    using assms by (simp_all add: counters_free_def)
  have kept: "s_msgCounter t = s_msgCounter (gw_store g)"
    if "CreateGroupAnnouncement (gw_store g) i content u b now = (t, r)" for t r i content u b now
    using counters_frame(2) [of "gw_store g" i content u b now] by (simp add: that)
  show ?thesis
    unfolding handleCreateGroupAnnouncement_def Let_def
    by (rule calm_rules data_counted calm_publish free | erule data_pair | simp add: counters_frame counter_sync kept free)+
qed

lemma calm_store_and_send:
  assumes "quiet g h" "gw_store h = gw_store g" "counters_free (gw_store g)"
  shows "calm g (store_and_send e h c req i ty k segs)"
proof -
  have free: "s_msgCounter (fst (GetOrCreateConversation (gw_store g) j ty ti now)) < max_int64" for j ty ti now
    using assms(3) by (simp add: counters_free_def counters_frame)
  show ?thesis unfolding store_and_send_def Let_def assms(2)
    by (rule calm_rules data_counted(1) free assms(1) | erule data_pair)+
qed

lemma calm_send: 
  assumes "counters_free (gw_store g)"
  shows "calm g (handleSendMessage e g c req)"
proof -
  have checked: "quiet g h" "gw_store h = gw_store g" "calm g h"
    if "check_segments e u i ty rc n segs g = (h, r)" for e u i ty rc n segs h r
    using checked_segments [of g g e u i ty rc n segs] that by (simp_all add: calm_def data_path_refl)
  show ?thesis unfolding handleSendMessage_def Let_def
    by (rule calm_cases calm_sends(2) calm_dynamic calm_store_and_send assms calm_refl | erule checked)+
qed

lemma calm_logout: "calm g (handleLogout e g c req)"
  unfolding handleLogout_def Let_def by (rule calm_rules)+

text \<open>The actions that touch accounts.\<close>

definition account_actions :: "string list" where
  "account_actions = [''auth'', ''register'', ''update_profile'']"

lemmas calm_handlers = calm_groups calm_leaving calm_contacts calm_lookups calm_upload calm_conversations
  calm_announcements calm_friend_request calm_create_announcement calm_send calm_logout

lemma calm_request:
  assumes "counters_free (gw_store g)" "rqs_Action req \<notin> set account_actions"
  shows "calm g (handleRequest e g c req)"
proof -
  have "list_all (\<lambda>(action, handler). action \<notin> set account_actions \<longrightarrow> calm g (handler e g c req)) handlers"
    unfolding handlers_def list.pred_inject prod.case
    by (intro conjI impI TrueI calm_handlers assms(1)) (simp_all add: account_actions_def)
  then have "calm g (handler e g c req)" if "gm_get handlers (rqs_Action req) = Some handler" for handler
    using map_of_SomeD [OF that] assms(2) by (auto simp: list_all_iff)
  then show ?thesis unfolding handleRequest_def by (rule calm_option [OF calm_sends(2) [OF calm_refl]])
qed

section \<open>Accounts\<close>

text \<open>
  What every state of the server satisfies. Registration marks an account online that has no
  connection, so the exact presence is kept only where registration is off.
\<close>

definition server_inv :: "gateway \<Rightarrow> bool" where
  "server_inv g \<longleftrightarrow>
     registry_inv g \<and> live_inv g \<and> store_inv (gw_store g) \<and> (gw_inviteCode g = [] \<longrightarrow> online_inv g)"

text \<open>A move of the server: a run of store operations that keeps the invariant and the connections.\<close>

definition sound :: "gateway \<Rightarrow> gateway \<Rightarrow> bool" where
  "sound g h \<longleftrightarrow>
     store_step\<^sup>*\<^sup>* (gw_store g) (gw_store h) \<and> length (gw_conns h) = length (gw_conns g)
     \<and> gw_inviteCode h = gw_inviteCode g \<and> (server_inv g \<longrightarrow> server_inv h)"

lemma sound_trans: "sound g h \<Longrightarrow> sound h k \<Longrightarrow> sound g k"
  unfolding sound_def by auto

lemma server_inv_quiet:
  assumes "server_inv g" "quiet g h" "\<And>u. GetUser (gw_store h) u = GetUser (gw_store g) u" "store_inv (gw_store h)"
  shows "server_inv h"
proof -
  have "gw_clients h = gw_clients g" "gw_inviteCode h = gw_inviteCode g" using assms(2) by (simp_all add: quiet_def)
  then show ?thesis using assms quiet_registry [OF assms(2)]
    by (simp add: server_inv_def live_inv_def online_inv_def)
qed

lemma sound_calm: "calm g h \<Longrightarrow> sound g h"
proof -
  assume c: "calm g h"
  then have path: "store_step\<^sup>*\<^sup>* (gw_store g) (gw_store h)" and q: "quiet g h"
    and u: "s_users (gw_store h) = s_users (gw_store g)"
    by (simp_all add: calm_def data_path_store data_path_users)
  have "server_inv h" if inv: "server_inv g"
    using store_system.reachable_from_inv [OF path] inv
    by (intro server_inv_quiet [OF inv q]) (simp_all add: GetUser_def u server_inv_def)
  with path q show "sound g h" by (simp add: sound_def quiet_def)
qed

lemma store_inv_step: "store_inv s \<Longrightarrow> store_step s t \<Longrightarrow> store_inv t"
  by (rule store_system.inv_step)

text \<open>A new account, which nobody can be connected as.\<close>

lemma sound_new_user:
  assumes "GetUser (gw_store g) (u_ID usr) = None" "u_Online usr \<Longrightarrow> gw_inviteCode g \<noteq> []"
  shows "sound g (set_store g (SetUser (gw_store g) usr))"
proof -
  have step: "store_step (gw_store g) (SetUser (gw_store g) usr)" by (rule store_step.set_user)
  have "server_inv (set_store g (SetUser (gw_store g) usr))" if inv: "server_inv g"
  proof -
    have "gm_list (gw_clients g) (u_ID usr) = []"
      using inv assms(1) by (force simp: server_inv_def live_inv_def)
    then show ?thesis using inv assms store_inv_step [OF _ step]
      by (auto simp: server_inv_def live_inv_def online_inv_def quiet_registry [OF quiet_sends(6) [OF quiet_refl]])
  qed
  with step show ?thesis by (auto simp: sound_def set_store_def)
qed

text \<open>An account whose identifier and presence stay.\<close>

lemma sound_same_user:
  assumes "GetUser (gw_store g) u = Some old" "u_ID usr = u_ID old" "u_Online usr = u_Online old"
  shows "sound g (set_store g (SetUser (gw_store g) usr))"
proof -
  have step: "store_step (gw_store g) (SetUser (gw_store g) usr)" by (rule store_step.set_user)
  have "server_inv (set_store g (SetUser (gw_store g) usr))" if inv: "server_inv g"
  proof -
    have "u_ID old = u" using inv assms(1) by (simp add: server_inv_def live_inv_def)
    then show ?thesis using inv assms store_inv_step [OF _ step]
      by (auto simp: server_inv_def live_inv_def online_inv_def quiet_registry [OF quiet_sends(6) [OF quiet_refl]])
  qed
  with step show ?thesis by (auto simp: sound_def set_store_def)
qed

lemma sound_addClient:
  assumes "c < length (gw_conns g)" "u \<noteq> []" "GetUser (gw_store g) u \<noteq> None"
  shows "sound g (fst (addClient g c u))"
proof -
  have path: "store_step\<^sup>*\<^sup>* (gw_store g) (gw_store (fst (addClient g c u)))"
    by (auto simp: addClient_def Let_def intro: store_step.set_user_online)
  have "live_inv (fst (addClient g c u))" if "live_inv g"
    using that assms(3) by (auto simp: live_inv_def addClient_def Let_def GetUser_SetUserOnline split: if_splits)
  moreover have "gw_inviteCode (fst (addClient g c u)) = gw_inviteCode g" "length (gw_conns (fst (addClient g c u))) = length (gw_conns g)"
    by (simp_all add: addClient_def Let_def on_conn_def on_store_def)
  ultimately show ?thesis
    using path assms addClient_registry [OF _ assms(1,2)] addClient_online [OF _ assms(2)] store_system.reachable_from_inv [OF path]
    by (simp add: sound_def server_inv_def)
qed

lemma sound_if: "(b \<Longrightarrow> sound g x) \<Longrightarrow> (\<not> b \<Longrightarrow> sound g y) \<Longrightarrow> sound g (if b then x else y)"
  by simp

lemma sound_option: "(x = None \<Longrightarrow> sound g a) \<Longrightarrow> (\<And>v. x = Some v \<Longrightarrow> sound g (f v)) \<Longrightarrow> sound g (case x of None \<Rightarrow> a | Some v \<Rightarrow> f v)"
  by (cases x) simp_all

lemma sound_sum: "(\<And>v. x = Inl v \<Longrightarrow> sound g (a v)) \<Longrightarrow> (\<And>v. x = Inr v \<Longrightarrow> sound g (f v)) \<Longrightarrow> sound g (case x of Inl v \<Rightarrow> a v | Inr v \<Rightarrow> f v)"
  by (cases x) simp_all

lemma sound_prod: "(\<And>a b. x = (a, b) \<Longrightarrow> sound g (f a b)) \<Longrightarrow> sound g (case x of (a, b) \<Rightarrow> f a b)"
  by (cases x) simp

lemmas sound_cases = sound_if sound_option sound_sum sound_prod

lemma set_store_twice [simp]: "set_store (set_store g s) t = set_store g t"
  by (simp add: set_store_def)

lemma sound_after: "sound g h \<Longrightarrow> calm h k \<Longrightarrow> sound g k"
  by (rule sound_trans [OF _ sound_calm])

lemma calm_on_conn:
  assumes "calm g h" "\<And>cl. cl_userID (f cl) = cl_userID cl" "\<And>cl. cl_send (f cl) = cl_send cl"
  shows "calm g (on_conn h d f)"
  using assms by (simp add: calm_def quiet_on_conn)

lemma calm_device: "calm g h \<Longrightarrow> calm g (on_conn h d (\<lambda>cl. cl\<lparr>cl_deviceID := x, cl_terminalSessionID := y\<rparr>))"
  by (rule calm_on_conn) simp_all

lemma calm_on_store: "calm g h \<Longrightarrow> data_path (gw_store g) (f (gw_store h)) \<Longrightarrow> calm g (on_store h f)"
  by (simp add: calm_def quiet_def on_store_def conn_def)

lemma calm_presence: "calm g h \<Longrightarrow> calm g (notifyFriendPresence std h u b)"
  unfolding notifyFriendPresence_def by (rule calm_foldl) (rule calm_sends)

lemma sound_bind:
  assumes "c < length (gw_conns g)" "u \<noteq> []" "GetUser (gw_store g) u \<noteq> None"
  shows "sound g (bind_connection e g c req u password deviceID negotiated usr)"
proof -
  let ?bound = "if cl_userID (conn g c) = [] then addClient (on_conn g c (\<lambda>cl. cl\<lparr>cl_capabilities := negotiated\<rparr>)) c u
    else (g, False)"
  have "sound g (on_conn g c (\<lambda>cl. cl\<lparr>cl_capabilities := negotiated\<rparr>))"
    by (rule sound_calm) (simp add: calm_on_conn calm_refl)
  then have first: "sound g (fst ?bound)"
    using sound_trans [OF _ sound_addClient [of c _ u]] assms sound_calm [OF calm_refl] by simp
  obtain g1 b where b: "?bound = (g1, b)" by fastforce
  have "calm g1 (bind_connection e g c req u password deviceID negotiated usr)"
    unfolding bind_connection_def Let_def not_not b prod.case issueSession_def fst_conv snd_conv
    by (rule calm_if calm_sends calm_presence calm_on_store calm_device calm_set calm_refl data_ops calm_data calm_quiet)+
  with first show ?thesis using sound_after by (simp add: b)
qed

lemma auth_identity_data:
  "auth_identity e g params = (s1, r) \<Longrightarrow> data_path (gw_store g) s1 \<and> (r = Inr u \<longrightarrow> u \<noteq> [])"
  by (auto simp: auth_identity_def userForSession_def credential_verdict_def validUserID_def Let_def
      split: if_split_asm option.split_asm intro!: data_ops data_path_refl)

lemma sound_auth:
  assumes "c < length (gw_conns g)"
  shows "sound g (handleAuth e g c req)"
proof -
  have bind: "sound g (bind_connection e (set_store g s1) c req u password deviceID neg usr)"
    if "data_path (gw_store g) s1" "u \<noteq> []" "GetUser s1 u \<noteq> None" for s1 u password deviceID neg usr
    by (rule sound_trans [OF sound_calm [OF calm_set [OF quiet_refl that(1)]] sound_bind]) (use assms that in simp_all)
  have new: "sound g (bind_connection e (set_store g (SetUser s1 (new_account u))) c req u password deviceID neg usr)"
    if "data_path (gw_store g) s1" "u \<noteq> []" "GetUser s1 u = None" for s1 u password deviceID neg usr
  proof -
    have "sound (set_store g s1) (set_store (set_store g s1) (SetUser s1 (new_account u)))"
      using sound_new_user [of "set_store g s1" "new_account u"] that by (simp add: new_account_def)
    then have "sound g (set_store g (SetUser s1 (new_account u)))"
      using sound_trans [OF sound_calm [OF calm_set [OF quiet_refl that(1)]]] by (simp add: set_store_def)
    then show ?thesis by (rule sound_trans [OF _ sound_bind]) (use assms that in \<open>simp_all add: new_account_def\<close>)
  qed
  have fail: "sound g (sendError (set_store g s1) c ec msg)" if "data_path (gw_store g) s1" for s1 ec msg
    using that by (intro sound_calm calm_sends calm_set quiet_refl)
  show ?thesis
    using bind new fail sound_calm [OF calm_sends(2) [OF calm_refl]]
    by (auto simp: handleAuth_def Let_def split: option.split sum.split prod.split dest!: auth_identity_data)
qed

lemma calm_avatar: "calm g (fst (register_avatar e g params u avatarURL))"
proof -
  have media: "calm g h" if "save_media e g n ft ct data v now = (h, r)" for h n ft ct data v now r
    using calm_media [of g e n ft ct data v now] by (simp add: that)
  show ?thesis
    unfolding register_avatar_def Let_def
    by (auto simp: calm_refl split: option.split sum.split prod.split intro: media)
qed

lemma sound_register: "sound g (handleRegister e g c req)"
proof -
  have fail: "sound g (sendError h c ec msg)" if "calm g h" for h ec msg
    using that by (intro sound_calm calm_sends)
  have new: "sound g (sendJSON (set_store h (fst (issueSession e (SetUser (gw_store h) (registered_user u n a hash t)) u now now'))) c v)"
    if "calm g h" "\<not> GetUser (gw_store g) u \<noteq> None" "\<not> gw_inviteCode g = []" for h u n a hash t now now' v
  proof -
    have "u_ID (registered_user u n a hash t) = u" by (simp add: registered_user_def new_account_def)
    moreover have "GetUser (gw_store h) u = None" "gw_inviteCode h \<noteq> []"
      using that data_path_users [OF calm_data [OF that(1)]] calm_quiet [OF that(1)] by (simp_all add: GetUser_def quiet_def)
    ultimately have made: "sound g (set_store h (SetUser (gw_store h) (registered_user u n a hash t)))"
      by (intro sound_trans [OF sound_calm [OF that(1)] sound_new_user]) simp_all
    have "calm (set_store h s) (set_store h (UpsertSession s ss now'))" for s ss
      using calm_set [OF quiet_refl, of "set_store h s" "UpsertSession s ss now'"] by (simp add: data_ops data_path_refl)
    then show ?thesis unfolding issueSession_def fst_conv by (rule sound_after [OF made calm_sends(1)])
  qed
  have avatar: "calm g h" if "register_avatar e g params u avatarURL = (h, r)" for h params u avatarURL r
    using calm_avatar [of g e params u avatarURL] by (simp add: that)
  show ?thesis
    unfolding handleRegister_def Let_def
    by (rule sound_cases fail new calm_refl | erule avatar | assumption)+
qed

lemma profile_values_keep:
  "text_value err valid clean put v u = Inr u' \<Longrightarrow> \<exists>t. u' = put t u"
  "bool_value err put' v u = Inr u' \<Longrightarrow> \<exists>b. u' = put' b u"
  by (auto simp: text_value_def bool_value_def split: option.split_asm if_split_asm)

lemma profile_fields_keep:
  "list_all (\<lambda>(key, put). \<forall>v u u'. put v u = Inr u' \<longrightarrow> u_ID u' = u_ID u \<and> u_Online u' = u_Online u) (profile_fields e)"
  unfolding profile_fields_def list.pred_inject prod.case
  by (intro conjI allI impI TrueI list.pred_inject(1)) (drule profile_values_keep, erule exE, simp)+

lemma update_fields_keep:
  assumes "list_all (\<lambda>(key, put). \<forall>v u u'. put v u = Inr u' \<longrightarrow> u_ID u' = u_ID u \<and> u_Online u' = u_Online u) fs"
    and "update_fields params fs u = (u1, r)"
  shows "u_ID u1 = u_ID u \<and> u_Online u1 = u_Online u"
  using assms
proof (induction fs arbitrary: u)
  case (Cons f fs)
  obtain key put where f: "f = (key, put)" by fastforce
  note step = Cons.prems(2) [unfolded f update_fields.simps]
  show ?case
  proof (cases "gm_get params key")
    case (Some v)
    show ?thesis
    proof (cases "put v u")
      case (Inr u2)
      then have "u_ID u2 = u_ID u \<and> u_Online u2 = u_Online u" using Cons.prems(1) by (simp add: f)
      with Inr Some step Cons.prems(1) Cons.IH [of u2] show ?thesis by simp
    qed (use Some step in simp)
  qed (use step Cons.prems(1) Cons.IH [of u] in simp)
qed simp

lemma calm_notify_profile: "calm g h \<Longrightarrow> calm g (notifyProfileUpdate e h usr d now)"
proof -
  have "calm g (deliver std ev h x)" if "calm g h" for std ev h x
    using that quiet_deliver [of g h std ev "[x]"] by (simp add: calm_def deliver_conn)
  then show "calm g h \<Longrightarrow> calm g (notifyProfileUpdate e h usr d now)"
    unfolding notifyProfileUpdate_def Let_def by (intro calm_foldl calm_sends)
qed

lemma sound_profile: "sound g (handleUpdateProfile e g c req)"
proof -
  have put: "sound g (set_store g (SetUser (gw_store g) u1))"
    if "GetUser (gw_store g) i = Some u" "update_fields params (profile_fields e) u = (u1, r)" for i u params u1 r
    using update_fields_keep [OF profile_fields_keep that(2)] by (intro sound_same_user [OF that(1)]) simp_all
  note fail = sound_calm [OF calm_sends(2) [OF calm_refl]]
  show ?thesis
    unfolding handleUpdateProfile_def with_params_def Let_def
    by (rule sound_cases fail | (rule sound_after, erule (1) put, (rule calm_sends calm_notify_profile calm_refl)+) | simp)+
qed

section \<open>The server\<close>

lemma sound_request:
  assumes "c < length (gw_conns g)" "counters_free (gw_store g)"
  shows "sound g (handleRequest e g c req)"
proof (cases "rqs_Action req \<in> set account_actions")
  case True
  then consider "rqs_Action req = ''auth''" | "rqs_Action req = ''register''" | "rqs_Action req = ''update_profile''"
    by (auto simp: account_actions_def)
  then show ?thesis
    by cases (simp_all add: handleRequest_def handlers_def sound_auth [OF assms(1)] sound_register sound_profile)
qed (simp add: sound_calm calm_request [OF assms(2)])

lemma sound_message:
  assumes "c < length (gw_conns g)" "counters_free (gw_store g)"
  shows "sound g (readPump e g c msg)"
  using sound_request [OF assms] sound_calm [OF calm_sends(2) [OF calm_refl]]
  by (auto simp: readPump_def split: option.split)

text \<open>
  The steps of the server: sockets are opened and closed, any text arrives on a connection, answers
  are written out, and queued notifications are sent. The three counters of the store are below
  their largest value.
\<close>

definition run_job :: "(push_subscription \<Rightarrow> jobject \<Rightarrow> bool) \<Rightarrow> gateway \<Rightarrow> push_job \<Rightarrow> gateway" where
  "run_job expired g job =
     (set_store g (fst (run_push_job expired (gw_store g) job)))\<lparr>gw_jobs := remove1 job (gw_jobs g)\<rparr>"

inductive server_step :: "gateway \<Rightarrow> gateway \<Rightarrow> bool" where
  connected: "server_step g (fst (HandleWebSocket g))"
| received: "c < length (gw_conns g) \<Longrightarrow> counters_free (gw_store g) \<Longrightarrow> server_step g (readPump e g c msg)"
| disconnected: "c < length (gw_conns g) \<Longrightarrow> server_step g (removeClient e g c)"
| sent: "server_step g (fst (writePump g c))"
| notified: "job \<in> set (gw_jobs g) \<Longrightarrow> server_step g (run_job expired g job)"

lemma job_data: "data_path (gw_store g) (fst (run_push_job expired (gw_store g) job))"
proof -
  have user: "data_path s (fst (push_user expired payload t u))" if "data_path s t" for s t payload u
  proof -
    have "data_path s (foldl (\<lambda>t sub. if expired sub payload then DeletePushSubscription t u (ps_Endpoint sub) else t) t subs)"
      for subs using that by (induction subs arbitrary: t) (simp_all add: data_ops)
    then show ?thesis by (simp add: push_user_def Let_def)
  qed
  have "data_path s (fst (push_users expired payload wants us t))" if "data_path s t" for s t payload wants us
    using that
  proof (induction us arbitrary: t)
    case (Cons u us)
    obtain t1 x where p: "push_user expired payload t u = (t1, x)" by fastforce
    have "data_path s t1" using user [OF Cons.prems, of payload u] by (simp add: p)
    from Cons.IH [OF this] Cons.IH [OF Cons.prems] show ?case by (simp add: p split: prod.split) auto
  qed simp
  with user show ?thesis by (simp add: run_push_job_def data_path_refl split: push_job.split)
qed

lemma sound_job: "sound g (run_job expired g job)"
  using job_data [of g expired job]
  by (intro sound_calm) (simp add: calm_def run_job_def quiet_def conn_def set_store_def)

lemma online_path: "store_step\<^sup>*\<^sup>* s (SetUserOnline s u b)"
  by (rule r_into_rtranclp) (rule store_step.set_user_online)

lemma sound_remove:
  assumes "c < length (gw_conns g)"
  shows "sound g (removeClient e g c)"
proof -
  obtain g1 u last where d: "detachClient g c = (g1, u, last)" by (metis surj_pair)
  then have "store_step\<^sup>*\<^sup>* (gw_store g) (gw_store g1)" "gw_inviteCode g1 = gw_inviteCode g" "length (gw_conns g1) = length (gw_conns g)"
    by (auto simp: detachClient_def Let_def on_store_def on_conn_def online_path split: if_split_asm option.split_asm)
  moreover have "calm g1 (removeClient e g c)"
    unfolding removeClient_def d prod.case Let_def
    by (rule calm_if calm_presence calm_on_conn calm_on_store calm_refl data_ops calm_data | simp add: closeSend_def)+
  note rest = sound_calm [OF this, unfolded sound_def]
  ultimately have path: "store_step\<^sup>*\<^sup>* (gw_store g) (gw_store (removeClient e g c))"
    and "gw_inviteCode (removeClient e g c) = gw_inviteCode g" "length (gw_conns (removeClient e g c)) = length (gw_conns g)"
    using rest rtranclp_trans [of store_step "gw_store g" "gw_store g1"] by simp_all
  then show ?thesis
    using removeClient_inv [OF _ assms] store_system.reachable_from_inv [OF path]
    by (simp add: sound_def server_inv_def)
qed

lemma server_step_inv:
  assumes "server_inv g" "server_step g h"
  shows "server_inv h"
  using assms(2)
proof cases
  case connected
  then show ?thesis
    using assms(1) HandleWebSocket_inv [of g] by (simp add: server_inv_def live_inv_def online_inv_def HandleWebSocket_def)
next
  case (received c e msg)
  then show ?thesis using assms(1) sound_message [of c g e msg] by (simp add: sound_def)
next
  case (disconnected c e)
  then show ?thesis using assms(1) sound_remove [of c g e] by (simp add: sound_def)
next
  case (sent c)
  have "calm g (fst (writePump g c))"
    by (cases "cl_send (conn g c)") (auto simp: writePump_def calm_def quiet_def conn_on_conn data_path_refl)
  then show ?thesis using assms(1) sound_calm sent by (simp add: sound_def)
next
  case (notified job expired)
  then show ?thesis using assms(1) sound_job [of g expired job] by (simp add: sound_def)
qed

text \<open>The server starts on a sound store in which every account is filed and offline.\<close>

definition fresh_store :: "memory_store \<Rightarrow> bool" where
  "fresh_store s \<longleftrightarrow> store_inv s \<and> offline_store s \<and> list_all (\<lambda>(i, usr). u_ID usr = i) (s_users s)"

definition boot :: "memory_store \<Rightarrow> bool \<Rightarrow> string \<Rightarrow> string \<Rightarrow> disk \<Rightarrow> gateway" where
  "boot s pushEnabled token code media =
     SetMediaUploader (SetInviteCode (SetAccessToken (NewGateway s pushEnabled) token) code) media"

lemma boot_inv:
  assumes "fresh_store s"
  shows "server_inv (boot s b token code media)"
proof -
  have fields: "gw_store (boot s b token code media) = s" "gw_conns (boot s b token code media) = []"
    "gw_clients (boot s b token code media) = []"
    by (simp_all add: boot_def SetMediaUploader_def SetInviteCode_def SetAccessToken_def NewGateway_def)
  have "GetUser s u = Some usr \<Longrightarrow> \<not> u_Online usr \<and> u_ID usr = u" for u usr
    using assms map_of_SomeD [of "s_users s" u usr]
    by (auto simp: fresh_store_def offline_store_def GetUser_def list_all_iff)
  then show ?thesis using assms
    by (simp add: server_inv_def registry_inv_def live_inv_def online_inv_def fields fresh_store_def)
qed

lemma fresh_new: "fresh_store NewMemoryStore"
  using store_system.inv_init by (simp add: fresh_store_def offline_store_def NewMemoryStore_def)

interpretation server: invariant_system "boot NewMemoryStore b token code media" server_step server_inv for b token code media
  by unfold_locales (simp_all add: boot_inv fresh_new server_step_inv)

text \<open>The server does to its store what the store's own operations do.\<close>

lemma server_step_store: "server_step g h \<Longrightarrow> store_step\<^sup>*\<^sup>* (gw_store g) (gw_store h)"
  by (induction rule: server_step.induct)
    (use sound_message sound_remove sound_job in
      \<open>auto simp: sound_def HandleWebSocket_def writePump_def split: list.split\<close>)

lemma server_step_invite: "server_step g h \<Longrightarrow> gw_inviteCode h = gw_inviteCode g"
  by (induction rule: server_step.induct)
    (use sound_message sound_remove sound_job in
      \<open>auto simp: sound_def HandleWebSocket_def writePump_def split: list.split\<close>)

lemma server_reached:
  assumes "server_step\<^sup>*\<^sup>* g h" "server_inv g"
  shows "server_inv h" "store_step\<^sup>*\<^sup>* (gw_store g) (gw_store h)" "gw_inviteCode h = gw_inviteCode g"
  using assms by (induction rule: rtranclp_induct)
    (auto dest: server_step_inv server_step_store server_step_invite intro: rtranclp_trans)

end
