(* ===== verification/Gateway_Answers.thy ===== *)
theory Gateway_Answers
  imports Gateway_System
begin

text \<open>
  Answers: every message that arrives on a connection is answered there exactly once, with the
  echo of the request, and nowhere else; and requests of connections without a user are refused.
\<close>

section \<open>Answers in a queue\<close>

text \<open>The echoes of the responses in a queue.\<close>

fun answer_echo :: "outgoing \<Rightarrow> string list" where
  "answer_echo (OResponse r) = [rp_Echo r]"
| "answer_echo _ = []"

definition answers :: "client \<Rightarrow> string list" where
  "answers cl = concat (map answer_echo (cl_send cl))"

text \<open>A queue that drops what comes next: closed, or full.\<close>

definition deaf :: "client \<Rightarrow> bool" where
  "deaf cl \<longleftrightarrow> cl_sendDone cl \<or> send_capacity \<le> length (cl_send cl)"

text \<open>Where no queue is deaf at the end, connection \<open>c\<close> got the answers \<open>es\<close> and no other one got any.\<close>

definition answered :: "nat \<Rightarrow> string list \<Rightarrow> gateway \<Rightarrow> gateway \<Rightarrow> bool" where
  "answered c es g h \<longleftrightarrow>
     length (gw_conns h) = length (gw_conns g)
     \<and> (\<forall>d < length (gw_conns g). deaf (conn h d) \<or> answers (conn h d) = answers (conn g d) @ (if d = c then es else []))"

lemma answered_refl: "answered c [] g g"
  by (simp add: answered_def)

lemma answered_conns: "answered c es g h \<Longrightarrow> gw_conns k = gw_conns h \<Longrightarrow> answered c es g k"
  by (simp add: answered_def conn_def)

lemma answered_on_conn:
  assumes "answered c es g h" "\<And>cl. deaf cl \<Longrightarrow> deaf (f cl)" "\<And>cl. deaf (f cl) \<or> answers (f cl) = answers cl"
  shows "answered c es g (on_conn h d f)"
proof -
  let ?tail = "\<lambda>x. if x = c then es else []"
  have "deaf (conn (on_conn h d f) x) \<or> answers (conn (on_conn h d f) x) = answers (conn g x) @ ?tail x"
    if "x < length (gw_conns g)" for x
  proof -
    have x: "x < length (gw_conns h)" "deaf (conn h x) \<or> answers (conn h x) = answers (conn g x) @ ?tail x"
      using assms(1) that by (simp_all add: answered_def)
    show ?thesis
    proof (cases "x = d")
      case True
      then show ?thesis unfolding conn_on_conn [OF x(1)] using x(2) assms(2) [of "conn h d"] assms(3) [of "conn h d"] by auto
    qed (use x in \<open>simp add: conn_on_conn\<close>)
  qed
  then show ?thesis using assms(1) by (simp add: answered_def)
qed

lemma enqueue_deaf: "deaf cl \<Longrightarrow> fst (enqueue cl v) = cl"
  by (auto simp: enqueue_def deaf_def)

lemma enqueue_answers:
  "\<not> deaf cl \<Longrightarrow> answers (fst (enqueue cl v)) = answers cl @ answer_echo v"
  by (simp add: enqueue_def deaf_def answers_def)

lemma answered_json:
  assumes "answered c [] g h" "rp_Echo v = ec"
  shows "answered c [ec] g (sendJSON h c v)"
proof -
  have "deaf (conn (sendJSON h c v) d) \<or> answers (conn (sendJSON h c v) d) = answers (conn g d) @ (if d = c then [ec] else [])"
    if "d < length (gw_conns g)" for d
  proof (cases "deaf (conn h d)")
    case True
    then show ?thesis using that assms(1) by (cases "d = c") (simp_all add: sendJSON_def conn_on_conn answered_def enqueue_deaf)
  next
    case False
    then have "answers (conn h d) = answers (conn g d)" using that assms(1) by (auto simp: answered_def)
    with False show ?thesis using that assms by (cases "d = c") (simp_all add: sendJSON_def conn_on_conn answered_def enqueue_answers)
  qed
  then show ?thesis using assms(1) by (simp add: answered_def sendJSON_def)
qed

lemma answered_sends:
  assumes "answered c [] g h"
  shows "answered c [ec] g (sendJSON h c (ok_response v ec))" "answered c [ec] g (sendError h c ec msg)"
  using assms by (auto simp: sendError_def ok_response_def intro: answered_json)

section \<open>Events are no answers\<close>

definition event :: "outgoing \<Rightarrow> bool" where
  "event ev \<longleftrightarrow> answer_echo ev = []"

lemma event_cases [simp]: "event (OMessage m)" "event (ONotice n)" "event (ORequest r)"
  by (simp_all add: event_def)

lemma outgoing_event: "event ev \<Longrightarrow> outgoing_for std cl ev = Some v \<Longrightarrow> event v"
  by (cases ev) (auto simp: event_def outgoing_for_def marshalClientEvent_def Let_def split: if_split_asm)

lemma answered_receive:
  assumes "answered c es g h" "event ev"
  shows "answered c es g (foldl (deliver std ev) h ds)"
  using assms(1)
proof (induction ds arbitrary: h)
  case (Cons d ds)
  have "deaf (receive std ev cl)" if "deaf cl" for cl
    using that by (simp add: receive_def enqueue_deaf split: option.split)
  moreover have "deaf (receive std ev cl) \<or> answers (receive std ev cl) = answers cl" for cl
  proof (cases "deaf cl")
    case True
    then show ?thesis using calculation by blast
  next
    case False
    then show ?thesis using outgoing_event [OF assms(2)]
      by (auto simp: receive_def enqueue_answers event_def split: option.split)
  qed
  ultimately have "answered c es g (deliver std ev h d)"
    unfolding deliver_conn by (intro answered_on_conn [OF Cons.prems])
  then show ?case by (simp add: Cons.IH)
qed simp

lemma answered_events:
  assumes "answered c es g h"
  shows "event ev \<Longrightarrow> answered c es g (sendToUser std h u ev)"
    "event ev \<Longrightarrow> answered c es g (broadcastToConversation std h i ev u)"
    "event ev \<Longrightarrow> answered c es g (broadcastToConversationExceptClient std h i ev d)"
    "answered c es g (pushToConversation h i m u b)" "answered c es g (pushEventToUser h u p)"
    "answered c es g (set_store h s)" "answered c es g (on_store h k)"
  using assms answered_conns [OF assms]
  by (simp_all add: sendToUser_def broadcastToConversation_def broadcastToConversationExceptClient_def answered_receive
      pushToConversation_def pushEventToUser_def set_store_def on_store_def Let_def)

lemma answered_foldl:
  assumes "\<And>h x. answered c es g h \<Longrightarrow> answered c es g (f h x)" "answered c es g h"
  shows "answered c es g (foldl f h xs)"
  using assms(2) by (induction xs arbitrary: h) (simp_all add: assms(1))

section \<open>Handlers\<close>

text \<open>Syntax-directed rules, as for the store.\<close>

lemma answered_if: "(b \<Longrightarrow> answered c es g x) \<Longrightarrow> (\<not> b \<Longrightarrow> answered c es g y) \<Longrightarrow> answered c es g (if b then x else y)"
  by simp

lemma answered_option:
  "(x = None \<Longrightarrow> answered c es g a) \<Longrightarrow> (\<And>v. x = Some v \<Longrightarrow> answered c es g (f v))
   \<Longrightarrow> answered c es g (case x of None \<Rightarrow> a | Some v \<Rightarrow> f v)"
  by (cases x) simp_all

lemma answered_sum:
  "(\<And>v. x = Inl v \<Longrightarrow> answered c es g (a v)) \<Longrightarrow> (\<And>v. x = Inr v \<Longrightarrow> answered c es g (f v))
   \<Longrightarrow> answered c es g (case x of Inl v \<Rightarrow> a v | Inr v \<Rightarrow> f v)"
  by (cases x) simp_all

lemma answered_prod: "(\<And>a b. x = (a, b) \<Longrightarrow> answered c es g (f a b)) \<Longrightarrow> answered c es g (case x of (a, b) \<Rightarrow> f a b)"
  by (cases x) simp

lemma answered_bool:
  "(x \<Longrightarrow> answered c es g a) \<Longrightarrow> (\<not> x \<Longrightarrow> answered c es g b) \<Longrightarrow> answered c es g (case x of True \<Rightarrow> a | False \<Rightarrow> b)"
  by (cases x) simp_all

lemma answered_with_params:
  "(\<And>params. answered c [rqs_Echo req] g (k params)) \<Longrightarrow> answered c [rqs_Echo req] g (with_params g c req msg k)"
  by (simp add: with_params_def answered_sends answered_refl split: option.split)

lemmas answered_rules = answered_with_params answered_if answered_option answered_sum answered_prod answered_bool
  answered_sends answered_events event_cases answered_foldl answered_refl

lemma answered_groups:
  "answered c [rqs_Echo req] g (handleGetGroupList g c req)" "answered c [rqs_Echo req] g (handleGetGroupInfo g c req)"
  "answered c [rqs_Echo req] g (handleCreateGroup e g c req)" "answered c [rqs_Echo req] g (handleGroupInvite e g c req)"
  "answered c [rqs_Echo req] g (handleJoinGroup e g c req)" "answered c [rqs_Echo req] g (handleLeaveGroup e g c req)"
  "answered c [rqs_Echo req] g (handleGroupKick e g c req)" "answered c [rqs_Echo req] g (handleGroupBan e g c req)"
  "answered c [rqs_Echo req] g (handleUpdateGroup e g c req)" "answered c [rqs_Echo req] g (handleSetGroupAdmin e g c req)"
  "answered c [rqs_Echo req] g (handleTransferGroup e g c req)" "answered c [rqs_Echo req] g (handleDismissGroup e g c req)"
  "answered c [rqs_Echo req] g (handleGroupMuteAll e g c req)"
  unfolding handleGetGroupList_def handleGetGroupInfo_def handleCreateGroup_def handleGroupInvite_def handleJoinGroup_def
    handleLeaveGroup_def handleGroupKick_def remove_from_group_def handleGroupBan_def handleUpdateGroup_def
    handleSetGroupAdmin_def handleTransferGroup_def handleDismissGroup_def handleGroupMuteAll_def
    group_increase_def group_decrease_def Let_def
  by (rule answered_rules | assumption)+

lemma answered_contacts:
  "answered c [rqs_Echo req] g (handleFriendHandle e g c req)" "answered c [rqs_Echo req] g (handleRemoveFriend e g c req)"
  "answered c [rqs_Echo req] g (handleSetUserBlocked e g c req)" "answered c [rqs_Echo req] g (handleEnsureConversation e g c req)"
  "answered c [rqs_Echo req] g (handleFriendRequest e g c req)"
  unfolding handleFriendHandle_def handleRemoveFriend_def handleSetUserBlocked_def handleEnsureConversation_def
    handleFriendRequest_def Let_def
  by (rule answered_rules)+

lemma answered_lookups:
  "answered c [rqs_Echo req] g (handleGetUser e g c req)" "answered c [rqs_Echo req] g (handleGetUsers g c req)"
  "answered c [rqs_Echo req] g (handleGetFriends g c req)" "answered c [rqs_Echo req] g (handleSearchUsers e g c req)"
  "answered c [rqs_Echo req] g (handleGetFriendRequests g c req)" "answered c [rqs_Echo req] g (handleReportUser e g c req)"
  "answered c [rqs_Echo req] g (handleGrantUserTitle e g c req)" "answered c [rqs_Echo req] g (handleRevokeUserTitle e g c req)"
  unfolding handleGetUser_def handleGetUsers_def handleGetFriends_def handleSearchUsers_def handleGetFriendRequests_def
    handleReportUser_def handleGrantUserTitle_def handleRevokeUserTitle_def Let_def
  by (rule answered_rules)+

lemma answered_conversations:
  "answered c [rqs_Echo req] g (handleReactMessage e g c req)" "answered c [rqs_Echo req] g (handleRecallMessage e g c req)"
  "answered c [rqs_Echo req] g (handleGetConversations g c req)" "answered c [rqs_Echo req] g (handleSetConversationPreferences e g c req)"
  "answered c [rqs_Echo req] g (handleGetMessages e g c req)" "answered c [rqs_Echo req] g (handleMarkRead e g c req)"
  "answered c [rqs_Echo req] g (handleCreateForward e g c req)" "answered c [rqs_Echo req] g (handleGetForwardMessage e g c req)"
  "answered c [rqs_Echo req] g (handleGetPushConfig k g c req)" "answered c [rqs_Echo req] g (handleRegisterPush e g c req)"
  "answered c [rqs_Echo req] g (handleUnregisterPush g c req)" "answered c [rqs_Echo req] g (handleGetDynamicInteractions e g c req)"
  unfolding handleReactMessage_def handleRecallMessage_def handleGetConversations_def handleSetConversationPreferences_def
    handleGetMessages_def handleMarkRead_def handleCreateForward_def handleGetForwardMessage_def handleGetPushConfig_def
    handleRegisterPush_def handleUnregisterPush_def handleGetDynamicInteractions_def Let_def
  by (rule answered_rules)+

lemma answered_put_vault: "answered c [rqs_Echo req] g (handlePutTerminalVault e g c req)"
  unfolding handlePutTerminalVault_def Let_def
  by (rule answered_rules answered_json response.simps)+

lemma answered_announcements:
  "answered c [rqs_Echo req] g (handleGetGroupAnnouncements e g c req)" "answered c [rqs_Echo req] g (handleUpdateGroupAnnouncement e g c req)"
  "answered c [rqs_Echo req] g (handleDeleteGroupAnnouncement e g c req)" "answered c [rqs_Echo req] g (handleMarkGroupAnnouncementRead e g c req)"
  "answered c [rqs_Echo req] g (handleCreateGroupAnnouncement e g c req)" "answered c [rqs_Echo req] g (handleGetTerminalVault e g c req)"
  "answered c [rqs_Echo req] g (handleDeleteTerminalVault g c req)" "answered c [rqs_Echo req] g (handlePing e g c req)"
  "answered c [rqs_Echo req] g (handleLogout e g c req)"
  unfolding handleGetGroupAnnouncements_def handleUpdateGroupAnnouncement_def handleDeleteGroupAnnouncement_def
    handleMarkGroupAnnouncementRead_def handleCreateGroupAnnouncement_def publishGroupAnnouncement_def
    handleGetTerminalVault_def handleDeleteTerminalVault_def
    handlePing_def handleLogout_def broadcastGroupAnnouncementNotice_def Let_def
  by (rule answered_rules)+

lemma answered_media:
  assumes "save_media e g n ft ct data u now = (h, r)"
  shows "answered c [] g h"
proof -
  have "gw_conns h = gw_conns g" using assms by (auto simp: save_media_def split: prod.split_asm)
  then show ?thesis by (rule answered_conns [OF answered_refl])
qed

lemma answered_upload: "answered c [rqs_Echo req] g (handleUploadFile e g c req)"
  unfolding handleUploadFile_def Let_def by (rule answered_rules | erule answered_media)+

lemma answered_avatar:
  assumes "register_avatar e g params u avatarURL = (h, r)"
  shows "answered c [] g h"
  using assms unfolding register_avatar_def Let_def
  by (auto simp: answered_refl split: if_split_asm option.split_asm sum.split_asm prod.split_asm dest: answered_media)

lemma answered_register: "answered c [rqs_Echo req] g (handleRegister e g c req)"
  unfolding handleRegister_def Let_def by (rule answered_rules | erule answered_avatar)+

lemma answered_profile: "answered c [rqs_Echo req] g (handleUpdateProfile e g c req)"
  unfolding handleUpdateProfile_def notifyProfileUpdate_def Let_def
  by (rule answered_rules answered_receive | assumption)+

lemma answered_presence: "answered c es g h \<Longrightarrow> answered c es g (notifyFriendPresence std h u b)"
  unfolding notifyFriendPresence_def by (rule answered_rules | assumption)+

lemma answered_client:
  assumes "answered c es g h"
  shows "answered c es g (on_conn h d (\<lambda>cl. cl\<lparr>cl_capabilities := caps\<rparr>))"
    "answered c es g (on_conn h d (\<lambda>cl. cl\<lparr>cl_deviceID := x, cl_terminalSessionID := y\<rparr>))"
    "answered c es g (fst (addClient h d u))"
proof -
  have "answered c es g (on_conn h d (\<lambda>cl. cl\<lparr>cl_userID := u\<rparr>))" if "answered c es g h" for h
    by (rule answered_on_conn [OF that]) (simp_all add: deaf_def answers_def)
  then have "answered c es g (on_conn (on_store h k) d (\<lambda>cl. cl\<lparr>cl_userID := u\<rparr>))" for k
    using answered_events(7) [OF assms] by blast
  then have bound: "answered c es g ((on_conn (on_store h k) d (\<lambda>cl. cl\<lparr>cl_userID := u\<rparr>))\<lparr>gw_clients := cs\<rparr>)" for k cs
    by (rule answered_conns) simp
  have "on_store h (\<lambda>s. s) = h" by (simp add: on_store_def)
  with bound [where k = "\<lambda>s. s"] bound show "answered c es g (fst (addClient h d u))"
    using assms by (simp add: addClient_def Let_def)
qed (rule answered_on_conn [OF assms]; simp add: deaf_def answers_def)+

lemma answered_bound:
  assumes "x = (h, b)" "answered c es g (fst x)"
  shows "answered c es g h"
  using assms by simp

lemma answered_auth: "answered c [rqs_Echo req] g (handleAuth e g c req)"
  unfolding handleAuth_def bind_connection_def Let_def
  by (rule answered_rules answered_presence answered_client | erule answered_bound | simp only: if_distrib [of fst] fst_conv)+

section \<open>Sending\<close>

lemma answered_dynamic:
  "answered c [rqs_Echo req] g (handleDynamicMutation e g c req i ty k seg)"
  "answered c [rqs_Echo req] g (handleDynamicEvent e g c req i ty seg)"
  unfolding handleDynamicMutation_def handleDynamicEvent_def Let_def
  by (rule answered_rules)+

lemma answered_store_and_send:
  "answered c [] g h \<Longrightarrow> answered c [rqs_Echo req] g (store_and_send e h c req i ty k segs)"
  unfolding store_and_send_def Let_def by (rule answered_rules | assumption)+

lemma checked_conns: "gw_conns (fst (check_segments e u i ty rc n segs g)) = gw_conns g"
proof (induction segs arbitrary: g rc n)
  case (Cons seg rest)
  obtain h r where p: "validatePokeSegment g seg i u (env_now e n) = (h, r)" by fastforce
  then have "gw_conns h = gw_conns g"
    by (auto simp: validatePokeSegment_def Let_def split: if_splits option.splits)
  with Cons.IH [of _ _ h] show ?case by (simp add: p split: sum.split)
qed simp

lemma answered_checked: "check_segments e u i ty rc n segs g = (h, r) \<Longrightarrow> answered c [] g h"
  using checked_conns [of e u i ty rc n segs g] answered_conns [OF answered_refl, of h g] by simp

lemma answered_send: "answered c [rqs_Echo req] g (handleSendMessage e g c req)"
  unfolding handleSendMessage_def Let_def
  by (rule answered_with_params answered_if answered_option answered_sum answered_prod answered_dynamic
      answered_store_and_send answered_sends(2) answered_refl | erule answered_checked)+

section \<open>Every message is answered\<close>

lemmas answered_handlers = answered_groups answered_contacts answered_lookups answered_conversations answered_put_vault
  answered_announcements answered_upload answered_register answered_profile answered_auth answered_send

lemma answered_request: "answered c [rqs_Echo req] g (handleRequest e g c req)"
proof -
  have "list_all (\<lambda>(action, handler). answered c [rqs_Echo req] g (handler e g c req)) handlers"
    unfolding handlers_def list.pred_inject prod.case by (intro conjI TrueI answered_handlers list.pred_inject(1))
  then have "answered c [rqs_Echo req] g (handler e g c req)" if "gm_get handlers (rqs_Action req) = Some handler" for handler
    using map_of_SomeD [OF that] by (auto simp: list_all_iff)
  then show ?thesis unfolding handleRequest_def by (rule answered_option [OF answered_sends(2) [OF answered_refl]])
qed

text \<open>The echo of a text that arrives; one that is no request has none.\<close>

definition message_echo :: "env \<Rightarrow> string \<Rightarrow> string" where
  "message_echo e msg =
     (case gs_decode (env_std e) msg of
        None \<Rightarrow> []
      | Some v \<Rightarrow> (case decode_request v of None \<Rightarrow> [] | Some req \<Rightarrow> rqs_Echo req))"

lemma answered_message: "answered c [message_echo e msg] g (readPump e g c msg)"
  unfolding readPump_def message_echo_def
  by (simp add: answered_request answered_sends(2) answered_refl split: option.split)

section \<open>Connections without a user\<close>

text \<open>The actions that need no login.\<close>

definition open_actions :: "string list" where
  "open_actions = [''auth'', ''register'', ''logout'', ''ping'']"

lemma refused_params: "cl_userID (conn g c) = [] \<Longrightarrow> with_params g c req msg k = sendError g c (rqs_Echo req) ''not authenticated''"
  by (simp add: with_params_def)

lemma refused_request:
  assumes "cl_userID (conn g c) = []" "rqs_Action req \<notin> set open_actions"
  shows "handleRequest e g c req = sendError g c (rqs_Echo req)
     (if rqs_Action req \<in> fst ` set handlers then ''not authenticated'' else ''unknown action: '' @ rqs_Action req)"
proof (cases "gm_get handlers (rqs_Action req)")
  case None
  then have "rqs_Action req \<notin> fst ` set handlers" by (simp add: map_of_eq_None_iff)
  with None show ?thesis unfolding handleRequest_def by simp
next
  case (Some handler)
  have "list_all (\<lambda>(action, handler). action \<notin> set open_actions \<longrightarrow>
      handler e g c req = sendError g c (rqs_Echo req) ''not authenticated'') handlers"
    unfolding handlers_def list.pred_inject prod.case
    by (intro conjI impI TrueI list.pred_inject(1))
      (simp_all only: refused_params [OF assms(1)] assms(1) if_True Let_def
        handleGetGroupList_def handleGetGroupInfo_def handleCreateGroup_def handleGroupInvite_def handleJoinGroup_def
        handleLeaveGroup_def handleGroupKick_def handleGroupBan_def handleUpdateGroup_def
        handleSetGroupAdmin_def handleTransferGroup_def handleDismissGroup_def handleGroupMuteAll_def
        handleFriendHandle_def handleRemoveFriend_def handleSetUserBlocked_def handleEnsureConversation_def
        handleFriendRequest_def handleGetUser_def handleGetUsers_def handleGetFriends_def handleSearchUsers_def
        handleGetFriendRequests_def handleReportUser_def handleGrantUserTitle_def handleRevokeUserTitle_def
        handleReactMessage_def handleRecallMessage_def handleGetConversations_def handleSetConversationPreferences_def
        handleGetMessages_def handleMarkRead_def handleCreateForward_def handleGetForwardMessage_def handleGetPushConfig_def
        handleRegisterPush_def handleUnregisterPush_def handleGetDynamicInteractions_def handlePutTerminalVault_def
        handleGetGroupAnnouncements_def handleUpdateGroupAnnouncement_def handleDeleteGroupAnnouncement_def
        handleMarkGroupAnnouncementRead_def handleCreateGroupAnnouncement_def handleGetTerminalVault_def
        handleDeleteTerminalVault_def handleUploadFile_def handleUpdateProfile_def handleSendMessage_def, simp_all add: open_actions_def)
  with Some assms(2) have "handler e g c req = sendError g c (rqs_Echo req) ''not authenticated''"
    using map_of_SomeD [OF Some] by (auto simp: list_all_iff)
  with Some show ?thesis using map_of_SomeD [OF Some] by (auto simp: handleRequest_def image_iff)
qed

end
