(* ===== verification/Interaction_Tally.thy ===== *)
theory Interaction_Tally
  imports Dynamic_Interaction
begin

text \<open>
  The reducers of interactive cards (\<open>internal/gateway/dynamic_interaction.go\<close>) against a reference
  count: every actor has one answer, the last one of the ledger, and an option's count is the number
  of actors with that answer.
\<close>

section \<open>The last answer of each actor\<close>

definition final_answer :: "dynamic_interaction_event list \<Rightarrow> string \<Rightarrow> dynamic_interaction_event option" where
  "final_answer events actorID =
     (let own = filter (\<lambda>ev. di_ActorID ev = actorID) events in if own = [] then None else Some (last own))"

text \<open>The actors whose last answer has a property.\<close>

definition answering :: "dynamic_interaction_event list \<Rightarrow> (dynamic_interaction_event \<Rightarrow> bool) \<Rightarrow> string set" where
  "answering events P = {a. \<exists>ev. final_answer events a = Some ev \<and> P ev}"

lemma final_answer_snoc:
  "final_answer (events @ [ev]) a = (if di_ActorID ev = a then Some ev else final_answer events a)"
  by (simp add: final_answer_def Let_def)

lemma latest_get: "gm_get (latestInteractionEventsByActor events) a = final_answer events a"
proof (induction events rule: rev_induct)
  case (snoc ev events)
  then show ?case by (simp add: final_answer_snoc latestInteractionEventsByActor_def gm_get_set)
qed (simp add: latestInteractionEventsByActor_def final_answer_def Let_def)

lemma latest_wf: "gm_wf (latestInteractionEventsByActor events)"
  by (induction events rule: rev_induct) (simp_all add: latestInteractionEventsByActor_def)

section \<open>Counting\<close>

definition tally :: "(string, nat) gomap \<Rightarrow> string \<Rightarrow> nat" where
  "tally counts v = (case gm_get counts v of Some n \<Rightarrow> n | None \<Rightarrow> 0)"

lemma tally_count: "tally (foldl count_up counts vs) v = tally counts v + count_list vs v"
  by (induction vs arbitrary: counts) (simp_all add: tally_def count_up_def gm_get_set)

lemma count_listed: "count_list (map f xs) v = length (filter (\<lambda>x. f x = v) xs)"
  by (induction xs) simp_all

text \<open>The entries of a map with a property are as many as the keys that have one.\<close>

lemma entries_card:
  assumes "gm_wf m"
  shows "length (filter (P \<circ> snd) m) = card {a. \<exists>x. gm_get m a = Some x \<and> P x}"
proof -
  have "distinct (map fst (filter (P \<circ> snd) m))" using assms by (simp add: gm_wf_def distinct_map_filter)
  then have "length (filter (P \<circ> snd) m) = card (fst ` set (filter (P \<circ> snd) m))"
    by (metis distinct_card length_map list.set_map)
  also have "fst ` set (filter (P \<circ> snd) m) = {a. \<exists>x. gm_get m a = Some x \<and> P x}"
    using assms by (force simp: gm_wf_def image_iff)
  finally show ?thesis .
qed

lemma latest_card: "length (filter (P \<circ> snd) (latestInteractionEventsByActor events)) = card (answering events P)"
  by (simp add: entries_card [OF latest_wf] latest_get answering_def)

lemma latest_length: "length (latestInteractionEventsByActor events) = card (answering events (\<lambda>_. True))"
  using latest_card [of "\<lambda>_. True" events] by (simp add: comp_def)

lemma answering_all: "answering events (\<lambda>_. True) = di_ActorID ` set events"
proof -
  have "final_answer events a \<noteq> None \<longleftrightarrow> a \<in> di_ActorID ` set events" for a
    by (auto simp: final_answer_def Let_def filter_empty_conv)
  then show ?thesis by (auto simp: answering_def)
qed

lemma latest_tally:
  "tally (foldl count_up [] (map (f \<circ> snd) (latestInteractionEventsByActor events))) v = card (answering events (\<lambda>ev. f ev = v))"
  using latest_card [of "\<lambda>ev. f ev = v" events] by (simp add: tally_count count_listed comp_def) (simp add: tally_def)

section \<open>Votes and approvals\<close>

lemma normalized_total: "observed \<le> normalizedInteractionTotal configured observed" "1 \<le> normalizedInteractionTotal configured observed"
  by (simp_all add: normalizedInteractionTotal_def Let_def)

lemma vote_counts:
  "tally (red_counts (reduceSetByActor ctx)) v =
     card (answering (rc_events ctx) (\<lambda>ev. or_else (dynamicInteractionValue ev) (ic_kind (rc_config ctx)) = v))"
  by (simp add: reduceSetByActor_def Let_def latest_tally)

lemma vote_responded:
  "red_responded (reduceSetByActor ctx) = card (di_ActorID ` set (rc_events ctx))"
  "int (red_responded (reduceSetByActor ctx)) \<le> red_total (reduceSetByActor ctx)"
  by (simp_all add: reduceSetByActor_def Let_def latest_length answering_all normalized_total)

text \<open>Who approves and who rejects: by the last answer, approval first.\<close>

definition approvers :: "go_text \<Rightarrow> dynamic_interaction_event list \<Rightarrow> string set" where
  "approvers gt events = answering events (\<lambda>ev. isPositiveInteractionAction gt (dynamicInteractionValue ev))"

definition rejecters :: "go_text \<Rightarrow> dynamic_interaction_event list \<Rightarrow> string set" where
  "rejecters gt events = answering events (\<lambda>ev. \<not> isPositiveInteractionAction gt (dynamicInteractionValue ev)
     \<and> isNegativeInteractionAction gt (dynamicInteractionValue ev))"

definition needed :: "reduce_context \<Rightarrow> int" where
  "needed ctx = (if ic_quorum (rc_config ctx) \<le> 0
     then normalizedInteractionTotal (rc_total ctx) (int (card (di_ActorID ` set (rc_events ctx))))
     else ic_quorum (rc_config ctx))"

lemma finite_answering: "finite (answering events P)"
proof (rule finite_subset)
  show "answering events P \<subseteq> answering events (\<lambda>_. True)" by (auto simp: answering_def)
  show "finite (answering events (\<lambda>_. True))" by (simp add: answering_all)
qed

lemma approval_outcome:
  assumes "\<not> ic_legacyCloseOnResponse (rc_config ctx)"
  shows "(red_status (reduceApprovalQuorum gt ctx), red_closed (reduceApprovalQuorum gt ctx)) =
     (if ic_veto (rc_config ctx) \<and> rejecters gt (rc_events ctx) \<noteq> {} then (''rejected'', True)
      else if needed ctx \<le> int (card (approvers gt (rc_events ctx))) then (''approved'', True)
      else (''pending'', False))"
proof -
  let ?latest = "latestInteractionEventsByActor (rc_events ctx)"
  have a: "length (filter (isPositiveInteractionAction gt) (map (dynamicInteractionValue \<circ> snd) ?latest)) = card (approvers gt (rc_events ctx))"
    using latest_card [of "\<lambda>ev. isPositiveInteractionAction gt (dynamicInteractionValue ev)" "rc_events ctx"]
    by (simp add: filter_map comp_def approvers_def)
  have r: "length (filter (\<lambda>v. \<not> isPositiveInteractionAction gt v \<and> isNegativeInteractionAction gt v)
      (map (dynamicInteractionValue \<circ> snd) ?latest)) = card (rejecters gt (rc_events ctx))"
    using latest_card [of "\<lambda>ev. \<not> isPositiveInteractionAction gt (dynamicInteractionValue ev)
      \<and> isNegativeInteractionAction gt (dynamicInteractionValue ev)" "rc_events ctx"]
    by (simp add: filter_map comp_def rejecters_def)
  have "0 < card (rejecters gt (rc_events ctx)) \<longleftrightarrow> rejecters gt (rc_events ctx) \<noteq> {}"
    unfolding rejecters_def by (simp add: card_gt_0_iff finite_answering)
  then show ?thesis
    using assms unfolding reduceApprovalQuorum_def Let_def a r
    by (simp add: approval_verdict_def needed_def latest_length answering_all)
qed

end
