(* ===== verification/Fairy_State.thy ===== *)
theory Fairy_State
  imports Dynamic_Capabilities
begin

text \<open>
  The persistent switches and quotas of the agent service (\<open>internal/fairy/state.go\<close>). The state is
  kept in memory and written to one file after every change: \<open>saveLocked\<close> writes a temporary file and
  renames it, so the file is either the old or the new state. Every step of it may fail. JSON text,
  the calendar date of a time and the encoding of a scope key are arguments (\<open>state_env\<close>). The
  lemmas show that a failed change changes nothing, that a restart finds the state that was saved,
  and that no day sees more model calls than its limit.
\<close>

section \<open>State\<close>

record fairy_group =
  fg_Enabled :: bool
  fg_SoftTriggerMode :: string

record persisted_state =
  ps_Version :: int
  ps_Groups :: "(string, fairy_group) gomap"
  ps_ContextDisabled :: "(string, bool) gomap"
  ps_FactMemoryEnabled :: "(string, bool) gomap"
  ps_QuotaDate :: string
  ps_QuotaCalls :: int
  ps_TaskQuotaDates :: "(string, string) gomap"
  ps_TaskQuotaCalls :: "(string, int) gomap"

record state_store =
  st_groupDefault :: bool
  st_softDefault :: string
  st_state :: persisted_state
  st_file :: "string option"

datatype save_step = MkdirAll | MarshalIndent | CreateTemp | Chmod | Write | Sync | Close | Rename

text \<open>
  \<open>se_fault\<close> says which system call fails during the operation, \<open>se_unreadable\<close> that the file exists
  and cannot be read.
\<close>

record state_env =
  se_date :: "gotime \<Rightarrow> string"
  se_scopeKey :: "string list \<Rightarrow> string"
  se_marshal :: "json \<Rightarrow> string"
  se_decode :: "string \<Rightarrow> json option"
  se_fault :: "save_step \<Rightarrow> bool"
  se_unreadable :: bool

definition GroupSoftOff :: string where "GroupSoftOff = ''off''"
definition GroupSoftShadow :: string where "GroupSoftShadow = ''shadow''"
definition GroupSoftOn :: string where "GroupSoftOn = ''on''"

definition validGroupSoftMode :: "string \<Rightarrow> bool" where
  "validGroupSoftMode value \<longleftrightarrow> value \<in> {GroupSoftOff, GroupSoftShadow, GroupSoftOn}"

definition validTraceLabel :: "string \<Rightarrow> bool" where
  "validTraceLabel value \<longleftrightarrow> value \<noteq> [] \<and> length value \<le> 64
     \<and> list_all (\<lambda>c. (CHR ''a'' \<le> c \<and> c \<le> CHR ''z'') \<or> (CHR ''0'' \<le> c \<and> c \<le> CHR ''9'')
          \<or> c = CHR ''-'' \<or> c = CHR ''_'' \<or> c = CHR ''.'') value"

section \<open>Scopes of facts\<close>

record fact_scope =
  sc_Type :: string
  sc_ID :: string
  sc_OwnerUserID :: string

definition FactScopePrivate :: string where "FactScopePrivate = ''private''"
definition FactScopeGroup :: string where "FactScopeGroup = ''group''"

definition validateFactScope :: "fact_scope \<Rightarrow> bool" where
  "validateFactScope scope \<longleftrightarrow>
     (if sc_ID scope = [] \<or> 1024 < length (sc_ID scope) \<or> 128 < length (sc_OwnerUserID scope) then False
      else if sc_Type scope = FactScopePrivate then sc_OwnerUserID scope \<noteq> []
      else if sc_Type scope = FactScopeGroup then sc_OwnerUserID scope = []
      else False)"

definition factScopeStateKey :: "state_env \<Rightarrow> fact_scope \<Rightarrow> string" where
  "factScopeStateKey e scope = se_scopeKey e [sc_Type scope, sc_ID scope, sc_OwnerUserID scope]"

section \<open>The file\<close>

text \<open>
  \<open>MarshalIndent\<close> writes the fields in the order of the struct and the keys of a map sorted;
  \<open>omitempty\<close> leaves out an empty map, an empty string and a zero.
\<close>

definition map_json :: "('v \<Rightarrow> json) \<Rightarrow> (string, 'v) gomap \<Rightarrow> json" where
  "map_json f m = JObj (map (\<lambda>(k, v). (k, f v)) (sort_key fst m))"

definition omitempty :: "bool \<Rightarrow> string \<Rightarrow> json \<Rightarrow> (string \<times> json) list" where
  "omitempty zero name v = (if zero then [] else [(name, v)])"

definition group_json :: "fairy_group \<Rightarrow> json" where
  "group_json grp = JObj ((''enabled'', JBool (fg_Enabled grp))
     # omitempty (fg_SoftTriggerMode grp = []) ''soft_trigger_mode'' (JStr (fg_SoftTriggerMode grp)))"

definition persisted_json :: "persisted_state \<Rightarrow> json" where
  "persisted_json p = JObj
     ([(''version'', JNum (of_int (ps_Version p))), (''groups'', map_json group_json (ps_Groups p))]
      @ omitempty (ps_ContextDisabled p = []) ''context_disabled'' (map_json JBool (ps_ContextDisabled p))
      @ omitempty (ps_FactMemoryEnabled p = []) ''fact_memory_enabled'' (map_json JBool (ps_FactMemoryEnabled p))
      @ omitempty (ps_QuotaDate p = []) ''quota_date'' (JStr (ps_QuotaDate p))
      @ omitempty (ps_QuotaCalls p = 0) ''quota_calls'' (JNum (of_int (ps_QuotaCalls p)))
      @ omitempty (ps_TaskQuotaDates p = []) ''task_quota_dates'' (map_json JStr (ps_TaskQuotaDates p))
      @ omitempty (ps_TaskQuotaCalls p = []) ''task_quota_calls'' (map_json (JNum \<circ> of_int) (ps_TaskQuotaCalls p)))"

text \<open>
  \<open>Unmarshal\<close> takes the keys in the order of the text; a map field keeps the entries it already has,
  \<open>null\<close> makes a map nil and leaves other fields as they are. \<open>None\<close> is a type error.
\<close>

fun decode_int64 :: "json \<Rightarrow> int option" where
  "decode_int64 (JNum r) = (if r = of_int \<lfloor>r\<rfloor> \<and> - (2 ^ 63) \<le> \<lfloor>r\<rfloor> \<and> \<lfloor>r\<rfloor> < 2 ^ 63 then Some \<lfloor>r\<rfloor> else None)"
| "decode_int64 JNull = Some 0"
| "decode_int64 _ = None"

fun decode_entries :: "(json \<Rightarrow> 'v option) \<Rightarrow> (string \<times> json) list \<Rightarrow> (string, 'v) gomap \<Rightarrow> (string, 'v) gomap option" where
  "decode_entries f [] m = Some m"
| "decode_entries f ((k, v) # kvs) m =
     (case f v of None \<Rightarrow> None | Some x \<Rightarrow> decode_entries f kvs (gm_set k x m))"

definition decode_map :: "(json \<Rightarrow> 'v option) \<Rightarrow> (string, 'v) gomap \<Rightarrow> json \<Rightarrow> (string, 'v) gomap option" where
  "decode_map f m v =
     (case v of JNull \<Rightarrow> Some [] | JObj kvs \<Rightarrow> decode_entries f kvs m | _ \<Rightarrow> None)"

definition decode_group_key :: "fairy_group option \<Rightarrow> string \<times> json \<Rightarrow> fairy_group option" where
  "decode_group_key acc kv =
     (case acc of
        None \<Rightarrow> None
      | Some grp \<Rightarrow>
          if fold_key (fst kv) = fold_key ''enabled''
          then (case snd kv of JBool b \<Rightarrow> Some (grp\<lparr>fg_Enabled := b\<rparr>) | JNull \<Rightarrow> Some grp | _ \<Rightarrow> None)
          else if fold_key (fst kv) = fold_key ''soft_trigger_mode''
          then (case snd kv of JStr v \<Rightarrow> Some (grp\<lparr>fg_SoftTriggerMode := v\<rparr>) | JNull \<Rightarrow> Some grp | _ \<Rightarrow> None)
          else Some grp)"

fun decode_group :: "json \<Rightarrow> fairy_group option" where
  "decode_group JNull = Some \<lparr> fg_Enabled = False, fg_SoftTriggerMode = [] \<rparr>"
| "decode_group (JObj kvs) = foldl decode_group_key (Some \<lparr> fg_Enabled = False, fg_SoftTriggerMode = [] \<rparr>) kvs"
| "decode_group _ = None"

definition decode_state_key :: "persisted_state option \<Rightarrow> string \<times> json \<Rightarrow> persisted_state option" where
  "decode_state_key acc kv =
     (case acc of
        None \<Rightarrow> None
      | Some p \<Rightarrow>
          (let v = snd kv; is = (\<lambda>name. fold_key (fst kv) = fold_key name) in
           if is ''version''
           then (if v = JNull then Some p else map_option (\<lambda>n. p\<lparr>ps_Version := n\<rparr>) (decode_int64 v))
           else if is ''groups''
           then map_option (\<lambda>m. p\<lparr>ps_Groups := m\<rparr>) (decode_map decode_group (ps_Groups p) v)
           else if is ''context_disabled''
           then map_option (\<lambda>m. p\<lparr>ps_ContextDisabled := m\<rparr>) (decode_map decode_bool (ps_ContextDisabled p) v)
           else if is ''fact_memory_enabled''
           then map_option (\<lambda>m. p\<lparr>ps_FactMemoryEnabled := m\<rparr>) (decode_map decode_bool (ps_FactMemoryEnabled p) v)
           else if is ''quota_date''
           then (if v = JNull then Some p else map_option (\<lambda>d. p\<lparr>ps_QuotaDate := d\<rparr>) (decode_string v))
           else if is ''quota_calls''
           then (if v = JNull then Some p else map_option (\<lambda>n. p\<lparr>ps_QuotaCalls := n\<rparr>) (decode_int64 v))
           else if is ''task_quota_dates''
           then map_option (\<lambda>m. p\<lparr>ps_TaskQuotaDates := m\<rparr>) (decode_map decode_string (ps_TaskQuotaDates p) v)
           else if is ''task_quota_calls''
           then map_option (\<lambda>m. p\<lparr>ps_TaskQuotaCalls := m\<rparr>) (decode_map decode_int64 (ps_TaskQuotaCalls p) v)
           else Some p))"

definition initial_state :: persisted_state where
  "initial_state = \<lparr> ps_Version = 1, ps_Groups = [], ps_ContextDisabled = [], ps_FactMemoryEnabled = [],
     ps_QuotaDate = [], ps_QuotaCalls = 0, ps_TaskQuotaDates = [], ps_TaskQuotaCalls = [] \<rparr>"

definition decode_state :: "json \<Rightarrow> persisted_state option" where
  "decode_state v =
     (case v of JNull \<Rightarrow> Some initial_state | JObj kvs \<Rightarrow> foldl decode_state_key (Some initial_state) kvs | _ \<Rightarrow> None)"

text \<open>
  \<open>OpenStateStoreWithDefaults\<close>: the file is read once; a missing file is an empty state. Nil maps and
  empty maps are the same list, so the three \<open>make\<close> calls have nothing to do.
\<close>

definition OpenStateStoreWithDefaults ::
  "state_env \<Rightarrow> string option \<Rightarrow> bool \<Rightarrow> string \<Rightarrow> string + state_store" where
  "OpenStateStoreWithDefaults e content groupDefault softDefault =
     (let store = (\<lambda>p. \<lparr> st_groupDefault = groupDefault, st_softDefault = softDefault, st_state = p, st_file = content \<rparr>) in
      if \<not> validGroupSoftMode softDefault then Inl ''invalid Fairy group soft-trigger default''
      else
        (case content of
           None \<Rightarrow> Inr (store initial_state)
         | Some data \<Rightarrow>
             if se_unreadable e then Inl ''read Fairy state''
             else
               (case Option.bind (se_decode e data) decode_state of
                  None \<Rightarrow> Inl ''decode Fairy state''
                | Some p \<Rightarrow>
                    if ps_Version p \<noteq> 1 then Inl ''unsupported Fairy state version''
                    else if list_ex (\<lambda>(groupID, grp). fg_SoftTriggerMode grp \<noteq> []
                            \<and> \<not> validGroupSoftMode (fg_SoftTriggerMode grp)) (ps_Groups p)
                    then Inl ''invalid Fairy group soft-trigger mode''
                    else Inr (store p))))"

definition OpenStateStore :: "state_env \<Rightarrow> string option \<Rightarrow> bool \<Rightarrow> string + state_store" where
  "OpenStateStore e content groupDefault = OpenStateStoreWithDefaults e content groupDefault GroupSoftShadow"

text \<open>The steps of \<open>saveLocked\<close> in their order; only the last one changes the file.\<close>

definition save_steps :: "save_step list" where
  "save_steps = [MkdirAll, MarshalIndent, CreateTemp, Chmod, Write, Sync, Close, Rename]"

definition state_text :: "state_env \<Rightarrow> persisted_state \<Rightarrow> string" where
  "state_text e p = se_marshal e (persisted_json p) @ [CHR 0x0A]"

definition saveLocked :: "state_env \<Rightarrow> state_store \<Rightarrow> state_store \<times> save_step option" where
  "saveLocked e s =
     (case List.find (se_fault e) save_steps of
        Some step \<Rightarrow> (s, Some step)
      | None \<Rightarrow> (s\<lparr>st_file := Some (state_text e (st_state s))\<rparr>, None))"

section \<open>Switches\<close>

definition GroupEnabled :: "state_store \<Rightarrow> string \<Rightarrow> bool" where
  "GroupEnabled s groupID =
     (case gm_get (ps_Groups (st_state s)) groupID of None \<Rightarrow> st_groupDefault s | Some grp \<Rightarrow> fg_Enabled grp)"

text \<open>
  Every change puts the new entry in place, saves, and on failure puts the previous entry back or
  deletes the one it added.
\<close>

definition put_back :: "'k \<Rightarrow> 'v option \<Rightarrow> ('k, 'v) gomap \<Rightarrow> ('k, 'v) gomap" where
  "put_back k previous m = (case previous of Some v \<Rightarrow> gm_set k v m | None \<Rightarrow> gm_del k m)"

definition write_group :: "state_env \<Rightarrow> state_store \<Rightarrow> string \<Rightarrow> fairy_group \<Rightarrow> state_store \<times> string option" where
  "write_group e s groupID nxt =
     (let p = st_state s; previous = gm_get (ps_Groups p) groupID in
      case saveLocked e (s\<lparr>st_state := p\<lparr>ps_Groups := gm_set groupID nxt (ps_Groups p)\<rparr>\<rparr>) of
        (s1, None) \<Rightarrow> (s1, None)
      | (s1, Some _) \<Rightarrow>
          (s1\<lparr>st_state := (st_state s1)\<lparr>ps_Groups := put_back groupID previous (ps_Groups (st_state s1))\<rparr>\<rparr>,
           Some ''save Fairy state''))"

definition SetGroupEnabled :: "state_env \<Rightarrow> state_store \<Rightarrow> string \<Rightarrow> bool \<Rightarrow> state_store \<times> string option" where
  "SetGroupEnabled e s groupID enabled =
     (let nxt = (case gm_get (ps_Groups (st_state s)) groupID of
                   Some grp \<Rightarrow> grp | None \<Rightarrow> \<lparr> fg_Enabled = False, fg_SoftTriggerMode = [] \<rparr>)
      in write_group e s groupID (nxt\<lparr>fg_Enabled := enabled\<rparr>))"

definition GroupSoftMode :: "state_store \<Rightarrow> string \<Rightarrow> string" where
  "GroupSoftMode s groupID =
     (case gm_get (ps_Groups (st_state s)) groupID of
        None \<Rightarrow> st_softDefault s
      | Some grp \<Rightarrow> if fg_SoftTriggerMode grp = [] then st_softDefault s else fg_SoftTriggerMode grp)"

definition SetGroupSoftMode :: "state_env \<Rightarrow> state_store \<Rightarrow> string \<Rightarrow> string \<Rightarrow> state_store \<times> string option" where
  "SetGroupSoftMode e s groupID mode =
     (if \<not> validGroupSoftMode mode then (s, Some ''invalid Fairy group soft-trigger mode'')
      else
        (let nxt = (case gm_get (ps_Groups (st_state s)) groupID of
                      Some grp \<Rightarrow> grp | None \<Rightarrow> \<lparr> fg_Enabled = st_groupDefault s, fg_SoftTriggerMode = [] \<rparr>)
         in write_group e s groupID (nxt\<lparr>fg_SoftTriggerMode := mode\<rparr>)))"

definition SetSoftDefault :: "state_store \<Rightarrow> string \<Rightarrow> state_store" where
  "SetSoftDefault s mode = (if validGroupSoftMode mode then s\<lparr>st_softDefault := mode\<rparr> else s)"

definition gm_flag :: "('k, bool) gomap \<Rightarrow> 'k \<Rightarrow> bool" where
  "gm_flag m k = (case gm_get m k of Some b \<Rightarrow> b | None \<Rightarrow> False)"

definition ContextEnabled :: "state_store \<Rightarrow> string \<Rightarrow> bool" where
  "ContextEnabled s conversationID = (\<not> gm_flag (ps_ContextDisabled (st_state s)) conversationID)"

definition SetContextEnabled :: "state_env \<Rightarrow> state_store \<Rightarrow> string \<Rightarrow> bool \<Rightarrow> state_store \<times> string option" where
  "SetContextEnabled e s conversationID enabled =
     (let p = st_state s; m = ps_ContextDisabled p; previous = gm_get m conversationID;
          m1 = (if enabled then gm_del conversationID m else gm_set conversationID True m) in
      case saveLocked e (s\<lparr>st_state := p\<lparr>ps_ContextDisabled := m1\<rparr>\<rparr>) of
        (s1, None) \<Rightarrow> (s1, None)
      | (s1, Some _) \<Rightarrow>
          (s1\<lparr>st_state := (st_state s1)\<lparr>ps_ContextDisabled :=
              put_back conversationID previous (ps_ContextDisabled (st_state s1))\<rparr>\<rparr>, Some ''save Fairy state''))"

definition FactMemoryEnabled :: "state_env \<Rightarrow> state_store \<Rightarrow> fact_scope \<Rightarrow> bool" where
  "FactMemoryEnabled e s scope = gm_flag (ps_FactMemoryEnabled (st_state s)) (factScopeStateKey e scope)"

definition SetFactMemoryEnabled :: "state_env \<Rightarrow> state_store \<Rightarrow> fact_scope \<Rightarrow> bool \<Rightarrow> state_store \<times> string option" where
  "SetFactMemoryEnabled e s scope enabled =
     (if \<not> validateFactScope scope then (s, Some ''invalid Fairy fact memory'')
      else
        (let p = st_state s; m = ps_FactMemoryEnabled p; key = factScopeStateKey e scope; previous = gm_get m key;
             m1 = (if enabled then gm_set key True m else gm_del key m) in
         case saveLocked e (s\<lparr>st_state := p\<lparr>ps_FactMemoryEnabled := m1\<rparr>\<rparr>) of
           (s1, None) \<Rightarrow> (s1, None)
         | (s1, Some _) \<Rightarrow>
             (s1\<lparr>st_state := (st_state s1)\<lparr>ps_FactMemoryEnabled :=
                 put_back key previous (ps_FactMemoryEnabled (st_state s1))\<rparr>\<rparr>, Some ''save Fairy state'')))"

definition FactMemoryEnabledScopeCount :: "state_store \<Rightarrow> nat" where
  "FactMemoryEnabledScopeCount s = length (filter snd (ps_FactMemoryEnabled (st_state s)))"

section \<open>Quotas\<close>

definition ModelQuotaStatus :: "state_env \<Rightarrow> state_store \<Rightarrow> gotime \<Rightarrow> int \<Rightarrow> int \<times> int" where
  "ModelQuotaStatus e s now limit =
     (if limit \<le> 0 then (0, 0)
      else
        (let used = (if ps_QuotaDate (st_state s) = se_date e now then ps_QuotaCalls (st_state s) else 0);
             used' = (if limit < used then limit else used)
         in (used', limit - used')))"

text \<open>The result of reserving a call: the counter, whether it was granted, and a save error.\<close>

definition TakeModelCall ::
  "state_env \<Rightarrow> state_store \<Rightarrow> gotime \<Rightarrow> int \<Rightarrow> state_store \<times> int \<times> bool \<times> save_step option" where
  "TakeModelCall e s now limit =
     (if limit \<le> 0 then (s, 0, False, None)
      else
        (let p = st_state s; date = se_date e now;
             p1 = (if ps_QuotaDate p \<noteq> date then p\<lparr>ps_QuotaDate := date, ps_QuotaCalls := 0\<rparr> else p) in
         if limit \<le> ps_QuotaCalls p1 then (s\<lparr>st_state := p1\<rparr>, ps_QuotaCalls p1, False, None)
         else
           (let calls = wrap64 (ps_QuotaCalls p1 + 1) in
            case saveLocked e (s\<lparr>st_state := p1\<lparr>ps_QuotaCalls := calls\<rparr>\<rparr>) of
              (s1, Some err) \<Rightarrow>
                (s1\<lparr>st_state := (st_state s1)\<lparr>ps_QuotaDate := ps_QuotaDate p, ps_QuotaCalls := ps_QuotaCalls p\<rparr>\<rparr>,
                 ps_QuotaCalls p, False, Some err)
            | (s1, None) \<Rightarrow> (s1, calls, True, None))))"

definition gm_int :: "('k, int) gomap \<Rightarrow> 'k \<Rightarrow> int" where
  "gm_int m k = (case gm_get m k of Some n \<Rightarrow> n | None \<Rightarrow> 0)"

definition gm_str :: "('k, string) gomap \<Rightarrow> 'k \<Rightarrow> string" where
  "gm_str m k = (case gm_get m k of Some v \<Rightarrow> v | None \<Rightarrow> [])"

definition TaskModelQuotaStatus :: "state_env \<Rightarrow> state_store \<Rightarrow> gotime \<Rightarrow> string \<Rightarrow> int \<Rightarrow> int \<times> int" where
  "TaskModelQuotaStatus e s now taskID limit =
     (if limit \<le> 0 then (0, 0)
      else
        (let p = st_state s;
             used = (if gm_str (ps_TaskQuotaDates p) taskID = se_date e now then gm_int (ps_TaskQuotaCalls p) taskID else 0);
             used' = (if limit < used then limit else used)
         in (used', limit - used')))"

definition TakeTaskModelCall ::
  "state_env \<Rightarrow> state_store \<Rightarrow> gotime \<Rightarrow> int \<Rightarrow> string \<Rightarrow> int
     \<Rightarrow> state_store \<times> int \<times> int \<times> bool \<times> string option" where
  "TakeTaskModelCall e s now globalLimit taskID taskLimit =
     (if globalLimit \<le> 0 \<or> taskLimit \<le> 0 then (s, 0, 0, False, None)
      else if \<not> validTraceLabel taskID then (s, 0, 0, False, Some ''invalid Fairy model task ID'')
      else
        (let p = st_state s; date = se_date e now;
             globalUsed = (if ps_QuotaDate p = date then ps_QuotaCalls p else 0);
             taskUsed = (if gm_str (ps_TaskQuotaDates p) taskID = date then gm_int (ps_TaskQuotaCalls p) taskID else 0) in
         if globalLimit \<le> globalUsed \<or> taskLimit \<le> taskUsed then (s, globalUsed, taskUsed, False, None)
         else
           (let p1 = p\<lparr>ps_QuotaDate := date, ps_QuotaCalls := wrap64 (globalUsed + 1),
                       ps_TaskQuotaDates := gm_set taskID date (ps_TaskQuotaDates p),
                       ps_TaskQuotaCalls := gm_set taskID (wrap64 (taskUsed + 1)) (ps_TaskQuotaCalls p)\<rparr> in
            case saveLocked e (s\<lparr>st_state := p1\<rparr>) of
              (s1, Some _) \<Rightarrow>
                (s1\<lparr>st_state := (st_state s1)
                    \<lparr>ps_QuotaDate := ps_QuotaDate p, ps_QuotaCalls := ps_QuotaCalls p,
                     ps_TaskQuotaDates := put_back taskID (gm_get (ps_TaskQuotaDates p) taskID) (ps_TaskQuotaDates (st_state s1)),
                     ps_TaskQuotaCalls := put_back taskID (gm_get (ps_TaskQuotaCalls p) taskID) (ps_TaskQuotaCalls (st_state s1))\<rparr>\<rparr>,
                 globalUsed, taskUsed, False, Some ''save Fairy state'')
            | (s1, None) \<Rightarrow> (s1, wrap64 (globalUsed + 1), wrap64 (taskUsed + 1), True, None))))"

section \<open>What a change does\<close>

text \<open>The state as lookups see it: the order of a map's entries is not observable.\<close>

definition state_view where
  "state_view p = (ps_Version p, map_of (ps_Groups p), map_of (ps_ContextDisabled p), map_of (ps_FactMemoryEnabled p),
     (ps_QuotaDate p, ps_QuotaCalls p), map_of (ps_TaskQuotaDates p), map_of (ps_TaskQuotaCalls p))"

definition int64 :: "int \<Rightarrow> bool" where
  "int64 n \<longleftrightarrow> - (2 ^ 63) \<le> n \<and> n < 2 ^ 63"

definition mode_ok :: "fairy_group \<Rightarrow> bool" where
  "mode_ok grp \<longleftrightarrow> fg_SoftTriggerMode grp = [] \<or> validGroupSoftMode (fg_SoftTriggerMode grp)"

definition entries :: "('v \<Rightarrow> bool) \<Rightarrow> ('k, 'v) gomap \<Rightarrow> bool" where
  "entries P m \<longleftrightarrow> gm_wf m \<and> (\<forall>(k, v) \<in> set m. P v)"

definition state_typed :: "persisted_state \<Rightarrow> bool" where
  "state_typed p \<longleftrightarrow> gm_wf (ps_Groups p) \<and> gm_wf (ps_ContextDisabled p)
     \<and> gm_wf (ps_FactMemoryEnabled p) \<and> gm_wf (ps_TaskQuotaDates p) \<and> entries int64 (ps_TaskQuotaCalls p)
     \<and> int64 (ps_QuotaCalls p)"

definition state_ok :: "persisted_state \<Rightarrow> bool" where
  "state_ok p \<longleftrightarrow> state_typed p \<and> ps_Version p = 1 \<and> entries mode_ok (ps_Groups p)"

lemma entries_get: "entries P m \<longleftrightarrow> gm_wf m \<and> (\<forall>k v. gm_get m k = Some v \<longrightarrow> P v)"
  unfolding entries_def using gm_get_mem by fastforce

lemma entries_set [simp]: "entries P m \<Longrightarrow> P v \<Longrightarrow> entries P (gm_set k v m)"
  by (auto simp: entries_get)

lemma entries_Nil [simp]: "entries P []"
  by (simp add: entries_def)

lemma entries_del [simp]: "entries P m \<Longrightarrow> entries P (gm_del k m)"
  by (auto simp: entries_get)

lemma entries_wf: "entries P m \<Longrightarrow> gm_wf m"
  by (simp add: entries_def)

lemma entries_lookup: "entries P m \<Longrightarrow> gm_get m k = Some v \<Longrightarrow> P v"
  by (simp add: entries_get)

lemma entries_view: "entries P m \<Longrightarrow> gm_wf m' \<Longrightarrow> map_of m' = map_of m \<Longrightarrow> entries P m'"
  by (simp add: entries_get)

lemma put_back_view:
  "map_of (put_back k (gm_get m k) (gm_set k v m)) = map_of m"
  "map_of (put_back k (gm_get m k) (gm_del k m)) = map_of m"
  by (auto simp: put_back_def fun_eq_iff split: option.split)

lemma put_back_wf [simp]: "gm_wf m \<Longrightarrow> gm_wf (put_back k v m)"
  by (simp add: put_back_def split: option.split)

lemma put_back_entries [simp]: "entries P m \<Longrightarrow> P v \<Longrightarrow> entries P (put_back k (gm_get m k) (gm_set k v m))"
  by (auto simp: put_back_def intro!: entries_set intro: entries_lookup split: option.split)

lemma int64_wrap [simp]: "int64 (wrap64 n)" "int64 0"
  using wrap64_range [of n] by (simp_all add: int64_def)

text \<open>The outcome of a change: it was written, or nothing that can be observed has changed.\<close>

definition wrote :: "state_env \<Rightarrow> state_store \<Rightarrow> state_store \<Rightarrow> bool" where
  "wrote e s s' \<longleftrightarrow> st_file s' = Some (state_text e (st_state s'))"

definition unchanged :: "state_store \<Rightarrow> state_store \<Rightarrow> bool" where
  "unchanged s s' \<longleftrightarrow> st_file s' = st_file s \<and> state_view (st_state s') = state_view (st_state s)"

lemmas outcome_simps = Let_def saveLocked_def wrote_def unchanged_def state_view_def put_back_view update_conv

lemma write_group_outcome:
  "write_group e s i grp = (s', None) \<Longrightarrow> wrote e s s'
     \<and> map_of (ps_Groups (st_state s')) = (map_of (ps_Groups (st_state s)))(i \<mapsto> grp)"
  "write_group e s i grp = (s', Some err) \<Longrightarrow> unchanged s s'"
  by (auto simp: write_group_def outcome_simps split: option.split_asm)

lemma SetContextEnabled_outcome:
  "SetContextEnabled e s i b = (s', None) \<Longrightarrow> wrote e s s' \<and> ContextEnabled s' i = b"
  "SetContextEnabled e s i b = (s', Some err) \<Longrightarrow> unchanged s s'"
  by (auto simp: SetContextEnabled_def outcome_simps ContextEnabled_def gm_flag_def
      split: option.split_asm if_split_asm)

lemma SetFactMemoryEnabled_outcome:
  "SetFactMemoryEnabled e s scp b = (s', None) \<Longrightarrow> wrote e s s' \<and> FactMemoryEnabled e s' scp = b"
  "SetFactMemoryEnabled e s scp b = (s', Some err) \<Longrightarrow> unchanged s s'"
  by (auto simp: SetFactMemoryEnabled_def outcome_simps FactMemoryEnabled_def gm_flag_def
      split: option.split_asm if_split_asm)

lemma TakeModelCall_outcome:
  assumes "TakeModelCall e s now limit = (s', n, granted, err)"
  shows "if granted then wrote e s s' \<and> err = None else unchanged s s'"
  using assms by (auto simp: TakeModelCall_def outcome_simps split: if_split_asm option.split_asm)

lemma TakeTaskModelCall_outcome:
  assumes "TakeTaskModelCall e s now globalLimit i taskLimit = (s', n, m, granted, err)"
  shows "if granted then wrote e s s' \<and> err = None else unchanged s s'"
  using assms by (auto simp: TakeTaskModelCall_def outcome_simps split: if_split_asm option.split_asm)

section \<open>Restart\<close>

lemma decode_entries_map:
  "\<forall>(k, v) \<in> set kvs. f (g v) = Some v \<Longrightarrow>
     decode_entries f (map (\<lambda>(k, v). (k, g v)) kvs) m = Some (foldl (\<lambda>m (k, v). gm_set k v m) m kvs)"
  by (induction kvs arbitrary: m) auto

lemma map_of_foldl_set:
  "distinct (map fst kvs) \<Longrightarrow> map_of (foldl (\<lambda>m (k, v). gm_set k v m) m kvs) = map_of m ++ map_of kvs"
proof (induction kvs arbitrary: m)
  case (Cons kv kvs)
  have "map_of (foldl (\<lambda>m (k, v). gm_set k v m) m (kv # kvs)) = map_of (gm_set (fst kv) (snd kv) m) ++ map_of kvs"
    using Cons by (cases kv) simp
  also have "\<dots> = (map_of m)(fst kv \<mapsto> snd kv) ++ map_of kvs" by (simp only: update_conv')
  also have "\<dots> = map_of m ++ map_of (kv # kvs)"
    using Cons.prems by (simp only: map_of.simps map_add_upd) (simp add: map_add_upd_left dom_map_of_conv_image_fst)
  finally show ?case .
qed simp

lemma map_of_sort_key: "gm_wf m \<Longrightarrow> map_of (sort_key fst m) = map_of m"
  by (intro map_of_inject_set [THEN iffD2]) (simp_all add: gm_wf_def distinct_map inj_on_def)

lemma gm_wf_foldl_set: "gm_wf m \<Longrightarrow> gm_wf (foldl (\<lambda>m (k, v). gm_set k v m) m kvs)"
  by (induction kvs arbitrary: m) auto

lemma decode_map_json:
  assumes "gm_wf m" "\<forall>(k, v) \<in> set m. f (g v) = Some v"
  shows "\<exists>m'. decode_map f [] (map_json g m) = Some m' \<and> map_of m' = map_of m \<and> gm_wf m'"
proof -
  have "distinct (map fst (sort_key fst m))"
    using assms(1) by (simp add: gm_wf_def distinct_map)
  then have "map_of (foldl (\<lambda>m (k, v). gm_set k v m) [] (sort_key fst m)) = map_of m"
    using map_of_foldl_set [of "sort_key fst m" "[]"] map_of_sort_key [OF assms(1)] by simp
  moreover have "decode_map f [] (map_json g m) = Some (foldl (\<lambda>m (k, v). gm_set k v m) [] (sort_key fst m))"
    unfolding decode_map_def map_json_def using assms(2) by (simp add: decode_entries_map)
  ultimately show ?thesis using gm_wf_foldl_set [OF gm_wf_Nil] by blast
qed

lemma map_json_Nil: "decode_map f [] (map_json g []) = Some []"
  by (simp add: decode_map_def map_json_def)

lemma decode_int_of_int: "int64 n \<Longrightarrow> decode_int64 (JNum (of_int n)) = Some n"
  by (simp add: int64_def)

lemma decode_group_json: "decode_group (group_json grp) = Some grp"
  by (cases grp) (simp add: group_json_def omitempty_def decode_group_key_def fold_key_def fold_rune_def)

lemma state_key_simps:
  "decode_state_key (Some p) (''version'', v) = (if v = JNull then Some p else map_option (\<lambda>n. p\<lparr>ps_Version := n\<rparr>) (decode_int64 v))"
  "decode_state_key (Some p) (''groups'', v) = map_option (\<lambda>m. p\<lparr>ps_Groups := m\<rparr>) (decode_map decode_group (ps_Groups p) v)"
  "decode_state_key (Some p) (''context_disabled'', v) =
     map_option (\<lambda>m. p\<lparr>ps_ContextDisabled := m\<rparr>) (decode_map decode_bool (ps_ContextDisabled p) v)"
  "decode_state_key (Some p) (''fact_memory_enabled'', v) =
     map_option (\<lambda>m. p\<lparr>ps_FactMemoryEnabled := m\<rparr>) (decode_map decode_bool (ps_FactMemoryEnabled p) v)"
  "decode_state_key (Some p) (''quota_date'', v) = (if v = JNull then Some p else map_option (\<lambda>d. p\<lparr>ps_QuotaDate := d\<rparr>) (decode_string v))"
  "decode_state_key (Some p) (''quota_calls'', v) = (if v = JNull then Some p else map_option (\<lambda>n. p\<lparr>ps_QuotaCalls := n\<rparr>) (decode_int64 v))"
  "decode_state_key (Some p) (''task_quota_dates'', v) =
     map_option (\<lambda>m. p\<lparr>ps_TaskQuotaDates := m\<rparr>) (decode_map decode_string (ps_TaskQuotaDates p) v)"
  "decode_state_key (Some p) (''task_quota_calls'', v) =
     map_option (\<lambda>m. p\<lparr>ps_TaskQuotaCalls := m\<rparr>) (decode_map decode_int64 (ps_TaskQuotaCalls p) v)"
  by (simp_all add: decode_state_key_def fold_key_def fold_rune_def)

lemma foldl_omitempty: "foldl f acc (omitempty z name v) = (if z then acc else f acc (name, v))"
  by (simp add: omitempty_def)

text \<open>Decoding the written object restores every field up to the order of maps.\<close>

lemma decode_persisted_json:
  assumes "state_ok p"
  shows "\<exists>q. decode_state (persisted_json p) = Some q \<and> state_view q = state_view p \<and> state_ok q"
proof -
  note ok = assms [unfolded state_ok_def state_typed_def entries_def]
  obtain gs where gs: "decode_map decode_group [] (map_json group_json (ps_Groups p)) = Some gs"
      "map_of gs = map_of (ps_Groups p)" "gm_wf gs"
    using decode_map_json [of "ps_Groups p" decode_group group_json] ok by (auto simp: decode_group_json)
  obtain cs where cs: "decode_map decode_bool [] (map_json JBool (ps_ContextDisabled p)) = Some cs"
      "map_of cs = map_of (ps_ContextDisabled p)" "gm_wf cs"
    using decode_map_json [of "ps_ContextDisabled p" decode_bool JBool] ok by auto
  obtain fs where fs: "decode_map decode_bool [] (map_json JBool (ps_FactMemoryEnabled p)) = Some fs"
      "map_of fs = map_of (ps_FactMemoryEnabled p)" "gm_wf fs"
    using decode_map_json [of "ps_FactMemoryEnabled p" decode_bool JBool] ok by auto
  obtain ds where ds: "decode_map decode_string [] (map_json JStr (ps_TaskQuotaDates p)) = Some ds"
      "map_of ds = map_of (ps_TaskQuotaDates p)" "gm_wf ds"
    using decode_map_json [of "ps_TaskQuotaDates p" decode_string JStr] ok by auto
  obtain ns where ns: "decode_map decode_int64 [] (map_json (JNum \<circ> of_int) (ps_TaskQuotaCalls p)) = Some ns"
      "map_of ns = map_of (ps_TaskQuotaCalls p)" "gm_wf ns"
  proof -
    have "\<forall>(k, v) \<in> set (ps_TaskQuotaCalls p). decode_int64 ((JNum \<circ> of_int) v) = Some v"
      using ok by (auto simp: decode_int_of_int simp del: decode_int64.simps)
    with decode_map_json [of "ps_TaskQuotaCalls p" decode_int64 "JNum \<circ> of_int"] ok that show thesis by blast
  qed
  define q where "q = initial_state\<lparr>ps_Groups := gs, ps_ContextDisabled := cs, ps_FactMemoryEnabled := fs,
    ps_QuotaDate := ps_QuotaDate p, ps_QuotaCalls := ps_QuotaCalls p, ps_TaskQuotaDates := ds, ps_TaskQuotaCalls := ns\<rparr>"
  have nil: "m = [] \<Longrightarrow> m' = []" if "map_of m' = map_of m" for m m' :: "('a \<times> 'b) list"
    using that by (metis map_of_eq_empty_iff)
  have maps: "foldl decode_state_key (Some r) (omitempty (ps_ContextDisabled p = []) ''context_disabled''
         (map_json JBool (ps_ContextDisabled p))) = Some (r\<lparr>ps_ContextDisabled := cs\<rparr>)" if "ps_ContextDisabled r = []" for r
    using that cs nil [OF cs(2)] by (cases r) (simp add: foldl_omitempty state_key_simps)
  have facts: "foldl decode_state_key (Some r) (omitempty (ps_FactMemoryEnabled p = []) ''fact_memory_enabled''
         (map_json JBool (ps_FactMemoryEnabled p))) = Some (r\<lparr>ps_FactMemoryEnabled := fs\<rparr>)" if "ps_FactMemoryEnabled r = []" for r
    using that fs nil [OF fs(2)] by (cases r) (simp add: foldl_omitempty state_key_simps)
  have date: "foldl decode_state_key (Some r) (omitempty (ps_QuotaDate p = []) ''quota_date'' (JStr (ps_QuotaDate p)))
      = Some (r\<lparr>ps_QuotaDate := ps_QuotaDate p\<rparr>)" if "ps_QuotaDate r = []" for r
    using that by (cases r) (simp add: foldl_omitempty state_key_simps)
  have calls: "foldl decode_state_key (Some r) (omitempty (ps_QuotaCalls p = 0) ''quota_calls'' (JNum (of_int (ps_QuotaCalls p))))
      = Some (r\<lparr>ps_QuotaCalls := ps_QuotaCalls p\<rparr>)" if "ps_QuotaCalls r = 0" for r
    using that ok decode_int_of_int [of "ps_QuotaCalls p"]
    by (cases r) (simp add: foldl_omitempty state_key_simps del: decode_int64.simps)
  have dates: "foldl decode_state_key (Some r) (omitempty (ps_TaskQuotaDates p = []) ''task_quota_dates''
         (map_json JStr (ps_TaskQuotaDates p))) = Some (r\<lparr>ps_TaskQuotaDates := ds\<rparr>)" if "ps_TaskQuotaDates r = []" for r
    using that ds nil [OF ds(2)] by (cases r) (simp add: foldl_omitempty state_key_simps)
  have counts: "foldl decode_state_key (Some r) (omitempty (ps_TaskQuotaCalls p = []) ''task_quota_calls''
         (map_json (JNum \<circ> of_int) (ps_TaskQuotaCalls p))) = Some (r\<lparr>ps_TaskQuotaCalls := ns\<rparr>)" if "ps_TaskQuotaCalls r = []" for r
    using that ns nil [OF ns(2)] by (cases r) (simp add: foldl_omitempty state_key_simps)
  have heads: "foldl decode_state_key (Some initial_state)
      [(''version'', JNum (of_int (ps_Version p))), (''groups'', map_json group_json (ps_Groups p))] = Some (initial_state\<lparr>ps_Groups := gs\<rparr>)"
    using ok gs(1) by (simp add: state_key_simps initial_state_def)
  have "decode_state (persisted_json p) = Some q"
    unfolding decode_state_def persisted_json_def json.case foldl_append heads
    by (simp add: maps facts date calls dates counts initial_state_def q_def)
  moreover have "state_view q = state_view p" using ok by (simp add: q_def state_view_def gs cs fs ds ns initial_state_def)
  moreover have "state_ok q"
    using assms gs(2,3) cs(3) fs(3) ds(3) ns(2,3)
    by (auto simp: q_def state_ok_def state_typed_def initial_state_def intro: entries_view)
  ultimately show ?thesis by blast
qed

text \<open>
  The service while it runs: any change, with any failure of the file system. Limits are Go integers.
\<close>

inductive state_step :: "state_env \<Rightarrow> state_store \<Rightarrow> state_store \<Rightarrow> bool" for e where
  group_set: "state_step e s (fst (SetGroupEnabled (e\<lparr>se_fault := f\<rparr>) s i b))"
| soft_set: "state_step e s (fst (SetGroupSoftMode (e\<lparr>se_fault := f\<rparr>) s i mode))"
| soft_default: "state_step e s (SetSoftDefault s mode)"
| context_set: "state_step e s (fst (SetContextEnabled (e\<lparr>se_fault := f\<rparr>) s i b))"
| fact_set: "state_step e s (fst (SetFactMemoryEnabled (e\<lparr>se_fault := f\<rparr>) s scp b))"
| call_taken: "limit \<le> max_int64 \<Longrightarrow> state_step e s (fst (TakeModelCall (e\<lparr>se_fault := f\<rparr>) s now limit))"
| task_call_taken: "globalLimit \<le> max_int64 \<Longrightarrow> taskLimit \<le> max_int64 \<Longrightarrow>
    state_step e s (fst (TakeTaskModelCall (e\<lparr>se_fault := f\<rparr>) s now globalLimit i taskLimit))"

lemma env_fault_simps [simp]:
  "state_text (e\<lparr>se_fault := f\<rparr>) = state_text e" "wrote (e\<lparr>se_fault := f\<rparr>) = wrote e"
  by (simp_all add: fun_eq_iff state_text_def wrote_def)

lemma write_group_step: "wrote e s (fst (write_group e s i grp)) \<or> unchanged s (fst (write_group e s i grp))"
  using write_group_outcome [of e s i grp] by (cases "write_group e s i grp"; cases "snd (write_group e s i grp)") auto

lemma setter_steps:
  "wrote e s (fst (SetGroupEnabled e s i b)) \<or> unchanged s (fst (SetGroupEnabled e s i b))"
  "wrote e s (fst (SetGroupSoftMode e s i mode)) \<or> unchanged s (fst (SetGroupSoftMode e s i mode))"
  by (simp_all add: SetGroupEnabled_def SetGroupSoftMode_def Let_def write_group_step) (simp add: unchanged_def)

lemma context_step: "wrote e s (fst (SetContextEnabled e s i b)) \<or> unchanged s (fst (SetContextEnabled e s i b))"
  using SetContextEnabled_outcome [of e s i b]
  by (cases "SetContextEnabled e s i b"; cases "snd (SetContextEnabled e s i b)") auto

lemma fact_step: "wrote e s (fst (SetFactMemoryEnabled e s scp b)) \<or> unchanged s (fst (SetFactMemoryEnabled e s scp b))"
  using SetFactMemoryEnabled_outcome [of e s scp b]
  by (cases "SetFactMemoryEnabled e s scp b"; cases "snd (SetFactMemoryEnabled e s scp b)") auto

lemma take_step: "wrote e s (fst (TakeModelCall e s now limit)) \<or> unchanged s (fst (TakeModelCall e s now limit))"
  using TakeModelCall_outcome [of e s now limit] by (cases "TakeModelCall e s now limit") (auto split: if_split_asm)

lemma task_take_step:
  "wrote e s (fst (TakeTaskModelCall e s now globalLimit i taskLimit))
   \<or> unchanged s (fst (TakeTaskModelCall e s now globalLimit i taskLimit))"
  using TakeTaskModelCall_outcome [of e s now globalLimit i taskLimit]
  by (cases "TakeTaskModelCall e s now globalLimit i taskLimit") (auto split: if_split_asm)

lemma state_step_outcome: "state_step e s s' \<Longrightarrow> wrote e s s' \<or> unchanged s s'"
proof (induction rule: state_step.induct)
  case (soft_default s mode)
  then show ?case by (simp add: SetSoftDefault_def unchanged_def)
qed (insert setter_steps [of "e\<lparr>se_fault := f\<rparr>" for f] context_step [of "e\<lparr>se_fault := f\<rparr>" for f]
    fact_step [of "e\<lparr>se_fault := f\<rparr>" for f] take_step [of "e\<lparr>se_fault := f\<rparr>" for f]
    task_take_step [of "e\<lparr>se_fault := f\<rparr>" for f], simp_all)

text \<open>Every change keeps the state readable.\<close>

lemmas ok_simps = state_ok_def state_typed_def Let_def saveLocked_def

lemma write_group_ok: "state_ok (st_state s) \<Longrightarrow> mode_ok grp \<Longrightarrow> state_ok (st_state (fst (write_group e s i grp)))"
  by (auto simp: ok_simps write_group_def split: option.split)

lemma setters_ok:
  assumes "state_ok (st_state s)"
  shows "state_ok (st_state (fst (SetGroupEnabled e s i b)))" "state_ok (st_state (fst (SetGroupSoftMode e s i mode)))"
    "state_ok (st_state (SetSoftDefault s mode))"
    "state_ok (st_state (fst (SetContextEnabled e s i b)))" "state_ok (st_state (fst (SetFactMemoryEnabled e s scp b)))"
proof -
  have old: "gm_get (ps_Groups (st_state s)) i = Some grp \<Longrightarrow> mode_ok grp" for grp
    using assms by (auto simp: state_ok_def dest: entries_lookup)
  show "state_ok (st_state (fst (SetGroupEnabled e s i b)))"
    unfolding SetGroupEnabled_def Let_def using old
    by (intro write_group_ok [OF assms]) (auto simp: mode_ok_def split: option.split)
  show "state_ok (st_state (fst (SetGroupSoftMode e s i mode)))"
    unfolding SetGroupSoftMode_def Let_def using assms write_group_ok [OF assms] by (auto simp: mode_ok_def)
  show "state_ok (st_state (SetSoftDefault s mode))" using assms by (simp add: SetSoftDefault_def)
  show "state_ok (st_state (fst (SetContextEnabled e s i b)))"
    using assms by (auto simp: ok_simps SetContextEnabled_def split: option.split)
  show "state_ok (st_state (fst (SetFactMemoryEnabled e s scp b)))"
    using assms by (auto simp: ok_simps SetFactMemoryEnabled_def split: option.split)
qed

lemma takes_ok:
  assumes "state_ok (st_state s)"
  shows "state_ok (st_state (fst (TakeModelCall e s now limit)))"
    "state_ok (st_state (fst (TakeTaskModelCall e s now globalLimit i taskLimit)))"
  using assms by (auto simp: ok_simps TakeModelCall_def TakeTaskModelCall_def split: option.split)

lemma state_step_ok: "state_step e s s' \<Longrightarrow> state_ok (st_state s) \<Longrightarrow> state_ok (st_state s')"
  by (induction rule: state_step.induct) (simp_all add: setters_ok takes_ok)

text \<open>So is every state that was opened.\<close>

lemma decode_entries_wf: "decode_entries f kvs m = Some m' \<Longrightarrow> gm_wf m \<Longrightarrow> gm_wf m'"
  by (induction f kvs m rule: decode_entries.induct) (auto split: option.split_asm)

lemma decode_entries_ints: "decode_entries decode_int64 kvs m = Some m' \<Longrightarrow> entries int64 m \<Longrightarrow> entries int64 m'"
proof (induction kvs arbitrary: m)
  case (Cons kv kvs)
  obtain k v where kv: "kv = (k, v)" by fastforce
  with Cons.prems obtain n where "decode_int64 v = Some n" by (auto split: option.split_asm)
  moreover from this have "int64 n" by (cases v) (auto simp: int64_def split: if_split_asm)
  ultimately show ?case using Cons by (auto simp: kv)
qed simp

lemma decode_state_key_typed:
  assumes "decode_state_key (Some p) kv = Some q" "state_typed p"
  shows "state_typed q"
proof -
  have int: "decode_int64 v = Some n \<Longrightarrow> int64 n" for v n by (cases v) (auto simp: int64_def split: if_split_asm)
  show ?thesis
    using assms int
    by (auto simp: decode_state_key_def Let_def decode_map_def state_typed_def
        dest: decode_entries_wf decode_entries_ints split: if_split_asm json.split_asm)
qed

lemma decode_state_typed: "decode_state v = Some p \<Longrightarrow> state_typed p"
proof -
  have init: "state_typed initial_state" by (simp add: state_typed_def initial_state_def entries_def)
  have none: "foldl decode_state_key None kvs = None" for kvs
    by (induction kvs) (simp_all add: decode_state_key_def)
  have "state_typed q" if "foldl decode_state_key (Some r) kvs = Some q" "state_typed r" for r q kvs
    using that
  proof (induction kvs arbitrary: r)
    case (Cons kv kvs)
    then obtain r' where "decode_state_key (Some r) kv = Some r'" by (cases "decode_state_key (Some r) kv") (auto simp: none)
    with Cons decode_state_key_typed show ?case by fastforce
  qed simp
  then show "decode_state v = Some p \<Longrightarrow> state_typed p" using init by (cases v) (auto simp: decode_state_def)
qed

lemma Open_ok: "OpenStateStoreWithDefaults e content groupDefault softDefault = Inr s \<Longrightarrow> state_ok (st_state s)"
proof -
  have "state_ok initial_state" by (simp add: state_ok_def state_typed_def initial_state_def entries_def)
  moreover have "entries mode_ok (ps_Groups p)"
    if "state_typed p" "\<not> list_ex (\<lambda>(i, grp). fg_SoftTriggerMode grp \<noteq> [] \<and> \<not> validGroupSoftMode (fg_SoftTriggerMode grp)) (ps_Groups p)"
    for p using that by (auto simp: state_typed_def entries_def list_ex_iff mode_ok_def)
  ultimately show "OpenStateStoreWithDefaults e content groupDefault softDefault = Inr s \<Longrightarrow> state_ok (st_state s)"
    using decode_state_typed
    by (auto simp: OpenStateStoreWithDefaults_def Let_def state_ok_def bind_eq_Some_conv split: if_split_asm option.split_asm)
qed


lemma Open_written:
  assumes "wrote e s s'" "state_ok (st_state s')" "validGroupSoftMode softDefault" "\<not> se_unreadable e"
    and "se_decode e (state_text e (st_state s')) = Some (persisted_json (st_state s'))"
  shows "\<exists>r. OpenStateStoreWithDefaults e (st_file s') groupDefault softDefault = Inr r
     \<and> state_view (st_state r) = state_view (st_state s')"
proof -
  obtain q where q: "decode_state (persisted_json (st_state s')) = Some q" "state_view q = state_view (st_state s')" "state_ok q"
    using decode_persisted_json [OF assms(2)] by blast
  have "\<not> list_ex (\<lambda>(i, grp). fg_SoftTriggerMode grp \<noteq> [] \<and> \<not> validGroupSoftMode (fg_SoftTriggerMode grp)) (ps_Groups q)"
    using q(3) by (auto simp: state_ok_def entries_def list_ex_iff mode_ok_def)
  with assms q show ?thesis by (simp add: OpenStateStoreWithDefaults_def wrote_def state_ok_def)
qed

lemma Open_defaults:
  assumes "OpenStateStoreWithDefaults e content groupDefault softDefault = Inr s" "validGroupSoftMode softDefault'"
  shows "\<exists>r. OpenStateStoreWithDefaults e content groupDefault' softDefault' = Inr r \<and> st_state r = st_state s"
  using assms by (auto simp: OpenStateStoreWithDefaults_def Let_def split: if_split_asm option.split_asm)

text \<open>Along a run the file is the last state that was written, or still the one that was opened.\<close>

lemma run_file:
  assumes "(state_step e)\<^sup>*\<^sup>* s0 s" "state_ok (st_state s0)"
  shows "state_ok (st_state s) \<and>
     (unchanged s0 s \<or> (\<exists>r. wrote e r r \<and> state_ok (st_state r) \<and> unchanged r s))"
  using assms
proof (induction rule: rtranclp_induct)
  case base
  then show ?case by (simp add: unchanged_def)
next
  case (step s s')
  then have ok: "state_ok (st_state s')" using state_step_ok by blast
  from state_step_outcome [OF step.hyps(2)] show ?case
  proof
    assume "wrote e s s'"
    then have "wrote e s' s'" "unchanged s' s'" by (simp_all add: wrote_def unchanged_def)
    with ok show ?thesis by blast
  next
    assume "unchanged s s'"
    with step show ?thesis using ok by (fastforce simp: unchanged_def)
  qed
qed

section \<open>Daily quotas\<close>

text \<open>
  A counter that starts anew with every date: a granted request was below the limit and adds one, and
  whatever else happens leaves the counter as it is. Over a run in the order of time, no date is then
  granted more than the limit, provided a date does not come back once another has begun.
\<close>

definition calendar :: "(gotime \<Rightarrow> string) \<Rightarrow> bool" where
  "calendar date \<longleftrightarrow> (\<forall>t u v. t \<le> u \<longrightarrow> u \<le> v \<longrightarrow> date t = date v \<longrightarrow> date u = date t)"

definition used_on :: "string \<times> int \<Rightarrow> string \<Rightarrow> int" where
  "used_on cnt d = (if fst cnt = d then snd cnt else 0)"

fun granted_run :: "('r \<Rightarrow> 's \<Rightarrow> 's \<times> bool) \<Rightarrow> 'r list \<Rightarrow> 's \<Rightarrow> 'r list" where
  "granted_run step [] s = []"
| "granted_run step (r # rs) s =
     (case step r s of (s1, b) \<Rightarrow> (if b then [r] else []) @ granted_run step rs s1)"

locale day_counter =
  fixes take_one :: "'r \<Rightarrow> 's \<Rightarrow> 's \<times> bool" and time_of :: "'r \<Rightarrow> gotime" and counts :: "'r \<Rightarrow> bool"
    and date :: "gotime \<Rightarrow> string" and cnt :: "'s \<Rightarrow> string \<times> int" and inv :: "'s \<Rightarrow> bool" and limit :: int
  assumes kept: "inv s \<Longrightarrow> take_one r s = (s1, b) \<Longrightarrow> inv s1"
    and nonneg: "inv s \<Longrightarrow> 0 \<le> snd (cnt s)"
    and granted: "inv s \<Longrightarrow> take_one r s = (s1, True) \<Longrightarrow> counts r \<Longrightarrow>
        used_on (cnt s) (date (time_of r)) < limit \<and> cnt s1 = (date (time_of r), used_on (cnt s) (date (time_of r)) + 1)"
    and others: "inv s \<Longrightarrow> take_one r s = (s1, b) \<Longrightarrow> \<not> (b \<and> counts r) \<Longrightarrow> cnt s1 = cnt s"
begin

abbreviation on_day :: "string \<Rightarrow> 'r list \<Rightarrow> 's \<Rightarrow> 'r list" where
  "on_day d rs s \<equiv> filter (\<lambda>r. counts r \<and> date (time_of r) = d) (granted_run take_one rs s)"

lemma granted_subset: "set (granted_run take_one rs s) \<subseteq> set rs"
  by (induction rs arbitrary: s) (auto split: prod.split)

lemma bound_after:
  assumes "calendar date" "inv s" "sorted (map time_of rs)" "\<forall>r \<in> set rs. u \<le> time_of r" "date u = d" "fst (cnt s) = d"
  shows "int (length (on_day d rs s)) \<le> max 0 (limit - snd (cnt s))"
  using assms(2-)
proof (induction rs arbitrary: s)
  case (Cons r rs)
  obtain s1 b where r: "take_one r s = (s1, b)" by fastforce
  note inv1 = kept [OF Cons.prems(1) r]
  have rs: "sorted (map time_of rs)" "\<forall>r \<in> set rs. u \<le> time_of r" "\<forall>r' \<in> set rs. time_of r \<le> time_of r'"
    using Cons.prems(2,3) by simp_all
  show ?case
  proof (cases "b \<and> counts r")
    case True
    then have g: "used_on (cnt s) (date (time_of r)) < limit" "cnt s1 = (date (time_of r), used_on (cnt s) (date (time_of r)) + 1)"
      using granted [of s r s1] r Cons.prems(1) by simp_all
    show ?thesis
    proof (cases "date (time_of r) = d")
      case True
      with g Cons.prems(5) Cons.IH [OF inv1 rs(1,2) Cons.prems(4)] \<open>b \<and> counts r\<close> r show ?thesis
        by (simp add: used_on_def)
    next
      case False
      have "date (time_of r') \<noteq> d" if "r' \<in> set rs" for r'
        using assms(1) that rs(3) Cons.prems(3,4) False unfolding calendar_def
        by (metis list.set_intros(1))
      with granted_subset [of rs s1] have "on_day d rs s1 = []" by (auto simp: filter_empty_conv)
      with False r show ?thesis by simp
    qed
  next
    case False
    then have "cnt s1 = cnt s" using others [OF Cons.prems(1) r] by simp
    with Cons.IH [OF inv1 rs(1,2) Cons.prems(4)] Cons.prems(5) False r show ?thesis by auto
  qed
qed simp

lemma day_bound:
  assumes "calendar date" "inv s" "sorted (map time_of rs)" "0 \<le> limit"
  shows "int (length (on_day d rs s)) \<le> limit"
  using assms(2-)
proof (induction rs arbitrary: s)
  case (Cons r rs)
  obtain s1 b where r: "take_one r s = (s1, b)" by fastforce
  note inv1 = kept [OF Cons.prems(1) r]
  show ?case
  proof (cases "b \<and> counts r \<and> date (time_of r) = d")
    case True
    then have g: "used_on (cnt s) d < limit" "cnt s1 = (d, used_on (cnt s) d + 1)"
      using granted [of s r s1] r Cons.prems(1) by auto
    have "0 \<le> used_on (cnt s) d" using nonneg [OF Cons.prems(1)] by (simp add: used_on_def)
    with bound_after [OF assms(1) inv1, of rs "time_of r" d] Cons.prems(2) True g r show ?thesis by simp
  next
    case False
    with Cons.IH [OF inv1] Cons.prems r show ?thesis by auto
  qed
qed simp

end

text \<open>
  A request for a model call, without a task or for one. The limit of a day and the limits of the tasks
  are those of the configuration, Go integers; the file system may fail at every call.
\<close>

record call_request =
  cr_now :: gotime
  cr_task :: "string option"
  cr_fault :: "save_step \<Rightarrow> bool"

definition take_call :: "state_env \<Rightarrow> int \<Rightarrow> (string \<Rightarrow> int) \<Rightarrow> call_request \<Rightarrow> state_store \<Rightarrow> state_store \<times> bool" where
  "take_call e limit limits r s =
     (case cr_task r of
        None \<Rightarrow> (case TakeModelCall (e\<lparr>se_fault := cr_fault r\<rparr>) s (cr_now r) limit of (s1, _, b, _) \<Rightarrow> (s1, b))
      | Some i \<Rightarrow>
          (case TakeTaskModelCall (e\<lparr>se_fault := cr_fault r\<rparr>) s (cr_now r) limit i (limits i) of
             (s1, _, _, b, _) \<Rightarrow> (s1, b)))"

definition day_count :: "state_store \<Rightarrow> string \<times> int" where
  "day_count s = (ps_QuotaDate (st_state s), ps_QuotaCalls (st_state s))"

definition task_count :: "string \<Rightarrow> state_store \<Rightarrow> string \<times> int" where
  "task_count i s = (gm_str (ps_TaskQuotaDates (st_state s)) i, gm_int (ps_TaskQuotaCalls (st_state s)) i)"

definition counts_ok :: "state_store \<Rightarrow> bool" where
  "counts_ok s \<longleftrightarrow> 0 \<le> ps_QuotaCalls (st_state s) \<and> (\<forall>i. 0 \<le> gm_int (ps_TaskQuotaCalls (st_state s)) i)"

lemma wrap_succ_below: "0 \<le> n \<Longrightarrow> n < m \<Longrightarrow> m \<le> max_int64 \<Longrightarrow> wrap64 (n + 1) = n + 1"
  by (intro wrap64_succ) simp_all

lemma gm_count_simps:
  "gm_int (gm_set i n m) j = (if j = i then n else gm_int m j)" "gm_str (gm_set i v m') j = (if j = i then v else gm_str m' j)"
  "gm_int (put_back i (gm_get m i) (gm_set i n m)) = gm_int m" "gm_str (put_back i (gm_get m' i) (gm_set i v m')) = gm_str m'"
  by (simp_all add: gm_int_def gm_str_def put_back_view fun_eq_iff)

lemmas count_simps = counts_ok_def task_count_def day_count_def used_on_def Let_def saveLocked_def gm_count_simps

lemma TakeModelCall_count:
  assumes "counts_ok s" "limit \<le> max_int64" "TakeModelCall e s now limit = (s1, n, b, err)"
  shows "counts_ok s1" "task_count i s1 = task_count i s"
    "b \<Longrightarrow> used_on (day_count s) (se_date e now) < limit \<and> day_count s1 = (se_date e now, used_on (day_count s) (se_date e now) + 1)"
    "\<not> b \<Longrightarrow> day_count s1 = day_count s"
proof -
  let ?g = "if ps_QuotaDate (st_state s) = se_date e now then ps_QuotaCalls (st_state s) else 0"
  have wrap: "wrap64 (?g + 1) = ?g + 1" if "?g < limit"
    using assms(1,2) that by (intro wrap_succ_below [of _ limit]) (auto simp: counts_ok_def)
  have "counts_ok s1 \<and> task_count i s1 = task_count i s
     \<and> (if b then used_on (day_count s) (se_date e now) < limit \<and> day_count s1 = (se_date e now, used_on (day_count s) (se_date e now) + 1)
        else day_count s1 = day_count s)"
    using assms(1,3) wrap
    by (cases "ps_QuotaDate (st_state s) = se_date e now")
      (auto simp: TakeModelCall_def count_simps split: if_split_asm option.split_asm)
  then show "counts_ok s1" "task_count i s1 = task_count i s"
    "b \<Longrightarrow> used_on (day_count s) (se_date e now) < limit \<and> day_count s1 = (se_date e now, used_on (day_count s) (se_date e now) + 1)"
    "\<not> b \<Longrightarrow> day_count s1 = day_count s" by simp_all
qed

lemma TakeTaskModelCall_cases:
  assumes "TakeTaskModelCall e s now globalLimit j taskLimit = (s1, n, m, b, err)"
  obtains "\<not> b" "day_count s1 = day_count s" "\<And>i. task_count i s1 = task_count i s"
  | "b" "used_on (day_count s) (se_date e now) < globalLimit" "used_on (task_count j s) (se_date e now) < taskLimit"
    "day_count s1 = (se_date e now, wrap64 (used_on (day_count s) (se_date e now) + 1))"
    "\<And>i. task_count i s1 = (if i = j then (se_date e now, wrap64 (used_on (task_count j s) (se_date e now) + 1)) else task_count i s)"
proof -
  let ?g = "used_on (day_count s) (se_date e now)" and ?t = "used_on (task_count j s) (se_date e now)"
  have used: "(if ps_QuotaDate (st_state s) = se_date e now then ps_QuotaCalls (st_state s) else 0) = ?g"
    "(if gm_str (ps_TaskQuotaDates (st_state s)) j = se_date e now then gm_int (ps_TaskQuotaCalls (st_state s)) j else 0) = ?t"
    by (simp_all add: used_on_def day_count_def task_count_def)
  note t = assms [unfolded TakeTaskModelCall_def Let_def used]
  consider "s1 = s" "\<not> b" | f where "?g < globalLimit" "?t < taskLimit" "List.find (se_fault e) save_steps = Some f" "\<not> b"
    | "?g < globalLimit" "?t < taskLimit" "List.find (se_fault e) save_steps = None" "b"
    using t by (auto simp: saveLocked_def not_le split: if_split_asm option.split_asm)
  then show thesis
  proof cases
    case 1
    then show thesis by (intro that(1)) simp_all
  next
    case 2
    with t that(1) show thesis
      by (auto simp: saveLocked_def gm_count_simps day_count_def task_count_def split: if_split_asm)
  next
    case 3
    with t that(2) show thesis
      by (auto simp: saveLocked_def gm_count_simps day_count_def task_count_def split: if_split_asm)
  qed
qed

definition quota_inv :: "int \<Rightarrow> (string \<Rightarrow> int) \<Rightarrow> state_store \<Rightarrow> bool" where
  "quota_inv limit limits s \<longleftrightarrow> counts_ok s \<and> limit \<le> max_int64 \<and> (\<forall>i. limits i \<le> max_int64)"

lemma counts_ok_iff: "counts_ok s \<longleftrightarrow> 0 \<le> snd (day_count s) \<and> (\<forall>i. 0 \<le> snd (task_count i s))"
  by (simp add: counts_ok_def day_count_def task_count_def)

lemma used_nonneg: "0 \<le> snd c \<Longrightarrow> 0 \<le> used_on c d"
  by (simp add: used_on_def)

lemma take_call_count:
  assumes "quota_inv limit limits s" "take_call e limit limits r s = (s1, b)"
  shows "quota_inv limit limits s1"
    "b \<Longrightarrow> used_on (day_count s) (se_date e (cr_now r)) < limit
       \<and> day_count s1 = (se_date e (cr_now r), used_on (day_count s) (se_date e (cr_now r)) + 1)"
    "\<not> b \<Longrightarrow> day_count s1 = day_count s"
    "b \<Longrightarrow> cr_task r = Some i \<Longrightarrow> used_on (task_count i s) (se_date e (cr_now r)) < limits i
       \<and> task_count i s1 = (se_date e (cr_now r), used_on (task_count i s) (se_date e (cr_now r)) + 1)"
    "\<not> (b \<and> cr_task r = Some i) \<Longrightarrow> task_count i s1 = task_count i s"
proof -
  let ?e = "e\<lparr>se_fault := cr_fault r\<rparr>" and ?d = "se_date e (cr_now r)"
  have ok: "counts_ok s" "limit \<le> max_int64" "limits j \<le> max_int64" for j using assms(1) by (simp_all add: quota_inv_def)
  have "counts_ok s1 \<and> (b \<longrightarrow> used_on (day_count s) ?d < limit \<and> day_count s1 = (?d, used_on (day_count s) ?d + 1))
      \<and> (\<not> b \<longrightarrow> day_count s1 = day_count s)
      \<and> (b \<and> cr_task r = Some i \<longrightarrow> used_on (task_count i s) ?d < limits i \<and> task_count i s1 = (?d, used_on (task_count i s) ?d + 1))
      \<and> (\<not> (b \<and> cr_task r = Some i) \<longrightarrow> task_count i s1 = task_count i s)"
  proof (cases "cr_task r")
    case None
    with assms(2) obtain n err where "TakeModelCall ?e s (cr_now r) limit = (s1, n, b, err)"
      by (auto simp: take_call_def split: prod.split_asm)
    from TakeModelCall_count [OF ok(1,2) this] None show ?thesis by auto
  next
    case (Some j)
    with assms(2) obtain n m err where "TakeTaskModelCall ?e s (cr_now r) limit j (limits j) = (s1, n, m, b, err)"
      by (auto simp: take_call_def split: prod.split_asm)
    then show ?thesis
    proof (cases rule: TakeTaskModelCall_cases)
      case 1
      with ok(1) Some show ?thesis by (simp add: counts_ok_iff)
    next
      case 2
      have pos: "0 \<le> used_on (day_count s) ?d" "0 \<le> used_on (task_count j s) ?d"
        using ok(1) used_nonneg by (simp_all add: counts_ok_iff)
      then have wrap: "wrap64 (used_on (day_count s) ?d + 1) = used_on (day_count s) ?d + 1"
        "wrap64 (used_on (task_count j s) ?d + 1) = used_on (task_count j s) ?d + 1"
        using 2 ok by (auto intro: wrap_succ_below)
      from 2 ok(1) pos Some wrap show ?thesis by (auto simp: counts_ok_iff)
    qed
  qed
  then show "quota_inv limit limits s1"
    "b \<Longrightarrow> used_on (day_count s) ?d < limit \<and> day_count s1 = (?d, used_on (day_count s) ?d + 1)"
    "\<not> b \<Longrightarrow> day_count s1 = day_count s"
    "b \<Longrightarrow> cr_task r = Some i \<Longrightarrow> used_on (task_count i s) ?d < limits i \<and> task_count i s1 = (?d, used_on (task_count i s) ?d + 1)"
    "\<not> (b \<and> cr_task r = Some i) \<Longrightarrow> task_count i s1 = task_count i s"
    using ok by (simp_all add: quota_inv_def)
qed

interpretation model_quota: day_counter "take_call e limit limits" cr_now "\<lambda>r. True" "se_date e" day_count
    "quota_inv limit limits" limit for e limit limits
proof unfold_locales
  show "0 \<le> snd (day_count s)" if "quota_inv limit limits s" for s using that by (simp add: quota_inv_def counts_ok_iff)
qed (use take_call_count in auto)

interpretation task_quota: day_counter "take_call e limit limits" cr_now "\<lambda>r. cr_task r = Some i" "se_date e" "task_count i"
    "quota_inv limit limits" "limits i" for e limit limits i
proof unfold_locales
  show "0 \<le> snd (task_count i s)" if "quota_inv limit limits s" for s using that by (simp add: quota_inv_def counts_ok_iff)
qed (use take_call_count in auto)

end
