(* ===== verification/Fairy_Gate.thy ===== *)
theory Fairy_Gate
  imports Fairy_State Gateway_Core Dynamic_Interaction
begin

text \<open>
  The message gate of the agent service (\<open>gate.go\<close>), with the readings of a message it rests on
  (\<open>messageText\<close> and the command parsers of \<open>engine.go\<close>, the media summary of \<open>media_input.go\<close>). The gate
  decides whether an event triggers the agent; in groups it keeps, per conversation, which sender holds
  the focus and until when. The lemmas show that every decision is one the trace store accepts, that a
  preview has no effect on later decisions, and that a soft trigger was earned by a recent trigger of the
  same sender.
\<close>

section \<open>Events\<close>

record fairy_event =
  fe_PostType :: string
  fe_MessageType :: string
  fe_MessageID :: string
  fe_ConversationID :: string
  fe_Sender :: sender
  fe_Message :: "message_segment list"
  fe_Timestamp :: int
  fe_LocalAgent :: bool
  fe_FairyOwned :: bool
  fe_DynamicEventAudit :: bool

definition is_group_event :: "fairy_event \<Rightarrow> bool" where
  "is_group_event event \<longleftrightarrow> fe_MessageType event = ''group'' \<or> HasPrefix (fe_ConversationID event) ''group_''"

text \<open>
  \<open>messageText\<close>: the texts of a message and whether it mentions the agent. A message of the local agent
  route counts as empty.
\<close>

fun message_text_loop :: "string \<Rightarrow> message_segment list \<Rightarrow> string \<Rightarrow> bool \<Rightarrow> string \<times> bool" where
  "message_text_loop fairyUserID [] text mentioned = (text, mentioned)"
| "message_text_loop fairyUserID (segment # rest) text mentioned =
     (if seg_Type segment = ''agent_route'' \<and> jstr (seg_Data segment) ''route'' = ''local'' then ([], False)
      else if seg_Type segment = ''text''
      then message_text_loop fairyUserID rest (text @ jstr (seg_Data segment) ''text'') mentioned
      else if seg_Type segment = ''at''
      then message_text_loop fairyUserID rest text
             (mentioned \<or> list_ex (\<lambda>key. jstr (seg_Data segment) key = fairyUserID) [''qq'', ''user_id'', ''target_id''])
      else message_text_loop fairyUserID rest text mentioned)"

definition messageText :: "message_segment list \<Rightarrow> string \<Rightarrow> string \<times> bool" where
  "messageText segments fairyUserID = message_text_loop fairyUserID segments [] False"

section \<open>Media\<close>

datatype media_input_kind = mediaInputImage | mediaInputRecord

record media_input =
  mi_Kind :: media_input_kind
  mi_URL :: string
  mi_Name :: string
  mi_MIMEType :: string
  mi_Size :: int
  mi_DurationMS :: int

record media_summary =
  mis_images :: nat
  mis_records :: nat
  mis_inputs :: "media_input list"

definition maxMediaImages :: nat where "maxMediaImages = 4"

definition mediaString :: "jobject \<Rightarrow> string \<Rightarrow> string" where
  "mediaString data key = TrimSpace (jstr data key)"

definition mediaInt64 :: "json \<Rightarrow> int" where
  "mediaInt64 value =
     (case value of
        JNum r \<Rightarrow> if 0 \<le> r \<and> r \<le> 2 ^ 63 \<and> r = of_int (trunc_rat r) then float_to_int64 r else 0
      | _ \<Rightarrow> 0)"

definition mediaInputFromSegment :: "media_input_kind \<Rightarrow> message_segment \<Rightarrow> media_input" where
  "mediaInputFromSegment kind segment =
     \<lparr> mi_Kind = kind, mi_URL = mediaString (seg_Data segment) ''url'', mi_Name = mediaString (seg_Data segment) ''name'',
       mi_MIMEType = mediaString (seg_Data segment) ''mime_type'', mi_Size = mediaInt64 (jget (seg_Data segment) ''size''),
       mi_DurationMS = mediaInt64 (jget (seg_Data segment) ''duration_ms'') \<rparr>"

definition summary_step :: "media_summary \<Rightarrow> message_segment \<Rightarrow> media_summary" where
  "summary_step sm segment =
     (if seg_Type segment = ''image''
      then sm\<lparr>mis_images := mis_images sm + 1, mis_inputs := mis_inputs sm @ [mediaInputFromSegment mediaInputImage segment]\<rparr>
      else if seg_Type segment = ''record''
      then sm\<lparr>mis_records := mis_records sm + 1, mis_inputs := mis_inputs sm @ [mediaInputFromSegment mediaInputRecord segment]\<rparr>
      else sm)"

definition summarizeMediaInputs :: "message_segment list \<Rightarrow> media_summary" where
  "summarizeMediaInputs segments = foldl summary_step \<lparr> mis_images = 0, mis_records = 0, mis_inputs = [] \<rparr> segments"

definition media_present :: "media_summary \<Rightarrow> bool" where
  "media_present sm \<longleftrightarrow> 0 < mis_images sm \<or> 0 < mis_records sm"

definition validateBatch :: "media_summary \<Rightarrow> unit res" where
  "validateBatch sm =
     (if 0 < mis_images sm \<and> 0 < mis_records sm then Inl ''mixed image and voice input is not supported''
      else if maxMediaImages < mis_images sm then Inl ''at most 4 images are supported''
      else if 1 < mis_records sm then Inl ''only one voice message is supported''
      else if list_ex (\<lambda>i. TrimSpace (mi_URL i) = []) (mis_inputs sm) then Inl ''media URL is required''
      else Inr ())"

section \<open>Commands\<close>

text \<open>\<open>strings.Fields\<close> and \<open>strings.Join\<close>.\<close>

fun fields_loop :: "(nat \<times> string) list \<Rightarrow> string \<Rightarrow> string list" where
  "fields_loop [] word = (if word = [] then [] else [word])"
| "fields_loop ((r, bytes) # rest) word =
     (if unicode_IsSpace r then (if word = [] then [] else [word]) @ fields_loop rest []
      else fields_loop rest (word @ bytes))"

definition go_Fields :: "string \<Rightarrow> string list" where
  "go_Fields s = fields_loop (rune_split s) []"

fun go_Join :: "string list \<Rightarrow> string \<Rightarrow> string" where
  "go_Join [] sep = []"
| "go_Join [x] sep = x"
| "go_Join (x # xs) sep = x @ sep @ go_Join xs sep"

definition command_prefixes :: "string list" where
  "command_prefixes = [''/fairy'', ''/zzz'', ''fairy '', ''zzz '',
     ''zzz'' @ [CHR 0xE6, CHR 0x9F, CHR 0xA5, CHR 0xE8, CHR 0xAF, CHR 0xA2] @ '' '',
     [CHR 0xE7, CHR 0xBB, CHR 0x9D, CHR 0xE5, CHR 0x8C, CHR 0xBA, CHR 0xE9, CHR 0x9B, CHR 0xB6,
      CHR 0xE6, CHR 0x9F, CHR 0xA5, CHR 0xE8, CHR 0xAF, CHR 0xA2] @ '' '']"

definition commandTrigger :: "go_text \<Rightarrow> string \<Rightarrow> bool" where
  "commandTrigger gt text \<longleftrightarrow> list_ex (HasPrefix (gt_ToLower gt (TrimSpace text))) command_prefixes"

text \<open>
  The prefix is found in the lower-case text and cut off the original one by its length in bytes.
\<close>

definition trigger_prefixes :: "string list" where
  "trigger_prefixes = [''@fairy'', ''fairy'' @ [CHR 0xEF, CHR 0xBC, CHR 0x9A], ''fairy:'', ''fairy,'']"

definition normalizeTrigger :: "go_text \<Rightarrow> string \<Rightarrow> string" where
  "normalizeTrigger gt text =
     (let value = TrimSpace text; lower = gt_ToLower gt value in
      case List.find (HasPrefix lower) trigger_prefixes of
        Some prefix \<Rightarrow> TrimSpace (drop (length prefix) value)
      | None \<Rightarrow> value)"

definition fairyCommand :: "go_text \<Rightarrow> string \<Rightarrow> (string \<times> string) option" where
  "fairyCommand gt text =
     (case go_Fields (TrimSpace text) of
        [] \<Rightarrow> None
      | first # rest \<Rightarrow>
          if gt_ToLower gt first \<noteq> ''/fairy'' \<and> gt_ToLower gt first \<noteq> ''fairy'' then None
          else (case rest of
                  [] \<Rightarrow> Some (''help'', [])
                | command # arguments \<Rightarrow> Some (gt_ToLower gt command, go_Join arguments '' '')))"

definition isMessageCandidate :: "go_text \<Rightarrow> fairy_event \<Rightarrow> string \<Rightarrow> bool" where
  "isMessageCandidate gt event fairyUserID =
     (let sid = sd_UserID (fe_Sender event); (raw, mentioned) = messageText (fe_Message event) fairyUserID;
          text = TrimSpace raw; hasMedia = media_present (summarizeMediaInputs (fe_Message event)) in
      if sid = [] \<or> sid = fairyUserID \<or> fe_ConversationID event = [] then False
      else if text = [] \<and> \<not> hasMedia then False
      else \<not> is_group_event event \<or> mentioned \<or> (text \<noteq> [] \<and> commandTrigger gt text))"

definition stop_commands :: "string list" where
  "stop_commands = [''stop'', ''cancel'', [CHR 0xE5, CHR 0x81, CHR 0x9C, CHR 0xE6, CHR 0xAD, CHR 0xA2],
     [CHR 0xE5, CHR 0x8F, CHR 0x96, CHR 0xE6, CHR 0xB6, CHR 0x88]]"

definition isStopCommand :: "go_text \<Rightarrow> fairy_event \<Rightarrow> string \<Rightarrow> bool" where
  "isStopCommand gt event fairyUserID =
     (if \<not> isMessageCandidate gt event fairyUserID then False
      else
        (case fairyCommand gt (normalizeTrigger gt (TrimSpace (fst (messageText (fe_Message event) fairyUserID)))) of
           None \<Rightarrow> False
         | Some (command, _) \<Rightarrow> command \<in> set stop_commands))"

definition replyReferenceForEvent :: "fairy_event \<Rightarrow> string" where
  "replyReferenceForEvent event = (if \<not> is_group_event event then [] else fe_MessageID event)"

definition factScopeForEvent :: "fairy_event \<Rightarrow> fact_scope" where
  "factScopeForEvent event =
     (if is_group_event event
      then \<lparr> sc_Type = FactScopeGroup, sc_ID = fe_ConversationID event, sc_OwnerUserID = [] \<rparr>
      else \<lparr> sc_Type = FactScopePrivate, sc_ID = fe_ConversationID event, sc_OwnerUserID = sd_UserID (fe_Sender event) \<rparr>)"

definition parseSwitch :: "go_text \<Rightarrow> string \<Rightarrow> bool option" where
  "parseSwitch gt value =
     (let v = gt_ToLower gt (TrimSpace value) in
      if v \<in> {''on'', [CHR 0xE5, CHR 0xBC, CHR 0x80, CHR 0xE5, CHR 0x90, CHR 0xAF], [CHR 0xE5, CHR 0xBC, CHR 0x80]} then Some True
      else if v \<in> {''off'', [CHR 0xE5, CHR 0x85, CHR 0xB3, CHR 0xE9, CHR 0x97, CHR 0xAD], [CHR 0xE5, CHR 0x85, CHR 0xB3]} then Some False
      else None)"

definition parseGroupSoftMode :: "go_text \<Rightarrow> string \<Rightarrow> string \<times> bool" where
  "parseGroupSoftMode gt value = (let mode = gt_ToLower gt (TrimSpace value) in (mode, validGroupSoftMode mode))"

section \<open>The gate\<close>

definition GateTrigger :: string where "GateTrigger = ''trigger''"
definition GateWait :: string where "GateWait = ''wait''"
definition GateIgnore :: string where "GateIgnore = ''ignore''"
definition GateReject :: string where "GateReject = ''reject''"

definition GateReasonPrivateMessage :: string where "GateReasonPrivateMessage = ''private_message''"
definition GateReasonExplicitMention :: string where "GateReasonExplicitMention = ''explicit_mention''"
definition GateReasonCommand :: string where "GateReasonCommand = ''command''"
definition GateReasonSelfMessage :: string where "GateReasonSelfMessage = ''self_message''"
definition GateReasonInvalidEvent :: string where "GateReasonInvalidEvent = ''invalid_event''"
definition GateReasonEmptyText :: string where "GateReasonEmptyText = ''empty_text''"
definition GateReasonGroupDisabled :: string where "GateReasonGroupDisabled = ''group_disabled''"
definition GateReasonGroupNoTrigger :: string where "GateReasonGroupNoTrigger = ''group_no_trigger''"
definition GateReasonSoftDisabled :: string where "GateReasonSoftDisabled = ''soft_disabled''"
definition GateReasonSoftShadow :: string where "GateReasonSoftShadow = ''soft_shadow''"
definition GateReasonSoftTrigger :: string where "GateReasonSoftTrigger = ''soft_trigger''"
definition GateReasonSoftCooldown :: string where "GateReasonSoftCooldown = ''soft_cooldown''"
definition GateReasonFocusConflict :: string where "GateReasonFocusConflict = ''focus_conflict''"

lemmas gate_actions = GateTrigger_def GateWait_def GateIgnore_def GateReject_def

lemmas gate_reasons =
  GateReasonPrivateMessage_def GateReasonExplicitMention_def GateReasonCommand_def GateReasonSelfMessage_def
  GateReasonInvalidEvent_def GateReasonEmptyText_def GateReasonGroupDisabled_def GateReasonGroupNoTrigger_def
  GateReasonSoftDisabled_def GateReasonSoftShadow_def GateReasonSoftTrigger_def GateReasonSoftCooldown_def
  GateReasonFocusConflict_def

record gate_decision =
  gd_Action :: string
  gd_Reason :: string
  gd_Hard :: bool
  gd_Shadow :: bool

record behavior_config =
  bc_GroupSoftDefault :: string
  bc_FocusTTL :: int
  bc_SoftCooldown :: int
  bc_ExpressionStyle :: string

record conversation_focus =
  cf_senderID :: string
  cf_expiresAt :: gotime
  cf_lastSoftAt :: gotime

record message_gate =
  mg_userID :: string
  mg_focuses :: "(string, conversation_focus) gomap"

definition NewMessageGate :: "string \<Rightarrow> message_gate" where
  "NewMessageGate userID = \<lparr> mg_userID = userID, mg_focuses = [] \<rparr>"

definition no_focus :: conversation_focus where
  "no_focus = \<lparr> cf_senderID = [], cf_expiresAt = zero_time, cf_lastSoftAt = zero_time \<rparr>"

definition set_focus :: "message_gate \<Rightarrow> fairy_event \<Rightarrow> behavior_config \<Rightarrow> gotime \<Rightarrow> message_gate" where
  "set_focus g event behavior now =
     (if bc_FocusTTL behavior \<le> 0 then g
      else
        (let sid = sd_UserID (fe_Sender event);
             previous = (case gm_get (mg_focuses g) (fe_ConversationID event) of Some f \<Rightarrow> f | None \<Rightarrow> no_focus);
             previous1 = (if cf_senderID previous \<noteq> sid then previous\<lparr>cf_lastSoftAt := zero_time\<rparr> else previous);
             nxt = previous1\<lparr>cf_senderID := sid, cf_expiresAt := now + bc_FocusTTL behavior\<rparr>
         in g\<lparr>mg_focuses := filter (\<lambda>(_, f). now < cf_expiresAt f)
                (gm_set (fe_ConversationID event) nxt (mg_focuses g))\<rparr>))"

definition decision :: "string \<Rightarrow> string \<Rightarrow> gate_decision" where
  "decision action reason = \<lparr> gd_Action = action, gd_Reason = reason, gd_Hard = False, gd_Shadow = False \<rparr>"

text \<open>The part of \<open>Evaluate\<close> under the lock: the soft trigger of an enabled group.\<close>

definition soft_gate :: "message_gate \<Rightarrow> string \<Rightarrow> fairy_event \<Rightarrow> behavior_config \<Rightarrow> gotime \<Rightarrow> bool \<Rightarrow> message_gate \<times> gate_decision" where
  "soft_gate g mode event behavior now commit =
     (let i = fe_ConversationID event; forget = g\<lparr>mg_focuses := gm_del i (mg_focuses g)\<rparr> in
      case gm_get (mg_focuses g) i of
        None \<Rightarrow> (forget, decision GateIgnore GateReasonGroupNoTrigger)
      | Some f \<Rightarrow>
          if \<not> now < cf_expiresAt f then (forget, decision GateIgnore GateReasonGroupNoTrigger)
          else if cf_senderID f \<noteq> sd_UserID (fe_Sender event) then (g, decision GateWait GateReasonFocusConflict)
          else if mode = GroupSoftShadow then (g, (decision GateWait GateReasonSoftShadow)\<lparr>gd_Shadow := True\<rparr>)
          else if 0 < bc_SoftCooldown behavior \<and> cf_lastSoftAt f \<noteq> zero_time
                  \<and> now - cf_lastSoftAt f < bc_SoftCooldown behavior
          then (g, decision GateWait GateReasonSoftCooldown)
          else
            (if commit
             then g\<lparr>mg_focuses := gm_set i (f\<lparr>cf_lastSoftAt := now, cf_expiresAt := now + bc_FocusTTL behavior\<rparr>) (mg_focuses g)\<rparr>
             else g, decision GateTrigger GateReasonSoftTrigger))"

text \<open>The state store of the gate may be nil.\<close>

definition Evaluate ::
  "go_text \<Rightarrow> state_store option \<Rightarrow> message_gate \<Rightarrow> fairy_event \<Rightarrow> behavior_config \<Rightarrow> gotime \<Rightarrow> bool
     \<Rightarrow> message_gate \<times> gate_decision" where
  "Evaluate gt st g event behavior now commit =
     (let sid = sd_UserID (fe_Sender event); i = fe_ConversationID event;
          (raw, mentioned) = messageText (fe_Message event) (mg_userID g); text = TrimSpace raw;
          hard = (\<lambda>reason. ((if commit then set_focus g event behavior now else g),
                            (decision GateTrigger reason)\<lparr>gd_Hard := True\<rparr>)) in
      if sid = [] \<or> i = [] \<or> fe_MessageID event = [] then (g, decision GateReject GateReasonInvalidEvent)
      else if sid = mg_userID g then (g, decision GateIgnore GateReasonSelfMessage)
      else if text = [] \<and> \<not> media_present (summarizeMediaInputs (fe_Message event))
      then (g, decision GateIgnore GateReasonEmptyText)
      else if \<not> is_group_event event
      then (g, (decision GateTrigger GateReasonPrivateMessage)\<lparr>gd_Hard := True\<rparr>)
      else
        (let isCommand = (text \<noteq> [] \<and> commandTrigger gt text);
             isManagement = (isCommand \<and> fairyCommand gt (normalizeTrigger gt text) \<noteq> None) in
         if \<not> isManagement \<and> (case st of None \<Rightarrow> True | Some s \<Rightarrow> \<not> GroupEnabled s i)
         then (g, decision GateIgnore GateReasonGroupDisabled)
         else if isCommand then hard GateReasonCommand
         else if mentioned then hard GateReasonExplicitMention
         else
           (let mode = (case st of None \<Rightarrow> bc_GroupSoftDefault behavior | Some s \<Rightarrow> GroupSoftMode s i) in
            if mode = GroupSoftOff then (g, decision GateIgnore GateReasonSoftDisabled)
            else soft_gate g mode event behavior now commit)))"

definition validGateAction :: "string \<Rightarrow> bool" where
  "validGateAction value \<longleftrightarrow> value \<in> {GateTrigger, GateWait, GateIgnore, GateReject}"

definition validGateReason :: "string \<Rightarrow> bool" where
  "validGateReason value \<longleftrightarrow> value \<in> {GateReasonPrivateMessage, GateReasonExplicitMention, GateReasonCommand,
     GateReasonSelfMessage, GateReasonInvalidEvent, GateReasonEmptyText, GateReasonGroupDisabled,
     GateReasonGroupNoTrigger, GateReasonSoftDisabled, GateReasonSoftShadow, GateReasonSoftTrigger,
     GateReasonSoftCooldown, GateReasonFocusConflict}"

definition validGateDecision :: "gate_decision \<Rightarrow> bool" where
  "validGateDecision d =
     (if \<not> validGateAction (gd_Action d) \<or> \<not> validGateReason (gd_Reason d) then False
      else if gd_Reason d \<in> {GateReasonPrivateMessage, GateReasonExplicitMention, GateReasonCommand}
      then gd_Action d = GateTrigger \<and> gd_Hard d \<and> \<not> gd_Shadow d
      else if gd_Reason d = GateReasonSoftTrigger then gd_Action d = GateTrigger \<and> \<not> gd_Hard d \<and> \<not> gd_Shadow d
      else if gd_Reason d = GateReasonSoftShadow then gd_Action d = GateWait \<and> \<not> gd_Hard d \<and> gd_Shadow d
      else if gd_Reason d \<in> {GateReasonSoftCooldown, GateReasonFocusConflict}
      then gd_Action d = GateWait \<and> \<not> gd_Hard d \<and> \<not> gd_Shadow d
      else if gd_Reason d \<in> {GateReasonSelfMessage, GateReasonEmptyText, GateReasonGroupDisabled,
                GateReasonGroupNoTrigger, GateReasonSoftDisabled}
      then gd_Action d = GateIgnore \<and> \<not> gd_Hard d \<and> \<not> gd_Shadow d
      else if gd_Reason d = GateReasonInvalidEvent then gd_Action d = GateReject \<and> \<not> gd_Hard d \<and> \<not> gd_Shadow d
      else False)"

section \<open>Decisions\<close>

text \<open>The decisions \<open>Evaluate\<close> can return.\<close>

lemma valid_decisions:
  "validGateDecision (decision GateReject GateReasonInvalidEvent)"
  "validGateDecision (decision GateIgnore GateReasonSelfMessage)"
  "validGateDecision (decision GateIgnore GateReasonEmptyText)"
  "validGateDecision (decision GateIgnore GateReasonGroupDisabled)"
  "validGateDecision (decision GateIgnore GateReasonSoftDisabled)"
  "validGateDecision (decision GateIgnore GateReasonGroupNoTrigger)"
  "validGateDecision (decision GateWait GateReasonFocusConflict)"
  "validGateDecision (decision GateWait GateReasonSoftCooldown)"
  "validGateDecision ((decision GateWait GateReasonSoftShadow)\<lparr>gd_Shadow := True\<rparr>)"
  "validGateDecision (decision GateTrigger GateReasonSoftTrigger)"
  "validGateDecision ((decision GateTrigger GateReasonPrivateMessage)\<lparr>gd_Hard := True\<rparr>)"
  "validGateDecision ((decision GateTrigger GateReasonCommand)\<lparr>gd_Hard := True\<rparr>)"
  "validGateDecision ((decision GateTrigger GateReasonExplicitMention)\<lparr>gd_Hard := True\<rparr>)"
  by (simp_all add: validGateDecision_def validGateAction_def validGateReason_def decision_def gate_actions gate_reasons)

lemma soft_gate_valid: "validGateDecision (snd (soft_gate g mode event behavior now commit))"
  by (simp add: soft_gate_def Let_def valid_decisions split: option.split)

lemma Evaluate_valid: "validGateDecision (snd (Evaluate gt st g event behavior now commit))"
  by (simp add: Evaluate_def Let_def valid_decisions soft_gate_valid case_prod_beta)

text \<open>The decision does not depend on whether it is committed.\<close>

lemma Evaluate_commit: "snd (Evaluate gt st g event behavior now True) = snd (Evaluate gt st g event behavior now False)"
  by (simp add: Evaluate_def Let_def case_prod_beta soft_gate_def split: option.split)

section \<open>Focus\<close>

text \<open>What an evaluation does to the focuses: a committed trigger of a group sets the one of the conversation.\<close>

definition soft_allowed :: "message_gate \<Rightarrow> fairy_event \<Rightarrow> behavior_config \<Rightarrow> gotime \<Rightarrow> conversation_focus \<Rightarrow> bool" where
  "soft_allowed g event behavior now f \<longleftrightarrow>
     gm_get (mg_focuses g) (fe_ConversationID event) = Some f \<and> now < cf_expiresAt f
     \<and> cf_senderID f = sd_UserID (fe_Sender event)
     \<and> \<not> (0 < bc_SoftCooldown behavior \<and> cf_lastSoftAt f \<noteq> zero_time \<and> now - cf_lastSoftAt f < bc_SoftCooldown behavior)"

lemma decision_sel [simp]:
  "gd_Action (decision a r) = a" "gd_Reason (decision a r) = r" "gd_Hard (decision a r) = False"
  by (simp_all add: decision_def)

lemma gate_distinct [simp]:
  "GateReject \<noteq> GateTrigger" "GateIgnore \<noteq> GateTrigger" "GateWait \<noteq> GateTrigger"
  "GateReasonInvalidEvent \<noteq> GateReasonSoftTrigger" "GateReasonSelfMessage \<noteq> GateReasonSoftTrigger"
  "GateReasonEmptyText \<noteq> GateReasonSoftTrigger" "GateReasonPrivateMessage \<noteq> GateReasonSoftTrigger"
  "GateReasonGroupDisabled \<noteq> GateReasonSoftTrigger" "GateReasonSoftDisabled \<noteq> GateReasonSoftTrigger"
  "GateReasonCommand \<noteq> GateReasonSoftTrigger" "GateReasonExplicitMention \<noteq> GateReasonSoftTrigger"
  "GateReasonGroupNoTrigger \<noteq> GateReasonSoftTrigger" "GateReasonFocusConflict \<noteq> GateReasonSoftTrigger"
  "GateReasonSoftShadow \<noteq> GateReasonSoftTrigger" "GateReasonSoftCooldown \<noteq> GateReasonSoftTrigger"
  by (simp_all add: gate_actions gate_reasons)

lemma soft_gate_cases:
  assumes "soft_gate g mode event behavior now commit = (g', d)"
  shows "(\<exists>f. soft_allowed g event behavior now f \<and> d = decision GateTrigger GateReasonSoftTrigger
        \<and> g' = (if commit then g\<lparr>mg_focuses := gm_set (fe_ConversationID event)
              (f\<lparr>cf_lastSoftAt := now, cf_expiresAt := now + bc_FocusTTL behavior\<rparr>) (mg_focuses g)\<rparr> else g))
     \<or> (gd_Action d \<noteq> GateTrigger \<and> gd_Reason d \<noteq> GateReasonSoftTrigger
        \<and> (g' = g \<or> g' = g\<lparr>mg_focuses := gm_del (fe_ConversationID event) (mg_focuses g)\<rparr>))"
  using assms
  by (auto simp: soft_gate_def Let_def soft_allowed_def split: option.split_asm if_split_asm)

definition gate_shape :: "message_gate \<Rightarrow> fairy_event \<Rightarrow> behavior_config \<Rightarrow> gotime \<Rightarrow> bool \<Rightarrow> message_gate \<times> gate_decision \<Rightarrow> bool" where
  "gate_shape g event behavior now commit r \<longleftrightarrow>
     (fst r = g \<and> gd_Reason (snd r) \<noteq> GateReasonSoftTrigger \<and> (gd_Action (snd r) = GateTrigger \<longrightarrow> \<not> is_group_event event))
     \<or> (is_group_event event \<and> gd_Action (snd r) = GateTrigger \<and> gd_Reason (snd r) \<noteq> GateReasonSoftTrigger
        \<and> fst r = (if commit then set_focus g event behavior now else g))
     \<or> (is_group_event event \<and> (\<exists>mode. r = soft_gate g mode event behavior now commit))"

lemma gate_shapes:
  "a \<noteq> GateTrigger \<Longrightarrow> r \<noteq> GateReasonSoftTrigger \<Longrightarrow> gate_shape g event behavior now commit (g, decision a r)"
  "\<not> is_group_event event \<Longrightarrow> gate_shape g event behavior now commit (g, (decision GateTrigger GateReasonPrivateMessage)\<lparr>gd_Hard := True\<rparr>)"
  "is_group_event event \<Longrightarrow> r \<noteq> GateReasonSoftTrigger \<Longrightarrow> gate_shape g event behavior now True
     (set_focus g event behavior now, (decision GateTrigger r)\<lparr>gd_Hard := True\<rparr>)"
  "is_group_event event \<Longrightarrow> r \<noteq> GateReasonSoftTrigger \<Longrightarrow> gate_shape g event behavior now False
     (g, (decision GateTrigger r)\<lparr>gd_Hard := True\<rparr>)"
  "is_group_event event \<Longrightarrow> gate_shape g event behavior now commit (soft_gate g mode event behavior now commit)"
  by (auto simp: gate_shape_def)

lemma Evaluate_shape: "gate_shape g event behavior now commit (Evaluate gt st g event behavior now commit)"
  by (cases commit) (simp_all add: Evaluate_def Let_def case_prod_beta gate_shapes)

lemma Evaluate_cases:
  assumes "Evaluate gt st g event behavior now commit = (g', d)"
  obtains (hard) "commit" "gd_Action d = GateTrigger" "is_group_event event" "gd_Reason d \<noteq> GateReasonSoftTrigger"
      "g' = set_focus g event behavior now"
  | (soft) f where "gd_Reason d = GateReasonSoftTrigger" "gd_Action d = GateTrigger" "is_group_event event"
      "soft_allowed g event behavior now f"
      "g' = (if commit then g\<lparr>mg_focuses := gm_set (fe_ConversationID event)
            (f\<lparr>cf_lastSoftAt := now, cf_expiresAt := now + bc_FocusTTL behavior\<rparr>) (mg_focuses g)\<rparr> else g)"
  | (quiet) "\<not> (commit \<and> gd_Action d = GateTrigger \<and> is_group_event event)" "gd_Reason d \<noteq> GateReasonSoftTrigger"
      "g' = g \<or> g' = g\<lparr>mg_focuses := gm_del (fe_ConversationID event) (mg_focuses g)\<rparr>"
proof -
  from Evaluate_shape [of g event behavior now commit gt st, unfolded assms gate_shape_def fst_conv snd_conv]
  consider "g' = g" "gd_Reason d \<noteq> GateReasonSoftTrigger" "gd_Action d = GateTrigger \<longrightarrow> \<not> is_group_event event"
    | "is_group_event event" "gd_Action d = GateTrigger" "gd_Reason d \<noteq> GateReasonSoftTrigger"
      "g' = (if commit then set_focus g event behavior now else g)"
    | mode where "is_group_event event" "soft_gate g mode event behavior now commit = (g', d)"
    by metis
  then show thesis
  proof cases
    case 2
    then show thesis by (cases commit) (simp_all add: hard quiet)
  next
    case (3 mode)
    from soft_gate_cases [OF 3(2)] show thesis
    proof (elim disjE exE conjE)
      fix f
      assume "soft_allowed g event behavior now f" "d = decision GateTrigger GateReasonSoftTrigger"
        "g' = (if commit then g\<lparr>mg_focuses := gm_set (fe_ConversationID event)
            (f\<lparr>cf_lastSoftAt := now, cf_expiresAt := now + bc_FocusTTL behavior\<rparr>) (mg_focuses g)\<rparr> else g)"
      with 3(1) show thesis by (intro soft) simp_all
    qed (auto intro: quiet)
  qed (auto intro: quiet)
qed

text \<open>The gate along a run: what was evaluated, newest first, at times that never go back.\<close>

type_synonym gate_entry = "gotime \<times> fairy_event \<times> bool \<times> gate_decision"

inductive gate_history :: "go_text \<Rightarrow> behavior_config \<Rightarrow> message_gate \<Rightarrow> gate_entry list \<Rightarrow> bool" for gt behavior where
  opened: "gate_history gt behavior (NewMessageGate userID) []"
| evaluated: "gate_history gt behavior g hs \<Longrightarrow> \<forall>x \<in> set hs. fst x \<le> now \<Longrightarrow>
    Evaluate gt st g event behavior now commit = (g', d) \<Longrightarrow> gate_history gt behavior g' ((now, event, commit, d) # hs)"

definition triggered :: "string \<Rightarrow> gate_entry \<Rightarrow> bool" where
  "triggered i x = (case x of (t, event, commit, d) \<Rightarrow>
     commit \<and> gd_Action d = GateTrigger \<and> is_group_event event \<and> fe_ConversationID event = i)"

definition earned :: "behavior_config \<Rightarrow> gate_entry list \<Rightarrow> string \<Rightarrow> conversation_focus \<Rightarrow> bool" where
  "earned behavior hs i f \<longleftrightarrow>
     (\<exists>newer t event d older. hs = newer @ (t, event, True, d) # older \<and> (\<forall>x \<in> set newer. \<not> triggered i x)
        \<and> triggered i (t, event, True, d) \<and> sd_UserID (fe_Sender event) = cf_senderID f
        \<and> cf_expiresAt f = t + bc_FocusTTL behavior
        \<and> (gd_Reason d = GateReasonSoftTrigger \<longrightarrow> cf_lastSoftAt f = t))"

lemma earned_later: "earned behavior hs i f \<Longrightarrow> \<not> triggered i x \<Longrightarrow> earned behavior (x # hs) i f"
  unfolding earned_def by (metis append_Cons set_ConsD)

lemma earned_now:
  "triggered i (t, event, True, d) \<Longrightarrow> sd_UserID (fe_Sender event) = cf_senderID f \<Longrightarrow>
     cf_expiresAt f = t + bc_FocusTTL behavior \<Longrightarrow> (gd_Reason d = GateReasonSoftTrigger \<Longrightarrow> cf_lastSoftAt f = t) \<Longrightarrow>
     earned behavior ((t, event, True, d) # hs) i f"
  unfolding earned_def by (metis append_Nil empty_iff list.set(1))

definition gate_inv :: "behavior_config \<Rightarrow> message_gate \<Rightarrow> gate_entry list \<Rightarrow> bool" where
  "gate_inv behavior g hs \<longleftrightarrow> gm_wf (mg_focuses g)
     \<and> (\<forall>i f. gm_get (mg_focuses g) i = Some f \<longrightarrow> earned behavior hs i f)"

lemma quiet_inv:
  assumes "gate_inv behavior g hs" "g' = g \<or> g' = g\<lparr>mg_focuses := gm_del i (mg_focuses g)\<rparr>"
    and "\<And>j. \<not> triggered j x"
  shows "gate_inv behavior g' (x # hs)"
  using assms by (auto simp: gate_inv_def intro: earned_later split: if_split_asm)

lemma Evaluate_inv:
  assumes "gate_inv behavior g hs" "0 < bc_FocusTTL behavior" "Evaluate gt st g event behavior now commit = (g', d)"
  shows "gate_inv behavior g' ((now, event, commit, d) # hs)"
  using assms(3)
proof (cases rule: Evaluate_cases)
  case hard
  let ?i = "fe_ConversationID event"
  have no: "j \<noteq> ?i \<Longrightarrow> \<not> triggered j (now, event, commit, d)" for j by (simp add: triggered_def)
  have now: "triggered ?i (now, event, True, d)" using hard by (simp add: triggered_def)
  obtain nxt where nxt: "mg_focuses g' = filter (\<lambda>(_, f). now < cf_expiresAt f) (gm_set ?i nxt (mg_focuses g))"
      "cf_senderID nxt = sd_UserID (fe_Sender event)" "cf_expiresAt nxt = now + bc_FocusTTL behavior"
    using hard(5) assms(2) by (simp add: set_focus_def Let_def)
  have wf: "gm_wf (gm_set ?i nxt (mg_focuses g))" using assms(1) by (simp add: gate_inv_def)
  have "earned behavior ((now, event, commit, d) # hs) j f" if "gm_get (mg_focuses g') j = Some f" for j f
  proof (cases "j = ?i")
    case True
    with that wf nxt have "f = nxt" by (auto simp: gm_get_filter split: if_split_asm)
    with True now nxt hard show ?thesis by (simp add: earned_now)
  next
    case False
    with that wf nxt(1) have "gm_get (mg_focuses g) j = Some f" by (auto simp: gm_get_filter split: option.split_asm if_split_asm)
    with assms(1) False no show ?thesis by (simp add: gate_inv_def earned_later)
  qed
  with wf nxt(1) show ?thesis by (simp add: gate_inv_def)
next
  case (soft f)
  let ?i = "fe_ConversationID event"
  have no: "j \<noteq> ?i \<Longrightarrow> \<not> triggered j (now, event, commit, d)" for j by (simp add: triggered_def)
  show ?thesis
  proof (cases commit)
    case True
    with soft have now: "triggered ?i (now, event, True, d)" by (simp add: triggered_def)
    show ?thesis
      using assms(1) soft no now True
      by (auto simp: gate_inv_def soft_allowed_def earned_later intro!: earned_now split: if_split_asm)
  next
    case False
    with soft(5) show ?thesis by (intro quiet_inv [OF assms(1)]) (simp_all add: triggered_def)
  qed
next
  case quiet
  then show ?thesis by (intro quiet_inv [OF assms(1)]) (auto simp: triggered_def)
qed

lemma gate_history_inv: "gate_history gt behavior g hs \<Longrightarrow> 0 < bc_FocusTTL behavior \<Longrightarrow> gate_inv behavior g hs"
proof (induction rule: gate_history.induct)
  case (opened userID)
  then show ?case by (simp add: gate_inv_def NewMessageGate_def)
next
  case (evaluated g hs now st event commit g' d)
  then show ?case by (intro Evaluate_inv)
qed

end
