(* ===== verification/Fairy_Trace.thy ===== *)
theory Fairy_Trace
  imports Fairy_Gate Go_Float
begin

text \<open>
  The trace store of the agent service (\<open>trace_store.go\<close>, \<open>trace_decision.go\<close>, \<open>feedback_store.go\<close>): claims of
  incoming events, validated trace events, feedback on outputs, and the statistics read back from them.
  Its SQL statements are written as operations on the four tables; a statement may fail, and a failed
  transaction leaves the tables as they were. The keyed digest that hides identifiers, and the check of
  JSON text, are arguments. The lemmas show that an event is claimed once within the retention time, and
  that what \<open>Append\<close> accepts can be read back by \<open>RuntimeStats\<close>.
\<close>

section \<open>Trace events\<close>

definition TraceAdmissionAccepted :: string where "TraceAdmissionAccepted = ''admission_accepted''"
definition TraceAdmissionRejected :: string where "TraceAdmissionRejected = ''admission_rejected''"
definition TraceIngressDuplicate :: string where "TraceIngressDuplicate = ''ingress_duplicate''"
definition TraceTurnStarted :: string where "TraceTurnStarted = ''turn_started''"
definition TraceTurnCompleted :: string where "TraceTurnCompleted = ''turn_completed''"
definition TraceTurnCancelled :: string where "TraceTurnCancelled = ''turn_cancelled''"
definition TraceTurnTimedOut :: string where "TraceTurnTimedOut = ''turn_timed_out''"
definition TraceModelAttempt :: string where "TraceModelAttempt = ''model_attempt''"
definition TraceModelReasoning :: string where "TraceModelReasoning = ''model_reasoning''"
definition TracePlannerDecision :: string where "TracePlannerDecision = ''planner_decision''"
definition TraceReplyerResult :: string where "TraceReplyerResult = ''replyer_result''"
definition TraceToolCall :: string where "TraceToolCall = ''tool_call''"
definition TraceGateDecision :: string where "TraceGateDecision = ''gate_decision''"

lemmas trace_types =
  TraceAdmissionAccepted_def TraceAdmissionRejected_def TraceIngressDuplicate_def TraceTurnStarted_def
  TraceTurnCompleted_def TraceTurnCancelled_def TraceTurnTimedOut_def TraceModelAttempt_def
  TraceModelReasoning_def TracePlannerDecision_def TraceReplyerResult_def TraceToolCall_def TraceGateDecision_def

record trace_event =
  te_Time :: gotime
  te_Type :: string
  te_TraceID :: string
  te_TurnID :: string
  te_ConversationID :: string
  te_Source :: string
  te_Status :: string
  te_QueueDepth :: int
  te_Pending :: int
  te_TaskID :: string
  te_ProviderID :: string
  te_ModelID :: string
  te_SnapshotID :: string
  te_Attempt :: int
  te_DurationMS :: int
  te_InputTokens :: int
  te_OutputTokens :: int
  te_CostMicroUSD :: int
  te_FailureCode :: string
  te_Fallback :: bool
  te_Repair :: bool
  te_Step :: int
  te_PromptVersion :: string
  te_PromptDigest :: string
  te_ToolCallID :: string
  te_ToolName :: string
  te_ToolRisk :: string
  te_ToolPolicy :: string
  te_ToolStatus :: string
  te_ToolResultBytes :: int
  te_GateAction :: string
  te_GateReason :: string
  te_GateHard :: bool
  te_GateShadow :: bool
  te_Content :: string
  te_Signature :: string
  te_Redacted :: bool
  te_Detail :: string

text \<open>An event with the fields a composite literal sets; the others are zero.\<close>

definition trace_event0 :: "gotime \<Rightarrow> string \<Rightarrow> string \<Rightarrow> string \<Rightarrow> string \<Rightarrow> string \<Rightarrow> string \<Rightarrow> trace_event" where
  "trace_event0 now ty traceID turnID conversationID source status =
     \<lparr> te_Time = now, te_Type = ty, te_TraceID = traceID, te_TurnID = turnID, te_ConversationID = conversationID,
       te_Source = source, te_Status = status, te_QueueDepth = 0, te_Pending = 0, te_TaskID = [], te_ProviderID = [],
       te_ModelID = [], te_SnapshotID = [], te_Attempt = 0, te_DurationMS = 0, te_InputTokens = 0, te_OutputTokens = 0,
       te_CostMicroUSD = 0, te_FailureCode = [], te_Fallback = False, te_Repair = False, te_Step = 0,
       te_PromptVersion = [], te_PromptDigest = [], te_ToolCallID = [], te_ToolName = [], te_ToolRisk = [],
       te_ToolPolicy = [], te_ToolStatus = [], te_ToolResultBytes = 0, te_GateAction = [], te_GateReason = [],
       te_GateHard = False, te_GateShadow = False, te_Content = [], te_Signature = [], te_Redacted = False,
       te_Detail = [] \<rparr>"

definition maxPlannerSteps :: int where "maxPlannerSteps = 4"
definition maxTraceContentBytes :: nat where "maxTraceContentBytes = 2 * 1024 * 1024"
definition maxTraceSignatureBytes :: nat where "maxTraceSignatureBytes = 64 * 1024"
definition maxTraceDetailBytes :: nat where "maxTraceDetailBytes = 256 * 1024"
definition maxRecentTraceFailures :: nat where "maxRecentTraceFailures = 20"
definition ReplyerTaskID :: string where "ReplyerTaskID = ''replyer''"
definition PlannerTaskID :: string where "PlannerTaskID = ''planner''"

section \<open>Validation\<close>

definition validTraceEventType :: "string \<Rightarrow> bool" where
  "validTraceEventType value \<longleftrightarrow> value \<in> {TraceAdmissionAccepted, TraceAdmissionRejected, TraceIngressDuplicate,
     TraceTurnStarted, TraceTurnCompleted, TraceTurnCancelled, TraceTurnTimedOut, TraceModelAttempt,
     TraceModelReasoning, TracePlannerDecision, TraceReplyerResult, TraceToolCall, TraceGateDecision}"

definition validTraceStatus :: "string \<Rightarrow> bool" where
  "validTraceStatus value \<longleftrightarrow> value \<in> {''admitted'', ''global_pending_limit'', ''conversation_pending_limit'', ''ignored'',
     ''running'', ''completed'', ''failed'', ''user_cancelled'', ''deadline_exceeded'', ''runtime_cancelled'',
     GateTrigger, GateWait, GateIgnore, GateReject}"

definition validRuntimeID :: "string \<Rightarrow> bool" where
  "validRuntimeID value \<longleftrightarrow> value \<noteq> [] \<and> length value \<le> 80
     \<and> list_all (\<lambda>c. (CHR ''a'' \<le> c \<and> c \<le> CHR ''z'') \<or> (CHR ''0'' \<le> c \<and> c \<le> CHR ''9'')
          \<or> c = CHR ''-'' \<or> c = CHR ''_'') value"

definition validPromptDigest :: "string \<Rightarrow> bool" where
  "validPromptDigest value \<longleftrightarrow> HasPrefix value ''hmac-sha256:'' \<and> length value = 12 + 64 \<and> list_all hex_digit (drop 12 value)"

definition validToolTraceRisk :: "string \<Rightarrow> bool" where
  "validToolTraceRisk value \<longleftrightarrow> value \<in> {''low'', ''medium'', ''high'', ''unknown''}"

definition validToolTracePolicy :: "string \<Rightarrow> bool" where
  "validToolTracePolicy value \<longleftrightarrow> value \<in> {''allowed'', ''denied'', ''not_evaluated''}"

definition validToolTraceStatus :: "string \<Rightarrow> bool" where
  "validToolTraceStatus value \<longleftrightarrow> value \<in> {''completed'', ''rejected'', ''failed'', ''timed_out'', ''cancelled''}"

definition validToolFailureCode :: "string \<Rightarrow> bool" where
  "validToolFailureCode value \<longleftrightarrow> value \<in> {''tool_not_found'', ''invalid_arguments'', ''not_visible'', ''unauthorized'',
     ''policy_denied'', ''call_limit_exceeded'', ''timeout'', ''cancelled'', ''execution_failed'', ''invalid_output'',
     ''output_too_large''}"

definition validModelFailureCode :: "string \<Rightarrow> bool" where
  "validModelFailureCode value \<longleftrightarrow> value \<in> {''cancelled'', ''deadline_exceeded'', ''network_error'', ''rate_limited'',
     ''provider_server_error'', ''authentication_error'', ''invalid_request'', ''content_rejected'', ''invalid_response''}"

definition hasTraceDecisionPayload :: "trace_event \<Rightarrow> bool" where
  "hasTraceDecisionPayload ev \<longleftrightarrow> te_Content ev \<noteq> [] \<or> te_Signature ev \<noteq> [] \<or> te_Redacted ev \<or> te_Detail ev \<noteq> []"

text \<open>The groups of fields that several checks ask to be empty.\<close>

definition no_tool_fields :: "trace_event \<Rightarrow> bool" where
  "no_tool_fields ev \<longleftrightarrow> te_ToolCallID ev = [] \<and> te_ToolName ev = [] \<and> te_ToolRisk ev = [] \<and> te_ToolPolicy ev = []
     \<and> te_ToolStatus ev = [] \<and> te_ToolResultBytes ev = 0"

definition no_gate_fields :: "trace_event \<Rightarrow> bool" where
  "no_gate_fields ev \<longleftrightarrow> te_GateAction ev = [] \<and> te_GateReason ev = [] \<and> \<not> te_GateHard ev \<and> \<not> te_GateShadow ev"

definition no_usage_fields :: "trace_event \<Rightarrow> bool" where
  "no_usage_fields ev \<longleftrightarrow> te_InputTokens ev = 0 \<and> te_OutputTokens ev = 0 \<and> te_CostMicroUSD ev = 0"

definition no_model_fields :: "trace_event \<Rightarrow> bool" where
  "no_model_fields ev \<longleftrightarrow> te_ProviderID ev = [] \<and> te_ModelID ev = [] \<and> te_SnapshotID ev = [] \<and> te_Attempt ev = 0"

definition validModelReasoningTrace :: "trace_event \<Rightarrow> bool" where
  "validModelReasoningTrace ev =
     (if te_Status ev \<noteq> ''completed'' \<or> \<not> validTraceLabel (te_TaskID ev) \<or> \<not> validTraceLabel (te_ProviderID ev)
         \<or> \<not> validTraceLabel (te_ModelID ev) \<or> \<not> validRuntimeID (te_SnapshotID ev) \<or> te_Attempt ev < 1
         \<or> te_DurationMS ev \<noteq> 0 \<or> \<not> no_usage_fields ev \<or> te_FailureCode ev \<noteq> [] \<or> \<not> no_tool_fields ev
         \<or> \<not> no_gate_fields ev \<or> te_Detail ev \<noteq> []
      then False
      else if te_Redacted ev then te_Content ev = [] \<and> te_Signature ev \<noteq> []
      else te_Content ev \<noteq> [])"

definition validAgentDecisionTrace :: "trace_event \<Rightarrow> bool" where
  "validAgentDecisionTrace ev =
     (let wantTask = (if te_Type ev = TraceReplyerResult then ReplyerTaskID else PlannerTaskID) in
      te_Status ev \<in> {''completed'', ''failed''} \<and> te_TaskID ev = wantTask \<and> 0 \<le> te_Step ev \<and> te_Step ev \<le> maxPlannerSteps
      \<and> no_model_fields ev \<and> te_DurationMS ev = 0 \<and> no_usage_fields ev \<and> te_FailureCode ev = [] \<and> \<not> te_Fallback ev
      \<and> te_PromptVersion ev = [] \<and> te_PromptDigest ev = [] \<and> no_tool_fields ev \<and> no_gate_fields ev
      \<and> te_Signature ev = [] \<and> \<not> te_Redacted ev)"

definition valid_gate_trace :: "trace_event \<Rightarrow> bool" where
  "valid_gate_trace ev \<longleftrightarrow>
     validGateDecision \<lparr> gd_Action = te_GateAction ev, gd_Reason = te_GateReason ev, gd_Hard = te_GateHard ev, gd_Shadow = te_GateShadow ev \<rparr>
     \<and> te_Status ev = te_GateAction ev
     \<and> te_QueueDepth ev = 0 \<and> te_Pending ev = 0 \<and> te_Attempt ev = 0 \<and> te_DurationMS ev = 0 \<and> no_usage_fields ev
     \<and> te_FailureCode ev = [] \<and> \<not> te_Fallback ev \<and> \<not> te_Repair ev \<and> te_Step ev = 0 \<and> te_PromptVersion ev = []
     \<and> te_PromptDigest ev = [] \<and> te_TaskID ev = [] \<and> te_ProviderID ev = [] \<and> te_ModelID ev = [] \<and> te_SnapshotID ev = []
     \<and> no_tool_fields ev \<and> \<not> hasTraceDecisionPayload ev"

definition valid_tool_trace :: "trace_event \<Rightarrow> bool" where
  "valid_tool_trace ev =
     (if \<not> validRuntimeID (te_ToolCallID ev) \<or> \<not> validTraceLabel (te_ToolName ev) \<or> \<not> validToolTraceRisk (te_ToolRisk ev)
         \<or> \<not> validToolTracePolicy (te_ToolPolicy ev) \<or> \<not> validToolTraceStatus (te_ToolStatus ev) \<or> te_Attempt ev \<noteq> 0
         \<or> \<not> no_usage_fields ev \<or> te_TaskID ev \<noteq> [] \<or> te_ProviderID ev \<noteq> [] \<or> te_ModelID ev \<noteq> [] \<or> te_SnapshotID ev \<noteq> []
         \<or> te_PromptVersion ev \<noteq> [] \<or> te_PromptDigest ev \<noteq> [] \<or> te_Fallback ev \<or> te_Repair ev \<or> \<not> no_gate_fields ev
         \<or> te_Content ev \<noteq> [] \<or> te_Signature ev \<noteq> [] \<or> te_Redacted ev
      then False
      else if te_Status ev = ''completed''
      then te_ToolStatus ev = ''completed'' \<and> te_ToolPolicy ev = ''allowed'' \<and> te_FailureCode ev = []
      else te_Status ev = ''failed'' \<and> te_ToolStatus ev \<noteq> ''completed'' \<and> validToolFailureCode (te_FailureCode ev))"

definition valid_plain_trace :: "trace_event \<Rightarrow> bool" where
  "valid_plain_trace ev \<longleftrightarrow>
     te_TaskID ev = [] \<and> no_model_fields ev \<and> te_DurationMS ev = 0 \<and> no_usage_fields ev \<and> te_FailureCode ev = []
     \<and> \<not> te_Fallback ev \<and> \<not> te_Repair ev \<and> te_Step ev = 0 \<and> te_PromptVersion ev = [] \<and> te_PromptDigest ev = []
     \<and> no_tool_fields ev \<and> no_gate_fields ev \<and> \<not> hasTraceDecisionPayload ev"

definition valid_model_trace :: "trace_event \<Rightarrow> bool" where
  "valid_model_trace ev =
     (if \<not> validTraceLabel (te_TaskID ev) \<or> \<not> validTraceLabel (te_ProviderID ev) \<or> \<not> validTraceLabel (te_ModelID ev)
         \<or> \<not> validRuntimeID (te_SnapshotID ev) \<or> te_Attempt ev < 1 \<or> \<not> no_tool_fields ev \<or> \<not> no_gate_fields ev
         \<or> hasTraceDecisionPayload ev
      then False
      else if te_Repair ev \<and> (te_TaskID ev \<noteq> PlannerTaskID \<and> te_TaskID ev \<noteq> ReplyerTaskID \<or> te_Step ev < 1) then False
      else if (te_PromptVersion ev = []) \<noteq> (te_PromptDigest ev = [])
              \<or> (te_PromptVersion ev \<noteq> [] \<and> (\<not> validTraceLabel (te_PromptVersion ev) \<or> \<not> validPromptDigest (te_PromptDigest ev)))
      then False
      else if te_Status ev = ''completed'' then te_FailureCode ev = []
      else te_Status ev = ''failed'' \<and> validModelFailureCode (te_FailureCode ev))"

definition validTraceEventDetails :: "(string \<Rightarrow> bool) \<Rightarrow> trace_event \<Rightarrow> bool" where
  "validTraceEventDetails validJSON ev =
     (if te_QueueDepth ev < 0 \<or> te_Pending ev < 0 \<or> te_Attempt ev < 0 \<or> te_DurationMS ev < 0 \<or> te_InputTokens ev < 0
         \<or> te_OutputTokens ev < 0 \<or> te_CostMicroUSD ev < 0 \<or> te_Step ev < 0 \<or> maxPlannerSteps < te_Step ev
         \<or> te_ToolResultBytes ev < 0
      then False
      else if maxTraceContentBytes < length (te_Content ev) \<or> maxTraceSignatureBytes < length (te_Signature ev)
              \<or> maxTraceDetailBytes < length (te_Detail ev) \<or> (te_Detail ev \<noteq> [] \<and> \<not> validJSON (te_Detail ev))
      then False
      else if te_Type ev = TraceModelReasoning then validModelReasoningTrace ev
      else if te_Type ev = TracePlannerDecision \<or> te_Type ev = TraceReplyerResult then validAgentDecisionTrace ev
      else if te_Type ev = TraceGateDecision then valid_gate_trace ev
      else if te_Type ev = TraceToolCall then valid_tool_trace ev
      else if te_Type ev \<noteq> TraceModelAttempt then valid_plain_trace ev
      else valid_model_trace ev)"

section \<open>The tables\<close>

text \<open>
  A row of \<open>fairy_trace_events\<close> keeps the event: its payload is the JSON text of the fields, and reading
  it back gives the fields again. The list is in the order of \<open>seq\<close>.
\<close>

record trace_row =
  tr_time_ms :: int
  tr_type :: string
  tr_conversation_ref :: string
  tr_event :: trace_event

record feedback_output =
  fo_turn_id :: string
  fo_created_at :: int
  fo_expires_at :: int

record trace_store =
  ts_ingress :: "(string \<times> string, int \<times> int) gomap"
  ts_events :: "trace_row list"
  ts_outputs :: "(string, feedback_output) gomap"
  ts_ratings :: "(string \<times> string, string \<times> int) gomap"
  ts_retention :: int
  ts_nextCleanupAt :: gotime

datatype sql_step = PruneIngress | PruneTrace | PruneFeedback | BeginTx | DeleteExpired | InsertClaim | RowsAffected
  | CommitTx | EncodePayload | InsertEvent | InsertOutput | FindOutput | ChangeRating | DeleteOutput | QueryStats

text \<open>
  \<open>tv_fault\<close> says which statement fails during a call, \<open>tv_now\<close> is the clock, \<open>tv_digest\<close> the keyed digest of a
  domain and a value, and \<open>tv_validJSON\<close> is \<open>json.Valid\<close>.
\<close>

record trace_env =
  tv_fault :: "sql_step \<Rightarrow> bool"
  tv_now :: gotime
  tv_digest :: "string \<Rightarrow> string \<Rightarrow> string"
  tv_validJSON :: "string \<Rightarrow> bool"

definition hour :: int where "hour = 3600 * second"

definition defaultIngressRetention :: int where "defaultIngressRetention = 30 * 24 * hour"

text \<open>Deleting an output deletes its ratings (\<open>ON DELETE CASCADE\<close>).\<close>

definition prune_ingress :: "int \<Rightarrow> trace_store \<Rightarrow> trace_store" where
  "prune_ingress ms s = s\<lparr>ts_ingress := filter (\<lambda>(_, (_, expires)). ms < expires) (ts_ingress s)\<rparr>"

definition prune_trace :: "int \<Rightarrow> trace_store \<Rightarrow> trace_store" where
  "prune_trace ms s = s\<lparr>ts_events := filter (\<lambda>row. ms < tr_time_ms row) (ts_events s)\<rparr>"

definition prune_feedback :: "int \<Rightarrow> trace_store \<Rightarrow> trace_store" where
  "prune_feedback ms s =
     (let keep = (\<lambda>ref. case gm_get (ts_outputs s) ref of None \<Rightarrow> True | Some out \<Rightarrow> ms < fo_expires_at out) in
      s\<lparr>ts_outputs := filter (\<lambda>(_, out). ms < fo_expires_at out) (ts_outputs s),
        ts_ratings := filter (\<lambda>((ref, _), _). keep ref) (ts_ratings s)\<rparr>)"

definition initialize_trace :: "trace_env \<Rightarrow> trace_store \<Rightarrow> trace_store res" where
  "initialize_trace e s =
     (let now = tv_now e in
      if tv_fault e PruneIngress then Inl ''prune expired Fairy ingress events''
      else if tv_fault e PruneTrace then Inl ''prune expired Fairy trace events''
      else if tv_fault e PruneFeedback then Inl ''prune expired Fairy feedback outputs''
      else Inr ((prune_feedback (UnixMilli now) (prune_trace (UnixMilli (now - ts_retention s)) (prune_ingress (UnixMilli now) s)))
             \<lparr>ts_nextCleanupAt := now + hour\<rparr>))"

definition pruneIfDue :: "trace_env \<Rightarrow> trace_store \<Rightarrow> gotime \<Rightarrow> trace_store \<times> bool" where
  "pruneIfDue e s now =
     (if now < ts_nextCleanupAt s then (s, True)
      else if tv_fault e PruneIngress then (s, False)
      else
        (let s1 = prune_ingress (UnixMilli now) s in
         if tv_fault e PruneTrace then (s1, False)
         else
           (let s2 = prune_trace (UnixMilli (now - ts_retention s)) s1 in
            if tv_fault e PruneFeedback then (s2, False)
            else ((prune_feedback (UnixMilli now) s2)\<lparr>ts_nextCleanupAt := now + hour\<rparr>, True))))"

section \<open>Claims\<close>

definition claim_row :: "trace_store \<Rightarrow> string \<Rightarrow> string \<Rightarrow> gotime \<Rightarrow> trace_store \<times> bool" where
  "claim_row s source eventID now =
     (let key = (source, eventID);
          rows = filter (\<lambda>(k, (_, expires)). \<not> (k = key \<and> expires \<le> UnixMilli now)) (ts_ingress s) in
      if gm_has rows key then (s\<lparr>ts_ingress := rows\<rparr>, False)
      else (s\<lparr>ts_ingress := gm_set key (UnixMilli now, UnixMilli (now + ts_retention s)) rows\<rparr>, True))"

definition ClaimIngress :: "trace_env \<Rightarrow> trace_store \<Rightarrow> string \<Rightarrow> string \<Rightarrow> gotime \<Rightarrow> trace_store \<times> bool res" where
  "ClaimIngress e s source eventID at0 =
     (if \<not> validTraceLabel source \<or> eventID = [] \<or> 1024 < length eventID
      then (s, Inl ''Fairy ingress source and event ID are required'')
      else
        (let now = (if at0 = zero_time then tv_now e else at0) in
         case pruneIfDue e s now of
           (s1, False) \<Rightarrow> (s1, Inl ''prune expired Fairy trace tables'')
         | (s1, True) \<Rightarrow>
             (case List.find (tv_fault e) [BeginTx, DeleteExpired, InsertClaim, RowsAffected, CommitTx] of
                Some step \<Rightarrow> (s1, Inl ''claim Fairy ingress event'')
              | None \<Rightarrow> (case claim_row s1 source eventID now of (s2, claimed) \<Rightarrow> (s2, Inr claimed)))))"

section \<open>Appending\<close>

definition conversationRef :: "trace_env \<Rightarrow> string \<Rightarrow> string" where
  "conversationRef e conversationID = (if conversationID = [] then [] else ''hmac-sha256:'' @ tv_digest e [] conversationID)"

definition valid_trace_event :: "trace_env \<Rightarrow> trace_event \<Rightarrow> bool" where
  "valid_trace_event e ev \<longleftrightarrow> validTraceEventType (te_Type ev) \<and> validTraceLabel (te_Source ev) \<and> validTraceStatus (te_Status ev)
     \<and> validRuntimeID (te_TraceID ev) \<and> (te_TurnID ev = [] \<or> validRuntimeID (te_TurnID ev))
     \<and> validTraceEventDetails (tv_validJSON e) ev"

definition Append :: "trace_env \<Rightarrow> trace_store \<Rightarrow> trace_event \<Rightarrow> trace_store \<times> unit res" where
  "Append e s ev0 =
     (if \<not> valid_trace_event e ev0 then (s, Inl ''invalid Fairy trace event metadata'')
      else
        (let ev = (if te_Time ev0 = zero_time then ev0\<lparr>te_Time := tv_now e\<rparr> else ev0) in
         if tv_fault e EncodePayload then (s, Inl ''encode Fairy trace payload'')
         else if tv_fault e InsertEvent then (s, Inl ''append Fairy trace event'')
         else (s\<lparr>ts_events := ts_events s @ [\<lparr> tr_time_ms = UnixMilli (te_Time ev), tr_type = te_Type ev,
                   tr_conversation_ref = conversationRef e (te_ConversationID ev), tr_event = ev \<rparr>]\<rparr>, Inr ())))"

section \<open>Feedback\<close>

definition FairyPositiveReactionID :: string where "FairyPositiveReactionID = ''76''"
definition FairyNegativeReactionID :: string where "FairyNegativeReactionID = ''fairy-negative''"
definition FeedbackPositive :: string where "FeedbackPositive = ''positive''"
definition FeedbackNegative :: string where "FeedbackNegative = ''negative''"

definition feedbackLabelForReaction :: "string \<Rightarrow> string option" where
  "feedbackLabelForReaction emojiID =
     (if emojiID = FairyPositiveReactionID then Some FeedbackPositive
      else if emojiID = FairyNegativeReactionID then Some FeedbackNegative else None)"

definition validFeedbackLabel :: "string \<Rightarrow> bool" where
  "validFeedbackLabel label \<longleftrightarrow> label = FeedbackPositive \<or> label = FeedbackNegative"

definition validFeedbackSourceID :: "string \<Rightarrow> nat \<Rightarrow> bool" where
  "validFeedbackSourceID value maxBytes \<longleftrightarrow> value \<noteq> [] \<and> length value \<le> maxBytes"

definition feedbackRef :: "trace_env \<Rightarrow> string \<Rightarrow> string \<Rightarrow> string" where
  "feedbackRef e domain value = ''hmac-sha256:'' @ tv_digest e domain value"

definition feedbackMessageRef :: "trace_env \<Rightarrow> string \<Rightarrow> string" where
  "feedbackMessageRef e messageID = feedbackRef e ''fairy-feedback-message:v1'' messageID"

definition feedbackActorRef :: "trace_env \<Rightarrow> string \<Rightarrow> string \<Rightarrow> string" where
  "feedbackActorRef e messageRef actorID = feedbackRef e ''fairy-feedback-actor:v1'' (messageRef @ [CHR 0x00] @ actorID)"

definition RegisterFeedbackOutput :: "trace_env \<Rightarrow> trace_store \<Rightarrow> string \<Rightarrow> string \<Rightarrow> gotime \<Rightarrow> trace_store \<times> unit res" where
  "RegisterFeedbackOutput e s messageID turnID at0 =
     (if \<not> validFeedbackSourceID messageID 1024 \<or> \<not> validRuntimeID turnID
      then (s, Inl ''invalid Fairy feedback output metadata'')
      else
        (let now = (if at0 = zero_time then tv_now e else at0); ref = feedbackMessageRef e messageID in
         case pruneIfDue e s now of
           (s1, False) \<Rightarrow> (s1, Inl ''prune expired Fairy trace tables'')
         | (s1, True) \<Rightarrow>
             if tv_fault e InsertOutput then (s1, Inl ''register Fairy feedback output'')
             else ((if gm_has (ts_outputs s1) ref then s1
                    else s1\<lparr>ts_outputs := gm_set ref \<lparr> fo_turn_id = turnID, fo_created_at = UnixMilli now,
                             fo_expires_at = UnixMilli (now + ts_retention s1) \<rparr> (ts_outputs s1)\<rparr>), Inr ())))"

definition live_output :: "trace_store \<Rightarrow> string \<Rightarrow> gotime \<Rightarrow> bool" where
  "live_output s ref now = (case gm_get (ts_outputs s) ref of None \<Rightarrow> False | Some out \<Rightarrow> UnixMilli now < fo_expires_at out)"

definition FeedbackOutputExists :: "trace_env \<Rightarrow> trace_store \<Rightarrow> string \<Rightarrow> bool res" where
  "FeedbackOutputExists e s messageID =
     (if \<not> validFeedbackSourceID messageID 1024 then Inl ''invalid Fairy feedback output metadata''
      else if tv_fault e FindOutput then Inl ''find Fairy feedback output''
      else Inr (live_output s (feedbackMessageRef e messageID) (tv_now e)))"

text \<open>The upsert changes one row whenever the output is live; a removal changes one when the label is the stored one.\<close>

definition change_rating :: "trace_store \<Rightarrow> string \<Rightarrow> string \<Rightarrow> string \<Rightarrow> bool \<Rightarrow> gotime \<Rightarrow> trace_store \<times> bool" where
  "change_rating s messageRef actorRef label removed now =
     (let key = (messageRef, actorRef) in
      if removed
      then (case gm_get (ts_ratings s) key of
              Some (old, _) \<Rightarrow> if old = label then (s\<lparr>ts_ratings := gm_del key (ts_ratings s)\<rparr>, True) else (s, False)
            | None \<Rightarrow> (s, False))
      else (s\<lparr>ts_ratings := gm_set key (label, UnixMilli now) (ts_ratings s)\<rparr>, True))"

definition ApplyFeedback ::
  "trace_env \<Rightarrow> trace_store \<Rightarrow> string \<Rightarrow> string \<Rightarrow> string \<Rightarrow> bool \<Rightarrow> gotime \<Rightarrow> trace_store \<times> bool res" where
  "ApplyFeedback e s messageID actorID label removed at0 =
     (if \<not> validFeedbackSourceID messageID 1024 \<or> \<not> validFeedbackSourceID actorID 256 \<or> \<not> validFeedbackLabel label
      then (s, Inl ''invalid Fairy feedback metadata'')
      else
        (let now = (if at0 = zero_time then tv_now e else at0); messageRef = feedbackMessageRef e messageID;
             actorRef = feedbackActorRef e messageRef actorID in
         case pruneIfDue e s now of
           (s1, False) \<Rightarrow> (s1, Inl ''prune expired Fairy trace tables'')
         | (s1, True) \<Rightarrow>
             if tv_fault e BeginTx then (s1, Inl ''begin Fairy feedback update'')
             else if tv_fault e FindOutput then (s1, Inl ''find Fairy feedback output'')
             else if \<not> live_output s1 messageRef now then (s1, Inr False)
             else
               (case List.find (tv_fault e) [ChangeRating, RowsAffected, CommitTx] of
                  Some step \<Rightarrow> (s1, Inl ''apply Fairy feedback'')
                | None \<Rightarrow> (case change_rating s1 messageRef actorRef label removed now of (s2, changed) \<Rightarrow> (s2, Inr changed)))))"

definition DeleteFeedbackOutput :: "trace_env \<Rightarrow> trace_store \<Rightarrow> string \<Rightarrow> trace_store \<times> bool res" where
  "DeleteFeedbackOutput e s messageID =
     (if \<not> validFeedbackSourceID messageID 1024 then (s, Inl ''invalid Fairy feedback output metadata'')
      else
        (let ref = feedbackMessageRef e messageID;
             s1 = s\<lparr>ts_outputs := gm_del ref (ts_outputs s), ts_ratings := filter (\<lambda>((r, _), _). r \<noteq> ref) (ts_ratings s)\<rparr> in
         if tv_fault e DeleteOutput then (s, Inl ''delete Fairy feedback output'')
         else if tv_fault e RowsAffected then (s1, Inl ''read Fairy feedback output deletion result'')
         else (s1, Inr (gm_has (ts_outputs s) ref))))"

record feedback_stats =
  fb_WindowHours :: nat
  fb_RatedOutputs :: nat
  fb_Positive :: nat
  fb_Negative :: nat
  fb_PositiveRate :: rat

definition FeedbackStats :: "trace_env \<Rightarrow> trace_store \<Rightarrow> gotime \<Rightarrow> trace_store \<times> feedback_stats res" where
  "FeedbackStats e s since0 =
     (let since = (if since0 = zero_time then tv_now e - 24 * hour else since0) in
      case pruneIfDue e s (tv_now e) of
        (s1, False) \<Rightarrow> (s1, Inl ''prune expired Fairy trace tables'')
      | (s1, True) \<Rightarrow>
          if tv_fault e QueryStats then (s1, Inl ''query Fairy feedback stats'')
          else
            (let rows = filter (\<lambda>((ref, _), (_, rated)). UnixMilli since \<le> rated \<and> live_output s1 ref (tv_now e)) (ts_ratings s1);
                 positive = length (filter (\<lambda>(_, (label, _)). label = ''positive'') rows);
                 negative = length (filter (\<lambda>(_, (label, _)). label = ''negative'') rows);
                 rate = (if 0 < positive + negative then float64 (of_nat positive / of_nat (positive + negative)) else 0)
             in (s1, Inr \<lparr> fb_WindowHours = 24, fb_RatedOutputs = length (remdups (map (fst \<circ> fst) rows)),
                           fb_Positive = positive, fb_Negative = negative, fb_PositiveRate = rate \<rparr>)))"

section \<open>Statistics\<close>

record model_health =
  mh_TaskID :: string
  mh_ProviderID :: string
  mh_ModelID :: string
  mh_Attempts :: nat
  mh_Completed :: nat
  mh_Failed :: nat
  mh_FallbackAttempts :: nat
  mh_RepairAttempts :: nat
  mh_P50Millis :: int
  mh_P95Millis :: int
  mh_InputTokens :: int
  mh_OutputTokens :: int
  mh_CostMicroUSD :: int
  mh_FailureCodes :: "(string, nat) gomap"

record recent_failure =
  rf_OccurredAt :: int
  rf_Kind :: string
  rf_Code :: string
  rf_TaskID :: string
  rf_ProviderID :: string
  rf_ModelID :: string
  rf_ToolName :: string
  rf_ToolStatus :: string
  rf_DurationMS :: int
  rf_Attempt :: int
  rf_Step :: int
  rf_Fallback :: bool
  rf_Repair :: bool
  rf_QueueDepth :: int
  rf_PendingTurns :: int

record runtime_stats =
  rs_WindowHours :: nat
  rs_ModelAttempts :: nat
  rs_ModelCompleted :: nat
  rs_ModelFailed :: nat
  rs_ModelHealth :: "model_health list"
  rs_ToolCalls :: nat
  rs_ToolCompleted :: nat
  rs_ToolFailed :: nat
  rs_GateDecisions :: nat
  rs_GateActions :: "(string, nat) gomap"
  rs_GateReasons :: "(string, nat) gomap"
  rs_InputTokens :: int
  rs_OutputTokens :: int
  rs_CostMicroUSD :: int
  rs_RecentFailures :: "recent_failure list"

definition validTraceModelHealthPayload :: "trace_event \<Rightarrow> bool" where
  "validTraceModelHealthPayload p =
     (if \<not> validTraceLabel (te_TaskID p) \<or> \<not> validTraceLabel (te_ProviderID p) \<or> \<not> validTraceLabel (te_ModelID p)
         \<or> te_Attempt p < 1 \<or> te_Step p < 0 \<or> maxPlannerSteps < te_Step p \<or> te_DurationMS p < 0 \<or> te_InputTokens p < 0
         \<or> te_OutputTokens p < 0 \<or> te_CostMicroUSD p < 0
      then False
      else if te_Repair p \<and> (te_TaskID p \<noteq> PlannerTaskID \<and> te_TaskID p \<noteq> ReplyerTaskID \<or> te_Step p < 1) then False
      else if te_Status p = ''completed'' then te_FailureCode p = []
      else te_Status p = ''failed'' \<and> validModelFailureCode (te_FailureCode p))"

definition validTraceToolRuntimePayload :: "trace_event \<Rightarrow> bool" where
  "validTraceToolRuntimePayload p =
     (if \<not> validTraceLabel (te_ToolName p) \<or> \<not> validToolTraceRisk (te_ToolRisk p) \<or> \<not> validToolTracePolicy (te_ToolPolicy p)
         \<or> \<not> validToolTraceStatus (te_ToolStatus p) \<or> te_Step p < 0 \<or> maxPlannerSteps < te_Step p \<or> te_DurationMS p < 0
         \<or> te_ToolResultBytes p < 0
      then False
      else if te_Status p = ''completed''
      then te_ToolStatus p = ''completed'' \<and> te_ToolPolicy p = ''allowed'' \<and> te_FailureCode p = []
      else te_Status p = ''failed'' \<and> te_ToolStatus p \<noteq> ''completed'' \<and> validToolFailureCode (te_FailureCode p))"

definition validTraceAdmissionFailurePayload :: "trace_event \<Rightarrow> bool" where
  "validTraceAdmissionFailurePayload p \<longleftrightarrow>
     te_Status p \<in> {''global_pending_limit'', ''conversation_pending_limit''} \<and> 0 \<le> te_QueueDepth p \<and> 0 \<le> te_Pending p"

definition validTraceTurnFailurePayload :: "trace_event \<Rightarrow> bool" where
  "validTraceTurnFailurePayload p \<longleftrightarrow> te_Status p = ''deadline_exceeded''"

definition no_failure :: "int \<Rightarrow> string \<Rightarrow> string \<Rightarrow> recent_failure" where
  "no_failure ms kind code = \<lparr> rf_OccurredAt = ms, rf_Kind = kind, rf_Code = code, rf_TaskID = [], rf_ProviderID = [],
     rf_ModelID = [], rf_ToolName = [], rf_ToolStatus = [], rf_DurationMS = 0, rf_Attempt = 0, rf_Step = 0,
     rf_Fallback = False, rf_Repair = False, rf_QueueDepth = 0, rf_PendingTurns = 0 \<rparr>"

definition appendTraceRecentFailure :: "runtime_stats \<Rightarrow> int \<Rightarrow> string \<Rightarrow> trace_event \<Rightarrow> runtime_stats" where
  "appendTraceRecentFailure st ms ty p =
     (let add = (\<lambda>f. st\<lparr>rs_RecentFailures := rs_RecentFailures st @ [f]\<rparr>) in
      if maxRecentTraceFailures \<le> length (rs_RecentFailures st) then st
      else if ty = TraceModelAttempt
      then add ((no_failure ms ''model'' (te_FailureCode p))\<lparr>rf_TaskID := te_TaskID p, rf_ProviderID := te_ProviderID p,
             rf_ModelID := te_ModelID p, rf_DurationMS := te_DurationMS p, rf_Attempt := te_Attempt p, rf_Step := te_Step p,
             rf_Fallback := te_Fallback p, rf_Repair := te_Repair p\<rparr>)
      else if ty = TraceToolCall
      then add ((no_failure ms ''tool'' (te_FailureCode p))\<lparr>rf_ToolName := te_ToolName p, rf_ToolStatus := te_ToolStatus p,
             rf_DurationMS := te_DurationMS p, rf_Step := te_Step p\<rparr>)
      else if ty = TraceAdmissionRejected
      then add ((no_failure ms ''admission'' (te_Status p))\<lparr>rf_QueueDepth := te_QueueDepth p, rf_PendingTurns := te_Pending p\<rparr>)
      else if ty = TraceTurnTimedOut then add (no_failure ms ''turn'' (te_Status p))
      else st)"

definition gm_inc :: "'k \<Rightarrow> ('k, nat) gomap \<Rightarrow> ('k, nat) gomap" where
  "gm_inc k m = gm_set k ((case gm_get m k of Some n \<Rightarrow> n | None \<Rightarrow> 0) + 1) m"

type_synonym health_groups = "(string \<times> string \<times> string, model_health \<times> int list) gomap"

definition recordTraceModelHealth :: "health_groups \<Rightarrow> trace_event \<Rightarrow> health_groups" where
  "recordTraceModelHealth groups p =
     (let key = (te_TaskID p, te_ProviderID p, te_ModelID p);
          (h, durations) = (case gm_get groups key of
             Some g \<Rightarrow> g
           | None \<Rightarrow> (\<lparr> mh_TaskID = te_TaskID p, mh_ProviderID = te_ProviderID p, mh_ModelID = te_ModelID p, mh_Attempts = 0,
                        mh_Completed = 0, mh_Failed = 0, mh_FallbackAttempts = 0, mh_RepairAttempts = 0, mh_P50Millis = 0,
                        mh_P95Millis = 0, mh_InputTokens = 0, mh_OutputTokens = 0, mh_CostMicroUSD = 0, mh_FailureCodes = [] \<rparr>, []));
          h1 = h\<lparr>mh_Attempts := mh_Attempts h + 1, mh_InputTokens := wrap64 (mh_InputTokens h + te_InputTokens p),
                 mh_OutputTokens := wrap64 (mh_OutputTokens h + te_OutputTokens p),
                 mh_CostMicroUSD := wrap64 (mh_CostMicroUSD h + te_CostMicroUSD p),
                 mh_FallbackAttempts := mh_FallbackAttempts h + (if te_Fallback p then 1 else 0),
                 mh_RepairAttempts := mh_RepairAttempts h + (if te_Repair p then 1 else 0)\<rparr>;
          h2 = (if te_Status p = ''completed'' then h1\<lparr>mh_Completed := mh_Completed h1 + 1\<rparr>
                else h1\<lparr>mh_Failed := mh_Failed h1 + 1, mh_FailureCodes := gm_inc (te_FailureCode p) (mh_FailureCodes h1)\<rparr>)
      in gm_set key (h2, durations @ [te_DurationMS p]) groups)"

text \<open>The index of a percentile is computed with \<open>float64\<close> arithmetic and cut off.\<close>

definition percentileTraceMillis :: "int list \<Rightarrow> rat \<Rightarrow> int" where
  "percentileTraceMillis values percentile =
     (if values = [] then 0
      else
        (let index = trunc_rat (float64 (float64 (of_nat (length values - 1) * float64 percentile) + 1 / 2));
             index1 = (if index < 0 then 0 else index);
             index2 = (if int (length values) \<le> index1 then int (length values) - 1 else index1)
         in values ! nat index2))"

definition health_less :: "model_health \<Rightarrow> model_health \<Rightarrow> bool" where
  "health_less l r =
     (if mh_TaskID l \<noteq> mh_TaskID r then mh_TaskID l < mh_TaskID r
      else if mh_ProviderID l \<noteq> mh_ProviderID r then mh_ProviderID l < mh_ProviderID r
      else mh_ModelID l < mh_ModelID r)"

definition finalizeTraceModelHealth :: "health_groups \<Rightarrow> model_health list" where
  "finalizeTraceModelHealth groups =
     go_sort health_less (map (\<lambda>(_, (h, durations)). h\<lparr>mh_P50Millis := percentileTraceMillis (sort durations) (1 / 2),
        mh_P95Millis := percentileTraceMillis (sort durations) (95 / 100)\<rparr>) groups)"

definition stats_row :: "runtime_stats \<times> health_groups \<Rightarrow> trace_row \<Rightarrow> (runtime_stats \<times> health_groups) res" where
  "stats_row acc row =
     (let (st, groups) = acc; p = tr_event row; ms = tr_time_ms row; ty = tr_type row in
      if ty = TraceModelAttempt
      then (if \<not> validTraceModelHealthPayload p then Inl ''invalid Fairy model metadata in trace store''
            else
              (let st1 = st\<lparr>rs_ModelAttempts := rs_ModelAttempts st + 1, rs_InputTokens := wrap64 (rs_InputTokens st + te_InputTokens p),
                            rs_OutputTokens := wrap64 (rs_OutputTokens st + te_OutputTokens p),
                            rs_CostMicroUSD := wrap64 (rs_CostMicroUSD st + te_CostMicroUSD p)\<rparr>;
                   st2 = (if te_Status p = ''completed'' then st1\<lparr>rs_ModelCompleted := rs_ModelCompleted st1 + 1\<rparr>
                          else st1\<lparr>rs_ModelFailed := rs_ModelFailed st1 + 1\<rparr>);
                   st3 = (if te_Status p = ''failed'' then appendTraceRecentFailure st2 ms TraceModelAttempt p else st2)
               in Inr (st3, recordTraceModelHealth groups p)))
      else if ty = TraceToolCall
      then (if \<not> validTraceToolRuntimePayload p then Inl ''invalid Fairy tool metadata in trace store''
            else
              (let st1 = st\<lparr>rs_ToolCalls := rs_ToolCalls st + 1\<rparr>
               in Inr (if te_Status p = ''completed'' then st1\<lparr>rs_ToolCompleted := rs_ToolCompleted st1 + 1\<rparr>
                       else appendTraceRecentFailure (st1\<lparr>rs_ToolFailed := rs_ToolFailed st1 + 1\<rparr>) ms TraceToolCall p, groups)))
      else if ty = TraceGateDecision
      then (if \<not> validGateAction (te_GateAction p) \<or> \<not> validGateReason (te_GateReason p)
            then Inl ''invalid Fairy gate metadata in trace store''
            else Inr (st\<lparr>rs_GateDecisions := rs_GateDecisions st + 1, rs_GateActions := gm_inc (te_GateAction p) (rs_GateActions st),
                        rs_GateReasons := gm_inc (te_GateReason p) (rs_GateReasons st)\<rparr>, groups))
      else if ty = TraceAdmissionRejected
      then (if \<not> validTraceAdmissionFailurePayload p then Inl ''invalid Fairy admission metadata in trace store''
            else Inr (appendTraceRecentFailure st ms TraceAdmissionRejected p, groups))
      else if ty = TraceTurnTimedOut
      then (if \<not> validTraceTurnFailurePayload p then Inl ''invalid Fairy turn metadata in trace store''
            else Inr (appendTraceRecentFailure st ms TraceTurnTimedOut p, groups))
      else Inr (st, groups))"

fun stats_rows :: "runtime_stats \<times> health_groups \<Rightarrow> trace_row list \<Rightarrow> (runtime_stats \<times> health_groups) res" where
  "stats_rows acc [] = Inr acc"
| "stats_rows acc (row # rows) = (case stats_row acc row of Inl err \<Rightarrow> Inl err | Inr acc1 \<Rightarrow> stats_rows acc1 rows)"

definition empty_stats :: runtime_stats where
  "empty_stats = \<lparr> rs_WindowHours = 24, rs_ModelAttempts = 0, rs_ModelCompleted = 0, rs_ModelFailed = 0, rs_ModelHealth = [],
     rs_ToolCalls = 0, rs_ToolCompleted = 0, rs_ToolFailed = 0, rs_GateDecisions = 0, rs_GateActions = [], rs_GateReasons = [],
     rs_InputTokens = 0, rs_OutputTokens = 0, rs_CostMicroUSD = 0, rs_RecentFailures = [] \<rparr>"

definition RuntimeStats :: "trace_env \<Rightarrow> trace_store \<Rightarrow> gotime \<Rightarrow> runtime_stats res" where
  "RuntimeStats e s since0 =
     (let since = (if since0 = zero_time then tv_now e - 24 * hour else since0);
          rows = rev (sort_key tr_time_ms (filter (\<lambda>row. UnixMilli since \<le> tr_time_ms row
             \<and> tr_type row \<in> {TraceModelAttempt, TraceToolCall, TraceGateDecision, TraceAdmissionRejected, TraceTurnTimedOut}) (ts_events s))) in
      if tv_fault e QueryStats then Inl ''query Fairy runtime trace stats''
      else
        (case stats_rows (empty_stats, []) rows of
           Inl err \<Rightarrow> Inl err
         | Inr (st, groups) \<Rightarrow> Inr (st\<lparr>rs_ModelHealth := finalizeTraceModelHealth groups\<rparr>)))"

section \<open>Decision chains\<close>

record decision_chain =
  ch_TurnID :: string
  ch_TraceID :: string
  ch_ConversationRef :: string
  ch_StartedAt :: gotime
  ch_UpdatedAt :: gotime
  ch_Status :: string
  ch_Events :: "trace_row list"

text \<open>\<open>time.UnixMilli\<close>.\<close>

definition milli_time :: "int \<Rightarrow> gotime" where "milli_time ms = unix_epoch + ms * 10 ^ 6"

definition chain_row :: "decision_chain \<Rightarrow> trace_row \<Rightarrow> decision_chain" where
  "chain_row chain row =
     (let chain1 = chain\<lparr>ch_TraceID := (if ch_TraceID chain = [] then te_TraceID (tr_event row) else ch_TraceID chain),
            ch_ConversationRef := (if ch_ConversationRef chain = [] then tr_conversation_ref row else ch_ConversationRef chain),
            ch_StartedAt := (if ch_StartedAt chain = zero_time then milli_time (tr_time_ms row) else ch_StartedAt chain),
            ch_UpdatedAt := milli_time (tr_time_ms row)\<rparr>;
          chain2 = (if tr_type row \<in> {TraceTurnCompleted, TraceTurnCancelled, TraceTurnTimedOut, TraceAdmissionRejected, TraceIngressDuplicate}
                    then chain1\<lparr>ch_Status := te_Status (tr_event row)\<rparr> else chain1)
      in chain2\<lparr>ch_Events := ch_Events chain2 @ [row]\<rparr>)"

definition loadDecisionChain :: "trace_store \<Rightarrow> string \<Rightarrow> decision_chain" where
  "loadDecisionChain s turnID =
     foldl chain_row \<lparr> ch_TurnID = turnID, ch_TraceID = [], ch_ConversationRef = [], ch_StartedAt = zero_time, ch_UpdatedAt = zero_time,
        ch_Status = ''running'', ch_Events = [] \<rparr> (filter (\<lambda>row. te_TurnID (tr_event row) = turnID) (ts_events s))"

text \<open>The turns in the order of their last event, newest first.\<close>

definition ListDecisionChains :: "trace_store \<Rightarrow> int \<Rightarrow> decision_chain list" where
  "ListDecisionChains s limit =
     (let n = (if limit \<le> 0 then 10 else if 50 < limit then 50 else limit);
          turns = remdups (filter (\<lambda>i. i \<noteq> []) (map (te_TurnID \<circ> tr_event) (ts_events s)))
      in map (loadDecisionChain s) (take (nat n) (rev turns)))"

section \<open>An event is claimed once\<close>

definition claimed_until :: "trace_store \<Rightarrow> string \<times> string \<Rightarrow> int \<Rightarrow> bool" where
  "claimed_until s key ms \<longleftrightarrow> (\<exists>received expires. gm_get (ts_ingress s) key = Some (received, expires) \<and> ms < expires)"

lemma UnixMilli_mono: "t \<le> u \<Longrightarrow> UnixMilli t \<le> UnixMilli u"
  by (simp add: UnixMilli_def zdiv_mono1)

lemma ingress_frame [simp]:
  "ts_ingress (prune_trace ms s) = ts_ingress s" "ts_ingress (prune_feedback ms s) = ts_ingress s"
  by (simp_all add: prune_trace_def prune_feedback_def Let_def)

lemma retention_frame [simp]:
  "ts_retention (prune_ingress ms s) = ts_retention s" "ts_retention (prune_trace ms s) = ts_retention s"
  "ts_retention (prune_feedback ms s) = ts_retention s"
  by (simp_all add: prune_ingress_def prune_trace_def prune_feedback_def Let_def)

lemma prune_ingress_keeps:
  "gm_wf (ts_ingress s) \<Longrightarrow> claimed_until s key ms \<Longrightarrow> m \<le> ms \<Longrightarrow> claimed_until (prune_ingress m s) key ms"
  by (auto simp: claimed_until_def prune_ingress_def gm_get_filter [of _ "\<lambda>_ v. case v of (_, expires) \<Rightarrow> m < expires", simplified case_prod_beta']
      case_prod_beta')

lemma pruneIfDue_keeps:
  assumes "gm_wf (ts_ingress s)" "now \<le> t"
  shows "gm_wf (ts_ingress (fst (pruneIfDue e s now)))" "ts_retention (fst (pruneIfDue e s now)) = ts_retention s"
    "claimed_until s key (UnixMilli t) \<Longrightarrow> claimed_until (fst (pruneIfDue e s now)) key (UnixMilli t)"
proof -
  have wf: "gm_wf (ts_ingress (prune_ingress m s))" for m using assms(1) by (simp add: prune_ingress_def)
  then show "gm_wf (ts_ingress (fst (pruneIfDue e s now)))" "ts_retention (fst (pruneIfDue e s now)) = ts_retention s"
    using assms(1) by (simp_all add: pruneIfDue_def Let_def)
  show "claimed_until (fst (pruneIfDue e s now)) key (UnixMilli t)" if "claimed_until s key (UnixMilli t)"
    using prune_ingress_keeps [OF assms(1) that UnixMilli_mono [OF assms(2)]] that
    by (simp add: pruneIfDue_def Let_def claimed_until_def)
qed

lemma claim_row_get:
  assumes "gm_wf (ts_ingress s)" "claim_row s source eventID now = (s1, b)"
  shows "gm_wf (ts_ingress s1)" "ts_retention s1 = ts_retention s"
    "b \<longleftrightarrow> \<not> claimed_until s (source, eventID) (UnixMilli now)"
    "gm_get (ts_ingress s1) key =
       (if b \<and> key = (source, eventID) then Some (UnixMilli now, UnixMilli (now + ts_retention s)) else gm_get (ts_ingress s) key)
     \<or> \<not> b \<and> gm_get (ts_ingress s1) key = gm_get (ts_ingress s) key"
proof -
  let ?k = "(source, eventID)"
  let ?rows = "filter (\<lambda>(k, (_, expires)). \<not> (k = ?k \<and> expires \<le> UnixMilli now)) (ts_ingress s)"
  have get: "gm_get ?rows k = (case gm_get (ts_ingress s) k of None \<Rightarrow> None
      | Some v \<Rightarrow> if \<not> (k = ?k \<and> snd v \<le> UnixMilli now) then Some v else None)" for k
    using gm_get_filter [OF assms(1), of "\<lambda>k v. \<not> (k = ?k \<and> snd v \<le> UnixMilli now)" k] by (simp add: case_prod_beta')
  have has: "gm_has ?rows ?k \<longleftrightarrow> claimed_until s ?k (UnixMilli now)"
    unfolding gm_has_def get claimed_until_def by (auto split: option.split)
  show wf: "gm_wf (ts_ingress s1)" and "ts_retention s1 = ts_retention s"
    and b: "b \<longleftrightarrow> \<not> claimed_until s ?k (UnixMilli now)"
    using assms has by (auto simp: claim_row_def Let_def split: if_split_asm)
  show "gm_get (ts_ingress s1) key =
       (if b \<and> key = ?k then Some (UnixMilli now, UnixMilli (now + ts_retention s)) else gm_get (ts_ingress s) key)
     \<or> \<not> b \<and> gm_get (ts_ingress s1) key = gm_get (ts_ingress s) key"
    using assms(2) has b get [of key] get [of ?k]
    by (auto simp: claim_row_def Let_def claimed_until_def split: if_split_asm option.split_asm)
qed

text \<open>A run of claims; a claim without a time takes the clock's.\<close>

record claim_request =
  cm_env :: trace_env
  cm_source :: string
  cm_eventID :: string
  cm_at :: gotime

definition claim_time :: "claim_request \<Rightarrow> gotime" where
  "claim_time r = (if cm_at r = zero_time then tv_now (cm_env r) else cm_at r)"

definition do_claim :: "claim_request \<Rightarrow> trace_store \<Rightarrow> trace_store \<times> bool" where
  "do_claim r s = (case ClaimIngress (cm_env r) s (cm_source r) (cm_eventID r) (cm_at r) of
     (s1, Inr True) \<Rightarrow> (s1, True) | (s1, _) \<Rightarrow> (s1, False))"

lemma do_claim_step:
  assumes "gm_wf (ts_ingress s)" "do_claim r s = (s1, b)" "claim_time r \<le> t"
  shows "gm_wf (ts_ingress s1)" "ts_retention s1 = ts_retention s"
    "claimed_until s key (UnixMilli t) \<Longrightarrow> claimed_until s1 key (UnixMilli t)"
    "b \<Longrightarrow> \<not> claimed_until s (cm_source r, cm_eventID r) (UnixMilli (claim_time r))"
    "b \<Longrightarrow> UnixMilli t < UnixMilli (claim_time r + ts_retention s) \<Longrightarrow> claimed_until s1 (cm_source r, cm_eventID r) (UnixMilli t)"
proof -
  let ?p = "pruneIfDue (cm_env r) s (claim_time r)"
  note keep = pruneIfDue_keeps [OF assms(1,3), where e = "cm_env r"]
    and keep0 = pruneIfDue_keeps [OF assms(1) order_refl, where e = "cm_env r" and now = "claim_time r"]
  have "s1 = s \<and> \<not> b \<or> s1 = fst ?p \<and> \<not> b \<or> claim_row (fst ?p) (cm_source r) (cm_eventID r) (claim_time r) = (s1, b)"
    using assms(2)
    by (auto simp: do_claim_def ClaimIngress_def claim_time_def Let_def split: if_split_asm prod.split_asm bool.split_asm option.split_asm)
  then consider "s1 = s" "\<not> b" | "s1 = fst ?p" "\<not> b" | "claim_row (fst ?p) (cm_source r) (cm_eventID r) (claim_time r) = (s1, b)"
    by blast
  then have "gm_wf (ts_ingress s1) \<and> ts_retention s1 = ts_retention s
    \<and> (claimed_until s key (UnixMilli t) \<longrightarrow> claimed_until s1 key (UnixMilli t))
    \<and> (b \<longrightarrow> \<not> claimed_until s (cm_source r, cm_eventID r) (UnixMilli (claim_time r)))
    \<and> (b \<longrightarrow> UnixMilli t < UnixMilli (claim_time r + ts_retention s) \<longrightarrow> claimed_until s1 (cm_source r, cm_eventID r) (UnixMilli t))"
  proof cases
    case 3
    note row = claim_row_get [OF keep(1) 3]
    have mono: "UnixMilli (claim_time r) \<le> UnixMilli t" by (rule UnixMilli_mono [OF assms(3)])
    have "claimed_until s1 key (UnixMilli t)" if "claimed_until s key (UnixMilli t)"
      using keep(3) [OF that] row(3) row(4) [of key] mono by (fastforce simp: claimed_until_def split: if_split_asm)
    moreover have "\<not> claimed_until s (cm_source r, cm_eventID r) (UnixMilli (claim_time r))" if b
      using keep0(3) that row(3) by blast
    moreover have "claimed_until s1 (cm_source r, cm_eventID r) (UnixMilli t)"
      if b "UnixMilli t < UnixMilli (claim_time r + ts_retention s)"
      using that row(4) [of "(cm_source r, cm_eventID r)"] keep(2) by (simp add: claimed_until_def)
    ultimately show ?thesis using row(1,2) keep(2) by simp
  qed (use assms(1) keep in simp_all)
  then show "gm_wf (ts_ingress s1)" "ts_retention s1 = ts_retention s"
    "claimed_until s key (UnixMilli t) \<Longrightarrow> claimed_until s1 key (UnixMilli t)"
    "b \<Longrightarrow> \<not> claimed_until s (cm_source r, cm_eventID r) (UnixMilli (claim_time r))"
    "b \<Longrightarrow> UnixMilli t < UnixMilli (claim_time r + ts_retention s) \<Longrightarrow> claimed_until s1 (cm_source r, cm_eventID r) (UnixMilli t)"
    by simp_all
qed

lemma no_claim_while_claimed:
  assumes "gm_wf (ts_ingress s)" "\<forall>r \<in> set rs. claim_time r \<le> t" "claimed_until s key (UnixMilli t)"
  shows "filter (\<lambda>r. (cm_source r, cm_eventID r) = key) (granted_run do_claim rs s) = []"
  using assms
proof (induction rs arbitrary: s)
  case (Cons r rs)
  obtain s1 b where r: "do_claim r s = (s1, b)" by fastforce
  note st = do_claim_step [OF Cons.prems(1) r, of t]
  have "claimed_until s key (UnixMilli (claim_time r))"
    using Cons.prems(2,3) UnixMilli_mono [of "claim_time r" t] by (force simp: claimed_until_def)
  then have "\<not> (b \<and> (cm_source r, cm_eventID r) = key)" using st(4) Cons.prems(2) by auto
  with Cons.IH [OF st(1) _ st(3)] Cons.prems r show ?case by auto
qed simp

lemma claimed_once:
  assumes "gm_wf (ts_ingress s)" "\<forall>r \<in> set rs. t0 \<le> claim_time r \<and> claim_time r \<le> t"
    and "UnixMilli t < UnixMilli (t0 + ts_retention s)"
  shows "length (filter (\<lambda>r. (cm_source r, cm_eventID r) = key) (granted_run do_claim rs s)) \<le> 1"
  using assms
proof (induction rs arbitrary: s)
  case (Cons r rs)
  obtain s1 b where r: "do_claim r s = (s1, b)" by fastforce
  note st = do_claim_step [OF Cons.prems(1) r, of t]
  show ?case
  proof (cases "b \<and> (cm_source r, cm_eventID r) = key")
    case True
    have "UnixMilli (t0 + ts_retention s) \<le> UnixMilli (claim_time r + ts_retention s)"
      using Cons.prems(2) by (intro UnixMilli_mono) simp
    with st(5) True Cons.prems(2,3) have "claimed_until s1 key (UnixMilli t)" by fastforce
    with no_claim_while_claimed [of s1 rs t key] st(1) Cons.prems(2) True r show ?thesis by auto
  next
    case False
    with Cons.IH [of s1] st(1,2) Cons.prems r show ?thesis by auto
  qed
qed simp

section \<open>What was appended can be read\<close>

text \<open>The statuses the scheduler uses for refused admissions and for turns that ran out of time.\<close>

definition failure_status :: "trace_event \<Rightarrow> bool" where
  "failure_status ev \<longleftrightarrow>
     (te_Type ev = TraceAdmissionRejected \<longrightarrow> te_Status ev \<in> {''global_pending_limit'', ''conversation_pending_limit''})
     \<and> (te_Type ev = TraceTurnTimedOut \<longrightarrow> te_Status ev = ''deadline_exceeded'')"

definition rows_ok :: "trace_env \<Rightarrow> trace_row list \<Rightarrow> bool" where
  "rows_ok e rows \<longleftrightarrow> (\<forall>row \<in> set rows. tr_type row = te_Type (tr_event row) \<and> failure_status (tr_event row)
     \<and> valid_trace_event e (tr_event row))"

lemma trace_types_distinct [simp]:
  "TraceToolCall \<noteq> TraceModelAttempt" "TraceGateDecision \<noteq> TraceModelAttempt" "TraceGateDecision \<noteq> TraceToolCall"
  "TraceAdmissionRejected \<noteq> TraceModelAttempt" "TraceAdmissionRejected \<noteq> TraceToolCall" "TraceAdmissionRejected \<noteq> TraceGateDecision"
  "TraceTurnTimedOut \<noteq> TraceModelAttempt" "TraceTurnTimedOut \<noteq> TraceToolCall" "TraceTurnTimedOut \<noteq> TraceGateDecision"
  "TraceTurnTimedOut \<noteq> TraceAdmissionRejected"
  "TraceModelAttempt \<notin> {TraceModelReasoning, TracePlannerDecision, TraceReplyerResult}"
  "TraceToolCall \<notin> {TraceModelReasoning, TracePlannerDecision, TraceReplyerResult}"
  "TraceGateDecision \<notin> {TraceModelReasoning, TracePlannerDecision, TraceReplyerResult}"
  by (simp_all add: trace_types)

lemmas trace_types_distinct_sym [simp] = trace_types_distinct(1-10) [symmetric]

lemma time_irrelevant:
  "no_tool_fields (ev\<lparr>te_Time := t\<rparr>) = no_tool_fields ev" "no_gate_fields (ev\<lparr>te_Time := t\<rparr>) = no_gate_fields ev"
  "no_usage_fields (ev\<lparr>te_Time := t\<rparr>) = no_usage_fields ev" "no_model_fields (ev\<lparr>te_Time := t\<rparr>) = no_model_fields ev"
  "hasTraceDecisionPayload (ev\<lparr>te_Time := t\<rparr>) = hasTraceDecisionPayload ev"
  "failure_status (ev\<lparr>te_Time := t\<rparr>) = failure_status ev"
  by (simp_all add: no_tool_fields_def no_gate_fields_def no_usage_fields_def no_model_fields_def
      hasTraceDecisionPayload_def failure_status_def)

lemma time_irrelevant_checks:
  "validModelReasoningTrace (ev\<lparr>te_Time := t\<rparr>) = validModelReasoningTrace ev"
  "validAgentDecisionTrace (ev\<lparr>te_Time := t\<rparr>) = validAgentDecisionTrace ev"
  "valid_gate_trace (ev\<lparr>te_Time := t\<rparr>) = valid_gate_trace ev" "valid_tool_trace (ev\<lparr>te_Time := t\<rparr>) = valid_tool_trace ev"
  "valid_plain_trace (ev\<lparr>te_Time := t\<rparr>) = valid_plain_trace ev" "valid_model_trace (ev\<lparr>te_Time := t\<rparr>) = valid_model_trace ev"
  by (simp_all add: validModelReasoningTrace_def validAgentDecisionTrace_def valid_gate_trace_def valid_tool_trace_def
      valid_plain_trace_def valid_model_trace_def time_irrelevant Let_def split del: if_split cong del: if_weak_cong)

lemma valid_trace_event_time: "valid_trace_event e (ev\<lparr>te_Time := t\<rparr>) = valid_trace_event e ev"
  by (simp add: valid_trace_event_def validTraceEventDetails_def time_irrelevant_checks split del: if_split cong del: if_weak_cong)

lemma Append_rows_ok:
  assumes "rows_ok e (ts_events s)" "failure_status ev" "tv_validJSON e' = tv_validJSON e"
  shows "rows_ok e (ts_events (fst (Append e' s ev)))"
proof -
  have "valid_trace_event e' ev = valid_trace_event e ev" using assms(3) by (simp add: valid_trace_event_def)
  with assms(1,2) show ?thesis
    by (simp add: Append_def Let_def rows_ok_def valid_trace_event_time time_irrelevant)
qed

text \<open>Each kind of event that the statistics read passes the check made when it is read.\<close>

lemma details_bounds:
  assumes "validTraceEventDetails vj ev"
  shows "0 \<le> te_QueueDepth ev" "0 \<le> te_Pending ev" "0 \<le> te_DurationMS ev" "0 \<le> te_InputTokens ev" "0 \<le> te_OutputTokens ev"
    "0 \<le> te_CostMicroUSD ev" "0 \<le> te_Step ev" "te_Step ev \<le> maxPlannerSteps" "0 \<le> te_ToolResultBytes ev"
  using assms by (simp_all add: validTraceEventDetails_def split: if_split_asm)

lemma readable:
  assumes "valid_trace_event e ev"
  shows "te_Type ev = TraceModelAttempt \<Longrightarrow> validTraceModelHealthPayload ev"
    "te_Type ev = TraceToolCall \<Longrightarrow> validTraceToolRuntimePayload ev"
    "te_Type ev = TraceGateDecision \<Longrightarrow> validGateAction (te_GateAction ev) \<and> validGateReason (te_GateReason ev)"
    "te_Type ev = TraceAdmissionRejected \<Longrightarrow> failure_status ev \<Longrightarrow> validTraceAdmissionFailurePayload ev"
    "te_Type ev = TraceTurnTimedOut \<Longrightarrow> failure_status ev \<Longrightarrow> validTraceTurnFailurePayload ev"
proof -
  have d: "validTraceEventDetails (tv_validJSON e) ev" using assms by (simp add: valid_trace_event_def)
  note b = details_bounds [OF d]
  show "validTraceModelHealthPayload ev" if "te_Type ev = TraceModelAttempt"
  proof -
    have "valid_model_trace ev" using d that trace_types_distinct(11) by (auto simp: validTraceEventDetails_def split: if_split_asm)
    with b show ?thesis by (simp add: valid_model_trace_def validTraceModelHealthPayload_def split: if_split_asm)
  qed
  show "validTraceToolRuntimePayload ev" if "te_Type ev = TraceToolCall"
  proof -
    have "valid_tool_trace ev" using d that trace_types_distinct(12) by (auto simp: validTraceEventDetails_def split: if_split_asm)
    with b show ?thesis by (simp add: valid_tool_trace_def validTraceToolRuntimePayload_def split: if_split_asm)
  qed
  show "validGateAction (te_GateAction ev) \<and> validGateReason (te_GateReason ev)" if "te_Type ev = TraceGateDecision"
  proof -
    have "valid_gate_trace ev" using d that trace_types_distinct(13) by (auto simp: validTraceEventDetails_def split: if_split_asm)
    then show ?thesis by (auto simp: valid_gate_trace_def validGateDecision_def split: if_split_asm)
  qed
  show "validTraceAdmissionFailurePayload ev" if "te_Type ev = TraceAdmissionRejected" "failure_status ev"
    using that b by (simp add: failure_status_def validTraceAdmissionFailurePayload_def)
  show "validTraceTurnFailurePayload ev" if "te_Type ev = TraceTurnTimedOut" "failure_status ev"
    using that by (simp add: failure_status_def validTraceTurnFailurePayload_def)
qed

text \<open>The counters of the statistics over the rows that were read.\<close>

definition of_type :: "string \<Rightarrow> trace_row list \<Rightarrow> nat" where
  "of_type ty rows = length (filter (\<lambda>row. tr_type row = ty) rows)"

definition stats_ok :: "trace_row list \<Rightarrow> runtime_stats \<Rightarrow> bool" where
  "stats_ok rows st \<longleftrightarrow>
     rs_ModelAttempts st = of_type TraceModelAttempt rows \<and> rs_ModelCompleted st + rs_ModelFailed st = rs_ModelAttempts st
     \<and> rs_ToolCalls st = of_type TraceToolCall rows \<and> rs_ToolCompleted st + rs_ToolFailed st = rs_ToolCalls st
     \<and> rs_GateDecisions st = of_type TraceGateDecision rows
     \<and> length (rs_RecentFailures st) \<le> maxRecentTraceFailures"

lemma recent_failure_frame [simp]:
  "rs_ModelAttempts (appendTraceRecentFailure st ms ty p) = rs_ModelAttempts st"
  "rs_ModelCompleted (appendTraceRecentFailure st ms ty p) = rs_ModelCompleted st"
  "rs_ModelFailed (appendTraceRecentFailure st ms ty p) = rs_ModelFailed st"
  "rs_ToolCalls (appendTraceRecentFailure st ms ty p) = rs_ToolCalls st"
  "rs_ToolCompleted (appendTraceRecentFailure st ms ty p) = rs_ToolCompleted st"
  "rs_ToolFailed (appendTraceRecentFailure st ms ty p) = rs_ToolFailed st"
  "rs_GateDecisions (appendTraceRecentFailure st ms ty p) = rs_GateDecisions st"
  by (simp_all add: appendTraceRecentFailure_def Let_def)

lemma recent_failure_length:
  "length (rs_RecentFailures st) \<le> maxRecentTraceFailures \<Longrightarrow>
   length (rs_RecentFailures (appendTraceRecentFailure st ms ty p)) \<le> maxRecentTraceFailures"
  by (simp add: appendTraceRecentFailure_def Let_def)

lemma of_type_snoc: "of_type ty (rows @ [row]) = of_type ty rows + (if tr_type row = ty then 1 else 0)"
  by (simp add: of_type_def)

lemma stats_row_reads:
  assumes "rows_ok e [row]" "stats_ok rows st"
  shows "\<exists>st1 groups1. stats_row (st, groups) row = Inr (st1, groups1) \<and> stats_ok (rows @ [row]) st1"
proof -
  have v: "valid_trace_event e (tr_event row)" "tr_type row = te_Type (tr_event row)" "failure_status (tr_event row)"
    using assms(1) by (simp_all add: rows_ok_def)
  note r = readable [OF v(1)]
  consider "tr_type row = TraceModelAttempt" | "tr_type row = TraceToolCall" | "tr_type row = TraceGateDecision"
    | "tr_type row = TraceAdmissionRejected" | "tr_type row = TraceTurnTimedOut"
    | "tr_type row \<notin> {TraceModelAttempt, TraceToolCall, TraceGateDecision, TraceAdmissionRejected, TraceTurnTimedOut}" by blast
  then show ?thesis
  proof cases
    case 1
    with r(1) v assms(2) show ?thesis
      by (auto simp: stats_row_def Let_def stats_ok_def of_type_snoc recent_failure_length)
  next
    case 2
    with r(2) v assms(2) show ?thesis
      by (auto simp: stats_row_def Let_def stats_ok_def of_type_snoc recent_failure_length)
  next
    case 3
    with r(3) v assms(2) show ?thesis by (auto simp: stats_row_def Let_def stats_ok_def of_type_snoc)
  next
    case 4
    with r(4) v assms(2) show ?thesis by (auto simp: stats_row_def Let_def stats_ok_def of_type_snoc recent_failure_length)
  next
    case 5
    with r(5) v assms(2) show ?thesis by (auto simp: stats_row_def Let_def stats_ok_def of_type_snoc recent_failure_length)
  next
    case 6
    with assms(2) show ?thesis by (auto simp: stats_row_def Let_def stats_ok_def of_type_snoc)
  qed
qed

lemma stats_rows_read:
  assumes "rows_ok e rows" "stats_ok seen st"
  shows "\<exists>st1 groups1. stats_rows (st, groups) rows = Inr (st1, groups1) \<and> stats_ok (seen @ rows) st1"
  using assms
proof (induction rows arbitrary: seen st groups)
  case (Cons row rows)
  have "rows_ok e [row]" "rows_ok e rows" using Cons.prems(1) by (simp_all add: rows_ok_def)
  then obtain st1 groups1 where "stats_row (st, groups) row = Inr (st1, groups1)" "stats_ok (seen @ [row]) st1"
    using stats_row_reads Cons.prems(2) by blast
  with Cons.IH [OF \<open>rows_ok e rows\<close>, of "seen @ [row]" st1 groups1] show ?case by simp
qed simp

text \<open>The statistics over all rows that passed the checks of \<open>Append\<close>: no row is refused, and nothing is counted twice.\<close>

lemma of_type_rows:
  "of_type ty (rev (sort_key f (filter P rows))) = length (filter (\<lambda>row. tr_type row = ty \<and> P row) rows)"
proof -
  have "mset (filter (\<lambda>row. tr_type row = ty) (rev (sort_key f (filter P rows)))) = mset (filter (\<lambda>row. tr_type row = ty) (filter P rows))"
    by (simp only: mset_filter mset_rev mset_sort)
  then have "of_type ty (rev (sort_key f (filter P rows))) = length (filter (\<lambda>row. tr_type row = ty) (filter P rows))"
    unfolding of_type_def by (rule mset_eq_length)
  then show ?thesis by (simp add: conj_commute)
qed

lemma RuntimeStats_reads:
  assumes "rows_ok e (ts_events s)" "\<not> tv_fault e QueryStats"
  shows "\<exists>st. RuntimeStats e s since = Inr st
     \<and> rs_ModelCompleted st + rs_ModelFailed st = rs_ModelAttempts st \<and> rs_ToolCompleted st + rs_ToolFailed st = rs_ToolCalls st
     \<and> length (rs_RecentFailures st) \<le> maxRecentTraceFailures
     \<and> (\<forall>ty \<in> {TraceModelAttempt, TraceToolCall, TraceGateDecision}.
          (if ty = TraceModelAttempt then rs_ModelAttempts st else if ty = TraceToolCall then rs_ToolCalls st else rs_GateDecisions st)
          = length (filter (\<lambda>row. tr_type row = ty \<and> UnixMilli (if since = zero_time then tv_now e - 24 * hour else since) \<le> tr_time_ms row)
              (ts_events s)))"
proof -
  let ?lo = "UnixMilli (if since = zero_time then tv_now e - 24 * hour else since)"
  let ?P = "\<lambda>row. ?lo \<le> tr_time_ms row
     \<and> tr_type row \<in> {TraceModelAttempt, TraceToolCall, TraceGateDecision, TraceAdmissionRejected, TraceTurnTimedOut}"
  let ?rows = "rev (sort_key tr_time_ms (filter ?P (ts_events s)))"
  have ok: "rows_ok e ?rows" "stats_ok [] empty_stats"
    using assms(1) by (simp_all add: rows_ok_def stats_ok_def empty_stats_def of_type_def)
  obtain st groups where st: "stats_rows (empty_stats, []) ?rows = Inr (st, groups)" "stats_ok ?rows st"
    using stats_rows_read [OF ok, of "[]"] unfolding append_Nil by blast
  have num: "of_type ty ?rows = length (filter (\<lambda>row. tr_type row = ty \<and> ?lo \<le> tr_time_ms row) (ts_events s))"
    if "ty \<in> {TraceModelAttempt, TraceToolCall, TraceGateDecision}" for ty
  proof -
    have "(\<lambda>row. tr_type row = ty \<and> ?P row) = (\<lambda>row. tr_type row = ty \<and> ?lo \<le> tr_time_ms row)"
      unfolding fun_eq_iff using that by blast
    then show ?thesis unfolding of_type_rows by (rule arg_cong)
  qed
  show ?thesis
    using st assms(2) num unfolding RuntimeStats_def Let_def stats_ok_def
    by (intro exI [of _ "st\<lparr>rs_ModelHealth := finalizeTraceModelHealth groups\<rparr>"]) auto
qed

end
