(* ===== verification/Fairy_Scheduler.thy ===== *)
theory Fairy_Scheduler
  imports Fairy_Trace
begin

text \<open>
  The turn scheduler of the agent service (\<open>scheduler.go\<close>): one queue and one goroutine per conversation,
  a bounded number of turns running at once, admission limits, control turns that overtake, cancellation
  and shutdown. The queues are objects on a heap, because the goroutine keeps a pointer to its queue while
  the map may lose it. The code under the mutex is one step; the goroutine \<open>runConversation\<close> is a state
  machine whose phases are the places between those steps, and \<open>turn.run\<close> may take any time. The lemmas
  show the bounds of pending and running turns, that each conversation's turns run one at a time and in
  the order they were admitted, and that a scheduler that was closed drains.
\<close>

section \<open>State\<close>

datatype cancel_cause = StoppedByUser | DeadlineExceeded | SchedulerShuttingDown | OtherCause string

record scheduled_turn =
  tn_source :: string
  tn_eventID :: string
  tn_conversationID :: string
  tn_priority :: bool
  tn_retryable :: bool
  tn_run :: bool
  tn_traceID :: string
  tn_turnID :: string

text \<open>
  \<open>cq_currentCancel\<close> is \<open>None\<close> while no turn runs (the nil function); otherwise it holds the cause of the
  running turn's context, \<open>None\<close> as long as that is not cancelled. The first cause stays.
\<close>

record conv_queue =
  cq_items :: "scheduled_turn list"
  cq_running :: bool
  cq_controlQueued :: bool
  cq_currentCancel :: "cancel_cause option option"

text \<open>
  The phases of a goroutine: waiting for a slot, between two turns, running one, about to return (with
  the slot or without), and returned.
\<close>

datatype phase = WaitSlot | BetweenTurns | RunTurn scheduled_turn | Leaving bool | Gone

record sched_actor =
  ac_conv :: string
  ac_queue :: nat
  ac_phase :: phase

record scheduler =
  sx_accepting :: bool
  sx_queues :: "(string, nat) gomap"
  sx_heap :: "conv_queue list"
  sx_pending :: int
  sx_maxPending :: int
  sx_maxConversationPending :: int
  sx_slots :: nat
  sx_maxConcurrent :: nat
  sx_lifecycle :: "cancel_cause option"
  sx_wait :: nat
  sx_actors :: "sched_actor list"
  sx_trace :: trace_store

datatype sched_error = InvalidTurn | RuntimeIDError | ErrSchedulerClosed | ErrPendingLimit | ErrConversationPending | ClaimFailed string

definition NewConversationScheduler :: "int \<Rightarrow> int \<Rightarrow> nat \<Rightarrow> trace_store \<Rightarrow> scheduler" where
  "NewConversationScheduler maxPending maxConversationPending maxConcurrent trace =
     \<lparr> sx_accepting = True, sx_queues = [], sx_heap = [], sx_pending = 0, sx_maxPending = maxPending,
       sx_maxConversationPending = maxConversationPending, sx_slots = 0, sx_maxConcurrent = maxConcurrent,
       sx_lifecycle = None, sx_wait = 0, sx_actors = [], sx_trace = trace \<rparr>"

text \<open>\<open>newRuntimeID\<close>: 16 random bytes in hexadecimal, or no randomness.\<close>

definition newRuntimeID :: "string \<Rightarrow> string option \<Rightarrow> string option" where
  "newRuntimeID prefix value = map_option (\<lambda>hex. prefix @ ''_'' @ hex) value"

text \<open>A failed append is only logged.\<close>

definition appendTrace :: "trace_env \<Rightarrow> scheduler \<Rightarrow> trace_event \<Rightarrow> scheduler" where
  "appendTrace e s ev = s\<lparr>sx_trace := fst (Append e (sx_trace s) ev)\<rparr>"

definition cancel_context :: "cancel_cause \<Rightarrow> cancel_cause option option \<Rightarrow> cancel_cause option option" where
  "cancel_context cause current =
     (case current of Some None \<Rightarrow> Some (Some cause) | _ \<Rightarrow> current)"

section \<open>Admission\<close>

definition queue_of :: "scheduler \<Rightarrow> string \<Rightarrow> conv_queue option" where
  "queue_of s conv = map_option (\<lambda>q. sx_heap s ! q) (gm_get (sx_queues s) conv)"

definition priority_bypass :: "scheduler \<Rightarrow> scheduled_turn \<Rightarrow> bool" where
  "priority_bypass s turn \<longleftrightarrow> tn_priority turn
     \<and> (case queue_of s (tn_conversationID turn) of
          None \<Rightarrow> False
        | Some q \<Rightarrow> (cq_currentCancel q \<noteq> None \<or> cq_items q \<noteq> []) \<and> \<not> cq_controlQueued q)"

definition queue_depth :: "scheduler \<Rightarrow> string \<Rightarrow> nat" where
  "queue_depth s conv = (case queue_of s conv of None \<Rightarrow> 0 | Some q \<Rightarrow> length (cq_items q))"

text \<open>The queue of the conversation, made when there is none.\<close>

definition ensure_queue :: "scheduler \<Rightarrow> string \<Rightarrow> scheduler \<times> nat" where
  "ensure_queue s conv =
     (case gm_get (sx_queues s) conv of
        Some q \<Rightarrow> (s, q)
      | None \<Rightarrow>
          (s\<lparr>sx_heap := sx_heap s @ [\<lparr> cq_items = [], cq_running = False, cq_controlQueued = False, cq_currentCancel = None \<rparr>],
             sx_queues := gm_set conv (length (sx_heap s)) (sx_queues s)\<rparr>, length (sx_heap s)))"

definition enqueue_turn :: "scheduled_turn \<Rightarrow> conv_queue \<Rightarrow> conv_queue" where
  "enqueue_turn turn q =
     (if tn_priority turn
      then q\<lparr>cq_currentCancel := cancel_context StoppedByUser (cq_currentCancel q), cq_items := turn # cq_items q,
             cq_controlQueued := True\<rparr>
      else q\<lparr>cq_items := cq_items q @ [turn]\<rparr>)"

text \<open>The last part of \<open>Submit\<close> under the lock: the turn is queued and a goroutine started if none runs.\<close>

definition admit :: "scheduler \<Rightarrow> scheduled_turn \<Rightarrow> scheduler" where
  "admit s turn =
     (let (s1, i) = ensure_queue s (tn_conversationID turn);
          q = enqueue_turn turn (sx_heap s1 ! i);
          s2 = s1\<lparr>sx_pending := sx_pending s1 + 1\<rparr>
      in if cq_running q then s2\<lparr>sx_heap := (sx_heap s2)[i := q]\<rparr>
         else s2\<lparr>sx_heap := (sx_heap s2)[i := q\<lparr>cq_running := True\<rparr>], sx_wait := sx_wait s2 + 1,
                 sx_actors := sx_actors s2 @ [\<lparr> ac_conv = tn_conversationID turn, ac_queue = i, ac_phase = WaitSlot \<rparr>]\<rparr>)"

definition Submit ::
  "trace_env \<Rightarrow> string option \<Rightarrow> string option \<Rightarrow> gotime \<Rightarrow> scheduler \<Rightarrow> scheduled_turn \<Rightarrow> scheduler \<times> (sched_error + bool)" where
  "Submit e random1 random2 now s turn0 =
     (if tn_source turn0 = [] \<or> tn_eventID turn0 = [] \<or> tn_conversationID turn0 = [] \<or> \<not> tn_run turn0
      then (s, Inl InvalidTurn)
      else
        (case (newRuntimeID ''trace'' random1, newRuntimeID ''turn'' random2) of
           (Some traceID, Some turnID) \<Rightarrow>
             (let turn = turn0\<lparr>tn_traceID := traceID, tn_turnID := turnID\<rparr>; conv = tn_conversationID turn;
                  bypass = priority_bypass s turn; depth = queue_depth s conv;
                  event = (\<lambda>ty status. trace_event0 now ty traceID turnID conv (tn_source turn) status) in
              if \<not> sx_accepting s then (s, Inl ErrSchedulerClosed)
              else if sx_maxPending s \<le> sx_pending s \<and> \<not> bypass
              then (appendTrace e s ((event TraceAdmissionRejected ''global_pending_limit'')\<lparr>te_Pending := sx_pending s\<rparr>), Inl ErrPendingLimit)
              else if sx_maxConversationPending s \<le> int depth \<and> \<not> bypass
              then (appendTrace e s ((event TraceAdmissionRejected ''conversation_pending_limit'')
                      \<lparr>te_QueueDepth := int depth, te_Pending := sx_pending s\<rparr>), Inl ErrConversationPending)
              else
                (case (if tn_retryable turn then (sx_trace s, Inr True)
                       else ClaimIngress e (sx_trace s) (tn_source turn) (tn_eventID turn) now) of
                   (store, Inl err) \<Rightarrow> (s\<lparr>sx_trace := store\<rparr>, Inl (ClaimFailed err))
                 | (store, Inr False) \<Rightarrow>
                     (appendTrace e (s\<lparr>sx_trace := store\<rparr>) (event TraceIngressDuplicate ''ignored''), Inr False)
                 | (store, Inr True) \<Rightarrow>
                     (let s1 = admit (s\<lparr>sx_trace := store\<rparr>) turn
                      in (appendTrace e s1 ((event TraceAdmissionAccepted ''admitted'')
                            \<lparr>te_QueueDepth := int (queue_depth s1 conv), te_Pending := sx_pending s1\<rparr>), Inr True))))
         | _ \<Rightarrow> (s, Inl RuntimeIDError)))"

section \<open>Cancellation and shutdown\<close>

definition Cancel :: "scheduler \<Rightarrow> string \<Rightarrow> cancel_cause option \<Rightarrow> scheduler \<times> bool" where
  "Cancel s conv cause0 =
     (let cause = (case cause0 of None \<Rightarrow> OtherCause ''context canceled'' | Some c \<Rightarrow> c) in
      case gm_get (sx_queues s) conv of
        None \<Rightarrow> (s, False)
      | Some i \<Rightarrow>
          if cq_currentCancel (sx_heap s ! i) = None then (s, False)
          else (s\<lparr>sx_heap := (sx_heap s)[i := (sx_heap s ! i)
                  \<lparr>cq_currentCancel := cancel_context cause (cq_currentCancel (sx_heap s ! i))\<rparr>]\<rparr>, True))"

record scheduler_stats =
  ss_Accepting :: bool
  ss_Pending :: int
  ss_Conversations :: nat
  ss_Active :: nat
  ss_MaxPending :: int
  ss_MaxConcurrent :: nat
  ss_MaxConversation :: int

definition Stats :: "scheduler \<Rightarrow> scheduler_stats" where
  "Stats s = \<lparr> ss_Accepting = sx_accepting s, ss_Pending = sx_pending s, ss_Conversations = length (sx_queues s),
     ss_Active = sx_slots s, ss_MaxPending = sx_maxPending s, ss_MaxConcurrent = sx_maxConcurrent s,
     ss_MaxConversation = sx_maxConversationPending s \<rparr>"

definition CloseAdmission :: "scheduler \<Rightarrow> scheduler" where
  "CloseAdmission s = s\<lparr>sx_accepting := False\<rparr>"

text \<open>
  \<open>Shutdown\<close> closes admission and waits for the goroutines; when its context ends first it cancels the
  lifecycle, which cancels the contexts of all running turns, and goes on waiting.
\<close>

definition cancelLifecycle :: "scheduler \<Rightarrow> scheduler" where
  "cancelLifecycle s =
     s\<lparr>sx_lifecycle := (case sx_lifecycle s of None \<Rightarrow> Some SchedulerShuttingDown | Some c \<Rightarrow> Some c),
       sx_heap := map (\<lambda>q. q\<lparr>cq_currentCancel := cancel_context SchedulerShuttingDown (cq_currentCancel q)\<rparr>) (sx_heap s)\<rparr>"

definition shutdown_done :: "scheduler \<Rightarrow> bool" where
  "shutdown_done s \<longleftrightarrow> sx_wait s = 0"

section \<open>The goroutine of a conversation\<close>

definition set_phase :: "scheduler \<Rightarrow> nat \<Rightarrow> phase \<Rightarrow> scheduler" where
  "set_phase s a p = s\<lparr>sx_actors := (sx_actors s)[a := (sx_actors s ! a)\<lparr>ac_phase := p\<rparr>]\<rparr>"

definition discardQueue :: "scheduler \<Rightarrow> string \<Rightarrow> nat \<Rightarrow> scheduler" where
  "discardQueue s conv i =
     s\<lparr>sx_pending := sx_pending s - int (length (cq_items (sx_heap s ! i))),
       sx_heap := (sx_heap s)[i := (sx_heap s ! i)\<lparr>cq_items := [], cq_running := False\<rparr>],
       sx_queues := gm_del conv (sx_queues s)\<rparr>"

text \<open>The result of \<open>nextTurn\<close>: the turn to run, or none, which ends the goroutine.\<close>

definition nextTurn :: "scheduler \<Rightarrow> string \<Rightarrow> nat \<Rightarrow> scheduler \<times> scheduled_turn option" where
  "nextTurn s conv i =
     (let q = sx_heap s ! i in
      if sx_lifecycle s \<noteq> None then (discardQueue s conv i, None)
      else
        (case cq_items q of
           [] \<Rightarrow> (s\<lparr>sx_heap := (sx_heap s)[i := q\<lparr>cq_running := False\<rparr>], sx_queues := gm_del conv (sx_queues s)\<rparr>, None)
         | turn # rest \<Rightarrow>
             (s\<lparr>sx_pending := sx_pending s - 1,
                sx_heap := (sx_heap s)[i := q\<lparr>cq_items := rest, cq_controlQueued := (if tn_priority turn then False else cq_controlQueued q),
                   cq_currentCancel := Some None\<rparr>]\<rparr>, Some turn)))"

text \<open>\<open>finish\<close> reads the cause of the turn's context and drops the cancel function.\<close>

definition finish_turn :: "scheduler \<Rightarrow> nat \<Rightarrow> scheduler \<times> cancel_cause option" where
  "finish_turn s i =
     (s\<lparr>sx_heap := (sx_heap s)[i := (sx_heap s ! i)\<lparr>cq_currentCancel := None\<rparr>]\<rparr>,
      (case cq_currentCancel (sx_heap s ! i) of Some cause \<Rightarrow> cause | None \<Rightarrow> None))"

definition turn_outcome :: "cancel_cause option \<Rightarrow> string \<times> string" where
  "turn_outcome cause =
     (case cause of
        Some StoppedByUser \<Rightarrow> (TraceTurnCancelled, ''user_cancelled'')
      | Some DeadlineExceeded \<Rightarrow> (TraceTurnTimedOut, ''deadline_exceeded'')
      | Some _ \<Rightarrow> (TraceTurnCancelled, ''runtime_cancelled'')
      | None \<Rightarrow> (TraceTurnCompleted, ''completed''))"

definition turn_event :: "scheduled_turn \<Rightarrow> string \<Rightarrow> gotime \<Rightarrow> string \<times> string \<Rightarrow> trace_event" where
  "turn_event turn conv now outcome =
     trace_event0 now (fst outcome) (tn_traceID turn) (tn_turnID turn) conv (tn_source turn) (snd outcome)"

text \<open>
  What a goroutine does next, by its phase: take a slot, look for a turn, finish the turn it ran, and
  release the slot and leave. \<open>aborted\<close> is the choice of the cancelled lifecycle while it waits for a slot.
\<close>

definition acquire :: "scheduler \<Rightarrow> nat \<Rightarrow> scheduler" where
  "acquire s a = (set_phase s a BetweenTurns)\<lparr>sx_slots := sx_slots s + 1\<rparr>"

definition aborted :: "scheduler \<Rightarrow> nat \<Rightarrow> scheduler" where
  "aborted s a = set_phase (discardQueue s (ac_conv (sx_actors s ! a)) (ac_queue (sx_actors s ! a))) a (Leaving False)"

definition take_turn :: "trace_env \<Rightarrow> gotime \<Rightarrow> scheduler \<Rightarrow> nat \<Rightarrow> scheduler" where
  "take_turn e now s a =
     (let conv = ac_conv (sx_actors s ! a) in
      case nextTurn s conv (ac_queue (sx_actors s ! a)) of
        (s1, None) \<Rightarrow> set_phase s1 a (Leaving True)
      | (s1, Some turn) \<Rightarrow> appendTrace e (set_phase s1 a (RunTurn turn)) (turn_event turn conv now (TraceTurnStarted, ''running'')))"

definition end_turn :: "trace_env \<Rightarrow> gotime \<Rightarrow> scheduler \<Rightarrow> nat \<Rightarrow> scheduled_turn \<Rightarrow> scheduler" where
  "end_turn e now s a turn =
     (case finish_turn s (ac_queue (sx_actors s ! a)) of
        (s1, cause) \<Rightarrow>
          appendTrace e (set_phase s1 a BetweenTurns) (turn_event turn (ac_conv (sx_actors s ! a)) now (turn_outcome cause)))"

definition leave :: "scheduler \<Rightarrow> nat \<Rightarrow> bool \<Rightarrow> scheduler" where
  "leave s a slot =
     (set_phase s a Gone)\<lparr>sx_slots := (if slot then sx_slots s - 1 else sx_slots s), sx_wait := sx_wait s - 1\<rparr>"

text \<open>The deadline of a running turn.\<close>

definition expire_turn :: "scheduler \<Rightarrow> nat \<Rightarrow> scheduler" where
  "expire_turn s a =
     (let i = ac_queue (sx_actors s ! a) in
      s\<lparr>sx_heap := (sx_heap s)[i := (sx_heap s ! i)\<lparr>cq_currentCancel := cancel_context DeadlineExceeded (cq_currentCancel (sx_heap s ! i))\<rparr>]\<rparr>)"

section \<open>Runs\<close>

text \<open>The steps, with what they do to turns as the label.\<close>

datatype turn_event_label = Admitted scheduled_turn | Started scheduled_turn | Discarded "scheduled_turn list" | Silent

inductive actor_step :: "scheduler \<Rightarrow> turn_event_label \<Rightarrow> scheduler \<Rightarrow> bool" where
  acquired: "a < length (sx_actors s) \<Longrightarrow> ac_phase (sx_actors s ! a) = WaitSlot \<Longrightarrow> sx_slots s < sx_maxConcurrent s \<Longrightarrow>
    actor_step s Silent (acquire s a)"
| gave_up: "a < length (sx_actors s) \<Longrightarrow> ac_phase (sx_actors s ! a) = WaitSlot \<Longrightarrow> sx_lifecycle s \<noteq> None \<Longrightarrow>
    actor_step s (Discarded (cq_items (sx_heap s ! ac_queue (sx_actors s ! a)))) (aborted s a)"
| took: "a < length (sx_actors s) \<Longrightarrow> ac_phase (sx_actors s ! a) = BetweenTurns \<Longrightarrow> sx_lifecycle s = None \<Longrightarrow>
    cq_items (sx_heap s ! ac_queue (sx_actors s ! a)) = turn # rest \<Longrightarrow> actor_step s (Started turn) (take_turn e now s a)"
| stopped: "a < length (sx_actors s) \<Longrightarrow> ac_phase (sx_actors s ! a) = BetweenTurns \<Longrightarrow>
    sx_lifecycle s \<noteq> None \<or> cq_items (sx_heap s ! ac_queue (sx_actors s ! a)) = [] \<Longrightarrow>
    actor_step s (Discarded (cq_items (sx_heap s ! ac_queue (sx_actors s ! a)))) (take_turn e now s a)"
| ended: "a < length (sx_actors s) \<Longrightarrow> ac_phase (sx_actors s ! a) = RunTurn turn \<Longrightarrow> actor_step s Silent (end_turn e now s a turn)"
| left: "a < length (sx_actors s) \<Longrightarrow> ac_phase (sx_actors s ! a) = Leaving slot \<Longrightarrow> actor_step s Silent (leave s a slot)"

inductive sched_step :: "scheduler \<Rightarrow> turn_event_label \<Rightarrow> scheduler \<Rightarrow> bool" where
  worked: "actor_step s l s' \<Longrightarrow> sched_step s l s'"
| admitted: "Submit e random1 random2 now s turn = (s', Inr True) \<Longrightarrow>
    newRuntimeID ''trace'' random1 = Some traceID \<Longrightarrow> newRuntimeID ''turn'' random2 = Some turnID \<Longrightarrow>
    sched_step s (Admitted (turn\<lparr>tn_traceID := traceID, tn_turnID := turnID\<rparr>)) s'"
| refused: "Submit e random1 random2 now s turn = (s', r) \<Longrightarrow> r \<noteq> Inr True \<Longrightarrow> sched_step s Silent s'"
| cancelled: "sched_step s Silent (fst (Cancel s conv cause))"
| expired: "a < length (sx_actors s) \<Longrightarrow> ac_phase (sx_actors s ! a) = RunTurn turn \<Longrightarrow> sched_step s Silent (expire_turn s a)"
| shut: "sched_step s Silent (CloseAdmission s)"
| hurried: "\<not> sx_accepting s \<Longrightarrow> sched_step s Silent (cancelLifecycle s)"

inductive labelled_run :: "('s \<Rightarrow> 'l \<Rightarrow> 's \<Rightarrow> bool) \<Rightarrow> 's \<Rightarrow> 'l list \<Rightarrow> 's \<Rightarrow> bool" for "step" s0 where
  run_start: "labelled_run step s0 [] s0"
| run_step: "labelled_run step s0 ls s \<Longrightarrow> step s l s' \<Longrightarrow> labelled_run step s0 (ls @ [l]) s'"

text \<open>
  A first-in first-out system: what is queued before a step and what comes in with it is what the step
  takes out and what is queued after it, in this order.
\<close>

locale fifo_system =
  fixes init :: 's and "step" :: "'s \<Rightarrow> 'l \<Rightarrow> 's \<Rightarrow> bool" and inv :: "'s \<Rightarrow> bool"
    and queued :: "'s \<Rightarrow> 'x list" and came :: "'l \<Rightarrow> 'x list" and went :: "'l \<Rightarrow> 'x list"
  assumes run_init: "inv init" "queued init = []"
    and run_inv: "inv s \<Longrightarrow> step s l t \<Longrightarrow> inv t"
    and conserved: "inv s \<Longrightarrow> step s l t \<Longrightarrow> queued s @ came l = went l @ queued t"
begin

lemma run_reaches: "labelled_run step init ls s \<Longrightarrow> inv s"
  by (induction rule: labelled_run.induct) (auto intro: run_init run_inv)

lemma in_order: "labelled_run step init ls s \<Longrightarrow> concat (map came ls) = concat (map went ls) @ queued s"
proof (induction rule: labelled_run.induct)
  case (run_step ls s l s')
  have "concat (map came (ls @ [l])) = concat (map went ls) @ queued s @ came l"
    using run_step.IH by simp
  also have "\<dots> = concat (map went (ls @ [l])) @ queued s'"
    using conserved [OF run_reaches [OF run_step.hyps(1)] run_step.hyps(2)] by simp
  finally show ?case .
qed (simp add: run_init)

end

section \<open>The invariant\<close>

definition live :: "sched_actor \<Rightarrow> bool" where
  "live a \<longleftrightarrow> (case ac_phase a of Leaving _ \<Rightarrow> False | Gone \<Rightarrow> False | _ \<Rightarrow> True)"

definition holds_slot :: "sched_actor \<Rightarrow> nat" where
  "holds_slot a = (case ac_phase a of BetweenTurns \<Rightarrow> 1 | RunTurn _ \<Rightarrow> 1 | Leaving True \<Rightarrow> 1 | _ \<Rightarrow> 0)"

definition unfinished :: "sched_actor \<Rightarrow> nat" where
  "unfinished a = (if ac_phase a = Gone then 0 else 1)"

definition runs :: "sched_actor \<Rightarrow> scheduled_turn option" where
  "runs a = (case ac_phase a of RunTurn t \<Rightarrow> Some t | _ \<Rightarrow> None)"

definition overtaken :: "conv_queue \<Rightarrow> int" where
  "overtaken q = (if cq_controlQueued q \<and> cq_items q \<noteq> [] then 1 else 0)"

text \<open>
  A queue and its goroutine: the context of a turn exists exactly while it runs, the turns belong to the
  conversation, a queue without a goroutine is empty, a queued control turn stands first, and the queue is
  at most one turn longer than the limit, and only by a control turn.
\<close>

definition cell_ok :: "int \<Rightarrow> conv_queue \<Rightarrow> sched_actor \<Rightarrow> bool" where
  "cell_ok limit q a \<longleftrightarrow>
     (live a \<longrightarrow> cq_running q)
   \<and> (cq_currentCancel q \<noteq> None \<longleftrightarrow> runs a \<noteq> None)
   \<and> (\<forall>t \<in> set (cq_items q) \<union> set_option (runs a). tn_conversationID t = ac_conv a)
   \<and> (\<not> live a \<longrightarrow> cq_items q = [])
   \<and> (live a \<and> cq_controlQueued q \<longrightarrow> cq_items q \<noteq> [] \<and> tn_priority (hd (cq_items q)))
   \<and> int (length (cq_items q)) \<le> max 0 limit + overtaken q"

definition sched_inv :: "scheduler \<Rightarrow> bool" where
  "sched_inv s \<longleftrightarrow>
     length (sx_actors s) = length (sx_heap s)
   \<and> (\<forall>i < length (sx_heap s). ac_queue (sx_actors s ! i) = i \<and> cell_ok (sx_maxConversationPending s) (sx_heap s ! i) (sx_actors s ! i))
   \<and> gm_wf (sx_queues s)
   \<and> (\<forall>c i. gm_get (sx_queues s) c = Some i \<longleftrightarrow> i < length (sx_heap s) \<and> live (sx_actors s ! i) \<and> ac_conv (sx_actors s ! i) = c)
   \<and> sx_pending s = (\<Sum>q\<leftarrow>sx_heap s. int (length (cq_items q)))
   \<and> sx_slots s = (\<Sum>a\<leftarrow>sx_actors s. holds_slot a)
   \<and> sx_wait s = (\<Sum>a\<leftarrow>sx_actors s. unfinished a)
   \<and> sx_slots s \<le> sx_maxConcurrent s
   \<and> sx_pending s \<le> max 0 (sx_maxPending s) + (\<Sum>q\<leftarrow>sx_heap s. overtaken q)"

lemma sched_invD:
  assumes "sched_inv s" and "i < length (sx_heap s)"
  shows "ac_queue (sx_actors s ! i) = i" and "cell_ok (sx_maxConversationPending s) (sx_heap s ! i) (sx_actors s ! i)"
    and "length (sx_actors s) = length (sx_heap s)"
    and "live (sx_actors s ! i) \<Longrightarrow> gm_get (sx_queues s) (ac_conv (sx_actors s ! i)) = Some i"
  using assms by (auto simp: sched_inv_def)

text \<open>So no two goroutines serve one conversation at the same time.\<close>

lemma live_unique:
  assumes "sched_inv s" and "i < length (sx_actors s)" and "j < length (sx_actors s)"
    and "live (sx_actors s ! i)" and "live (sx_actors s ! j)" and "ac_conv (sx_actors s ! i) = ac_conv (sx_actors s ! j)"
  shows "i = j"
proof -
  have "length (sx_actors s) = length (sx_heap s)" using assms(1) by (simp add: sched_inv_def)
  then have ij: "i < length (sx_heap s)" "j < length (sx_heap s)" using assms(2,3) by simp_all
  note sched_invD(4) [OF assms(1) ij(1) assms(4)] sched_invD(4) [OF assms(1) ij(2) assms(5)]
  then show ?thesis using assms(6) by (metis option.inject)
qed

lemma sum_list_put:
  fixes f :: "'a \<Rightarrow> 'b::ab_group_add"
  shows "i < length xs \<Longrightarrow> sum_list (map f (xs[i := x])) = sum_list (map f xs) - f (xs ! i) + f x"
  by (induction xs arbitrary: i) (auto split: nat.split simp: less_Suc_eq_0_disj algebra_simps)

lemma sum_list_put_nat:
  fixes f :: "'a \<Rightarrow> nat"
  shows "i < length xs \<Longrightarrow> sum_list (map f (xs[i := x])) + f (xs ! i) = sum_list (map f xs) + f x"
  by (induction xs arbitrary: i) (auto split: nat.split simp: less_Suc_eq_0_disj)

text \<open>Almost every step changes one queue and its goroutine and keeps the books.\<close>

definition cell_step :: "scheduler \<Rightarrow> nat \<Rightarrow> conv_queue \<Rightarrow> phase \<Rightarrow> scheduler \<Rightarrow> bool" where
  "cell_step s i q p s' \<longleftrightarrow>
     (let a = sx_actors s ! i; a' = a\<lparr>ac_phase := p\<rparr> in
      sx_heap s' = (sx_heap s)[i := q] \<and> sx_actors s' = (sx_actors s)[i := a']
    \<and> sx_queues s' = (if live a \<and> \<not> live a' then gm_del (ac_conv a) (sx_queues s) else sx_queues s)
    \<and> sx_maxPending s' = sx_maxPending s \<and> sx_maxConversationPending s' = sx_maxConversationPending s
    \<and> sx_maxConcurrent s' = sx_maxConcurrent s
    \<and> sx_pending s' = sx_pending s - int (length (cq_items (sx_heap s ! i))) + int (length (cq_items q))
    \<and> sx_slots s' + holds_slot a = sx_slots s + holds_slot a'
    \<and> sx_wait s' + unfinished a = sx_wait s + unfinished a')"

lemma cell_step_inv:
  assumes "sched_inv s" and "i < length (sx_heap s)" and "cell_step s i q p s'"
    and "cell_ok (sx_maxConversationPending s) q ((sx_actors s ! i)\<lparr>ac_phase := p\<rparr>)"
    and "live ((sx_actors s ! i)\<lparr>ac_phase := p\<rparr>) \<Longrightarrow> live (sx_actors s ! i)"
    and "sx_slots s' \<le> sx_maxConcurrent s"
    and "sx_pending s' \<le> max 0 (sx_maxPending s) + (\<Sum>q\<leftarrow>sx_heap s. overtaken q) - overtaken (sx_heap s ! i) + overtaken q"
  shows "sched_inv s'"
proof -
  let ?a = "sx_actors s ! i" let ?a' = "?a\<lparr>ac_phase := p\<rparr>"
  have st: "sx_heap s' = (sx_heap s)[i := q]" "sx_actors s' = (sx_actors s)[i := ?a']"
    "sx_queues s' = (if live ?a \<and> \<not> live ?a' then gm_del (ac_conv ?a) (sx_queues s) else sx_queues s)"
    "sx_maxPending s' = sx_maxPending s" "sx_maxConversationPending s' = sx_maxConversationPending s"
    "sx_maxConcurrent s' = sx_maxConcurrent s"
    "sx_pending s' = sx_pending s - int (length (cq_items (sx_heap s ! i))) + int (length (cq_items q))"
    "sx_slots s' + holds_slot ?a = sx_slots s + holds_slot ?a'"
    "sx_wait s' + unfinished ?a = sx_wait s + unfinished ?a'"
    using assms(3) by (simp_all add: cell_step_def Let_def)
  have len: "length (sx_actors s) = length (sx_heap s)" and ia: "i < length (sx_actors s)"
    using assms(1,2) by (simp_all add: sched_inv_def)
  have "\<And>c j. gm_get (sx_queues s') c = Some j \<longleftrightarrow> j < length (sx_heap s') \<and> live (sx_actors s' ! j) \<and> ac_conv (sx_actors s' ! j) = c"
    using assms(1,2,5) ia live_unique [OF assms(1) ia] by (auto simp: st sched_inv_def nth_list_update)
  moreover have "\<forall>j < length (sx_heap s'). ac_queue (sx_actors s' ! j) = j \<and> cell_ok (sx_maxConversationPending s') (sx_heap s' ! j) (sx_actors s' ! j)"
    using assms(1,2,4) ia by (auto simp: st sched_inv_def nth_list_update)
  moreover have "sx_slots s' = (\<Sum>a\<leftarrow>sx_actors s'. holds_slot a)"
    using sum_list_put_nat [OF ia, of holds_slot ?a'] assms(1) st(2,8) by (simp add: sched_inv_def)
  moreover have "sx_wait s' = (\<Sum>a\<leftarrow>sx_actors s'. unfinished a)"
    using sum_list_put_nat [OF ia, of unfinished ?a'] assms(1) st(2,9) by (simp add: sched_inv_def)
  ultimately show ?thesis
    using assms(1,6,7) st(1-7) by (simp add: sched_inv_def sum_list_put [OF assms(2)])
qed

lemma sched_inv_New: "sched_inv (NewConversationScheduler maxPending maxConversationPending maxConcurrent trace)"
  by (simp add: NewConversationScheduler_def sched_inv_def)

lemma sched_inv_trace [simp]: "sched_inv (s\<lparr>sx_trace := t\<rparr>) = sched_inv s"
  by (simp add: sched_inv_def)

lemma sched_inv_appendTrace [simp]: "sched_inv (appendTrace e s ev) = sched_inv s"
  by (simp add: appendTrace_def)

lemmas sched_books = cell_step_def Let_def set_phase_def appendTrace_def

lemmas phase_facts = cell_ok_def live_def holds_slot_def unfinished_def runs_def overtaken_def

lemma cell_okD:
  "cell_ok limit q a \<Longrightarrow> live a \<Longrightarrow> cq_controlQueued q \<Longrightarrow> cq_items q \<noteq> [] \<and> tn_priority (hd (cq_items q))"
  by (simp add: cell_ok_def)

lemma cancel_context_None [simp]: "cancel_context cause c = None \<longleftrightarrow> c = None"
  by (auto simp: cancel_context_def split: option.splits)

lemma actor_cell:
  assumes "sched_inv s" and "a < length (sx_actors s)"
  shows "a < length (sx_heap s)" and "ac_queue (sx_actors s ! a) = a"
    and "cell_ok (sx_maxConversationPending s) (sx_heap s ! a) (sx_actors s ! a)"
  using assms by (auto simp: sched_inv_def)

lemma pending_bounds:
  assumes "sched_inv s"
  shows "sx_slots s \<le> sx_maxConcurrent s"
    and "sx_pending s \<le> max 0 (sx_maxPending s) + (\<Sum>q\<leftarrow>sx_heap s. overtaken q)"
  using assms by (simp_all add: sched_inv_def)

text \<open>A step of a live goroutine that admits nothing: at most as many turns wait beyond the limit as before.\<close>

lemma actor_move_inv:
  assumes "sched_inv s" and "a < length (sx_actors s)" and "cell_step s a q p s'"
    and "cell_ok (sx_maxConversationPending s) (sx_heap s ! a) (sx_actors s ! a) \<Longrightarrow>
      cell_ok (sx_maxConversationPending s) q ((sx_actors s ! a)\<lparr>ac_phase := p\<rparr>)"
    and "live ((sx_actors s ! a)\<lparr>ac_phase := p\<rparr>) \<Longrightarrow> live (sx_actors s ! a)"
    and "sx_slots s' \<le> sx_maxConcurrent s"
    and "int (length (cq_items q)) - overtaken q \<le> int (length (cq_items (sx_heap s ! a))) - overtaken (sx_heap s ! a)"
  shows "sched_inv s'"
proof (rule cell_step_inv [OF assms(1) _ assms(3,4) _ assms(6)])
  show "sx_pending s' \<le> max 0 (sx_maxPending s) + (\<Sum>q\<leftarrow>sx_heap s. overtaken q) - overtaken (sx_heap s ! a) + overtaken q"
    using pending_bounds(2) [OF assms(1)] assms(3,7) by (simp add: cell_step_def Let_def)
qed (use assms(5) actor_cell [OF assms(1,2)] in simp_all)

text \<open>The steps of a goroutine as changes of its cell.\<close>

abbreviation emptied :: "conv_queue \<Rightarrow> conv_queue" where
  "emptied q \<equiv> q\<lparr>cq_items := [], cq_running := False\<rparr>"

abbreviation advanced :: "conv_queue \<Rightarrow> scheduled_turn \<Rightarrow> scheduled_turn list \<Rightarrow> conv_queue" where
  "advanced q turn rest \<equiv> q\<lparr>cq_items := rest, cq_controlQueued := (if tn_priority turn then False else cq_controlQueued q),
     cq_currentCancel := Some None\<rparr>"

lemma acquire_cell:
  "ac_phase (sx_actors s ! a) = WaitSlot \<Longrightarrow> cell_step s a (sx_heap s ! a) BetweenTurns (acquire s a)"
  by (simp add: acquire_def sched_books phase_facts)

lemma aborted_cell:
  "ac_phase (sx_actors s ! a) = WaitSlot \<Longrightarrow> ac_queue (sx_actors s ! a) = a \<Longrightarrow>
   cell_step s a (emptied (sx_heap s ! a)) (Leaving False) (aborted s a)"
  by (simp add: aborted_def discardQueue_def sched_books phase_facts)

lemma take_none_cell:
  "ac_phase (sx_actors s ! a) = BetweenTurns \<Longrightarrow> ac_queue (sx_actors s ! a) = a \<Longrightarrow>
   sx_lifecycle s \<noteq> None \<or> cq_items (sx_heap s ! a) = [] \<Longrightarrow>
   cell_step s a (emptied (sx_heap s ! a)) (Leaving True) (take_turn e now s a)"
  by (cases "sx_heap s ! a") (auto simp: take_turn_def nextTurn_def discardQueue_def sched_books phase_facts)

lemma take_turn_cell:
  "ac_phase (sx_actors s ! a) = BetweenTurns \<Longrightarrow> ac_queue (sx_actors s ! a) = a \<Longrightarrow> sx_lifecycle s = None \<Longrightarrow>
   cq_items (sx_heap s ! a) = turn # rest \<Longrightarrow>
   cell_step s a (advanced (sx_heap s ! a) turn rest) (RunTurn turn) (take_turn e now s a)"
  by (simp add: take_turn_def nextTurn_def sched_books phase_facts)

lemma end_turn_cell:
  "ac_phase (sx_actors s ! a) = RunTurn turn \<Longrightarrow> ac_queue (sx_actors s ! a) = a \<Longrightarrow>
   cell_step s a ((sx_heap s ! a)\<lparr>cq_currentCancel := None\<rparr>) BetweenTurns (end_turn e now s a turn)"
  by (simp add: end_turn_def finish_turn_def sched_books phase_facts)

lemma leave_cell:
  assumes "sched_inv s" and "a < length (sx_actors s)" and "ac_phase (sx_actors s ! a) = Leaving slot"
  shows "cell_step s a (sx_heap s ! a) Gone (leave s a slot)"
proof -
  have "sx_wait s \<ge> unfinished (sx_actors s ! a)" "sx_slots s \<ge> holds_slot (sx_actors s ! a)"
    using assms(1,2) member_le_sum_list [of _ "map unfinished (sx_actors s)"] member_le_sum_list [of _ "map holds_slot (sx_actors s)"]
    by (simp_all add: sched_inv_def)
  then show ?thesis
    using assms(3) by (cases slot) (simp_all add: leave_def sched_books live_def holds_slot_def unfinished_def)
qed

lemma acquire_inv:
  assumes "sched_inv s" and "a < length (sx_actors s)" and "ac_phase (sx_actors s ! a) = WaitSlot" and "sx_slots s < sx_maxConcurrent s"
  shows "sched_inv (acquire s a)"
  by (rule actor_move_inv [OF assms(1,2) acquire_cell [OF assms(3)]])
     (use assms(3,4) in \<open>simp_all add: acquire_def phase_facts\<close>)

lemma slots_kept:
  assumes "sched_inv s" and "cell_step s a q p s'"
    and "holds_slot ((sx_actors s ! a)\<lparr>ac_phase := p\<rparr>) \<le> holds_slot (sx_actors s ! a)"
  shows "sx_slots s' \<le> sx_maxConcurrent s"
proof -
  from assms(2) have "sx_slots s' + holds_slot (sx_actors s ! a) = sx_slots s + holds_slot ((sx_actors s ! a)\<lparr>ac_phase := p\<rparr>)"
    by (simp add: cell_step_def Let_def)
  then show ?thesis using pending_bounds(1) [OF assms(1)] assms(3) by simp
qed

lemma aborted_inv:
  assumes "sched_inv s" and "a < length (sx_actors s)" and "ac_phase (sx_actors s ! a) = WaitSlot"
  shows "sched_inv (aborted s a)"
proof -
  note c = aborted_cell [OF assms(3) actor_cell(2) [OF assms(1,2)]]
  show ?thesis
    by (rule actor_move_inv [OF assms(1,2) c _ _ slots_kept [OF assms(1) c]])
       (use assms(3) in \<open>auto simp: phase_facts Suc_le_eq\<close>)
qed

lemma take_turn_inv:
  assumes "sched_inv s" and "a < length (sx_actors s)" and "ac_phase (sx_actors s ! a) = BetweenTurns"
  shows "sched_inv (take_turn e now s a)"
proof (cases "sx_lifecycle s \<noteq> None \<or> cq_items (sx_heap s ! a) = []")
  case True
  note c = take_none_cell [OF assms(3) actor_cell(2) [OF assms(1,2)] True]
  show ?thesis
    by (rule actor_move_inv [OF assms(1,2) c _ _ slots_kept [OF assms(1) c]])
       (use assms(3) in \<open>auto simp: phase_facts Suc_le_eq\<close>)
next
  case False
  then obtain turn rest where it: "cq_items (sx_heap s ! a) = turn # rest" "sx_lifecycle s = None"
    by (cases "cq_items (sx_heap s ! a)") auto
  have "live (sx_actors s ! a)" using assms(3) by (simp add: live_def)
  with cell_okD [OF actor_cell(3) [OF assms(1,2)]] it
  have ctl: "cq_controlQueued (sx_heap s ! a) \<Longrightarrow> tn_priority turn" by auto
  note c = take_turn_cell [OF assms(3) actor_cell(2) [OF assms(1,2)] it(2,1)]
  show ?thesis
    by (rule actor_move_inv [OF assms(1,2) c _ _ slots_kept [OF assms(1) c]])
       (use assms(3) ctl it in \<open>auto simp: phase_facts\<close>)
qed

lemma end_turn_inv:
  assumes "sched_inv s" and "a < length (sx_actors s)" and "ac_phase (sx_actors s ! a) = RunTurn turn"
  shows "sched_inv (end_turn e now s a turn)"
proof -
  note c = end_turn_cell [OF assms(3) actor_cell(2) [OF assms(1,2)]]
  show ?thesis
    by (rule actor_move_inv [OF assms(1,2) c _ _ slots_kept [OF assms(1) c]]) (use assms(3) in \<open>auto simp: phase_facts\<close>)
qed

lemma leave_inv:
  assumes "sched_inv s" and "a < length (sx_actors s)" and "ac_phase (sx_actors s ! a) = Leaving slot"
  shows "sched_inv (leave s a slot)"
  by (rule actor_move_inv [OF assms(1,2) leave_cell [OF assms] _ _ slots_kept [OF assms(1) leave_cell [OF assms]]])
     (use assms(3) in \<open>auto simp: phase_facts\<close>)

lemma cancel_cell_inv:
  assumes "sched_inv s" and "a < length (sx_actors s)"
  shows "sched_inv (s\<lparr>sx_heap := (sx_heap s)[a := (sx_heap s ! a)\<lparr>cq_currentCancel := cancel_context cause (cq_currentCancel (sx_heap s ! a))\<rparr>]\<rparr>)"
proof (rule actor_move_inv [OF assms])
  let ?q = "(sx_heap s ! a)\<lparr>cq_currentCancel := cancel_context cause (cq_currentCancel (sx_heap s ! a))\<rparr>"
  show "cell_step s a ?q (ac_phase (sx_actors s ! a)) (s\<lparr>sx_heap := (sx_heap s)[a := ?q]\<rparr>)"
    by (simp add: sched_books)
qed (use pending_bounds(1) [OF assms(1)] in \<open>auto simp: cell_ok_def overtaken_def\<close>)

text \<open>Admission: into the queue of a live goroutine, or with a new queue and goroutine.\<close>

definition admissible :: "scheduler \<Rightarrow> scheduled_turn \<Rightarrow> bool" where
  "admissible s turn \<longleftrightarrow> priority_bypass s turn
     \<or> sx_pending s < sx_maxPending s \<and> int (queue_depth s (tn_conversationID turn)) < sx_maxConversationPending s"

lemma enqueue_turn_simps:
  "cq_items (enqueue_turn turn q) = (if tn_priority turn then turn # cq_items q else cq_items q @ [turn])"
  "cq_running (enqueue_turn turn q) = cq_running q"
  "cq_controlQueued (enqueue_turn turn q) = (tn_priority turn \<or> cq_controlQueued q)"
  "cq_currentCancel (enqueue_turn turn q) = None \<longleftrightarrow> cq_currentCancel q = None"
  by (simp_all add: enqueue_turn_def)

lemma admit_queued:
  assumes "sched_inv s" and "gm_get (sx_queues s) (tn_conversationID turn) = Some i"
  shows "admit s turn = s\<lparr>sx_pending := sx_pending s + 1, sx_heap := (sx_heap s)[i := enqueue_turn turn (sx_heap s ! i)]\<rparr>"
    and "i < length (sx_actors s)" and "live (sx_actors s ! i)" and "ac_conv (sx_actors s ! i) = tn_conversationID turn"
proof -
  show i: "i < length (sx_actors s)" and l: "live (sx_actors s ! i)" and "ac_conv (sx_actors s ! i) = tn_conversationID turn"
    using assms by (simp_all add: sched_inv_def)
  have "cq_running (sx_heap s ! i)" using actor_cell(3) [OF assms(1) i] l by (simp add: cell_ok_def)
  then show "admit s turn = s\<lparr>sx_pending := sx_pending s + 1, sx_heap := (sx_heap s)[i := enqueue_turn turn (sx_heap s ! i)]\<rparr>"
    using assms(2) by (simp add: admit_def ensure_queue_def Let_def enqueue_turn_simps)
qed

lemma admit_fresh:
  assumes "gm_get (sx_queues s) (tn_conversationID turn) = None"
  shows "admit s turn = s\<lparr>sx_pending := sx_pending s + 1, sx_wait := sx_wait s + 1,
     sx_heap := sx_heap s @ [\<lparr> cq_items = [turn], cq_running = True, cq_controlQueued = tn_priority turn, cq_currentCancel = None \<rparr>],
     sx_queues := gm_set (tn_conversationID turn) (length (sx_heap s)) (sx_queues s),
     sx_actors := sx_actors s @ [\<lparr> ac_conv = tn_conversationID turn, ac_queue = length (sx_heap s), ac_phase = WaitSlot \<rparr>]\<rparr>"
  using assms by (simp add: admit_def ensure_queue_def Let_def enqueue_turn_def cancel_context_def)

lemma admit_queued_inv:
  assumes "sched_inv s" and "gm_get (sx_queues s) (tn_conversationID turn) = Some i" and "admissible s turn"
  shows "sched_inv (admit s turn)"
proof -
  note q = admit_queued [OF assms(1,2)]
  note c = actor_cell [OF assms(1) q(2)]
  let ?q = "enqueue_turn turn (sx_heap s ! i)"
  have adm: "tn_priority turn \<and> \<not> cq_controlQueued (sx_heap s ! i)
      \<or> sx_pending s < sx_maxPending s \<and> int (length (cq_items (sx_heap s ! i))) < sx_maxConversationPending s"
    using assms(2,3) by (auto simp: admissible_def priority_bypass_def queue_depth_def queue_of_def)
  have ok: "cell_ok (sx_maxConversationPending s) ?q (sx_actors s ! i)"
    using c(3) q(3,4) adm by (auto simp: cell_ok_def enqueue_turn_simps overtaken_def split: if_splits)
  have pend: "sx_pending s + 1 \<le> max 0 (sx_maxPending s) + (\<Sum>q\<leftarrow>sx_heap s. overtaken q) - overtaken (sx_heap s ! i) + overtaken ?q"
  proof -
    have "0 \<le> (\<Sum>q\<leftarrow>sx_heap s. overtaken q)" by (rule sum_list_nonneg) (auto simp: overtaken_def)
    then show ?thesis using pending_bounds(2) [OF assms(1)] adm
      by (auto simp: overtaken_def enqueue_turn_simps)
  qed
  show ?thesis
  proof (rule cell_step_inv [OF assms(1) c(1)])
    show "cell_step s i ?q (ac_phase (sx_actors s ! i)) (admit s turn)"
      by (simp add: q(1) sched_books enqueue_turn_simps)
  qed (use ok pend q(3) pending_bounds(1) [OF assms(1)] in \<open>simp_all add: q(1)\<close>)
qed

lemma admit_fresh_inv:
  assumes "sched_inv s" and "gm_get (sx_queues s) (tn_conversationID turn) = None" and "admissible s turn"
  shows "sched_inv (admit s turn)"
proof -
  have adm: "sx_pending s < sx_maxPending s" "0 < sx_maxConversationPending s"
    using assms(2,3) by (auto simp: admissible_def priority_bypass_def queue_depth_def queue_of_def)
  have "0 \<le> (\<Sum>q\<leftarrow>sx_heap s. overtaken q)" by (rule sum_list_nonneg) (auto simp: overtaken_def)
  moreover have "\<And>i. i < length (sx_heap s) \<Longrightarrow> live (sx_actors s ! i) \<Longrightarrow> ac_conv (sx_actors s ! i) \<noteq> tn_conversationID turn"
    using sched_invD(4) [OF assms(1)] assms(2) by (metis option.distinct(1))
  ultimately show ?thesis using assms(1) adm
    by (auto simp: admit_fresh [OF assms(2)] sched_inv_def nth_append phase_facts less_Suc_eq)
qed

lemma Submit_outcome:
  "Submit e random1 random2 now s turn = (s', r) \<Longrightarrow> r \<noteq> Inr True \<Longrightarrow> s' = s\<lparr>sx_trace := sx_trace s'\<rparr>"
  by (auto simp: Submit_def Let_def appendTrace_def split: if_split_asm option.split_asm prod.split_asm sum.split_asm bool.split_asm)

lemma admit_trace [simp]: "admit (s\<lparr>sx_trace := t\<rparr>) turn = (admit s turn)\<lparr>sx_trace := t\<rparr>"
  by (cases "gm_get (sx_queues s) (tn_conversationID turn)") (simp_all add: admit_def ensure_queue_def Let_def)

lemma Submit_admitted:
  assumes "Submit e random1 random2 now s turn = (s', Inr True)"
    and "newRuntimeID ''trace'' random1 = Some traceID" and "newRuntimeID ''turn'' random2 = Some turnID"
  shows "\<exists>t. s' = (admit s (turn\<lparr>tn_traceID := traceID, tn_turnID := turnID\<rparr>))\<lparr>sx_trace := t\<rparr>"
    and "admissible s (turn\<lparr>tn_traceID := traceID, tn_turnID := turnID\<rparr>)" and "sx_accepting s"
  using assms
  by (auto simp: Submit_def Let_def appendTrace_def admissible_def not_le
      split: if_split_asm prod.split_asm sum.split_asm bool.split_asm)

lemma cancelLifecycle_inv: "sched_inv s \<Longrightarrow> sched_inv (cancelLifecycle s)"
  by (auto simp: cancelLifecycle_def sched_inv_def cell_ok_def overtaken_def comp_def)

lemma Cancel_inv: "sched_inv s \<Longrightarrow> sched_inv (fst (Cancel s conv cause))"
  by (auto simp: Cancel_def Let_def split: option.split intro!: cancel_cell_inv) (auto simp: sched_inv_def)

lemma admit_inv: "sched_inv s \<Longrightarrow> admissible s turn \<Longrightarrow> sched_inv (admit s turn)"
  by (cases "gm_get (sx_queues s) (tn_conversationID turn)") (auto intro: admit_fresh_inv admit_queued_inv)

lemma actor_step_inv: "actor_step s l s' \<Longrightarrow> sched_inv s \<Longrightarrow> sched_inv s'"
  by (induction rule: actor_step.induct) (auto intro: acquire_inv aborted_inv take_turn_inv end_turn_inv leave_inv)

lemma expire_turn_inv: "sched_inv s \<Longrightarrow> a < length (sx_actors s) \<Longrightarrow> sched_inv (expire_turn s a)"
  unfolding expire_turn_def Let_def using cancel_cell_inv [of s a] actor_cell(2) [of s a] by simp

lemma sched_step_inv: "sched_step s l s' \<Longrightarrow> sched_inv s \<Longrightarrow> sched_inv s'"
proof (induction rule: sched_step.induct)
  case (admitted e random1 random2 now s turn s' traceID turnID)
  then show ?case using Submit_admitted [OF admitted.hyps] by (auto intro: admit_inv)
next
  case (refused e random1 random2 now s turn s' r)
  then show ?case using Submit_outcome [OF refused.hyps] by (metis sched_inv_trace)
next
  case (shut s)
  then show ?case by (simp add: CloseAdmission_def sched_inv_def)
qed (auto intro: actor_step_inv Cancel_inv expire_turn_inv cancelLifecycle_inv)

section \<open>Order\<close>

definition turns_of :: "string \<Rightarrow> scheduled_turn list \<Rightarrow> scheduled_turn list" where
  "turns_of c ts = filter (\<lambda>t. tn_conversationID t = c \<and> \<not> tn_priority t) ts"

definition queued_turns :: "string \<Rightarrow> scheduler \<Rightarrow> scheduled_turn list" where
  "queued_turns c s = (case queue_of s c of None \<Rightarrow> [] | Some q \<Rightarrow> turns_of c (cq_items q))"

fun admitted_turns :: "string \<Rightarrow> turn_event_label \<Rightarrow> scheduled_turn list" where
  "admitted_turns c (Admitted t) = turns_of c [t]"
| "admitted_turns c _ = []"

fun dispatched_turns :: "string \<Rightarrow> turn_event_label \<Rightarrow> scheduled_turn list" where
  "dispatched_turns c (Started t) = turns_of c [t]"
| "dispatched_turns c (Discarded ts) = turns_of c ts"
| "dispatched_turns c _ = []"

lemma turns_of_simps [simp]:
  "turns_of c [] = []" "turns_of c (ts @ us) = turns_of c ts @ turns_of c us"
  "turns_of c (t # ts) = (if tn_conversationID t = c \<and> \<not> tn_priority t then t # turns_of c ts else turns_of c ts)"
  by (simp_all add: turns_of_def)

lemma turns_of_other: "\<forall>t \<in> set ts. tn_conversationID t = d \<Longrightarrow> d \<noteq> c \<Longrightarrow> turns_of c ts = []"
  by (induction ts) auto

text \<open>What is queued for a conversation depends on its map entry and the items there.\<close>

lemma queued_turns_cell:
  assumes "sched_inv s" and "i < length (sx_heap s)" and "live (sx_actors s ! i)" and "sx_heap s' = (sx_heap s)[i := q]"
    and "sx_queues s' = (if p then gm_del (ac_conv (sx_actors s ! i)) (sx_queues s) else sx_queues s)" and "p \<Longrightarrow> cq_items q = []"
  shows "queued_turns c s' = (if c = ac_conv (sx_actors s ! i) then turns_of c (cq_items q) else queued_turns c s)"
    and "queued_turns (ac_conv (sx_actors s ! i)) s = turns_of (ac_conv (sx_actors s ! i)) (cq_items (sx_heap s ! i))"
proof -
  note g = sched_invD(4) [OF assms(1-3)]
  show "queued_turns (ac_conv (sx_actors s ! i)) s = turns_of (ac_conv (sx_actors s ! i)) (cq_items (sx_heap s ! i))"
    by (simp add: queued_turns_def queue_of_def g)
  have "\<And>j. c \<noteq> ac_conv (sx_actors s ! i) \<Longrightarrow> gm_get (sx_queues s) c = Some j \<Longrightarrow> j \<noteq> i"
    using assms(1) by (auto simp: sched_inv_def)
  then show "queued_turns c s' = (if c = ac_conv (sx_actors s ! i) then turns_of c (cq_items q) else queued_turns c s)"
    using assms(2,4-6) g by (auto simp: queued_turns_def queue_of_def split: option.split)
qed

lemma queued_turns_move:
  assumes "sched_inv s" and "a < length (sx_actors s)" and "cell_step s a q p s'" and "live (sx_actors s ! a)"
    and "\<not> live ((sx_actors s ! a)\<lparr>ac_phase := p\<rparr>) \<Longrightarrow> cq_items q = []" and "cq_items (sx_heap s ! a) = ts @ cq_items q"
  shows "queued_turns c s = turns_of c ts @ queued_turns c s'"
proof -
  let ?dead = "\<not> live ((sx_actors s ! a)\<lparr>ac_phase := p\<rparr>)"
  have "sx_heap s' = (sx_heap s)[a := q]" "sx_queues s' = (if ?dead then gm_del (ac_conv (sx_actors s ! a)) (sx_queues s) else sx_queues s)"
    using assms(3,4) by (simp_all add: cell_step_def Let_def)
  note m = queued_turns_cell [OF assms(1) actor_cell(1) [OF assms(1,2)] assms(4) this assms(5)]
  have "\<forall>t \<in> set ts. tn_conversationID t = ac_conv (sx_actors s ! a)"
    using actor_cell(3) [OF assms(1,2)] assms(6) by (auto simp: cell_ok_def)
  then show ?thesis
    using m(1) [of c] m(2) assms(6) turns_of_other [of ts "ac_conv (sx_actors s ! a)" c] by auto
qed

lemma queued_turns_same:
  "sx_heap s' = sx_heap s \<Longrightarrow> sx_queues s' = sx_queues s \<Longrightarrow> queued_turns c s' = queued_turns c s"
  by (simp add: queued_turns_def queue_of_def)

lemma queued_turns_trace [simp]: "queued_turns c (s\<lparr>sx_trace := t\<rparr>) = queued_turns c s"
  by (rule queued_turns_same) simp_all

lemma actor_step_order:
  "actor_step s l s' \<Longrightarrow> sched_inv s \<Longrightarrow> queued_turns c s @ admitted_turns c l = dispatched_turns c l @ queued_turns c s'"
proof (induction rule: actor_step.induct)
  case (acquired a s)
  then show ?case by (auto intro!: queued_turns_same simp: acquire_def set_phase_def)
next
  case (gave_up a s)
  note q = actor_cell(2) [OF gave_up.prems gave_up.hyps(1)]
  show ?case
    using queued_turns_move [OF gave_up.prems gave_up.hyps(1) aborted_cell [OF gave_up.hyps(2) q]] gave_up.hyps(2) q
    by (simp add: live_def)
next
  case (took a s turn rest e now)
  note q = actor_cell(2) [OF took.prems took.hyps(1)]
  show ?case
    using queued_turns_move [OF took.prems took.hyps(1) take_turn_cell [OF took.hyps(2) q took.hyps(3)], of turn rest "[turn]" c] took.hyps q
    by (simp add: live_def)
next
  case (stopped a s e now)
  note q = actor_cell(2) [OF stopped.prems stopped.hyps(1)]
  show ?case
    using queued_turns_move [OF stopped.prems stopped.hyps(1) take_none_cell [OF stopped.hyps(2) q]] stopped.hyps q
    by (simp add: live_def)
next
  case (ended a s turn e now)
  note q = actor_cell(2) [OF ended.prems ended.hyps(1)]
  have "queued_turns c s = turns_of c [] @ queued_turns c (end_turn e now s a turn)"
    by (rule queued_turns_move [OF ended.prems ended.hyps(1) end_turn_cell [OF ended.hyps(2) q]])
       (use ended.hyps in \<open>simp_all add: live_def\<close>)
  then show ?case by simp
next
  case (left a s slot)
  then show ?case by (auto intro!: queued_turns_same simp: leave_def set_phase_def)
qed

lemma queued_turns_cancel:
  "sx_heap s' = (sx_heap s)[i := (sx_heap s ! i)\<lparr>cq_currentCancel := k\<rparr>] \<Longrightarrow> sx_queues s' = sx_queues s \<Longrightarrow>
   queued_turns c s' = queued_turns c s"
  by (cases "i < length (sx_heap s)") (auto simp: queued_turns_def queue_of_def nth_list_update not_less list_update_beyond split: option.split)

lemma admit_order:
  assumes "sched_inv s"
  shows "queued_turns c (admit s turn) = queued_turns c s @ turns_of c [turn]"
proof (cases "gm_get (sx_queues s) (tn_conversationID turn)")
  case None
  have "\<And>j. gm_get (sx_queues s) c = Some j \<Longrightarrow> j < length (sx_heap s)"
    using assms by (simp add: sched_inv_def)
  then show ?thesis
    using None by (auto simp: admit_fresh queued_turns_def queue_of_def nth_append split: option.split)
next
  case (Some i)
  note q = admit_queued [OF assms Some]
  have "queued_turns c (admit s turn) =
      (if c = ac_conv (sx_actors s ! i) then turns_of c (cq_items (enqueue_turn turn (sx_heap s ! i))) else queued_turns c s)"
    by (rule queued_turns_cell(1) [OF assms actor_cell(1) [OF assms q(2)] q(3), where p = False]) (simp_all add: q(1))
  then show ?thesis using Some by (auto simp: enqueue_turn_simps q(4) queued_turns_def queue_of_def)
qed

lemma sched_step_order:
  "sched_step s l s' \<Longrightarrow> sched_inv s \<Longrightarrow> queued_turns c s @ admitted_turns c l = dispatched_turns c l @ queued_turns c s'"
proof (induction rule: sched_step.induct)
  case (admitted e random1 random2 now s turn s' traceID turnID)
  then show ?case using Submit_admitted [OF admitted.hyps] admit_order by auto
next
  case (refused e random1 random2 now s turn s' r)
  then show ?case using Submit_outcome [OF refused.hyps] by (metis admitted_turns.simps(4) append.left_neutral append.right_neutral dispatched_turns.simps(4) queued_turns_trace)
next
  case (cancelled s conv cause)
  show ?case by (auto simp: Cancel_def Let_def split: option.split intro!: queued_turns_cancel [symmetric])
next
  case (expired a s turn)
  show ?case by (auto simp: expire_turn_def Let_def intro!: queued_turns_cancel [symmetric])
next
  case (shut s)
  show ?case by (auto simp: CloseAdmission_def intro!: queued_turns_same [symmetric])
next
  case (hurried s)
  have "\<And>j. gm_get (sx_queues s) c = Some j \<Longrightarrow> j < length (sx_heap s)"
    using hurried.prems by (simp add: sched_inv_def)
  then show ?case by (auto simp: cancelLifecycle_def queued_turns_def queue_of_def split: option.split)
qed (rule actor_step_order)

interpretation turns: fifo_system "NewConversationScheduler maxPending maxConversation maxConcurrent trace" sched_step sched_inv
    "queued_turns c" "admitted_turns c" "dispatched_turns c" for maxPending maxConversation maxConcurrent trace c
proof
  show "queued_turns c (NewConversationScheduler maxPending maxConversation maxConcurrent trace) = []"
    by (simp add: NewConversationScheduler_def queued_turns_def queue_of_def)
qed (auto intro: sched_inv_New sched_step_inv sched_step_order)

section \<open>Shutdown\<close>

text \<open>
  What is left to do: three steps of a goroutine that waits, and two for every queued turn. The steps of
  the goroutines use it up; once admission is closed nothing adds to it.
\<close>

definition work_left :: "conv_queue \<times> sched_actor \<Rightarrow> nat" where
  "work_left c = (case c of (q, a) \<Rightarrow>
     (case ac_phase a of WaitSlot \<Rightarrow> 3 | RunTurn _ \<Rightarrow> 3 | BetweenTurns \<Rightarrow> 2 | Leaving _ \<Rightarrow> 1 | Gone \<Rightarrow> 0) + 2 * length (cq_items q))"

definition work :: "scheduler \<Rightarrow> nat" where
  "work s = (\<Sum>c\<leftarrow>zip (sx_heap s) (sx_actors s). work_left c)"

lemma work_cell:
  assumes "sched_inv s" and "a < length (sx_actors s)" and "cell_step s a q p s'"
  shows "work s' + work_left (sx_heap s ! a, sx_actors s ! a) = work s + work_left (q, (sx_actors s ! a)\<lparr>ac_phase := p\<rparr>)"
proof -
  have "sx_heap s' = (sx_heap s)[a := q]" "sx_actors s' = (sx_actors s)[a := (sx_actors s ! a)\<lparr>ac_phase := p\<rparr>]"
    using assms(3) by (simp_all add: cell_step_def Let_def)
  then have "work s' = (\<Sum>c\<leftarrow>(zip (sx_heap s) (sx_actors s))[a := (q, (sx_actors s ! a)\<lparr>ac_phase := p\<rparr>)]. work_left c)"
    by (simp add: work_def update_zip)
  then show ?thesis
    using sum_list_put_nat [of a "zip (sx_heap s) (sx_actors s)" work_left "(q, (sx_actors s ! a)\<lparr>ac_phase := p\<rparr>)"]
      actor_cell(1) [OF assms(1,2)] assms(2)
    by (simp add: work_def)
qed

lemma actor_step_work: "actor_step s l s' \<Longrightarrow> sched_inv s \<Longrightarrow> work s' < work s"
proof (induction rule: actor_step.induct)
  case (acquired a s)
  show ?case using work_cell [OF acquired.prems acquired.hyps(1) acquire_cell] acquired.hyps by (simp add: work_left_def)
next
  case (gave_up a s)
  note q = actor_cell(2) [OF gave_up.prems gave_up.hyps(1)]
  show ?case using work_cell [OF gave_up.prems gave_up.hyps(1) aborted_cell [OF gave_up.hyps(2) q]] gave_up.hyps
    by (simp add: work_left_def)
next
  case (took a s turn rest e now)
  note q = actor_cell(2) [OF took.prems took.hyps(1)]
  then have "cq_items (sx_heap s ! a) = turn # rest" using took.hyps(4) by simp
  from work_cell [OF took.prems took.hyps(1) take_turn_cell [OF took.hyps(2) q took.hyps(3) this, where e = e and now = now]] this took.hyps(2)
  show ?case by (simp add: work_left_def)
next
  case (stopped a s e now)
  note q = actor_cell(2) [OF stopped.prems stopped.hyps(1)]
  show ?case using work_cell [OF stopped.prems stopped.hyps(1) take_none_cell [OF stopped.hyps(2) q, where e = e and now = now]] stopped.hyps q
    by (simp add: work_left_def)
next
  case (ended a s turn e now)
  note q = actor_cell(2) [OF ended.prems ended.hyps(1)]
  show ?case using work_cell [OF ended.prems ended.hyps(1) end_turn_cell [OF ended.hyps(2) q, where e = e and now = now]] ended.hyps
    by (simp add: work_left_def)
next
  case (left a s slot)
  show ?case using work_cell [OF left.prems left.hyps(1) leave_cell [OF left.prems left.hyps]] left.hyps
    by (simp add: work_left_def)
qed

lemma work_same:
  "sx_actors s' = sx_actors s \<Longrightarrow> map cq_items (sx_heap s') = map cq_items (sx_heap s) \<Longrightarrow> work s' = work s"
proof -
  assume a: "sx_actors s' = sx_actors s" and h: "map cq_items (sx_heap s') = map cq_items (sx_heap s)"
  have w: "work t = (\<Sum>c\<leftarrow>zip (map cq_items (sx_heap t)) (sx_actors t). work_left (\<lparr> cq_items = fst c, cq_running = True,
      cq_controlQueued = True, cq_currentCancel = None \<rparr>, snd c))" for t
    by (simp add: work_def zip_map1 comp_def work_left_def case_prod_beta)
  show ?thesis by (simp only: w a h)
qed

lemma map_items_cancel: "map cq_items (xs[i := (xs ! i)\<lparr>cq_currentCancel := k\<rparr>]) = map cq_items xs"
  by (cases "i < length xs") (simp_all add: map_update list_update_same_conv not_less list_update_beyond)

text \<open>A closed scheduler: what the goroutines do is counted, everything else may come between.\<close>

inductive closed_run :: "scheduler \<Rightarrow> nat \<Rightarrow> scheduler \<Rightarrow> bool" for s0 where
  closed_start: "closed_run s0 0 s0"
| closed_work: "closed_run s0 n s \<Longrightarrow> actor_step s l s' \<Longrightarrow> closed_run s0 (Suc n) s'"
| closed_other: "closed_run s0 n s \<Longrightarrow> sched_step s l s' \<Longrightarrow> closed_run s0 n s'"

lemma actor_step_fields:
  "actor_step s l s' \<Longrightarrow> sx_accepting s' = sx_accepting s \<and> sx_maxConcurrent s' = sx_maxConcurrent s"
  by (induction rule: actor_step.induct)
     (auto simp: acquire_def aborted_def discardQueue_def take_turn_def nextTurn_def end_turn_def finish_turn_def leave_def
        set_phase_def appendTrace_def Let_def split: list.split)

lemma closed_step:
  "sched_step s l s' \<Longrightarrow> sched_inv s \<Longrightarrow> \<not> sx_accepting s \<Longrightarrow>
   work s' \<le> work s \<and> \<not> sx_accepting s' \<and> sx_maxConcurrent s' = sx_maxConcurrent s"
proof (induction rule: sched_step.induct)
  case (worked s l s')
  then show ?case using actor_step_work [OF worked.hyps] actor_step_fields [OF worked.hyps] by simp
next
  case (admitted e random1 random2 now s turn s' traceID turnID)
  then show ?case using Submit_admitted(3) [OF admitted.hyps] by simp
next
  case (refused e random1 random2 now s turn s' r)
  obtain t where "s' = s\<lparr>sx_trace := t\<rparr>" by (rule that) (rule Submit_outcome [OF refused.hyps])
  moreover have "work (s\<lparr>sx_trace := t\<rparr>) = work s" by (simp add: work_def)
  ultimately show ?case using refused.prems by simp
next
  case (cancelled s conv cause)
  then show ?case
    by (auto simp: Cancel_def Let_def map_items_cancel split: option.split intro!: eq_refl work_same)
next
  case (expired a s turn)
  then show ?case by (auto simp: expire_turn_def Let_def map_items_cancel intro!: eq_refl work_same)
next
  case (shut s)
  then show ?case by (auto simp: CloseAdmission_def intro!: eq_refl work_same)
next
  case (hurried s)
  then show ?case by (auto simp: cancelLifecycle_def intro!: eq_refl work_same)
qed

lemma closed_run_bound:
  assumes "closed_run s n s'" and "sched_inv s" and "\<not> sx_accepting s"
  shows "n + work s' \<le> work s" and "sched_inv s'" and "\<not> sx_accepting s'" and "sx_maxConcurrent s' = sx_maxConcurrent s"
proof -
  have "n + work s' \<le> work s \<and> sched_inv s' \<and> \<not> sx_accepting s' \<and> sx_maxConcurrent s' = sx_maxConcurrent s"
    using assms
  proof (induction rule: closed_run.induct)
    case (closed_work n s1 l s2)
    then show ?case using actor_step_work [OF closed_work.hyps(2)] actor_step_inv [OF closed_work.hyps(2)]
        actor_step_fields [OF closed_work.hyps(2)] by force
  next
    case (closed_other n s1 l s2)
    then show ?case using closed_step [OF closed_other.hyps(2)] sched_step_inv [OF closed_other.hyps(2)] by force
  qed simp
  then show "n + work s' \<le> work s" and "sched_inv s'" and "\<not> sx_accepting s'" and "sx_maxConcurrent s' = sx_maxConcurrent s"
    by simp_all
qed

text \<open>A goroutine that has not returned can move, or waits for a slot that another one holds, which can.\<close>

lemma not_stuck_cell:
  assumes "a < length (sx_actors s)" and "ac_phase (sx_actors s ! a) \<noteq> Gone"
    and "ac_phase (sx_actors s ! a) = WaitSlot \<Longrightarrow> sx_slots s < sx_maxConcurrent s"
  shows "\<exists>l s'. actor_step s l s'"
proof (cases "ac_phase (sx_actors s ! a)")
  case WaitSlot
  then show ?thesis using assms(1,3) actor_step.acquired by blast
next
  case BetweenTurns
  then show ?thesis using assms(1) actor_step.took [of a s] actor_step.stopped [of a s]
    by (cases "sx_lifecycle s \<noteq> None \<or> cq_items (sx_heap s ! ac_queue (sx_actors s ! a)) = []")
       (auto simp: neq_Nil_conv, blast+)
next
  case (RunTurn t)
  then show ?thesis using assms(1) actor_step.ended by blast
next
  case (Leaving slot)
  then show ?thesis using assms(1) actor_step.left by blast
qed (use assms(2) in simp)

lemma holder_exists: "0 < (\<Sum>a\<leftarrow>as. holds_slot a) \<Longrightarrow> \<exists>i < length as. holds_slot (as ! i) > 0"
proof -
  assume "0 < (\<Sum>a\<leftarrow>as. holds_slot a)"
  then have "\<exists>a \<in> set as. holds_slot a > 0" by (induction as) auto
  then show ?thesis by (metis in_set_conv_nth)
qed

lemma not_stuck:
  assumes "sched_inv s" and "0 < sx_maxConcurrent s" and "\<forall>l s'. \<not> actor_step s l s'"
  shows "\<forall>a < length (sx_actors s). ac_phase (sx_actors s ! a) = Gone"
proof (rule ccontr)
  assume "\<not> ?thesis"
  then obtain a where a: "a < length (sx_actors s)" "ac_phase (sx_actors s ! a) \<noteq> Gone" by blast
  with not_stuck_cell [of a s] assms(3) have full: "\<not> sx_slots s < sx_maxConcurrent s" by blast
  then obtain b where b: "b < length (sx_actors s)" "holds_slot (sx_actors s ! b) > 0"
    using assms(1,2) holder_exists [of "sx_actors s"] by (auto simp: sched_inv_def)
  then have "ac_phase (sx_actors s ! b) \<noteq> Gone \<and> ac_phase (sx_actors s ! b) \<noteq> WaitSlot"
    by (auto simp: holds_slot_def)
  with not_stuck_cell [of b s] b(1) assms(3) show False by blast
qed

lemma drained:
  assumes "sched_inv s" and "0 < sx_maxConcurrent s" and "\<forall>l s'. \<not> actor_step s l s'"
  shows "shutdown_done s \<and> sx_queues s = [] \<and> sx_pending s = 0 \<and> sx_slots s = 0"
proof -
  have len: "length (sx_actors s) = length (sx_heap s)" using assms(1) by (simp add: sched_inv_def)
  have gone: "\<And>i. i < length (sx_heap s) \<Longrightarrow> ac_phase (sx_actors s ! i) = Gone" using not_stuck [OF assms] len by simp
  then have dead: "\<And>i. i < length (sx_heap s) \<Longrightarrow> \<not> live (sx_actors s ! i)" by (simp add: live_def)
  have "\<And>c i. gm_get (sx_queues s) c \<noteq> Some i" using assms(1) dead by (auto simp: sched_inv_def)
  then have "sx_queues s = []" by (cases "sx_queues s") (auto, metis)
  moreover have "\<forall>a \<in> set (sx_actors s). ac_phase a = Gone" using gone len by (metis in_set_conv_nth)
  moreover have "\<forall>q \<in> set (sx_heap s). cq_items q = []"
    using assms(1) dead by (auto simp: sched_inv_def cell_ok_def in_set_conv_nth)
  ultimately show ?thesis using assms(1)
    by (simp add: sched_inv_def shutdown_done_def unfinished_def holds_slot_def sum_list_eq_0_iff cong: map_cong)
qed

end
