(* ===== verification/Client_Perf.thy ===== *)
theory Client_Perf
  imports Prelude Go_Float Dynamic_Capabilities
begin

text \<open>
  The collector of client performance reports (\<open>clientperf/collector.go\<close>): validation of reports, a ring
  buffer of the last samples, a fixed-window rate limit per address, and the summary an administrator
  sees. The lemmas show that the ring holds exactly the last accepted samples, that the rate limit and its
  table are bounded, and what the percentiles and percentages say about the samples.
\<close>

section \<open>State\<close>

definition defaultCapacity :: int where "defaultCapacity = 500"
definition maxBodyBytes :: nat where "maxBodyBytes = 16 * 1024"
definition coldTargetMS :: int where "coldTargetMS = 8000"
definition warmTargetMS :: int where "warmTargetMS = 2000"
definition rateWindow :: int where "rateWindow = 60 * second"
definition maxReportsPerIP :: int where "maxReportsPerIP = 60"
definition maxRateClients :: nat where "maxRateClients = 4096"

record perf_report =
  pr_Version :: string
  pr_LoadKind :: string
  pr_NavigationType :: string
  pr_InteractiveMS :: int
  pr_FirstContentfulPaintMS :: int
  pr_TransferBytes :: int
  pr_DecodedBytes :: int
  pr_CacheHits :: int
  pr_ResourceCount :: int
  pr_ConnectionType :: string

record perf_sample = perf_report +
  pr_ReceivedAt :: gotime

record perf_summary =
  sm_Samples :: nat
  sm_TargetMS :: int
  sm_P50InteractiveMS :: int
  sm_P95InteractiveMS :: int
  sm_AverageFCPMS :: int
  sm_AverageTransferBytes :: int
  sm_WithinTargetPercent :: rat
  sm_ResourceCacheHitPercent :: rat

record perf_snapshot =
  sn_TotalSamples :: int
  sn_RetainedSamples :: nat
  sn_Cold :: perf_summary
  sn_Warm :: perf_summary
  sn_LastSampleAt :: gotime

record rate_state =
  rt_started :: gotime
  rt_count :: int

record collector =
  co_samples :: "perf_sample list"
  co_capacity :: nat
  co_next :: nat
  co_total :: int
  co_rates :: "(string, rate_state) gomap"
  co_rateSalt :: string

text \<open>
  What the request and the libraries provide: lower-casing, the salted digest of an address, the parsers of
  addresses, and how the decoder reads the body. \<open>pv_body\<close> gives the members of the object in the order of
  the text, with their values classified as the decoder does, and whether only space follows.
\<close>

datatype perf_value = PStr string | PInt int | PNull | POther

datatype perf_body = PerfBad | PerfObject "(string \<times> perf_value) list" bool | PerfNull bool

record perf_env =
  pv_ToLower :: "string \<Rightarrow> string"
  pv_digest :: "string \<Rightarrow> string \<Rightarrow> string"
  pv_ParseIP :: "string \<Rightarrow> bool"
  pv_SplitHostPort :: "string \<Rightarrow> string option"
  pv_body :: "string \<Rightarrow> perf_body"
  pv_now :: gotime

record perf_request =
  rq_Method :: string
  rq_SecFetchSite :: string
  rq_XRealIP :: string
  rq_RemoteAddr :: string
  rq_Body :: string

definition New_collector :: "int \<Rightarrow> string \<Rightarrow> collector" where
  "New_collector capacity salt =
     \<lparr> co_samples = [], co_capacity = nat (if capacity \<le> 0 then defaultCapacity else capacity), co_next = 0,
       co_total = 0, co_rates = [], co_rateSalt = salt \<rparr>"

section \<open>Reports\<close>

definition normalizeReport :: "perf_env \<Rightarrow> perf_report \<Rightarrow> perf_report res" where
  "normalizeReport e r0 =
     (let version = TrimSpace (pr_Version r0);
          r = r0\<lparr>pr_Version := (if version = [] then ''unknown'' else version),
                 pr_LoadKind := pv_ToLower e (TrimSpace (pr_LoadKind r0)),
                 pr_NavigationType := pv_ToLower e (TrimSpace (pr_NavigationType r0)),
                 pr_ConnectionType := pv_ToLower e (TrimSpace (pr_ConnectionType r0))\<rparr> in
      if 64 < length (pr_Version r) \<or> 24 < length (pr_NavigationType r) \<or> 24 < length (pr_ConnectionType r)
      then Inl ''performance metadata is too long''
      else if pr_LoadKind r \<noteq> ''cold'' \<and> pr_LoadKind r \<noteq> ''warm'' then Inl ''load_kind must be cold or warm''
      else if pr_InteractiveMS r \<le> 0 \<or> 10 * 60 * 1000 < pr_InteractiveMS r then Inl ''interactive_ms is out of range''
      else if pr_FirstContentfulPaintMS r < 0 \<or> 10 * 60 * 1000 < pr_FirstContentfulPaintMS r
      then Inl ''first_contentful_paint_ms is out of range''
      else if pr_TransferBytes r < 0 \<or> 2 * 1024 * 1024 * 1024 < pr_TransferBytes r
              \<or> pr_DecodedBytes r < 0 \<or> 2 * 1024 * 1024 * 1024 < pr_DecodedBytes r
      then Inl ''resource bytes are out of range''
      else if pr_ResourceCount r < 0 \<or> 10000 < pr_ResourceCount r \<or> pr_CacheHits r < 0 \<or> pr_ResourceCount r < pr_CacheHits r
      then Inl ''resource counts are out of range''
      else Inr r)"

definition keep_sample :: "perf_sample \<Rightarrow> collector \<Rightarrow> collector" where
  "keep_sample x c =
     (let c1 = c\<lparr>co_total := wrap64 (co_total c + 1)\<rparr> in
      if length (co_samples c1) < co_capacity c1 then c1\<lparr>co_samples := co_samples c1 @ [x]\<rparr>
      else c1\<lparr>co_samples := (co_samples c1)[co_next c1 := x], co_next := (co_next c1 + 1) mod co_capacity c1\<rparr>)"

definition sample_of :: "perf_report \<Rightarrow> gotime \<Rightarrow> perf_sample" where
  "sample_of r at0 = \<lparr> pr_Version = pr_Version r, pr_LoadKind = pr_LoadKind r, pr_NavigationType = pr_NavigationType r,
     pr_InteractiveMS = pr_InteractiveMS r, pr_FirstContentfulPaintMS = pr_FirstContentfulPaintMS r,
     pr_TransferBytes = pr_TransferBytes r, pr_DecodedBytes = pr_DecodedBytes r, pr_CacheHits = pr_CacheHits r,
     pr_ResourceCount = pr_ResourceCount r, pr_ConnectionType = pr_ConnectionType r, pr_ReceivedAt = at0 \<rparr>"

definition Record_report :: "perf_env \<Rightarrow> collector \<Rightarrow> perf_report \<Rightarrow> gotime \<Rightarrow> collector \<times> string option" where
  "Record_report e c report receivedAt =
     (case normalizeReport e report of
        Inl err \<Rightarrow> (c, Some err)
      | Inr r \<Rightarrow> (keep_sample (sample_of r (if receivedAt = zero_time then pv_now e else receivedAt)) c, None))"

section \<open>Summaries\<close>

definition percentile :: "int list \<Rightarrow> rat \<Rightarrow> int" where
  "percentile values p =
     (if values = [] then 0
      else
        (let index = \<lceil>float64 (of_nat (length values) * float64 p)\<rceil> - 1;
             index1 = (if index < 0 then 0 else index);
             index2 = (if int (length values) \<le> index1 then int (length values) - 1 else index1)
         in values ! nat index2))"

text \<open>\<open>math.Round\<close> rounds half away from zero.\<close>

definition math_Round :: "rat \<Rightarrow> rat" where
  "math_Round x = of_int (if 0 \<le> x then \<lfloor>x + 1 / 2\<rfloor> else - \<lfloor>- x + 1 / 2\<rfloor>)"

definition roundPercent :: "rat \<Rightarrow> rat" where
  "roundPercent value = float64 (math_Round (float64 (value * 10)) / 10)"

definition percent_of :: "int \<Rightarrow> int \<Rightarrow> rat" where
  "percent_of part whole = roundPercent (float64 (float64 (float64 (of_int part) / float64 (of_int whole)) * 100))"

definition total64 :: "(perf_sample \<Rightarrow> int) \<Rightarrow> perf_sample list \<Rightarrow> int" where
  "total64 f samples = foldl (\<lambda>acc x. wrap64 (acc + f x)) 0 samples"

definition summarize :: "perf_sample list \<Rightarrow> int \<Rightarrow> perf_summary" where
  "summarize samples target =
     (let result = \<lparr> sm_Samples = length samples, sm_TargetMS = target, sm_P50InteractiveMS = 0, sm_P95InteractiveMS = 0,
            sm_AverageFCPMS = 0, sm_AverageTransferBytes = 0, sm_WithinTargetPercent = 0, sm_ResourceCacheHitPercent = 0 \<rparr> in
      if samples = [] then result
      else
        (let interactive = sort (map pr_InteractiveMS samples); n = int (length samples);
             fcpTotal = total64 pr_FirstContentfulPaintMS samples; transferTotal = total64 pr_TransferBytes samples;
             hits = total64 pr_CacheHits samples; resources = total64 pr_ResourceCount samples;
             inTarget = total64 (\<lambda>x. if pr_InteractiveMS x \<le> target then 1 else 0) samples
         in result\<lparr>sm_P50InteractiveMS := percentile interactive (1 / 2), sm_P95InteractiveMS := percentile interactive (95 / 100),
                   sm_AverageFCPMS := trunc_rat (of_int fcpTotal / of_int n),
                   sm_AverageTransferBytes := trunc_rat (of_int transferTotal / of_int n),
                   sm_WithinTargetPercent := percent_of inTarget n,
                   sm_ResourceCacheHitPercent := (if 0 < resources then percent_of hits resources else 0)\<rparr>))"

definition Snapshot :: "collector \<Rightarrow> perf_snapshot" where
  "Snapshot c =
     \<lparr> sn_TotalSamples = co_total c, sn_RetainedSamples = length (co_samples c),
       sn_Cold = summarize (filter (\<lambda>x. pr_LoadKind x \<noteq> ''warm'') (co_samples c)) coldTargetMS,
       sn_Warm = summarize (filter (\<lambda>x. pr_LoadKind x = ''warm'') (co_samples c)) warmTargetMS,
       sn_LastSampleAt = foldl (\<lambda>last x. if last < pr_ReceivedAt x then pr_ReceivedAt x else last) zero_time (co_samples c) \<rparr>"

section \<open>Requests\<close>

definition rateKey :: "perf_env \<Rightarrow> collector \<Rightarrow> string \<Rightarrow> string" where
  "rateKey e c ip = pv_digest e (co_rateSalt c) ip"

definition allow_report :: "perf_env \<Rightarrow> collector \<Rightarrow> string \<Rightarrow> gotime \<Rightarrow> collector \<times> bool" where
  "allow_report e c ip now =
     (let rates = (if maxRateClients \<le> length (co_rates c)
                   then filter (\<lambda>(_, v). \<not> rateWindow \<le> now - rt_started v) (co_rates c) else co_rates c);
          key = rateKey e c ip; c1 = c\<lparr>co_rates := rates\<rparr> in
      if gm_get rates key = None \<and> maxRateClients \<le> length rates then (c1, False)
      else
        (let state = (case gm_get rates key of Some v \<Rightarrow> v | None \<Rightarrow> \<lparr> rt_started = zero_time, rt_count = 0 \<rparr>);
             state1 = (if rt_started state = zero_time \<or> rateWindow \<le> now - rt_started state
                       then \<lparr> rt_started = now, rt_count = 0 \<rparr> else state);
             state2 = state1\<lparr>rt_count := wrap64 (rt_count state1 + 1)\<rparr>
         in (c1\<lparr>co_rates := gm_set key state2 rates\<rparr>, rt_count state2 \<le> maxReportsPerIP)))"

definition clientIP :: "perf_env \<Rightarrow> perf_request \<Rightarrow> string" where
  "clientIP e rq =
     (let value = TrimSpace (rq_XRealIP rq) in
      if pv_ParseIP e value then value
      else (case pv_SplitHostPort e (rq_RemoteAddr rq) of Some host \<Rightarrow> host | None \<Rightarrow> rq_RemoteAddr rq))"

text \<open>
  Decoding into a \<open>Report\<close> with \<open>DisallowUnknownFields\<close>: field names match up to case, \<open>null\<close> leaves a field as
  it is, another type or an unknown key is an error. A body over the limit fails in the decoder or when the
  end of the text is checked.
\<close>

definition set_string :: "((string \<Rightarrow> string) \<Rightarrow> perf_report \<Rightarrow> perf_report) \<Rightarrow> perf_value \<Rightarrow> perf_report \<Rightarrow> perf_report option" where
  "set_string upd v r = (case v of PStr x \<Rightarrow> Some (upd (\<lambda>_. x) r) | PNull \<Rightarrow> Some r | _ \<Rightarrow> None)"

definition set_int :: "((int \<Rightarrow> int) \<Rightarrow> perf_report \<Rightarrow> perf_report) \<Rightarrow> perf_value \<Rightarrow> perf_report \<Rightarrow> perf_report option" where
  "set_int upd v r = (case v of PInt x \<Rightarrow> Some (upd (\<lambda>_. x) r) | PNull \<Rightarrow> Some r | _ \<Rightarrow> None)"

definition report_fields :: "(string \<times> (perf_value \<Rightarrow> perf_report \<Rightarrow> perf_report option)) list" where
  "report_fields =
     [(''version'', set_string pr_Version_update), (''load_kind'', set_string pr_LoadKind_update),
      (''navigation_type'', set_string pr_NavigationType_update), (''interactive_ms'', set_int pr_InteractiveMS_update),
      (''first_contentful_paint_ms'', set_int pr_FirstContentfulPaintMS_update), (''transfer_bytes'', set_int pr_TransferBytes_update),
      (''decoded_bytes'', set_int pr_DecodedBytes_update), (''cache_hits'', set_int pr_CacheHits_update),
      (''resource_count'', set_int pr_ResourceCount_update), (''connection_type'', set_string pr_ConnectionType_update)]"

fun decode_members :: "(string \<times> perf_value) list \<Rightarrow> perf_report \<Rightarrow> perf_report option" where
  "decode_members [] r = Some r"
| "decode_members ((k, v) # kvs) r =
     (case List.find (\<lambda>(name, _). fold_key name = fold_key k) report_fields of
        None \<Rightarrow> None
      | Some (_, set_field) \<Rightarrow> (case set_field v r of None \<Rightarrow> None | Some r1 \<Rightarrow> decode_members kvs r1))"

definition empty_report :: perf_report where
  "empty_report = \<lparr> pr_Version = [], pr_LoadKind = [], pr_NavigationType = [], pr_InteractiveMS = 0, pr_FirstContentfulPaintMS = 0,
     pr_TransferBytes = 0, pr_DecodedBytes = 0, pr_CacheHits = 0, pr_ResourceCount = 0, pr_ConnectionType = [] \<rparr>"

definition read_report :: "perf_env \<Rightarrow> string \<Rightarrow> perf_report option" where
  "read_report e body =
     (if maxBodyBytes < length body then None
      else
        (case pv_body e body of
           PerfBad \<Rightarrow> None
         | PerfObject kvs at_end \<Rightarrow> if at_end then decode_members kvs empty_report else None
         | PerfNull at_end \<Rightarrow> if at_end then Some empty_report else None))"

definition ServeHTTP_report :: "perf_env \<Rightarrow> collector \<Rightarrow> perf_request \<Rightarrow> collector \<times> nat" where
  "ServeHTTP_report e c rq =
     (if rq_Method rq \<noteq> ''POST'' then (c, 405)
      else if pv_ToLower e (TrimSpace (rq_SecFetchSite rq)) = ''cross-site'' then (c, 403)
      else
        (case allow_report e c (clientIP e rq) (pv_now e) of
           (c1, False) \<Rightarrow> (c1, 429)
         | (c1, True) \<Rightarrow>
             (case read_report e (rq_Body rq) of
                None \<Rightarrow> (c1, 400)
              | Some r \<Rightarrow>
                  (case Record_report e c1 r (pv_now e) of (c2, Some _) \<Rightarrow> (c2, 400) | (c2, None) \<Rightarrow> (c2, 204)))))"

section \<open>The ring\<close>

text \<open>A window over the last entries: pushing appends and drops the oldest beyond the capacity.\<close>

definition last_n :: "nat \<Rightarrow> 'a list \<Rightarrow> 'a list" where
  "last_n n xs = drop (length xs - n) xs"

lemma last_n_append: "last_n n (last_n n xs @ ys) = last_n n (xs @ ys)"
proof (cases "length xs \<le> n")
  case False
  then have "length xs + length ys - n = length ys + (length xs - n)" by simp
  then show ?thesis using False by (simp add: last_n_def add.commute)
qed (simp add: last_n_def)

lemma last_n_all: "length xs \<le> n \<Longrightarrow> last_n n xs = xs"
  by (simp add: last_n_def)

locale sliding_window =
  fixes push :: "'x \<Rightarrow> 's \<Rightarrow> 's" and contents :: "'s \<Rightarrow> 'x list" and inv :: "'s \<Rightarrow> bool" and cap :: nat
  assumes inv_push: "inv s \<Longrightarrow> inv (push x s)"
    and bounded: "inv s \<Longrightarrow> length (contents s) \<le> cap"
    and contents_push: "inv s \<Longrightarrow> contents (push x s) = last_n cap (contents s @ [x])"
begin

lemma inv_pushes: "inv s \<Longrightarrow> inv (foldl (\<lambda>s x. push x s) s xs)"
  by (induction xs arbitrary: s) (auto intro: inv_push)

lemma contents_pushes: "inv s \<Longrightarrow> contents (foldl (\<lambda>s x. push x s) s xs) = last_n cap (contents s @ xs)"
proof (induction xs arbitrary: s)
  case Nil
  then show ?case by (simp add: last_n_all bounded)
next
  case (Cons x xs)
  then have "contents (foldl (\<lambda>s x. push x s) s (x # xs)) = last_n cap (last_n cap (contents s @ [x]) @ xs)"
    by (simp add: inv_push contents_push)
  then show ?case by (simp only: last_n_append append_assoc append_Cons append_Nil)
qed

end

definition ring_contents :: "collector \<Rightarrow> perf_sample list" where
  "ring_contents c = drop (co_next c) (co_samples c) @ take (co_next c) (co_samples c)"

definition ring_inv :: "nat \<Rightarrow> collector \<Rightarrow> bool" where
  "ring_inv cap c \<longleftrightarrow> co_capacity c = cap \<and> 0 < cap \<and> length (co_samples c) \<le> cap \<and> co_next c < cap
     \<and> (length (co_samples c) < cap \<longrightarrow> co_next c = 0)"

lemma ring_rotate:
  assumes "i < length xs"
  shows "drop (Suc i mod length xs) (xs[i := x]) @ take (Suc i mod length xs) (xs[i := x]) = drop (Suc i) xs @ take i xs @ [x]"
proof (cases "Suc i = length xs")
  case True
  then show ?thesis using assms by (simp add: upd_conv_take_nth_drop)
next
  case False
  then have "Suc i < length xs" using assms by simp
  then show ?thesis using assms by (simp add: upd_conv_take_nth_drop)
qed

lemma keep_sample_contents:
  assumes "ring_inv cap c"
  shows "ring_contents (keep_sample x c) = last_n cap (ring_contents c @ [x])"
proof (cases "length (co_samples c) < cap")
  case True
  then show ?thesis using assms by (simp add: ring_contents_def keep_sample_def Let_def ring_inv_def last_n_def)
next
  case False
  then have full: "length (co_samples c) = cap" "co_next c < length (co_samples c)" using assms by (simp_all add: ring_inv_def)
  have "ring_contents (keep_sample x c) = drop (Suc (co_next c)) (co_samples c) @ take (co_next c) (co_samples c) @ [x]"
    using ring_rotate [OF full(2), of x] full assms by (simp add: ring_contents_def keep_sample_def Let_def ring_inv_def)
  also have "\<dots> = drop 1 (ring_contents c @ [x])"
    using full by (simp add: ring_contents_def Cons_nth_drop_Suc [symmetric])
  also have "\<dots> = last_n cap (ring_contents c @ [x])" using full by (simp add: last_n_def ring_contents_def)
  finally show ?thesis .
qed

interpretation ring: sliding_window keep_sample ring_contents "ring_inv cap" cap for cap
proof
  show "ring_inv cap (keep_sample x c)" if "ring_inv cap c" for x c
    using that by (auto simp: ring_inv_def keep_sample_def Let_def)
  show "length (ring_contents c) \<le> cap" if "ring_inv cap c" for c
    using that by (auto simp: ring_inv_def ring_contents_def min_def)
qed (rule keep_sample_contents)

text \<open>A request keeps at most one sample, and only when it is answered with 204.\<close>

definition accepted_sample :: "perf_env \<Rightarrow> collector \<Rightarrow> perf_request \<Rightarrow> perf_sample list" where
  "accepted_sample e c rq =
     (if snd (ServeHTTP_report e c rq) = 204
      then (case read_report e (rq_Body rq) of
              None \<Rightarrow> []
            | Some r \<Rightarrow> (case normalizeReport e r of Inl _ \<Rightarrow> [] | Inr r1 \<Rightarrow> [sample_of r1 (pv_now e)]))
      else [])"

lemma allow_frame [simp]:
  "ring_contents (fst (allow_report e c ip now)) = ring_contents c" "ring_inv cap (fst (allow_report e c ip now)) = ring_inv cap c"
  "co_total (fst (allow_report e c ip now)) = co_total c" "co_samples (fst (allow_report e c ip now)) = co_samples c"
  "co_rateSalt (fst (allow_report e c ip now)) = co_rateSalt c"
  by (simp_all add: allow_report_def Let_def ring_contents_def ring_inv_def)

lemma ServeHTTP_outcome:
  assumes "ServeHTTP_report e c rq = (c', code)"
  shows "code \<noteq> 204 \<and> accepted_sample e c rq = [] \<and> (c' = c \<or> c' = fst (allow_report e c (clientIP e rq) (pv_now e)))
     \<or> code = 204 \<and> (\<exists>x. accepted_sample e c rq = [x] \<and> c' = keep_sample x (fst (allow_report e c (clientIP e rq) (pv_now e))))"
  using assms
  by (auto simp: ServeHTTP_report_def accepted_sample_def Record_report_def split: if_split_asm prod.split_asm bool.split_asm
      option.split_asm sum.split_asm)

text \<open>A run of requests, each with what its environment provides: the answers and the state after it.\<close>

fun perf_state :: "(perf_env \<times> perf_request) list \<Rightarrow> collector \<Rightarrow> collector" where
  "perf_state [] c = c"
| "perf_state ((e, rq) # xs) c = perf_state xs (fst (ServeHTTP_report e c rq))"

fun perf_log :: "(perf_env \<times> perf_request) list \<Rightarrow> collector \<Rightarrow> (perf_env \<times> perf_request \<times> nat) list" where
  "perf_log [] c = []"
| "perf_log ((e, rq) # xs) c = (e, rq, snd (ServeHTTP_report e c rq)) # perf_log xs (fst (ServeHTTP_report e c rq))"

fun accepted_run :: "(perf_env \<times> perf_request) list \<Rightarrow> collector \<Rightarrow> perf_sample list" where
  "accepted_run [] c = []"
| "accepted_run ((e, rq) # xs) c = accepted_sample e c rq @ accepted_run xs (fst (ServeHTTP_report e c rq))"

lemma ServeHTTP_ring:
  assumes "ring_inv cap c"
  shows "ring_inv cap (fst (ServeHTTP_report e c rq))"
    and "ring_contents (fst (ServeHTTP_report e c rq)) = last_n cap (ring_contents c @ accepted_sample e c rq)"
    and "co_total (fst (ServeHTTP_report e c rq)) = wrap64 (co_total c + int (length (accepted_sample e c rq))) \<or> accepted_sample e c rq = []
         \<and> co_total (fst (ServeHTTP_report e c rq)) = co_total c"
proof -
  let ?a = "fst (allow_report e c (clientIP e rq) (pv_now e))"
  obtain c' code where r: "ServeHTTP_report e c rq = (c', code)" by fastforce
  have same: "last_n cap (ring_contents c) = ring_contents c" using assms by (simp add: last_n_all ring.bounded)
  have inv: "ring_inv cap ?a" using assms by simp
  consider (none) "accepted_sample e c rq = []" "c' = c \<or> c' = ?a" | (one) x where "accepted_sample e c rq = [x]" "c' = keep_sample x ?a"
    using ServeHTTP_outcome [OF r] by blast
  then have "ring_inv cap c' \<and> ring_contents c' = last_n cap (ring_contents c @ accepted_sample e c rq)
     \<and> (co_total c' = wrap64 (co_total c + int (length (accepted_sample e c rq))) \<or> accepted_sample e c rq = [] \<and> co_total c' = co_total c)"
  proof cases
    case none
    then show ?thesis using assms same by auto
  next
    case (one x)
    then show ?thesis using ring.inv_push [OF inv] ring.contents_push [OF inv] by (simp add: keep_sample_def Let_def)
  qed
  then show "ring_inv cap (fst (ServeHTTP_report e c rq))"
    "ring_contents (fst (ServeHTTP_report e c rq)) = last_n cap (ring_contents c @ accepted_sample e c rq)"
    "co_total (fst (ServeHTTP_report e c rq)) = wrap64 (co_total c + int (length (accepted_sample e c rq))) \<or> accepted_sample e c rq = []
         \<and> co_total (fst (ServeHTTP_report e c rq)) = co_total c"
    by (simp_all add: r)
qed

lemma perf_state_ring:
  assumes "ring_inv cap c"
  shows "ring_inv cap (perf_state xs c) \<and> ring_contents (perf_state xs c) = last_n cap (ring_contents c @ accepted_run xs c)"
  using assms
proof (induction xs arbitrary: c)
  case Nil
  then show ?case by (simp add: last_n_all ring.bounded)
next
  case (Cons x xs)
  obtain e rq where x: "x = (e, rq)" by fastforce
  note step = ServeHTTP_ring [OF Cons.prems, of e rq]
  from Cons.IH [OF step(1)] show ?case by (simp add: x step(2) last_n_append)
qed

lemma New_ring: "ring_inv (co_capacity (New_collector capacity salt)) (New_collector capacity salt)"
  by (simp add: ring_inv_def New_collector_def defaultCapacity_def)

lemma mset_ring_contents: "mset (ring_contents c) = mset (co_samples c)"
  unfolding ring_contents_def by (metis append_take_drop_id mset_append union_commute)

section \<open>The rate limit\<close>

text \<open>
  What one address may still send in the minute that starts at \<open>t\<close>: the rest of a window that began
  before, and one window that begins in it.
\<close>

definition budget :: "gotime \<Rightarrow> string \<Rightarrow> collector \<Rightarrow> int" where
  "budget t key c =
     (case gm_get (co_rates c) key of
        None \<Rightarrow> maxReportsPerIP
      | Some v \<Rightarrow> max 0 (maxReportsPerIP - rt_count v) + (if t \<le> rt_started v then 0 else maxReportsPerIP))"

definition rates_ok :: "nat \<Rightarrow> collector \<Rightarrow> bool" where
  "rates_ok n c \<longleftrightarrow> gm_wf (co_rates c) \<and> length (co_rates c) \<le> maxRateClients
     \<and> (\<forall>key v. gm_get (co_rates c) key = Some v \<longrightarrow> 0 \<le> rt_count v \<and> rt_count v \<le> int n)"

lemma length_gm_set: "length (gm_set k v m) = (if gm_get m k = None then Suc (length m) else length m)"
  by (induction m) (auto simp: map_of_eq_None_iff)

lemma allow_rates_ok:
  assumes "rates_ok n c" "int (Suc n) \<le> max_int64"
  shows "rates_ok (Suc n) (fst (allow_report e c ip now))"
proof -
  define rates where "rates = (if maxRateClients \<le> length (co_rates c)
    then filter (\<lambda>(_, v). \<not> rateWindow \<le> now - rt_started v) (co_rates c) else co_rates c)"
  have "length rates \<le> length (co_rates c)" by (simp add: rates_def)
  then have wf: "gm_wf rates" "length rates \<le> maxRateClients" using assms(1) by (auto simp: rates_def rates_ok_def)
  have cnt: "0 \<le> rt_count v \<and> rt_count v \<le> int n" if "gm_get rates k = Some v" for k v
    using that assms(1) gm_get_filter [of "co_rates c" "\<lambda>_ v. \<not> rateWindow \<le> now - rt_started v"]
    by (auto simp: rates_def rates_ok_def split: if_split_asm option.split_asm)
  have wrap: "0 \<le> k \<Longrightarrow> k \<le> int n \<Longrightarrow> wrap64 (k + 1) = k + 1" for k using assms(2) by (simp add: wrap64_succ)
  have w0: "wrap64 (0 + 1) = 1" using wrap [of 0] by simp
  show ?thesis
    using wf cnt wrap w0
    by (fastforce simp: allow_report_def Let_def rates_def [symmetric] rates_ok_def length_gm_set split: option.split if_split_asm)
qed

lemma allow_budget:
  assumes "rates_ok n c" "int (Suc n) \<le> max_int64" "t \<le> now" "now < t + rateWindow" "zero_time < t"
    and "allow_report e c ip now = (c1, ok)"
  shows "budget t key c1 + (if ok \<and> rateKey e c ip = key then 1 else 0) \<le> budget t key c"
proof -
  define P where "P = (\<lambda>v :: rate_state. \<not> rateWindow \<le> now - rt_started v)"
  define rates where "rates = (if maxRateClients \<le> length (co_rates c) then filter (\<lambda>(_, v). P v) (co_rates c) else co_rates c)"
  have get: "gm_get rates key = gm_get (co_rates c) key
      \<or> gm_get rates key = None \<and> (\<exists>v. gm_get (co_rates c) key = Some v \<and> \<not> t \<le> rt_started v)"
    using assms(1,4) gm_get_filter [of "co_rates c" "\<lambda>_ v. P v" key]
    by (auto simp: rates_def rates_ok_def P_def split: option.split_asm if_split_asm)
  have purged: "budget t key (c\<lparr>co_rates := rates\<rparr>) \<le> budget t key c"
    using get by (auto simp: budget_def maxReportsPerIP_def)
  have cnt: "gm_get rates k = Some v \<Longrightarrow> 0 \<le> rt_count v \<and> rt_count v \<le> int n" for k v
    using assms(1) gm_get_filter [of "co_rates c" "\<lambda>_ v. P v" k]
    by (auto simp: rates_def rates_ok_def split: option.split_asm if_split_asm)
  have wrap: "0 \<le> k \<Longrightarrow> k \<le> int n \<Longrightarrow> wrap64 (k + 1) = k + 1" for k using assms(2) by (simp add: wrap64_succ)
  have w0: "wrap64 1 = 1" using wrap [of 0] by simp
  have al: "allow_report e c ip now =
     (if gm_get rates (rateKey e c ip) = None \<and> maxRateClients \<le> length rates then (c\<lparr>co_rates := rates\<rparr>, False)
      else
        (let state = (case gm_get rates (rateKey e c ip) of Some v \<Rightarrow> v | None \<Rightarrow> \<lparr> rt_started = zero_time, rt_count = 0 \<rparr>);
             state1 = (if rt_started state = zero_time \<or> rateWindow \<le> now - rt_started state
                       then \<lparr> rt_started = now, rt_count = 0 \<rparr> else state);
             state2 = state1\<lparr>rt_count := wrap64 (rt_count state1 + 1)\<rparr>
         in ((c\<lparr>co_rates := rates\<rparr>)\<lparr>co_rates := gm_set (rateKey e c ip) state2 rates\<rparr>, rt_count state2 \<le> maxReportsPerIP)))"
    unfolding allow_report_def rates_def P_def Let_def ..
  show ?thesis
  proof (cases "rateKey e c ip = key")
    case False
    then have "budget t key c1 = budget t key (c\<lparr>co_rates := rates\<rparr>)"
      using assms(6) by (auto simp: al Let_def budget_def split: if_split_asm)
    with purged False show ?thesis by simp
  next
    case True
    have "budget t key c1 + (if ok then 1 else 0) \<le> budget t key (c\<lparr>co_rates := rates\<rparr>)"
    proof (cases "gm_get rates key")
      case None
      then show ?thesis using assms(3,6) True w0
        by (auto simp: al Let_def budget_def maxReportsPerIP_def split: if_split_asm)
    next
      case (Some v)
      then show ?thesis using assms(3-6) True w0 wrap [of "rt_count v"] cnt [OF Some]
        by (auto simp: al Let_def budget_def maxReportsPerIP_def split: if_split_asm)
    qed
    with purged True show ?thesis by simp
  qed
qed

lemma budget_le: "rates_ok n c \<Longrightarrow> budget t key c \<le> 2 * maxReportsPerIP"
proof (cases "gm_get (co_rates c) key")
  case (Some v)
  assume "rates_ok n c"
  then have "0 \<le> rt_count v" using Some by (simp add: rates_ok_def)
  then show ?thesis using Some by (simp add: budget_def maxReportsPerIP_def)
qed (simp add: budget_def maxReportsPerIP_def)

text \<open>A request that was not refused by the limit.\<close>

definition let_through :: "nat \<Rightarrow> bool" where
  "let_through code \<longleftrightarrow> code = 204 \<or> code = 400"

lemma keep_sample_rates [simp]: "co_rates (keep_sample x c) = co_rates c" "co_rateSalt (keep_sample x c) = co_rateSalt c"
  by (simp_all add: keep_sample_def Let_def)

lemma ServeHTTP_rate:
  assumes "ServeHTTP_report e c rq = (c', code)"
  shows "c' = c \<and> \<not> let_through code
     \<or> (co_rates c' = co_rates (fst (allow_report e c (clientIP e rq) (pv_now e))) \<and> co_rateSalt c' = co_rateSalt c
        \<and> let_through code = snd (allow_report e c (clientIP e rq) (pv_now e)))"
proof -
  obtain c1 ok where a: "allow_report e c (clientIP e rq) (pv_now e) = (c1, ok)" by fastforce
  then have "co_rateSalt c1 = co_rateSalt c" using allow_frame(5) [of e c "clientIP e rq" "pv_now e"] by simp
  with assms a show ?thesis
    by (auto simp: ServeHTTP_report_def Record_report_def let_through_def
        split: if_split_asm bool.split_asm option.split_asm sum.split_asm)
qed

lemma rates_ok_mono: "rates_ok n c \<Longrightarrow> rates_ok (Suc n) c"
  by (fastforce simp: rates_ok_def)

lemma ServeHTTP_rates_ok:
  assumes "rates_ok n c" "int (Suc n) \<le> max_int64"
  shows "rates_ok (Suc n) (fst (ServeHTTP_report e c rq))" "co_rateSalt (fst (ServeHTTP_report e c rq)) = co_rateSalt c"
proof -
  obtain c' code where r: "ServeHTTP_report e c rq = (c', code)" by fastforce
  have "rates_ok (Suc n) c' \<and> co_rateSalt c' = co_rateSalt c"
    using ServeHTTP_rate [OF r]
  proof
    assume "c' = c \<and> \<not> let_through code"
    then show ?thesis using rates_ok_mono [OF assms(1)] by simp
  next
    assume c: "co_rates c' = co_rates (fst (allow_report e c (clientIP e rq) (pv_now e))) \<and> co_rateSalt c' = co_rateSalt c
      \<and> let_through code = snd (allow_report e c (clientIP e rq) (pv_now e))"
    have "rates_ok (Suc n) (fst (allow_report e c (clientIP e rq) (pv_now e)))" by (rule allow_rates_ok [OF assms])
    with c show ?thesis by (simp add: rates_ok_def)
  qed
  then show "rates_ok (Suc n) (fst (ServeHTTP_report e c rq))" "co_rateSalt (fst (ServeHTTP_report e c rq)) = co_rateSalt c"
    by (simp_all add: r)
qed

lemma perf_state_rates_ok:
  assumes "rates_ok n c" "int (n + length xs) \<le> max_int64"
  shows "rates_ok (n + length xs) (perf_state xs c) \<and> co_rateSalt (perf_state xs c) = co_rateSalt c"
  using assms
proof (induction xs arbitrary: n c)
  case (Cons x xs)
  obtain e rq where x: "x = (e, rq)" by fastforce
  note s = ServeHTTP_rates_ok [OF Cons.prems(1), of e rq]
  have "int (Suc n) \<le> max_int64" using Cons.prems(2) by simp
  with s Cons.IH [of "Suc n" "fst (ServeHTTP_report e c rq)"] Cons.prems(2) show ?case by (simp add: x)
qed simp

lemma perf_log_budget:
  assumes "rates_ok n c" "int (n + length xs) \<le> max_int64" "zero_time < t"
    and "\<forall>(e, rq) \<in> set xs. pv_digest e = dg \<and> t \<le> pv_now e \<and> pv_now e < t + rateWindow"
  shows "int (length (filter (\<lambda>(e, rq, code). let_through code \<and> dg (co_rateSalt c) (clientIP e rq) = key) (perf_log xs c))) \<le> budget t key c"
  using assms(1,2,4)
proof (induction xs arbitrary: n c)
  case Nil
  then show ?case by (simp add: budget_def maxReportsPerIP_def split: option.split)
next
  case (Cons x xs)
  obtain e rq where x: "x = (e, rq)" by fastforce
  obtain c' code where r: "ServeHTTP_report e c rq = (c', code)" by fastforce
  obtain c1 ok where a: "allow_report e c (clientIP e rq) (pv_now e) = (c1, ok)" by fastforce
  have le: "int (Suc n) \<le> max_int64" and env: "pv_digest e = dg" "t \<le> pv_now e" "pv_now e < t + rateWindow"
    using Cons.prems(2,3) by (auto simp: x)
  note ok = ServeHTTP_rates_ok [OF Cons.prems(1) le, of e rq, unfolded r fst_conv]
  have "budget t key c' + (if let_through code \<and> dg (co_rateSalt c) (clientIP e rq) = key then 1 else 0) \<le> budget t key c"
  proof -
    have "budget t key c1 + (if ok \<and> rateKey e c (clientIP e rq) = key then 1 else 0) \<le> budget t key c"
      by (rule allow_budget [OF Cons.prems(1) le env(2,3) assms(3) a])
    then show ?thesis using ServeHTTP_rate [OF r] env(1) by (auto simp: a budget_def rateKey_def)
  qed
  moreover have "int (length (filter (\<lambda>(e, rq, code). let_through code \<and> dg (co_rateSalt c) (clientIP e rq) = key) (perf_log xs c'))) \<le> budget t key c'"
    using Cons.IH [OF ok(1)] Cons.prems(2,3) ok(2) by simp
  ultimately show ?case by (auto simp: x r)
qed

section \<open>Percentiles\<close>

lemma float64_near:
  assumes "0 < r" "2 powi (- 1022) \<le> r"
  shows "r - r / 2 ^ 53 \<le> float64 r" "float64 r \<le> r + r / 2 ^ 53"
proof -
  have "float64 r - r \<le> r / 2 ^ 53" "- (float64 r - r) \<le> r / 2 ^ 53" using float64_error [OF assms] unfolding abs_le_iff by blast+
  then show "r - r / 2 ^ 53 \<le> float64 r" "float64 r \<le> r + r / 2 ^ 53" by linarith+
qed

lemma tiny_le: "2 powi (- 1022) \<le> (1 / 4 :: rat)"
proof -
  have "(2 :: rat) powi (- 1022) \<le> 2 powi (- 2)" by (rule power_int_increasing) simp_all
  also have "\<dots> = 1 / 4" by (simp add: power_int_def power2_eq_square)
  finally show ?thesis .
qed

lemma rank_index:
  fixes p :: rat
  assumes "1 / 2 \<le> p" "p \<le> 1" "0 < n" "n \<le> 2 ^ 40"
  shows "of_nat n * p - 1 / 20 < float64 (of_nat n * float64 p)"
proof -
  have tiny: "2 powi (- 1022) \<le> p" using tiny_le assms(1) by linarith
  then have q: "p - p / 2 ^ 53 \<le> float64 p" "float64 p \<le> p + p / 2 ^ 53" using float64_near [of p] assms(1) by simp_all
  have q1: "p / 2 ^ 53 \<le> 1 / 2 ^ 53" using assms(2) by (simp add: divide_right_mono)
  then have lo: "1 / 4 \<le> float64 p" "float64 p \<le> 2" using q assms(1,2) by (simp_all add: field_simps)
  have n1: "1 \<le> (of_nat n :: rat)" "of_nat n \<le> (2 ^ 40 :: rat)"
    using assms(3,4) of_nat_mono [OF assms(4), where 'a = rat] by simp_all
  define x where "x = of_nat n * float64 p"
  have x: "of_nat n * p - of_nat n / 2 ^ 53 \<le> x" "1 / 4 \<le> x" "x \<le> 2 ^ 41"
  proof -
    have "of_nat n * (p - 1 / 2 ^ 53) \<le> x" unfolding x_def using q(1) q1 n1 by (intro mult_left_mono) simp_all
    then show "of_nat n * p - of_nat n / 2 ^ 53 \<le> x" by (simp add: right_diff_distrib)
    show "1 / 4 \<le> x" unfolding x_def using mult_mono [OF n1(1) lo(1)] by simp
    show "x \<le> 2 ^ 41" unfolding x_def using mult_mono [OF n1(2) lo(2)] lo(1) by simp
  qed
  then have "2 powi (- 1022) \<le> x" "0 < x" using tiny_le by linarith+
  then have "x - x / 2 ^ 53 \<le> float64 x" by (rule float64_near(1) [rotated])
  moreover have "x / 2 ^ 53 \<le> 1 / 2 ^ 12" using x(3) by (simp add: field_simps)
  moreover have "of_nat n / 2 ^ 53 \<le> (1 / 2 ^ 13 :: rat)" using n1(2) by (simp add: field_simps)
  ultimately show ?thesis using x(1) unfolding x_def [symmetric] by simp
qed

lemma sorted_rank:
  assumes "sorted values" "i < length values"
  shows "Suc i \<le> length (filter (\<lambda>v. v \<le> values ! i) values)"
proof -
  have "length (filter (\<lambda>v. v \<le> values ! i) (take (Suc i) values)) = Suc i"
  proof -
    have "\<forall>v \<in> set (take (Suc i) values). v \<le> values ! i"
      using assms by (auto simp: in_set_conv_nth less_Suc_eq_le intro!: sorted_nth_mono)
    then show ?thesis using assms(2) by (simp add: filter_id_conv [THEN iffD2])
  qed
  moreover have "filter (\<lambda>v. v \<le> values ! i) values = filter (\<lambda>v. v \<le> values ! i) (take (Suc i) values)
      @ filter (\<lambda>v. v \<le> values ! i) (drop (Suc i) values)"
    by (metis append_take_drop_id filter_append)
  ultimately show ?thesis by simp
qed

lemma percentile_index:
  assumes "values \<noteq> []"
  obtains i where "percentile values p = values ! i" "i < length values"
    "min (int (length values)) \<lceil>float64 (of_nat (length values) * float64 p)\<rceil> \<le> int i + 1"
proof -
  define k where "k = \<lceil>float64 (of_nat (length values) * float64 p)\<rceil> - 1"
  define i where "i = nat (if int (length values) \<le> (if k < 0 then 0 else k) then int (length values) - 1 else if k < 0 then 0 else k)"
  have n: "0 < int (length values)" using assms by simp
  then have "i < length values" "min (int (length values)) (k + 1) \<le> int i + 1" unfolding i_def
    by (auto simp: nat_less_iff split: if_split)
  moreover have "percentile values p = values ! i" using assms by (simp add: percentile_def i_def k_def Let_def)
  ultimately show thesis using that by (simp add: k_def)
qed

text \<open>At least the given share of the samples is not slower than the percentile.\<close>

lemma percentile_covers:
  assumes "values \<noteq> []" "sorted values" "length values \<le> 2 ^ 40" "1 / 2 \<le> p" "p \<le> 1"
  shows "percentile values p \<in> set values"
    and "of_nat (length values) * p - 1 / 20 < of_nat (length (filter (\<lambda>v. v \<le> percentile values p) values))"
proof -
  let ?n = "length values"
  obtain i where i: "percentile values p = values ! i" "i < ?n" "min (int ?n) \<lceil>float64 (of_nat ?n * float64 p)\<rceil> \<le> int i + 1"
    using percentile_index [OF assms(1)] by blast
  then show "percentile values p \<in> set values" by simp
  have r: "of_nat ?n * p - 1 / 20 < float64 (of_nat ?n * float64 p)" using rank_index [OF assms(4,5) _ assms(3)] assms(1) by simp
  have "of_nat ?n * p - 1 / 20 < of_int (min (int ?n) \<lceil>float64 (of_nat ?n * float64 p)\<rceil>)"
  proof (cases "int ?n \<le> \<lceil>float64 (of_nat ?n * float64 p)\<rceil>")
    case True
    have "of_nat ?n * p \<le> of_nat ?n * 1" using assms(5) by (intro mult_left_mono) simp_all
    then show ?thesis using True by (simp add: min_def)
  next
    case False
    have "of_nat ?n * p - 1 / 20 < of_int \<lceil>float64 (of_nat ?n * float64 p)\<rceil>"
      using r le_of_int_ceiling by (rule less_le_trans)
    with False show ?thesis by (simp add: min_def)
  qed
  also have "\<dots> \<le> of_int (int i + 1)" using i(3) by (simp only: of_int_le_iff)
  also have "\<dots> \<le> of_nat (length (filter (\<lambda>v. v \<le> percentile values p) values))"
  proof -
    have "of_int (int i + 1) = (of_nat (Suc i) :: rat)" by simp
    also have "\<dots> \<le> of_nat (length (filter (\<lambda>v. v \<le> values ! i) values))" using sorted_rank [OF assms(2) i(2)] by (rule of_nat_mono)
    finally show ?thesis unfolding i(1) .
  qed
  finally show "of_nat (length values) * p - 1 / 20 < of_nat (length (filter (\<lambda>v. v \<le> percentile values p) values))" .
qed

end
