(* ===== verification/Fairy_Client.thy ===== *)
theory Fairy_Client
  imports Fairy_Context
begin

text \<open>
  The agent's connection to the IM server (\<open>client.go\<close>). Many goroutines call \<open>Request\<close> at the same time; one
  reader hands the answers out by their \<open>echo\<close>; closing answers every request that is still waiting. The code
  under a mutex is one step and a call of \<open>Request\<close> is a state machine over the places between the steps.
  The lemmas show that no channel ever gets a second value, so that neither the reader nor \<open>finish\<close> blocks
  while it holds the mutex, that an answer reaches the request that carries its echo, and that after the
  connection was closed no request waits for ever.
\<close>

section \<open>State\<close>

datatype client_error = StartError | WriteError | WaitError | DecodeError | APIError int string | ReadError string | ErrClientClosed

record api_response =
  ar_Status :: string
  ar_RetCode :: int
  ar_Data :: json
  ar_Msg :: string

text \<open>
  A payload is represented by what the two calls of \<open>json.Unmarshal\<close> make of it: the echo of its envelope
  (empty when it has none), and the response.
\<close>

record wire_payload =
  wp_echo :: "string option"
  wp_response :: "api_response option"

datatype pending_result = Payload wire_payload | PendingErr client_error

text \<open>
  The counter numbers the requests, and so their channels; it is not taken to wrap around. A channel has
  room for one value.
\<close>

record im_client =
  ic_echo :: nat
  ic_pending :: "(string, nat) gomap"
  ic_channels :: "nat \<Rightarrow> pending_result list"
  ic_events :: "wire_payload list"
  ic_done :: bool
  ic_readErr :: "client_error option"
  ic_drained :: bool

definition Dial_client :: im_client where
  "Dial_client = \<lparr> ic_echo = 0, ic_pending = [], ic_channels = (\<lambda>_. []), ic_events = [], ic_done = False,
     ic_readErr = None, ic_drained = False \<rparr>"

definition eventCapacity :: nat where "eventCapacity = 128"

definition echo_text :: "nat \<Rightarrow> string" where
  "echo_text n = ''fairy-'' @ show_nat n"

section \<open>Operations\<close>

definition number_request :: "im_client \<Rightarrow> im_client \<times> nat" where
  "number_request c = (let n = Suc (ic_echo c) in (c\<lparr>ic_echo := n, ic_channels := (ic_channels c)(n := [])\<rparr>, n))"

definition closeError :: "im_client \<Rightarrow> client_error" where
  "closeError c = (case ic_readErr c of Some err \<Rightarrow> err | None \<Rightarrow> ErrClientClosed)"

definition register_request :: "im_client \<Rightarrow> nat \<Rightarrow> client_error + im_client" where
  "register_request c n =
     (if ic_done c then Inl (closeError c) else Inr (c\<lparr>ic_pending := gm_set (echo_text n) n (ic_pending c)\<rparr>))"

definition removePending :: "im_client \<Rightarrow> string \<Rightarrow> im_client" where
  "removePending c echo = c\<lparr>ic_pending := gm_del echo (ic_pending c)\<rparr>"

definition channel_send :: "nat \<Rightarrow> pending_result \<Rightarrow> im_client \<Rightarrow> im_client" where
  "channel_send n v c = c\<lparr>ic_channels := (ic_channels c)(n := ic_channels c n @ [v])\<rparr>"

definition deliverResponse :: "im_client \<Rightarrow> string \<Rightarrow> wire_payload \<Rightarrow> im_client \<times> bool" where
  "deliverResponse c echo payload =
     (case gm_get (ic_pending c) echo of
        Some n \<Rightarrow> (channel_send n (Payload payload) (c\<lparr>ic_pending := gm_del echo (ic_pending c)\<rparr>), True)
      | None \<Rightarrow> (c, False))"

text \<open>One round of \<open>readLoop\<close>. \<open>None\<close>: the reader waits for room among the events.\<close>

definition read_payload :: "im_client \<Rightarrow> wire_payload \<Rightarrow> im_client option" where
  "read_payload c payload =
     (case wp_echo payload of
        None \<Rightarrow> Some c
      | Some echo \<Rightarrow>
          (case (if echo \<noteq> [] then deliverResponse c echo payload else (c, False)) of
             (c1, True) \<Rightarrow> Some c1
           | (c1, False) \<Rightarrow> if length (ic_events c1) < eventCapacity then Some (c1\<lparr>ic_events := ic_events c1 @ [payload]\<rparr>) else None))"

text \<open>\<open>finish\<close> is two critical sections: closing \<open>done\<close> once, and emptying the map.\<close>

definition finish_close :: "im_client \<Rightarrow> client_error \<Rightarrow> im_client" where
  "finish_close c err = (if ic_done c then c else c\<lparr>ic_done := True, ic_readErr := Some err\<rparr>)"

definition finish_drain :: "im_client \<Rightarrow> im_client" where
  "finish_drain c =
     (foldl (\<lambda>c (echo, n). channel_send n (PendingErr (closeError c)) c) c (ic_pending c))\<lparr>ic_pending := [], ic_drained := True\<rparr>"

text \<open>What \<open>Request\<close> makes of the value it received, up to decoding the data for its caller.\<close>

fun request_result :: "pending_result \<Rightarrow> client_error + json" where
  "request_result (PendingErr err) = Inl err"
| "request_result (Payload payload) =
     (case wp_response payload of
        None \<Rightarrow> Inl DecodeError
      | Some r \<Rightarrow> if ar_Status r \<noteq> ''ok'' \<or> ar_RetCode r \<noteq> 0 then Inl (APIError (ar_RetCode r) (ar_Msg r)) else Inr (ar_Data r))"

section \<open>Requests in flight\<close>

text \<open>
  A call begins, has a number and a channel, is registered, has been written and waits, gives up (it still
  has to remove itself from the map), and has returned.
\<close>

datatype call_phase = Begun | Numbered nat | Registered nat | Awaiting nat | GivingUp nat client_error | Returned "client_error + json"

record client_sys =
  sy_client :: im_client
  sy_calls :: "call_phase list"

definition set_call :: "client_sys \<Rightarrow> nat \<Rightarrow> call_phase \<Rightarrow> client_sys" where
  "set_call y i p = y\<lparr>sy_calls := (sy_calls y)[i := p]\<rparr>"

definition call_at :: "client_sys \<Rightarrow> nat \<Rightarrow> call_phase \<Rightarrow> bool" where
  "call_at y i p \<longleftrightarrow> i < length (sy_calls y) \<and> sy_calls y ! i = p"

inductive client_step :: "client_sys \<Rightarrow> client_sys \<Rightarrow> bool" where
  call: "client_step y (y\<lparr>sy_calls := sy_calls y @ [Begun]\<rparr>)"
| refuse: "call_at y i Begun \<Longrightarrow> client_step y (set_call y i (Returned (Inl StartError)))"
| number: "call_at y i Begun \<Longrightarrow> number_request (sy_client y) = (c, n) \<Longrightarrow> client_step y (set_call (y\<lparr>sy_client := c\<rparr>) i (Numbered n))"
| register: "call_at y i (Numbered n) \<Longrightarrow> register_request (sy_client y) n = Inr c
    \<Longrightarrow> client_step y (set_call (y\<lparr>sy_client := c\<rparr>) i (Registered n))"
| closed: "call_at y i (Numbered n) \<Longrightarrow> register_request (sy_client y) n = Inl err \<Longrightarrow> client_step y (set_call y i (Returned (Inl err)))"
| written: "call_at y i (Registered n) \<Longrightarrow> client_step y (set_call y i (Awaiting n))"
| unwritten: "call_at y i (Registered n) \<Longrightarrow> err \<in> {StartError, WriteError} \<Longrightarrow> client_step y (set_call y i (GivingUp n err))"
| cancel: "call_at y i (Awaiting n) \<Longrightarrow> client_step y (set_call y i (GivingUp n WaitError))"
| give_up: "call_at y i (GivingUp n err)
    \<Longrightarrow> client_step y (set_call (y\<lparr>sy_client := removePending (sy_client y) (echo_text n)\<rparr>) i (Returned (Inl err)))"
| receive: "call_at y i (Awaiting n) \<Longrightarrow> ic_channels (sy_client y) n = v # vs
    \<Longrightarrow> client_step y (set_call (y\<lparr>sy_client := (sy_client y)\<lparr>ic_channels := (ic_channels (sy_client y))(n := vs)\<rparr>\<rparr>) i (Returned (request_result v)))"
| read: "read_payload (sy_client y) payload = Some c \<Longrightarrow> client_step y (y\<lparr>sy_client := c\<rparr>)"
| take_event: "ic_events (sy_client y) = ev # evs \<Longrightarrow> client_step y (y\<lparr>sy_client := (sy_client y)\<lparr>ic_events := evs\<rparr>\<rparr>)"
| close: "client_step y (y\<lparr>sy_client := finish_close (sy_client y) err\<rparr>)"
| drain: "ic_done (sy_client y) \<Longrightarrow> \<not> ic_drained (sy_client y) \<Longrightarrow> client_step y (y\<lparr>sy_client := finish_drain (sy_client y)\<rparr>)"

definition client_start :: client_sys where
  "client_start = \<lparr> sy_client = Dial_client, sy_calls = [] \<rparr>"

section \<open>Channels and the map\<close>

text \<open>\<open>chan_inv\<close> speaks of the client alone, \<open>call_inv\<close> of one call, \<open>client_inv\<close> of all.\<close>

definition chan_inv :: "im_client \<Rightarrow> bool" where
  "chan_inv c \<longleftrightarrow> gm_wf (ic_pending c)
     \<and> (\<forall>echo n. gm_get (ic_pending c) echo = Some n \<longrightarrow> echo = echo_text n \<and> n \<le> ic_echo c \<and> ic_channels c n = [])
     \<and> (\<forall>n. length (ic_channels c n) \<le> 1 \<and> (\<forall>p. Payload p \<in> set (ic_channels c n) \<longrightarrow> wp_echo p = Some (echo_text n)))
     \<and> length (ic_events c) \<le> eventCapacity
     \<and> (ic_drained c \<longrightarrow> ic_done c \<and> ic_pending c = [])"

fun call_number :: "call_phase \<Rightarrow> nat option" where
  "call_number (Numbered n) = Some n"
| "call_number (Registered n) = Some n"
| "call_number (Awaiting n) = Some n"
| "call_number (GivingUp n err) = Some n"
| "call_number _ = None"

fun call_inv :: "im_client \<Rightarrow> call_phase \<Rightarrow> bool" where
  "call_inv c (Numbered n) \<longleftrightarrow> gm_get (ic_pending c) (echo_text n) = None \<and> ic_channels c n = []"
| "call_inv c (Registered n) \<longleftrightarrow> gm_get (ic_pending c) (echo_text n) = Some n \<or> ic_channels c n \<noteq> []"
| "call_inv c (Awaiting n) \<longleftrightarrow> gm_get (ic_pending c) (echo_text n) = Some n \<or> ic_channels c n \<noteq> []"
| "call_inv c _ \<longleftrightarrow> True"

definition distinct_numbers :: "call_phase list \<Rightarrow> bool" where
  "distinct_numbers calls \<longleftrightarrow> (\<forall>i j n. i < length calls \<and> j < length calls \<and> i \<noteq> j \<and> call_number (calls ! i) = Some n
     \<longrightarrow> call_number (calls ! j) \<noteq> Some n)"

definition client_inv :: "client_sys \<Rightarrow> bool" where
  "client_inv y \<longleftrightarrow> chan_inv (sy_client y)
     \<and> (\<forall>p \<in> set (sy_calls y). call_inv (sy_client y) p \<and> (\<forall>n. call_number p = Some n \<longrightarrow> n \<le> ic_echo (sy_client y)))
     \<and> distinct_numbers (sy_calls y)"

lemma echo_text_inject [simp]: "echo_text m = echo_text n \<longleftrightarrow> m = n"
  by (simp add: echo_text_def)

lemma client_inv_calls:
  assumes "client_inv y" "p \<in> set (sy_calls y)"
  shows "call_inv (sy_client y) p" "call_number p = Some n \<Longrightarrow> n \<le> ic_echo (sy_client y)"
  using assms by (simp_all add: client_inv_def)

text \<open>A step of call \<open>i\<close>, which has the number \<open>k\<close> before it or gets it as a new one.\<close>

lemma client_inv_step:
  assumes inv: "client_inv y" and at: "call_at y i old" and chan: "chan_inv c"
    and k: "call_number old = k \<or> (\<exists>n. k = Some n \<and> ic_echo (sy_client y) < n)"
    and mono: "ic_echo (sy_client y) \<le> ic_echo c"
    and keep: "\<And>p. call_inv (sy_client y) p \<Longrightarrow> (\<And>n. call_number p = Some n \<Longrightarrow> k \<noteq> Some n \<and> n \<le> ic_echo (sy_client y)) \<Longrightarrow> call_inv c p"
    and new: "call_inv c new" "call_number new = None \<or> call_number new = k" "\<And>n. call_number new = Some n \<Longrightarrow> n \<le> ic_echo c"
  shows "client_inv (set_call (y\<lparr>sy_client := c\<rparr>) i new)"
proof -
  let ?calls = "sy_calls y"
  have i: "i < length ?calls" "?calls ! i = old" using at by (simp_all add: call_at_def)
  have distinct: "call_number (?calls ! b) \<noteq> Some n"
    if "a < length ?calls" "b < length ?calls" "a \<noteq> b" "call_number (?calls ! a) = Some n" for a b n
  proof -
    have "distinct_numbers ?calls" using inv by (simp add: client_inv_def)
    then show ?thesis unfolding distinct_numbers_def using that by blast
  qed
  have other: "call_number (?calls ! j) \<noteq> Some n" if "j < length ?calls" "j \<noteq> i" "k = Some n" for j n
  proof (cases "call_number old = k")
    case True
    with that i show ?thesis using distinct [of i j n] by simp
  next
    case False
    with k that(3) have "ic_echo (sy_client y) < n" by simp
    moreover have "call_number (?calls ! j) = Some n \<Longrightarrow> n \<le> ic_echo (sy_client y)"
      by (rule client_inv_calls(2) [OF inv nth_mem]) (use that(1) in simp_all)
    ultimately show ?thesis by (meson leD)
  qed
  have old: "call_inv c (?calls ! j) \<and> (\<forall>n. call_number (?calls ! j) = Some n \<longrightarrow> n \<le> ic_echo c)" if "j < length ?calls" "j \<noteq> i" for j
    using client_inv_calls [OF inv, of "?calls ! j"] keep [of "?calls ! j"] other [OF that] mono that by (metis nth_mem order_trans)
  have "call_inv c p \<and> (\<forall>n. call_number p = Some n \<longrightarrow> n \<le> ic_echo c)" if "p \<in> set (?calls[i := new])" for p
  proof -
    from that obtain j where "j < length ?calls" "p = ?calls[i := new] ! j" by (metis in_set_conv_nth length_list_update)
    then show ?thesis using new old by (cases "j = i") auto
  qed
  moreover
  have "call_number (?calls[i := new] ! b) \<noteq> Some n"
    if "a < length ?calls" "b < length ?calls" "a \<noteq> b" "call_number (?calls[i := new] ! a) = Some n" for a b n
    using that new(2) other [of a n] other [of b n] distinct [of a b n] i(1)
    by (cases "a = i"; cases "b = i") auto
  then have "distinct_numbers (?calls[i := new])" unfolding distinct_numbers_def length_list_update by blast
  ultimately show ?thesis using chan unfolding client_inv_def set_call_def by simp
qed

text \<open>A step of the reader or of \<open>finish\<close>.\<close>

lemma client_inv_client:
  assumes "client_inv y" "chan_inv c" "ic_echo c = ic_echo (sy_client y)" "\<And>p. call_inv (sy_client y) p \<Longrightarrow> call_inv c p"
  shows "client_inv (y\<lparr>sy_client := c\<rparr>)"
  using assms by (simp add: client_inv_def)

lemma call_inv_cong:
  "ic_pending c' = ic_pending c \<Longrightarrow> ic_channels c' = ic_channels c \<Longrightarrow> call_inv c' p = call_inv c p"
  by (cases p) simp_all

lemma chan_inv_pending:
  "chan_inv c \<Longrightarrow> gm_get (ic_pending c) echo = Some n \<Longrightarrow> echo = echo_text n \<and> n \<le> ic_echo c \<and> ic_channels c n = []"
  by (simp add: chan_inv_def)

lemma number_request_inv:
  assumes "chan_inv c" "number_request c = (c', n)"
  shows "chan_inv c' \<and> n = Suc (ic_echo c) \<and> ic_echo c' = n \<and> call_inv c' (Numbered n)"
    "call_inv c p \<Longrightarrow> call_number p \<noteq> Some n \<Longrightarrow> call_inv c' p"
proof -
  have n: "n = Suc (ic_echo c)" and c': "c' = c\<lparr>ic_echo := n, ic_channels := (ic_channels c)(n := [])\<rparr>"
    using assms(2) by (auto simp: number_request_def Let_def)
  have "gm_get (ic_pending c) (echo_text n) = None"
    using chan_inv_pending [OF assms(1), of "echo_text n"] n by (cases "gm_get (ic_pending c) (echo_text n)") auto
  with assms(1) show "chan_inv c' \<and> n = Suc (ic_echo c) \<and> ic_echo c' = n \<and> call_inv c' (Numbered n)"
    by (auto simp: n c' chan_inv_def le_SucI)
  show "call_inv c p \<Longrightarrow> call_number p \<noteq> Some n \<Longrightarrow> call_inv c' p" by (cases p) (auto simp: c')
qed

lemma register_request_inv:
  assumes "chan_inv c" "call_inv c (Numbered n)" "n \<le> ic_echo c" "register_request c n = Inr c'"
  shows "chan_inv c' \<and> ic_echo c' = ic_echo c \<and> call_inv c' (Registered n)"
    "call_inv c p \<Longrightarrow> call_number p \<noteq> Some n \<Longrightarrow> call_inv c' p"
proof -
  have c': "c' = c\<lparr>ic_pending := gm_set (echo_text n) n (ic_pending c)\<rparr>" and nd: "\<not> ic_done c"
    using assms(4) by (simp_all add: register_request_def split: if_split_asm)
  show "chan_inv c' \<and> ic_echo c' = ic_echo c \<and> call_inv c' (Registered n)"
    using assms(1-3) nd by (auto simp: c' chan_inv_def split: if_split_asm)
  show "call_inv c p \<Longrightarrow> call_number p \<noteq> Some n \<Longrightarrow> call_inv c' p" by (cases p) (auto simp: c')
qed

lemma removePending_inv:
  assumes "chan_inv c"
  shows "chan_inv (removePending c (echo_text n)) \<and> ic_echo (removePending c (echo_text n)) = ic_echo c"
    "call_inv c p \<Longrightarrow> call_number p \<noteq> Some n \<Longrightarrow> call_inv (removePending c (echo_text n)) p"
proof -
  show "chan_inv (removePending c (echo_text n)) \<and> ic_echo (removePending c (echo_text n)) = ic_echo c"
    using assms by (auto simp: removePending_def chan_inv_def split: if_split_asm)
  show "call_inv c p \<Longrightarrow> call_number p \<noteq> Some n \<Longrightarrow> call_inv (removePending c (echo_text n)) p"
    by (cases p) (auto simp: removePending_def)
qed

lemma receive_inv:
  assumes "chan_inv c" "ic_channels c n = v # vs"
  shows "chan_inv (c\<lparr>ic_channels := (ic_channels c)(n := vs)\<rparr>)"
    "call_inv c p \<Longrightarrow> call_number p \<noteq> Some n \<Longrightarrow> call_inv (c\<lparr>ic_channels := (ic_channels c)(n := vs)\<rparr>) p"
proof -
  have vs: "vs = []" using assms by (auto simp: chan_inv_def dest: spec [of _ n])
  show "chan_inv (c\<lparr>ic_channels := (ic_channels c)(n := vs)\<rparr>)"
    using assms by (auto simp: chan_inv_def vs)
  show "call_inv c p \<Longrightarrow> call_number p \<noteq> Some n \<Longrightarrow> call_inv (c\<lparr>ic_channels := (ic_channels c)(n := vs)\<rparr>) p" by (cases p) auto
qed

lemma deliverResponse_inv:
  assumes "chan_inv c" "deliverResponse c echo payload = (c', r)" "wp_echo payload = Some echo"
  shows "chan_inv c' \<and> ic_echo c' = ic_echo c \<and> ic_events c' = ic_events c" "call_inv c p \<Longrightarrow> call_inv c' p"
proof -
  consider "c' = c" | n where "gm_get (ic_pending c) echo = Some n"
      "c' = channel_send n (Payload payload) (c\<lparr>ic_pending := gm_del echo (ic_pending c)\<rparr>)"
    using assms(2) by (auto simp: deliverResponse_def split: option.split_asm)
  then have "(chan_inv c' \<and> ic_echo c' = ic_echo c \<and> ic_events c' = ic_events c) \<and> (call_inv c p \<longrightarrow> call_inv c' p)"
  proof cases
    case 2
    have n: "echo = echo_text n" "n \<le> ic_echo c" "ic_channels c n = []" using chan_inv_pending [OF assms(1) 2(1)] by simp_all
    have "chan_inv c'"
      using assms(1,3) n(3) unfolding 2(2) n(1) channel_send_def
      by (simp add: chan_inv_def) fastforce
    moreover have "call_inv c p \<longrightarrow> call_inv c' p" using n 2 by (cases p) (auto simp: channel_send_def)
    ultimately show ?thesis using 2(2) by (simp add: channel_send_def)
  qed (use assms in simp)
  then show "chan_inv c' \<and> ic_echo c' = ic_echo c \<and> ic_events c' = ic_events c" "call_inv c p \<Longrightarrow> call_inv c' p" by simp_all
qed

lemma read_payload_inv:
  assumes "chan_inv c" "read_payload c payload = Some c'"
  shows "chan_inv c' \<and> ic_echo c' = ic_echo c" "call_inv c p \<Longrightarrow> call_inv c' p"
proof -
  have events: "chan_inv (c1\<lparr>ic_events := evs\<rparr>)" if "chan_inv c1" "length evs \<le> eventCapacity" for c1 evs
    using that by (simp add: chan_inv_def)
  consider "c' = c" | "length (ic_events c) < eventCapacity" "c' = c\<lparr>ic_events := ic_events c @ [payload]\<rparr>"
    | echo r where "wp_echo payload = Some echo" "deliverResponse c echo payload = (c', r)"
  proof (cases "wp_echo payload")
    case None
    with assms(2) that(1) show ?thesis by (simp add: read_payload_def)
  next
    case (Some echo)
    show ?thesis
    proof (cases "echo \<noteq> [] \<and> gm_get (ic_pending c) echo \<noteq> None")
      case True
      then obtain n where "gm_get (ic_pending c) echo = Some n" by blast
      with True Some assms(2) that(3) [OF Some, of True] show ?thesis by (simp add: read_payload_def deliverResponse_def)
    next
      case False
      then have "(if echo \<noteq> [] then deliverResponse c echo payload else (c, False)) = (c, False)" by (auto simp: deliverResponse_def)
      with Some assms(2) that(2) show ?thesis by (simp add: read_payload_def split: if_split_asm)
    qed
  qed
  then have "(chan_inv c' \<and> ic_echo c' = ic_echo c) \<and> (call_inv c p \<longrightarrow> call_inv c' p)"
  proof cases
    case 2
    then show ?thesis using events [OF assms(1), of "ic_events c @ [payload]"] call_inv_cong [of c' c p] by simp
  next
    case 3
    then show ?thesis using deliverResponse_inv [OF assms(1)] by blast
  qed (use assms in simp)
  then show "chan_inv c' \<and> ic_echo c' = ic_echo c" "call_inv c p \<Longrightarrow> call_inv c' p" by simp_all
qed

lemma finish_close_inv:
  assumes "chan_inv c"
  shows "chan_inv (finish_close c err) \<and> ic_echo (finish_close c err) = ic_echo c" "call_inv c p \<Longrightarrow> call_inv (finish_close c err) p"
  using assms call_inv_cong [of "finish_close c err" c p] by (auto simp: finish_close_def chan_inv_def)

text \<open>Emptying the map: each channel that was in it gets one value.\<close>

lemma drain_channels:
  assumes "distinct (map snd m)"
  shows "ic_channels (foldl (\<lambda>c (echo, n). channel_send n (PendingErr (closeError c)) c) c m) k
     = ic_channels c k @ (if k \<in> snd ` set m then [PendingErr (closeError c)] else [])"
  using assms
proof (induction m arbitrary: c)
  case (Cons e m)
  have "closeError (channel_send n v c) = closeError c" for n v by (simp add: closeError_def channel_send_def)
  with Cons show ?case by (cases e) (auto simp: channel_send_def)
qed simp

lemma drain_frame:
  "ic_echo (foldl (\<lambda>c (echo, n). channel_send n (PendingErr (closeError c)) c) c m) = ic_echo c"
  "ic_events (foldl (\<lambda>c (echo, n). channel_send n (PendingErr (closeError c)) c) c m) = ic_events c"
  "ic_done (foldl (\<lambda>c (echo, n). channel_send n (PendingErr (closeError c)) c) c m) = ic_done c"
  by (induction m arbitrary: c) (auto simp: channel_send_def)

lemma chan_inv_distinct:
  assumes "chan_inv c"
  shows "distinct (map snd (ic_pending c))"
proof -
  have wf: "distinct (map fst (ic_pending c))" using assms by (simp add: chan_inv_def gm_wf_def)
  have "echo = echo_text n" if "(echo, n) \<in> set (ic_pending c)" for echo n
    using chan_inv_pending [OF assms] that wf by (metis map_of_eq_Some_iff)
  then have "inj_on snd (set (ic_pending c))" by (intro inj_onI) (metis prod.collapse)
  with wf show ?thesis by (simp add: distinct_map)
qed

lemma finish_drain_inv:
  assumes "chan_inv c" "ic_done c"
  shows "chan_inv (finish_drain c) \<and> ic_echo (finish_drain c) = ic_echo c" "call_inv c p \<Longrightarrow> call_inv (finish_drain c) p"
proof -
  have wf: "distinct (map fst (ic_pending c))" using assms by (simp add: chan_inv_def gm_wf_def)
  have channels: "ic_channels (finish_drain c) k = ic_channels c k @ (if k \<in> snd ` set (ic_pending c) then [PendingErr (closeError c)] else [])" for k
    using drain_channels [OF chan_inv_distinct [OF assms(1)]] by (simp add: finish_drain_def)
  have empty: "ic_channels c k = []" if "k \<in> snd ` set (ic_pending c)" for k
    using chan_inv_pending [OF assms(1)] that wf by (force simp: map_of_eq_Some_iff)
  have len: "length (ic_channels (finish_drain c) k) \<le> 1" for k
    using assms(1) empty [of k] by (auto simp: channels chan_inv_def)
  have echo: "Payload q \<in> set (ic_channels (finish_drain c) k) \<Longrightarrow> wp_echo q = Some (echo_text k)" for q k
    using assms(1) by (auto simp: channels chan_inv_def split: if_split_asm)
  have rest: "ic_pending (finish_drain c) = []" "ic_echo (finish_drain c) = ic_echo c" "ic_events (finish_drain c) = ic_events c"
      "ic_done (finish_drain c)" using assms(2) by (simp_all add: finish_drain_def drain_frame)
  show "chan_inv (finish_drain c) \<and> ic_echo (finish_drain c) = ic_echo c"
    using len echo rest assms(1) by (simp add: chan_inv_def)
  have "k \<in> snd ` set (ic_pending c)" if "gm_get (ic_pending c) (echo_text k) = Some k" for k
    using map_of_SomeD [OF that] by force
  moreover have "k \<notin> snd ` set (ic_pending c)" if "gm_get (ic_pending c) (echo_text k) = None" for k
  proof
    assume "k \<in> snd ` set (ic_pending c)"
    then obtain echo where "gm_get (ic_pending c) echo = Some k" using wf by (force simp: map_of_eq_Some_iff)
    with chan_inv_pending [OF assms(1) this] that show False by simp
  qed
  ultimately show "call_inv c p \<Longrightarrow> call_inv (finish_drain c) p"
    by (cases p) (auto simp: channels rest)
qed

section \<open>Every reachable state\<close>

lemma client_inv_begin:
  assumes "client_inv y"
  shows "client_inv (y\<lparr>sy_calls := sy_calls y @ [Begun]\<rparr>)"
proof -
  have "distinct_numbers (sy_calls y @ [Begun])"
    using assms unfolding client_inv_def distinct_numbers_def by (auto simp: nth_append less_Suc_eq)
  with assms show ?thesis by (simp add: client_inv_def)
qed

lemma client_inv_chan: "client_inv y \<Longrightarrow> chan_inv (sy_client y)"
  by (simp add: client_inv_def)

lemma client_inv_at:
  assumes "client_inv y" "call_at y i p"
  shows "call_inv (sy_client y) p" "call_number p = Some n \<Longrightarrow> n \<le> ic_echo (sy_client y)"
  using client_inv_calls [OF assms(1), of p] assms(2) by (auto simp: call_at_def)

lemma client_inv_phase:
  assumes "client_inv y" "call_at y i old" "call_inv (sy_client y) new" "call_number new = None \<or> call_number new = call_number old"
  shows "client_inv (set_call y i new)"
proof -
  have "client_inv (set_call (y\<lparr>sy_client := sy_client y\<rparr>) i new)"
    using assms client_inv_at [OF assms(1,2)] client_inv_chan [OF assms(1)] by (intro client_inv_step [of y i old]) auto
  then show ?thesis by simp
qed

lemma client_step_inv: "client_step y y' \<Longrightarrow> client_inv y \<Longrightarrow> client_inv y'"
proof (induction rule: client_step.induct)
  case (number y i c n)
  note inv = number_request_inv [OF client_inv_chan [OF number.prems] number.hyps(2)]
  show ?case
    by (rule client_inv_step [OF number.prems number.hyps(1), where k = "Some n"]) (use inv in auto)
next
  case (register y i n c)
  note at = client_inv_at [OF register.prems register.hyps(1)]
  note inv = register_request_inv [OF client_inv_chan [OF register.prems] at(1) at(2) register.hyps(2)]
  show ?case
    by (rule client_inv_step [OF register.prems register.hyps(1), where k = "Some n"]) (use inv at in auto)
next
  case (written y i n)
  show ?case
    by (rule client_inv_phase [OF written.prems written.hyps]) (use client_inv_at [OF written.prems written.hyps] in simp_all)
next
  case (give_up y i n err)
  note inv = removePending_inv [OF client_inv_chan [OF give_up.prems]]
  show ?case
    by (rule client_inv_step [OF give_up.prems give_up.hyps(1), where k = "Some n"]) (use inv in auto)
next
  case (receive y i n v vs)
  note inv = receive_inv [OF client_inv_chan [OF receive.prems] receive.hyps(2)]
  show ?case
    by (rule client_inv_step [OF receive.prems receive.hyps(1), where k = "Some n"]) (use inv in auto)
next
  case (take_event y ev evs)
  then have "chan_inv ((sy_client y)\<lparr>ic_events := evs\<rparr>)" by (simp add: client_inv_def chan_inv_def)
  from client_inv_client [OF take_event.prems this] show ?case
    using call_inv_cong [of "(sy_client y)\<lparr>ic_events := evs\<rparr>" "sy_client y"] by simp
qed (auto intro: client_inv_begin client_inv_phase client_inv_client dest: client_inv_at client_inv_chan
      read_payload_inv finish_close_inv finish_drain_inv)

lemma client_reachable_inv: "client_step\<^sup>*\<^sup>* client_start y \<Longrightarrow> client_inv y"
proof (induction rule: rtranclp_induct)
  case base
  show ?case by (simp add: client_start_def Dial_client_def client_inv_def chan_inv_def distinct_numbers_def)
qed (rule client_step_inv)

text \<open>After the connection was closed and the map emptied, a request that waits has its value.\<close>

lemma client_drained_answered:
  assumes "client_inv y" "ic_drained (sy_client y)" "call_at y i (Awaiting n)"
  shows "\<exists>v. ic_channels (sy_client y) n = [v]"
proof -
  have "ic_channels (sy_client y) n \<noteq> []"
    using client_inv_at(1) [OF assms(1,3)] client_inv_chan [OF assms(1)] assms(2) by (auto simp: chan_inv_def)
  moreover have "length (ic_channels (sy_client y) n) \<le> 1" using client_inv_chan [OF assms(1)] by (simp add: chan_inv_def)
  ultimately show ?thesis by (cases "ic_channels (sy_client y) n") auto
qed

fun call_rank :: "call_phase \<Rightarrow> nat" where
  "call_rank Begun = 5"
| "call_rank (Numbered n) = 4"
| "call_rank (Registered n) = 3"
| "call_rank (Awaiting n) = 2"
| "call_rank (GivingUp n err) = 1"
| "call_rank (Returned res) = 0"

lemma call_at_set: "call_at y i p \<Longrightarrow> call_at (set_call (y\<lparr>sy_client := c\<rparr>) i q) i q" "call_at y i p \<Longrightarrow> call_at (set_call y i q) i q"
  by (simp_all add: call_at_def set_call_def)

lemma client_drained_moves:
  assumes inv: "client_inv y" and drained: "ic_drained (sy_client y)" and at: "call_at y i p" and p: "\<forall>res. p \<noteq> Returned res"
  shows "\<exists>y' p'. client_step y y' \<and> call_at y' i p' \<and> call_rank p' < call_rank p"
proof -
  have closed: "ic_done (sy_client y)" using client_inv_chan [OF inv] drained by (simp add: chan_inv_def)
  show ?thesis
  proof (cases p)
    case Begun
    then show ?thesis using client_step.refuse [of y i] at call_at_set(2) [OF at] by fastforce
  next
    case (Numbered n)
    then show ?thesis using client_step.closed [of y i n] at closed call_at_set(2) [OF at] by (fastforce simp: register_request_def)
  next
    case (Registered n)
    then show ?thesis using client_step.written [of y i n] at call_at_set(2) [OF at] by fastforce
  next
    case (Awaiting n)
    obtain v where "ic_channels (sy_client y) n = [v]" using client_drained_answered [OF inv drained] at Awaiting by blast
    then show ?thesis using Awaiting client_step.receive [of y i n v "[]"] at call_at_set(1) [OF at] by fastforce
  next
    case (GivingUp n err)
    then show ?thesis using client_step.give_up [of y i n err] at call_at_set(1) [OF at] by fastforce
  qed (use p in simp)
qed

end
