(* ===== verification/Fairy_Outbound.thy ===== *)
theory Fairy_Outbound
  imports Fairy_Client Message_Ledger "HOL-Library.Word"
begin

text \<open>
  Sending the agent's replies (\<open>outbound.go\<close>, and \<open>sendSegmentsWithID\<close> of \<open>client.go\<close>). A reply is sent again
  when an attempt fails without an answer, each time with the same client message identifier. Here the loop
  runs against the message store of the server, over a network that may lose a request or its answer while
  other clients send too. The lemmas show that the loop ends with a verdict, that its counters add up, and
  that the server stores the reply at most once, and exactly once when the loop reports it as delivered.
\<close>

section \<open>The messenger\<close>

definition defaultOutboundMaxAttempts :: nat where "defaultOutboundMaxAttempts = 3"

record messenger =
  rm_client :: "nat option"
  rm_maxAttempts :: nat
  rm_delivered :: "64 word"
  rm_retryAttempts :: "64 word"
  rm_failed :: "64 word"
  rm_outcomeUnknown :: "64 word"
  rm_feedback :: "(string \<times> string \<times> gotime) list option"

definition newReliableMessenger :: "bool \<Rightarrow> messenger" where
  "newReliableMessenger recorder = \<lparr> rm_client = None, rm_maxAttempts = defaultOutboundMaxAttempts, rm_delivered = 0,
     rm_retryAttempts = 0, rm_failed = 0, rm_outcomeUnknown = 0, rm_feedback = (if recorder then Some [] else None) \<rparr>"

text \<open>Clients are pointers; the nil client is ignored.\<close>

definition Attach :: "messenger \<Rightarrow> nat option \<Rightarrow> messenger" where
  "Attach m client = (if client = None \<or> rm_client m = client then m else m\<lparr>rm_client := client\<rparr>)"

definition Detach :: "messenger \<Rightarrow> nat option \<Rightarrow> messenger" where
  "Detach m client = (if client = None \<or> rm_client m \<noteq> client then m else m\<lparr>rm_client := None\<rparr>)"

text \<open>What other goroutines do meanwhile: connections come and go, or the caller's context ends.\<close>

datatype wait_event = Attached "nat option" | Detached "nat option" | ContextDone

datatype waited = Got nat | Cancelled | Waiting

fun waitForClient :: "messenger \<Rightarrow> wait_event list \<Rightarrow> messenger \<times> waited" where
  "waitForClient m evs =
     (case rm_client m of
        Some client \<Rightarrow> (m, Got client)
      | None \<Rightarrow>
          (case evs of
             [] \<Rightarrow> (m, Waiting)
           | ContextDone # _ \<Rightarrow> (m, Cancelled)
           | Attached c # rest \<Rightarrow> waitForClient (Attach m c) rest
           | Detached c # rest \<Rightarrow> waitForClient (Detach m c) rest))"

declare waitForClient.simps [simp del]

fun apply_event :: "messenger \<Rightarrow> wait_event \<Rightarrow> messenger" where
  "apply_event m (Attached c) = Attach m c"
| "apply_event m (Detached c) = Detach m c"
| "apply_event m ContextDone = m"

section \<open>One attempt\<close>

text \<open>
  What happens around one attempt: events while it waits for a connection, the requests of others that the
  server handles before, whether the request arrives, whether the gateway's checks let it through to the
  store (with the sender's nickname and the time), whether the answer comes back; then whether the context has ended, the connection was closed, the
  context ended during the delay, and the connection was closed during it.
\<close>

record attempt_env =
  at_wait :: "wait_event list"
  at_others :: "msg_request list"
  at_arrives :: bool
  at_permitted :: bool
  at_nick :: string
  at_now :: gotime
  at_answered :: bool
  at_during :: "wait_event list"
  at_ctxErr :: bool
  at_closed :: bool
  at_retryErr :: bool
  at_closedLater :: bool

record network =
  nw_store :: memory_store
  nw_verdicts :: "verdict list"

datatype send_result = SendOK string | SendAPIError | SendFailed

text \<open>\<open>sendSegmentsWithID\<close> and the server's side of it.\<close>

definition message_id_of :: "message \<Rightarrow> send_result" where
  "message_id_of msg = (let ident = TrimSpace (m_ID msg) in if ident = [] \<or> 1024 < length ident then SendFailed else SendOK ident)"

definition sendSegmentsWithID :: "msg_digest \<Rightarrow> msg_request \<Rightarrow> attempt_env \<Rightarrow> network \<Rightarrow> network \<times> send_result" where
  "sendSegmentsWithID H r a nw =
     (let s1 = fst (submit_all (message_submit H) (at_others a) (nw_store nw)); nw1 = nw\<lparr>nw_store := s1\<rparr> in
      if rq_segs r = [] \<or> \<not> at_arrives a then (nw1, SendFailed)
      else if \<not> at_permitted a then (nw1, if at_answered a then SendAPIError else SendFailed)
      else
        (case StoreMessageIdempotent H s1 (rq_conv r) (rq_sender r) (at_nick a) (rq_cid r) (rq_segs r) (at_now a) of
           (s2, res) \<Rightarrow>
             (nw1\<lparr>nw_store := s2, nw_verdicts := nw_verdicts nw @ [message_verdict res]\<rparr>,
              if \<not> at_answered a then SendFailed
              else (case res of Inl _ \<Rightarrow> SendAPIError | Inr (msg, _) \<Rightarrow> message_id_of msg))))"

section \<open>The loop\<close>

datatype send_outcome = Delivered string | NoRuntimeID | NotConnected | RefusedByServer | OutcomeUnknown | StillWaiting | Panicked

definition count_failed :: "messenger \<Rightarrow> bool \<Rightarrow> messenger" where
  "count_failed m unknown =
     (let m1 = m\<lparr>rm_failed := rm_failed m + 1\<rparr> in if unknown then m1\<lparr>rm_outcomeUnknown := rm_outcomeUnknown m1 + 1\<rparr> else m1)"

definition count_delivered :: "messenger \<Rightarrow> string \<Rightarrow> string option \<Rightarrow> gotime \<Rightarrow> messenger" where
  "count_delivered m ident feedbackTurnID now =
     (let m1 = m\<lparr>rm_delivered := rm_delivered m + 1\<rparr> in
      case (feedbackTurnID, rm_feedback m1) of
        (Some turn, Some outputs) \<Rightarrow> m1\<lparr>rm_feedback := Some (outputs @ [(ident, turn, now)])\<rparr>
      | _ \<Rightarrow> m1)"

fun send_loop ::
  "msg_digest \<Rightarrow> msg_request \<Rightarrow> string option \<Rightarrow> gotime \<Rightarrow> (nat \<Rightarrow> attempt_env) \<Rightarrow> nat \<Rightarrow> nat \<Rightarrow> messenger \<Rightarrow> network
     \<Rightarrow> messenger \<times> network \<times> send_outcome" where
  "send_loop H r turn now envs attempt 0 m nw = (m, nw, Panicked)"
| "send_loop H r turn now envs attempt (Suc left) m nw =
     (let a = envs attempt in
      case waitForClient m (at_wait a) of
        (m1, Waiting) \<Rightarrow> (m1, nw, StillWaiting)
      | (m1, Cancelled) \<Rightarrow> (count_failed m1 (0 < attempt), nw, if 0 < attempt then OutcomeUnknown else NotConnected)
      | (m1, Got client) \<Rightarrow>
          (let m2 = (if 0 < attempt then m1\<lparr>rm_retryAttempts := rm_retryAttempts m1 + 1\<rparr> else m1);
               m3 = foldl apply_event m2 (at_during a) in
           case sendSegmentsWithID H r a nw of
             (nw1, SendOK ident) \<Rightarrow> (count_delivered m3 ident turn now, nw1, Delivered ident)
           | (nw1, SendAPIError) \<Rightarrow> (count_failed m3 False, nw1, RefusedByServer)
           | (nw1, SendFailed) \<Rightarrow>
               if left = 0 \<or> at_ctxErr a then (count_failed m3 True, nw1, OutcomeUnknown)
               else if at_closed a then send_loop H r turn now envs (Suc attempt) left (Detach m3 (Some client)) nw1
               else if at_retryErr a then (count_failed m3 True, nw1, OutcomeUnknown)
               else send_loop H r turn now envs (Suc attempt) left
                      (if at_closedLater a then Detach m3 (Some client) else m3) nw1))"

definition SendSegments ::
  "msg_digest \<Rightarrow> string option \<Rightarrow> string option \<Rightarrow> gotime \<Rightarrow> (nat \<Rightarrow> attempt_env) \<Rightarrow> messenger \<Rightarrow> network
     \<Rightarrow> string \<Rightarrow> string \<Rightarrow> message_segment list \<Rightarrow> messenger \<times> network \<times> send_outcome" where
  "SendSegments H random turn now envs m nw sender conversationID segments =
     (case newRuntimeID ''fairy-msg'' random of
        None \<Rightarrow> (count_failed m False, nw, NoRuntimeID)
      | Some clientMessageID \<Rightarrow>
          send_loop H \<lparr> rq_conv = conversationID, rq_sender = sender, rq_nick = [], rq_cid = clientMessageID, rq_segs = segments, rq_now = now \<rparr>
            turn now envs 0 (rm_maxAttempts m) m nw)"

definition ReplySegment :: "string \<Rightarrow> message_segment" where
  "ReplySegment messageID = \<lparr> seg_Type = ''reply'', seg_Data = [(''id'', JStr messageID)] \<rparr>"

definition text_segments :: "string \<Rightarrow> string \<Rightarrow> message_segment list" where
  "text_segments messageID text = (if messageID \<noteq> [] then [ReplySegment messageID] else []) @ [TextSegment text]"

definition SendText ::
  "msg_digest \<Rightarrow> string option \<Rightarrow> string option \<Rightarrow> gotime \<Rightarrow> (nat \<Rightarrow> attempt_env) \<Rightarrow> messenger \<Rightarrow> network
     \<Rightarrow> string \<Rightarrow> string \<Rightarrow> string \<Rightarrow> string \<Rightarrow> messenger \<times> network \<times> send_outcome" where
  "SendText H random turn now envs m nw sender conversationID messageID text =
     SendSegments H random turn now envs m nw sender conversationID (text_segments messageID text)"

definition Messenger_Stats :: "messenger option \<Rightarrow> 64 word \<times> 64 word \<times> 64 word \<times> 64 word" where
  "Messenger_Stats m =
     (case m of None \<Rightarrow> (0, 0, 0, 0) | Some m \<Rightarrow> (rm_delivered m, rm_retryAttempts m, rm_failed m, rm_outcomeUnknown m))"

section \<open>The reply in the server's store\<close>

context idempotent_ledger
begin

lemma other_key: "admissible r \<Longrightarrow> key r \<noteq> k \<Longrightarrow> lookup (fst (submit r s)) k = lookup s k"
proof (cases "lookup s (key r)")
  case None
  moreover obtain t v where "submit r s = (t, v)" by fastforce
  ultimately show "admissible r \<Longrightarrow> key r \<noteq> k \<Longrightarrow> lookup (fst (submit r s)) k = lookup s k" using fresh [of r s t v] by auto
next
  case (Some f)
  then show "admissible r \<Longrightarrow> key r \<noteq> k \<Longrightarrow> lookup (fst (submit r s)) k = lookup s k"
    by (cases "f = fp r") (auto simp: replay conflict)
qed

lemma other_keys: "list_all (\<lambda>r. admissible r \<and> key r \<noteq> k) rs \<Longrightarrow> lookup (fst (submit_all submit rs s)) k = lookup s k"
  by (induction rs arbitrary: s) (auto simp: submit_all_Cons other_key simp del: submit_all.simps(2))

end

definition stored_count :: "network \<Rightarrow> nat" where
  "stored_count nw = length (filter (\<lambda>v. v = Fresh) (nw_verdicts nw))"

definition reply_ledger :: "msg_digest \<Rightarrow> msg_request \<Rightarrow> network \<Rightarrow> bool" where
  "reply_ledger H r nw \<longleftrightarrow>
     (case message_lookup (nw_store nw) (message_key r) of
        None \<Rightarrow> stored_count nw = 0
      | Some f \<Rightarrow> f = the (message_fp H r) \<and> stored_count nw = 1)"

definition reply_in_store :: "msg_digest \<Rightarrow> msg_request \<Rightarrow> memory_store \<Rightarrow> string \<Rightarrow> bool" where
  "reply_in_store H r s ident \<longleftrightarrow>
     (\<exists>entry. gm_get (s_messageIdempotency s) (message_key r) = Some entry \<and> message_fp H r = Some (mi_fingerprint entry)
        \<and> TrimSpace (m_ID (deref s (mi_message entry))) = ident)"

definition others_ok :: "msg_digest \<Rightarrow> msg_request \<Rightarrow> (nat \<Rightarrow> attempt_env) \<Rightarrow> bool" where
  "others_ok H r envs \<longleftrightarrow> (\<forall>i. list_all (\<lambda>q. message_keyed H q \<and> message_key q \<noteq> message_key r) (at_others (envs i)))"

lemma store_reply:
  assumes keyed: "message_keyed H r"
    and store: "StoreMessageIdempotent H s (rq_conv r) (rq_sender r) nick (rq_cid r) (rq_segs r) now = (s', res)"
  shows "message_lookup s (message_key r) = None \<Longrightarrow> message_verdict res = Fresh \<and> message_lookup s' (message_key r) = message_fp H r"
    "message_lookup s (message_key r) = message_fp H r \<Longrightarrow> message_verdict res = Replay \<and> s' = s"
    "res = Inr (msg, dup) \<Longrightarrow> message_id_of msg = SendOK ident \<Longrightarrow> reply_in_store H r s' ident"
proof -
  obtain f where f: "messageRequestFingerprint H (rq_conv r) (rq_segs r) = Some f" "rq_cid r \<noteq> []"
    using keyed by (auto simp: message_keyed_def message_fp_def)
  show "message_lookup s (message_key r) = None \<Longrightarrow> message_verdict res = Fresh \<and> message_lookup s' (message_key r) = message_fp H r"
    using store f by (auto simp: StoreMessageIdempotent_def message_lookup_def message_key_def message_fp_def Let_def)
  show "message_lookup s (message_key r) = message_fp H r \<Longrightarrow> message_verdict res = Replay \<and> s' = s"
    using store f by (auto simp: StoreMessageIdempotent_def message_lookup_def message_key_def message_fp_def Let_def)
  show "res = Inr (msg, dup) \<Longrightarrow> message_id_of msg = SendOK ident \<Longrightarrow> reply_in_store H r s' ident"
    using store f
    by (auto simp: StoreMessageIdempotent_def message_lookup_def message_key_def message_fp_def Let_def message_id_of_def
        reply_in_store_def deref_def copy_message_def split: option.split_asm if_split_asm)
qed

lemma sendSegmentsWithID_ledger:
  assumes keyed: "message_keyed H r" and led: "reply_ledger H r nw"
    and others: "list_all (\<lambda>q. message_keyed H q \<and> message_key q \<noteq> message_key r) (at_others a)"
    and send: "sendSegmentsWithID H r a nw = (nw', res)"
  shows "reply_ledger H r nw'" "res = SendOK ident \<Longrightarrow> stored_count nw' = 1 \<and> reply_in_store H r (nw_store nw') ident"
proof -
  define s1 where "s1 = fst (submit_all (message_submit H) (at_others a) (nw_store nw))"
  have same: "message_lookup s1 (message_key r) = message_lookup (nw_store nw) (message_key r)"
    unfolding s1_def using others by (rule message_ledger.other_keys)
  obtain s2 v where store: "StoreMessageIdempotent H s1 (rq_conv r) (rq_sender r) (at_nick a) (rq_cid r) (rq_segs r) (at_now a) = (s2, v)"
    by fastforce
  obtain f where fp: "message_fp H r = Some f" using keyed by (auto simp: message_keyed_def)
  have step: "reply_ledger H r (nw\<lparr>nw_store := s2, nw_verdicts := nw_verdicts nw @ [message_verdict v]\<rparr>)"
    and one: "message_lookup s2 (message_key r) \<noteq> None"
  proof -
    have "reply_ledger H r (nw\<lparr>nw_store := s2, nw_verdicts := nw_verdicts nw @ [message_verdict v]\<rparr>) \<and> message_lookup s2 (message_key r) \<noteq> None"
    proof (cases "message_lookup s1 (message_key r)")
      case None
      then show ?thesis using store_reply(1) [OF keyed store] led same fp
        by (auto simp: reply_ledger_def stored_count_def split: option.split_asm)
    next
      case (Some g)
      then have "message_lookup s1 (message_key r) = message_fp H r" using led same fp by (simp add: reply_ledger_def)
      then show ?thesis using store_reply(2) [OF keyed store] led same fp
        by (auto simp: reply_ledger_def stored_count_def split: option.split_asm)
    qed
    then show "reply_ledger H r (nw\<lparr>nw_store := s2, nw_verdicts := nw_verdicts nw @ [message_verdict v]\<rparr>)"
      "message_lookup s2 (message_key r) \<noteq> None" by simp_all
  qed
  have plain: "reply_ledger H r (nw\<lparr>nw_store := s1\<rparr>)" using led same by (auto simp: reply_ledger_def stored_count_def split: option.split_asm option.split)
  show "reply_ledger H r nw'"
    using send plain step by (auto simp: sendSegmentsWithID_def Let_def store s1_def [symmetric] split: if_split_asm)
  assume ok: "res = SendOK ident"
  then obtain msg dup where nw': "nw' = nw\<lparr>nw_store := s2, nw_verdicts := nw_verdicts nw @ [message_verdict v]\<rparr>" and
      v: "v = Inr (msg, dup)" "message_id_of msg = SendOK ident"
    using send by (auto simp: sendSegmentsWithID_def Let_def store s1_def [symmetric] split: if_split_asm sum.split_asm prod.split_asm)
  have "stored_count nw' = 1" using step one by (auto simp: nw' reply_ledger_def split: option.split_asm)
  then show "stored_count nw' = 1 \<and> reply_in_store H r (nw_store nw') ident"
    using store_reply(3) [OF keyed store v] by (simp add: nw')
qed

lemma send_loop_ledger:
  assumes "message_keyed H r" "others_ok H r envs" "reply_ledger H r nw"
    and "send_loop H r turn now envs attempt left m nw = (m', nw', out)"
  shows "reply_ledger H r nw' \<and> (\<forall>ident. out = Delivered ident \<longrightarrow> stored_count nw' = 1 \<and> reply_in_store H r (nw_store nw') ident)"
  using assms
proof (induction left arbitrary: attempt m nw)
  case (Suc left)
  let ?a = "envs attempt"
  have others: "list_all (\<lambda>q. message_keyed H q \<and> message_key q \<noteq> message_key r) (at_others ?a)"
    using Suc.prems(2) by (simp add: others_ok_def)
  obtain nw1 res where send: "sendSegmentsWithID H r ?a nw = (nw1, res)" by fastforce
  note led = sendSegmentsWithID_ledger [OF Suc.prems(1,3) others send]
  note IH = Suc.IH [OF Suc.prems(1,2) led(1)]
  show ?case
  proof (cases "waitForClient m (at_wait ?a)")
    case (Pair m1 w)
    show ?thesis
    proof (cases w)
      case (Got client)
      then show ?thesis
        using Suc.prems(4) led IH by (cases res) (auto simp: Let_def Pair send split: if_split_asm)
    qed (use Suc.prems Pair in \<open>auto simp: Let_def split: if_split_asm\<close>)
  qed
qed simp

section \<open>The counters\<close>

definition counters :: "messenger \<Rightarrow> 64 word \<times> 64 word \<times> 64 word \<times> 64 word" where
  "counters m = (rm_delivered m, rm_retryAttempts m, rm_failed m, rm_outcomeUnknown m)"

lemma counters_connections [simp]:
  "counters (Attach m c) = counters m" "counters (Detach m c) = counters m" "counters (apply_event m ev) = counters m"
  by (cases ev; simp add: Attach_def Detach_def counters_def)+

lemma counters_events [simp]: "counters (foldl apply_event m evs) = counters m"
  by (induction evs arbitrary: m) simp_all

lemma counters_wait: "waitForClient m evs = (m', w) \<Longrightarrow> counters m' = counters m"
proof (induction m evs rule: waitForClient.induct)
  case (1 m evs)
  then show ?case
    by (subst (asm) (3) waitForClient.simps) (auto split: option.split_asm list.split_asm wait_event.split_asm)
qed

fun outcome_counts :: "send_outcome \<Rightarrow> 64 word \<times> 64 word \<times> 64 word" where
  "outcome_counts (Delivered ident) = (1, 0, 0)"
| "outcome_counts OutcomeUnknown = (0, 1, 1)"
| "outcome_counts StillWaiting = (0, 0, 0)"
| "outcome_counts Panicked = (0, 0, 0)"
| "outcome_counts _ = (0, 1, 0)"

definition counted :: "messenger \<Rightarrow> messenger \<Rightarrow> send_outcome \<Rightarrow> nat \<Rightarrow> bool" where
  "counted m m' out retries \<longleftrightarrow>
     (case outcome_counts out of (d, f, u) \<Rightarrow>
        counters m' = (rm_delivered m + d, rm_retryAttempts m + of_nat retries, rm_failed m + f, rm_outcomeUnknown m + u))"

lemma counted_trans:
  "counters m1 = (rm_delivered m, rm_retryAttempts m + of_nat k, rm_failed m, rm_outcomeUnknown m) \<Longrightarrow> counted m1 m' out j
   \<Longrightarrow> counted m m' out (k + j)"
  by (auto simp: counted_def counters_def split: prod.split)

lemma counters_count_failed:
  "counters (count_failed m unknown) = (rm_delivered m, rm_retryAttempts m, rm_failed m + 1, rm_outcomeUnknown m + (if unknown then 1 else 0))"
  by (simp add: counters_def count_failed_def Let_def)

lemma counters_count_delivered:
  "counters (count_delivered m ident turn now) = (rm_delivered m + 1, rm_retryAttempts m, rm_failed m, rm_outcomeUnknown m)"
  by (simp add: counters_def count_delivered_def Let_def split: option.split)

lemma send_loop_counts:
  assumes "send_loop H r turn now envs attempt left m nw = (m', nw', out)" "0 < left"
  shows "\<exists>k \<le> left - (if attempt = 0 then 1 else 0). counted m m' out k \<and> out \<notin> {Panicked, NoRuntimeID}
     \<and> (out = NotConnected \<longrightarrow> attempt = 0 \<and> nw' = nw)"
  using assms
proof (induction left arbitrary: attempt m nw)
  case (Suc left)
  let ?a = "envs attempt"
  obtain nw1 res where send: "sendSegmentsWithID H r ?a nw = (nw1, res)" by fastforce
  obtain m1 w where w: "waitForClient m (at_wait ?a) = (m1, w)" by fastforce
  have m1: "counters m1 = counters m" using counters_wait [OF w] .
  define k where "k = (if attempt = 0 then 0 else 1 :: nat)"
  define m2 where "m2 = (if 0 < attempt then m1\<lparr>rm_retryAttempts := rm_retryAttempts m1 + 1\<rparr> else m1)"
  define m3 where "m3 = foldl apply_event m2 (at_during ?a)"
  have "counters m3 = counters m2" by (simp add: m3_def)
  then have m3: "counters m3 = (rm_delivered m, rm_retryAttempts m + of_nat k, rm_failed m, rm_outcomeUnknown m)"
    using m1 by (simp add: m2_def k_def counters_def split: if_split_asm)
  have ends: "counted m m' out k" if "m' = count_failed m3 False \<and> out = RefusedByServer \<or> m' = count_failed m3 True \<and> out = OutcomeUnknown
      \<or> (\<exists>ident. m' = count_delivered m3 ident turn now \<and> out = Delivered ident)"
    using that m3 by (auto simp: counted_def counters_count_failed counters_count_delivered) (auto simp: counters_def)
  have again: ?case if "send_loop H r turn now envs (Suc attempt) left m4 nw1 = (m', nw', out)" "counters m4 = counters m3" "0 < left" for m4
  proof -
    from Suc.IH [OF that(1,3)] obtain j where "j \<le> left" "counted m4 m' out j" "out \<notin> {Panicked, NoRuntimeID}" "out \<noteq> NotConnected" by auto
    moreover from this counted_trans [of m4 m k m' out j] that(2) m3 have "counted m m' out (k + j)" by simp
    ultimately show ?thesis by (intro exI [of _ "k + j"]) (auto simp: k_def)
  qed
  show ?case
  proof (cases w)
    case (Got client)
    show ?thesis
    proof (cases res)
      case SendFailed
      then show ?thesis
        using Suc.prems(1) again ends
        by (auto simp: Let_def w Got send m2_def [symmetric] m3_def [symmetric] k_def split: if_split_asm)
    qed (use Suc.prems(1) ends in \<open>auto simp: Let_def w Got send m2_def [symmetric] m3_def [symmetric] k_def split: if_split_asm\<close>)
  next
    case Cancelled
    then show ?thesis using Suc.prems(1) m1
      by (intro exI [of _ 0]) (auto simp: Let_def w counted_def counters_count_failed counters_def [of m1] counters_def [of m] split: if_split_asm)
  next
    case Waiting
    then show ?thesis using Suc.prems(1) m1 by (intro exI [of _ 0]) (auto simp: Let_def w counted_def counters_def)
  qed
qed simp

end
