(* ===== verification/Spec2Isabelle.thy ===== *)
theory Spec2Isabelle
  imports Store_System Dynamic_Tree Dynamic_Capabilities Gateway_Answers Interaction_Tally Media_Files Fairy_Outbound Client_Perf
begin

text \<open>
  The chat server of zzzproject (\<open>src/server\<close>, Go): a WebSocket gateway (\<open>internal/gateway\<close>) that serves
  many connections over a store (\<open>internal/store\<close>) with a JSON protocol (\<open>internal/protocol\<close>), a
  store of media files (\<open>internal/media\<close>), a collector of client measurements (\<open>internal/clientperf\<close>), and
  an agent, Fairy, that takes part in the chats as an ordinary client (\<open>internal/fairy\<close>). This development
  models the in-memory store, the dynamic content engine, the gateway on top of them with its dispatcher,
  the media files, the collector, and of the agent its state, gate, traces, scheduler, memory, connection
  and sending of replies.

  \<^bold>\<open>Conventions.\<close> Every Go struct is a record with the source's field names behind a short prefix
  (\<open>m_ID\<close>, \<open>g_Members\<close>). Go maps are association lists with \<open>gm_get\<close>, \<open>gm_set\<close>, \<open>gm_del\<close>; where the
  source ranges over a map, its random order is the order of the list, and what is proved does not
  depend on it. Strings are byte lists; \<open>rune_split\<close>, \<open>TrimSpace\<close> and the other text functions of
  Go's library are written out in \<open>Prelude\<close>. Times are nanoseconds (\<open>int\<close>), \<open>zero_time\<close> is Go's zero
  time; counters wrap at 64 bits (\<open>wrap64\<close>). Decoded JSON is the datatype \<open>json\<close>. A function that
  returns an error returns a sum or an option. The clock, digests, random tokens, the password check,
  URL parsing and text encoding, all outside the repository, are arguments (\<open>env\<close>, \<open>go_std\<close>, or plain
  parameters).

  \<^bold>\<open>The store\<close> (\<open>memory.go\<close> and the files beside it). \<open>Store_Types\<close> holds the structs;
  \<open>Memory_Store\<close> the state, users, conversations and preferences; \<open>Store_Messages\<close> the message
  operations over an explicit heap of message cells, because the history and the replay table share
  pointers; \<open>Message_Ledger\<close>, \<open>Message_Log\<close>, \<open>Interaction_Ledger\<close> and \<open>Store_Deletion\<close> their
  invariants and refinements (idempotent submission, paging, reactions, read cursors, interaction
  events, deletion); \<open>Store_Groups\<close> groups and announcements; \<open>Store_Social\<close> friends, titles, blocks
  and reports; \<open>Store_Accounts\<close> sessions, vaults, terminal sessions, push subscriptions and media;
  \<open>Store_System\<close> joins all of them into one step relation over every operation and the invariant
  every reachable store satisfies. The locales \<open>invariant_system\<close>, the idempotent ledger and the
  others state the contracts once and are interpreted on the store's own operations.

  \<^bold>\<open>Dynamic content\<close> (\<open>dynamic_content.go\<close>, \<open>dynamic_capabilities.go\<close>). \<open>Dynamic_Content\<close> has
  validation, parsing and application of patches; \<open>Dynamic_Tree\<close> what patches do to the nodes of a
  tree and the bounds of a valid one; \<open>Dynamic_Capabilities\<close> negotiation and what a client is sent.

  \<^bold>\<open>Interactions\<close> (\<open>dynamic_interaction.go\<close>, \<open>dynamic_actions.go\<close> and the reducers). \<open>Dynamic_Actions\<close> and
  \<open>Dynamic_Interaction\<close> read the policies and events of interactive content, with the float arithmetic of
  \<open>Go_Float\<close>; \<open>Interaction_Tally\<close> shows that the one-pass reducers compute the declarative tally.

  \<^bold>\<open>The gateway\<close> (\<open>gateway.go\<close>, \<open>profile_cards.go\<close>). \<open>Gateway_Core\<close> models connections as records with
  a bounded queue (the channel of 256 entries; \<open>writePump\<close> takes one entry), the registry of
  connections per user, presence, broadcast and the permission checks; \<open>Gateway_Groups\<close> the group
  requests, the abstract rules they refine (\<open>group_action\<close>) and the projection of a group to its
  conversation; \<open>Gateway_Push\<close> the notifications, whose goroutine is a job that may run later on
  another store; \<open>Gateway_Friends\<close> contacts, blocks and opening conversations; \<open>Gateway_Auth\<close> login,
  sessions and logout; \<open>Gateway_Profiles\<close> profiles, reports and titles; \<open>Gateway_Messages\<close> and
  \<open>Gateway_Sending\<close> reactions, histories, read marks and sending with the checks of every kind of segment;
  \<open>Gateway_Interaction\<close> interaction events and who sees them; \<open>Gateway_Announcements\<close> announcements,
  terminal vaults and devices; \<open>Gateway_Requests\<close> the table of actions and the dispatcher;
  \<open>Gateway_System\<close> the whole server as a step relation that refines the store's; \<open>Gateway_Answers\<close> the
  answers every request gets. A handler is a function from gateway, connection and request to gateway; the
  answers and events it sends are in the queues. Requests are handled one at a time: each handler is
  atomic in the model, while the server may interleave the store calls of two connections.

  \<^bold>\<open>Media files\<close> (\<open>internal/media\<close>). \<open>Media_Files\<close> is the directory and its table with system calls that may
  fail anywhere, content addresses, previews, and the file server.

  \<^bold>\<open>The collector\<close> (\<open>internal/clientperf\<close>). \<open>Client_Perf\<close> is the ring of samples, the rate limit per address
  and the percentiles, with the rounding of float64.

  \<^bold>\<open>The agent\<close> (\<open>internal/fairy\<close>). \<open>Fairy_State\<close> the state file and the daily quotas (\<open>state.go\<close>);
  \<open>Fairy_Gate\<close> which messages the agent reacts to and the parsing of commands (\<open>gate.go\<close>, parts of
  \<open>engine.go\<close>); \<open>Fairy_Trace\<close> the trace tables, claims of events, feedback and statistics
  (\<open>trace_store.go\<close>, \<open>feedback_store.go\<close>, \<open>trace_decision.go\<close>), every statement of which may fail;
  \<open>Fairy_Scheduler\<close> the turns of conversations, with goroutines as state machines over queues on a heap
  (\<open>scheduler.go\<close>); \<open>Fairy_Memory\<close> the facts a user asked to keep and the commands that change them
  (\<open>fact_memory.go\<close>, \<open>engine.go\<close>); \<open>Fairy_Context\<close> the bounded conversation context (\<open>context.go\<close>);
  \<open>Fairy_Client\<close> requests in flight on the connection to the server (\<open>client.go\<close>); \<open>Fairy_Outbound\<close> the
  retry loop for replies, run against the message store of the server (\<open>outbound.go\<close>).

  \<^bold>\<open>What is shown.\<close> The store part: the invariant of every reachable store, at-most-once and retry
  of messages, history paging, unread counts, reactions, deletion, atomic and at-most-once
  interaction commits, ownership transfer, announcements, symmetric friendship, decisions of friend
  requests, vault revisions. The dynamic part: bounds of validated trees, what updates and patches
  change, that stored contents stay valid, what a client is sent, that votes and approvals are counted.
  The gateway part: the server refines the store, presence tracks connections, every request is answered
  once, requests without a user are refused, broadcasts reach exactly the addressed connections, sending is
  authorised, group requests implement the abstract rules and keep conversations in step, notifications
  respect preferences, friendship needs consent, blocks cut access, identities need credentials, hidden
  interactions stay hidden. Media: no listed file is lost, only registered files are served, and as they
  were uploaded. The collector: the ring is a window over the accepted samples, the rate limit holds,
  percentiles are what they say. The agent: its state survives restarts, quotas hold, gate decisions are
  valid and earned, an event is claimed once, statistics count every row, the scheduler keeps its limits and
  the order of turns and drains at shutdown, facts are bounded and changed only by those who may, the context
  accounts for everything it drops, no request on a closed connection waits for ever, and a reply is stored
  at most once. Some theorems state what the code does where that is not what it means to do: lost read
  cursors, replay records of dismissed groups, nested schemas, and group conversations taken over.

  \<^bold>\<open>Bounds.\<close> No definition uses fuel: loops are structural recursions or folds over lists, the
  recursion over trees terminates by the size of the value, and the retry loop of replies recurses on the
  attempts that are left. The operations that number messages, announcements and requests are proved fresh
  while the counter is below the largest 64-bit integer; the numbers of requests on the agent's connection
  are not taken to wrap around.

  \<^bold>\<open>Not modelled.\<close> The SQL and Redis stores (statements run by another system, with the same contract as
  the in-memory store) and push delivery (HTTP and encryption of a library); the admin HTTP server and the
  commands (glue over operations that are modelled); of the agent the calls of language models, plugins,
  tools and game services, the managed configuration and the wiring of the service, which consist of HTTP
  calls, prompts and configuration text. Locks are not modelled where an operation holds its mutex for its
  whole body: it is one step; in the scheduler and the agent's connection the steps are the sections under
  the mutex.
\<close>

section \<open>The stores the witnesses run on\<close>

text \<open>
  A store with one group, a friendship, a private conversation of two messages, a reaction, a
  read cursor and an announcement, built by the store's own operations from the empty one.
\<close>

definition sample_digest :: msg_digest where
  "sample_digest p = Some (fst p)"

definition sample_event_digest :: event_digest where
  "sample_event_digest p = Some (fst p)"

definition sample_time :: gotime where
  "sample_time = unix_epoch + 1700000000 * second"

definition sample_chat :: memory_store where
  "sample_chat =
     fst (StoreMessageIdempotent sample_digest
       (fst (StoreMessageIdempotent sample_digest NewMemoryStore ''chat'' ''alice'' ''Alice'' ''k1''
          [\<lparr>seg_Type = ''text'', seg_Data = []\<rparr>] sample_time))
       ''chat'' ''bob'' ''Bob'' ''k2'' [] (sample_time + second))"

definition sample_group :: memory_store where
  "sample_group =
     fst (AddGroupMember
       (fst (CreateGroup sample_chat ''group_1'' ''G'' [] ''alice'' sample_time sample_time))
       ''group_1'' ''bob'' sample_time)"

definition sample_event :: dynamic_interaction_event where
  "sample_event =
     \<lparr> di_EventID = ''e1'', di_ConversationID = ''chat'', di_MessageID = ''msg_1'',
       di_ContentID = ''d'', di_NodeID = ''n'', di_Event = ''click'', di_Action = ''vote'',
       di_Payload = [], di_ActorID = ''bob'', di_ActorNickname = ''Bob'', di_ActorKind = ''user'',
       di_CreatedAt = 0 \<rparr>"


definition lost_cursor_store :: memory_store where
  "lost_cursor_store =
     fst (DeleteMessage (fst (MarkConversationRead sample_chat ''chat'' ''alice'' 3)) ''msg_2'')"

definition sample_notice :: memory_store where
  "sample_notice = fst (CreateGroupAnnouncement sample_group ''group_1'' ''hi'' ''alice'' True sample_time)"

definition ghost_store :: memory_store where
  "ghost_store = fst (StoreMessageIdempotent sample_digest sample_group ''group_1'' ''alice'' ''A'' ''k9'' [] 9)"

lemma sample_chat_inv: "store_inv sample_chat"
  unfolding sample_chat_def
  by (intro StoreMessage_store_inv store_inv_init)
    (simp_all add: StoreMessageIdempotent_def sample_digest_def messageRequestFingerprint_def
      NewMemoryStore_def Let_def wrap64_def max_int64_def)

lemma new_store_counters [simp]:
  "s_msgCounter NewMemoryStore = 0" "s_announcementCounter NewMemoryStore = 0"
  "s_friendReqCounter NewMemoryStore = 0" "s_messages NewMemoryStore = []"
  by (simp_all add: NewMemoryStore_def)

lemma sample_group_inv: "store_inv sample_group"
  unfolding sample_group_def by (intro group_store_inv sample_chat_inv)

lemma show_int_small:
  "show_int 0 = ''0''" "show_int 1 = ''1''" "show_int 2 = ''2''" "show_int 3 = ''3''"
  by (simp_all add: show_int_def show_nat.simps)

lemmas sample_eval =
  sample_chat_def sample_group_def sample_digest_def StoreMessageIdempotent_def
  messageRequestFingerprint_def NewMemoryStore_def idem_key_def msg_id_def show_int_small

lemma sample_chat_parts:
  "s_messages sample_chat = [(''chat'', [0, 1])]" "s_msgCounter sample_chat = 2"
  "s_heap sample_chat = [\<lparr>m_ID = ''msg_1'', m_ConversationID = ''chat'', m_SenderID = ''alice'',
     m_SenderNickname = ''Alice'', m_Segments = [\<lparr>seg_Type = ''text'', seg_Data = []\<rparr>],
     m_Timestamp = sample_time, m_Recalled = False, m_Reactions = []\<rparr>,
    \<lparr>m_ID = ''msg_2'', m_ConversationID = ''chat'', m_SenderID = ''bob'', m_SenderNickname = ''Bob'',
     m_Segments = [], m_Timestamp = sample_time + second, m_Recalled = False, m_Reactions = []\<rparr>]"
  "s_dynamicInteractionEvents sample_chat = []" "s_dynamicInteractionByID sample_chat = []"
  "s_groups sample_chat = []" "s_messageReactions sample_chat = []"
  by (simp_all add: sample_eval Let_def wrap64_def go_simps)

lemma sample_find: "findMessageLocked sample_chat ''msg_1'' = Some 0"
  by (simp add: findMessageLocked_def live_addrs_def deref_def sample_chat_parts)

section \<open>The store: messages\<close>

text \<open>
  C1. Every store reached from the empty one by any interleaving of the store's operations
  satisfies the store invariant: unique message identifiers in conversation order, the
  interaction ledger and its index agree, reaction sets are duplicate-free, members of a
  group are distinct, announcement identifiers are unique, friendship is symmetric, push
  tables hold no empty entry.
\<close>

theorem store_reachable:
  assumes "store_step\<^sup>*\<^sup>* NewMemoryStore s"
  shows "store_inv s"
  using assms by (rule store_system.reachable_inv)

theorem store_reachable_witness:
  "store_inv (SetUserOnline (fst (AddFriend NewMemoryStore ''a'' ''b'' 5)) ''a'' True)"
proof (rule store_reachable)
  have "store_step NewMemoryStore (fst (AddFriend NewMemoryStore ''a'' ''b'' 5))"
    by (rule store_step.add_friend)
  moreover have "store_step \<dots> (SetUserOnline \<dots> ''a'' True)" by (rule store_step.set_user_online)
  ultimately show "store_step\<^sup>*\<^sup>* NewMemoryStore
      (SetUserOnline (fst (AddFriend NewMemoryStore ''a'' ''b'' 5)) ''a'' True)"
    by (meson r_into_rtranclp rtranclp.rtrancl_into_rtrancl)
qed



text \<open>
  Once a keyed message was stored, submitting the same request again, after any other keyed
  submissions, is answered as a duplicate and leaves the store as it is.
\<close>

theorem message_retry:
  assumes "message_keyed H r" "message_submit H r s = (t, Fresh)" "list_all (message_keyed H) rs"
    and "submit_all (message_submit H) rs t = (u, vs)"
  shows "message_submit H r u = (u, Replay)"
  using assms by (rule message_ledger.accepted_then_replayed)

text \<open>
  A message that is not a replay is stored with the sender, contents and time of the request under
  an identifier no earlier message has, at the end of its conversation's history, and no other
  conversation's history changes.
\<close>

theorem message_stored:
  assumes "store_inv s" "s_msgCounter s < max_int64" "H (c, segs) = Some f"
    and "k = [] \<or> gm_get (s_messageIdempotency s) (idem_key u k) = None"
  shows "\<exists>t m. StoreMessageIdempotent H s c u n k segs now = (t, Inr (m, False))
     \<and> m_SenderID m = u \<and> m_Segments m = segs \<and> m_Timestamp m = now \<and> m_ConversationID m = c
     \<and> (\<forall>a < length (s_heap s). m_ID (deref s a) \<noteq> m_ID m)
     \<and> map m_ID (log_of t c) = map m_ID (log_of s c) @ [m_ID m]
     \<and> (\<forall>d. d \<noteq> c \<longrightarrow> map m_ID (log_of t d) = map m_ID (log_of s d))"
proof -
  note inv = store_invD(1) [OF assms(1)]
  define m where "m = new_message s c u n segs now"
  define t where "t = after_store s m k f"
  have run: "StoreMessageIdempotent H s c u n k segs now = (t, Inr (m, False))"
    unfolding t_def m_def using assms(3,4) by (intro store_fresh [OF inv assms(2)]) auto
  have ids: "map (\<lambda>a. m_ID (deref t a)) (gm_list (s_messages s) d)
      = map (\<lambda>a. m_ID (deref s a)) (gm_list (s_messages s) d)" for d
    using msg_invD(7) [OF inv] by (simp add: t_def deref_after_store_old)
  have "map m_ID (log_of t c) = map m_ID (log_of s c) @ [m_ID m]"
    using ids [of c] by (simp add: log_of_def copy_message_def comp_def t_def m_def deref_after_store_new)
  moreover have "map m_ID (log_of t d) = map m_ID (log_of s d)" if "d \<noteq> c" for d
    using ids [of d] that by (simp add: log_of_def copy_message_def comp_def t_def m_def)
  moreover have "m_ID (deref s a) \<noteq> m_ID m" if "a < length (s_heap s)" for a
    unfolding m_def by (rule new_id_fresh [OF inv that])
  ultimately show ?thesis using run by (intro exI [of _ t] exI [of _ m]) (simp add: m_def)
qed

text \<open>
  C3. Paging back through a conversation with the first message of each page as the next
  cursor visits every message before the starting one exactly once and in order, whatever
  the page size; a first page is the newest messages.
\<close>

theorem history_walk:
  assumes "store_inv s" "0 < limit" "e < length (log_of s c)"
  shows "walk_back s c limit e = take e (log_of s c)
     \<and> GetMessages s c limit = drop (length (log_of s c) - nat limit) (log_of s c)"
  using walk_back_complete [OF store_invD(1) [OF assms(1)] assms(2,3)] page_newest [OF assms(2)]
  by (simp add: GetMessages_def)

theorem history_walk_witness:
  "walk_back sample_chat ''chat'' 1 1 = take 1 (log_of sample_chat ''chat'')"
  using history_walk [OF sample_chat_inv, of 1 1 "''chat''"]
  by (simp add: log_of_def sample_chat_parts go_simps)

text \<open>
  Right after a user marks a conversation read, the user has no unread message in it.
\<close>

theorem unread_cleared:
  assumes "store_inv s"
  shows "CountUnreadMessages (fst (MarkConversationRead s c u now)) c u = 0"
  using store_invD(1) [OF assms] by (rule unread_after_mark)

text \<open>
  A stored message raises the unread count of every reader whose cursor is in the history by one,
  except for its sender, whose count does not change.
\<close>

theorem unread_counts:
  assumes "store_inv s" "s_msgCounter s < max_int64" "H (c, segs) = Some f"
    and "cursor_in_log s c v"
  shows "CountUnreadMessages (fst (StoreMessageIdempotent H s c u n [] segs now)) c v =
           CountUnreadMessages s c v + (if u = v then 0 else 1)"
  using store_fresh [OF store_invD(1) [OF assms(1)] assms(2), of H c segs f "[]" u n now] assms(3)
    unread_after_store [OF store_invD(1) [OF assms(1)] assms(4) refl, of u n segs now "[]" f] by simp

text \<open>
  When the message a reader's cursor names was deleted, the in-memory store counts no message as
  unread for that reader, not even one that arrives later.
\<close>

theorem unread_lost_cursor:
  assumes "store_inv s" "s_msgCounter s < max_int64" "H (c, segs) = Some f"
    and "GetConversationRead s c v = Some st" "rs_LastReadMessageID st \<noteq> []"
    and "rs_LastReadMessageID st \<notin> m_ID ` set (log_of s c)"
    and "rs_LastReadMessageID st \<noteq> msg_id (s_msgCounter s + 1)"
  shows "CountUnreadMessages (fst (StoreMessageIdempotent H s c u n [] segs now)) c v = 0"
proof -
  note inv = store_invD(1) [OF assms(1)]
  define t where "t = fst (StoreMessageIdempotent H s c u n [] segs now)"
  have t: "t = after_store s (new_message s c u n segs now) [] f"
    using store_fresh [OF inv assms(2), of H c segs f "[]" u n now] assms(3) by (simp add: t_def)
  have "first_index (\<lambda>a. m_ID (deref t a) = rs_LastReadMessageID st) (gm_list (s_messages t) c)
      = length (gm_list (s_messages t) c)"
  proof (rule first_index_none)
    fix a
    assume "a \<in> set (gm_list (s_messages t) c)"
    then consider "a \<in> set (gm_list (s_messages s) c)" | "a = length (s_heap s)" by (auto simp: t)
    then show "m_ID (deref t a) \<noteq> rs_LastReadMessageID st"
    proof cases
      case 1
      then have "m_ID (deref s a) \<in> m_ID ` set (log_of s c)"
        by (auto simp: log_of_def copy_message_def image_iff)
      with 1 assms(6) show ?thesis using msg_invD(7) [OF inv] by (auto simp: t deref_after_store_old)
    next
      case 2
      with assms(7) show ?thesis using msg_invD(4) [OF inv] by (auto simp: t deref_after_store_new)
    qed
  qed
  moreover have "GetConversationRead t c v = Some st" using assms(4) by (simp add: t GetConversationRead_def)
  ultimately have "unread_start t c v = length (gm_list (s_messages t) c)"
    using assms(5) by (simp add: unread_start_def Let_def)
  then show ?thesis by (simp add: CountUnreadMessages_def t_def)
qed

text \<open>
  Adding or removing a reaction changes exactly that user's reaction, and the returned message lists
  each emoji with at least one reactor once, in order, with the number of distinct users who
  reacted.
\<close>

theorem reactions_counted:
  assumes "store_inv s" "GetMessage s i = Some m" "\<not> m_Recalled m"
    and "ReactToMessage s i u e rm = (t, r)"
  shows "reactors t i e = (if rm then reactors s i e - {u} else insert u (reactors s i e))
     \<and> (\<exists>m'. r = Inr (Some m') \<and> m_ID m' = i
          \<and> distinct (map r_EmojiID (m_Reactions m')) \<and> sorted (map r_EmojiID (m_Reactions m'))
          \<and> (\<forall>x. x \<in> set (m_Reactions m') \<longleftrightarrow>
                r_Count x = card (reactors t i (r_EmojiID x)) \<and> reactors t i (r_EmojiID x) \<noteq> {}))"
proof -
  obtain a where a: "findMessageLocked s i = Some a" "m = copy_message s a"
    using assms(2) by (auto simp: GetMessage_def)
  have nr: "\<not> m_Recalled (deref s a)" using a(2) assms(3) by (simp add: copy_message_def)
  note st = ReactToMessage_state [OF a(1) nr assms(4)]
  have rinv: "reaction_inv t" by (rule st(3)) (rule store_invD(3) [OF assms(1)])
  have ida: "m_ID (deref s a) = i" using findMessage_iff [OF store_invD(1) [OF assms(1)]] a(1) by blast
  note spec = reaction_counts_spec(1,2) [OF rinv, of i] reaction_counts_spec(3) [OF rinv, of _ i]
  have "sorted (map r_EmojiID (reactionCountsLocked t i))" using spec(1) sorted_sort by metis
  then show ?thesis using st(1) [of i e] st(2) spec(2,3) ida by simp
qed

text \<open>
  C4. Deleting a message removes it, its replay records, its reactions and its interaction
  events, and no other message.
\<close>

theorem delete_forgets:
  assumes "store_inv s" "DeleteMessage s i = (t, True)"
  shows "GetMessage t i = None \<and> forgotten t i
     \<and> (\<forall>j. j \<noteq> i \<longrightarrow> findMessageLocked t j = findMessageLocked s j) \<and> s_heap t = s_heap s"
  using DeleteMessage_forgets [OF store_invD(1,2) [OF assms(1)] assms(2)]
  by (simp add: GetMessage_def forgotten_def)

theorem delete_forgets_witness:
  "GetMessage (fst (DeleteMessage sample_chat ''msg_1'')) ''msg_1'' = None"
proof -
  have "snd (DeleteMessage sample_chat ''msg_1'')"
    by (simp add: DeleteMessage_def deref_def sample_chat_parts Let_def)
  then have "DeleteMessage sample_chat ''msg_1'' = (fst (DeleteMessage sample_chat ''msg_1''), True)"
    by (metis prod.collapse)
  from delete_forgets [OF sample_chat_inv this] show ?thesis by blast
qed

text \<open>
  C5. Committing an interaction event appends the event to the message's ledger and replaces
  the message's contents together, or changes nothing.
\<close>

theorem interaction_commit_atomic:
  assumes "store_inv s" "CommitDynamicInteractionEvent H s (Some e) segs now = (t, r)"
  shows "(r = Inr False \<and>
            (\<exists>a. findMessageLocked s (di_MessageID e) = Some a \<and> findMessageLocked t (di_MessageID e) = Some a
               \<and> deref t a = (deref s a)\<lparr>m_Segments := segs\<rparr>)
            \<and> ledger_events t (di_MessageID e) = ledger_events s (di_MessageID e) @ [stamped e now])
         \<or> (r \<noteq> Inr False \<and> t = s)"
  by (rule commit_atomic [OF store_invD(1) [OF assms(1)] assms(2)])

theorem interaction_commit_atomic_witness:
  "ledger_events (fst (CommitDynamicInteractionEvent sample_event_digest sample_chat (Some sample_event) [] 5)) ''msg_1''
     = [stamped sample_event 5]"
proof -
  have ok: "snd (CommitDynamicInteractionEvent sample_event_digest sample_chat (Some sample_event) [] 5) = Inr False"
    and none: "ledger_events sample_chat ''msg_1'' = []" and mid: "di_MessageID sample_event = ''msg_1''"
    by (simp_all add: CommitDynamicInteractionEvent_def sample_event_def sample_event_digest_def
        dynamicInteractionFingerprint_def sample_find ledger_events_def sample_chat_parts Let_def)
  from interaction_commit_atomic [OF sample_chat_inv prod.collapse [symmetric], of sample_event_digest sample_event "[]" 5]
  show ?thesis unfolding ok none mid by simp
qed

text \<open>
  In any run of interaction commits each actor and event identifier takes effect at most once.
\<close>

theorem interaction_at_most_once:
  assumes "list_all (event_keyed H) rs"
  shows "length (filter (\<lambda>(r, v). event_key r = k \<and> v = Fresh)
           (zip rs (snd (submit_all (commit_submit H) rs s)))) \<le> 1"
  using assms by (rule commit_ledger.at_most_once)

text \<open>
  The recent-message listing is sorted newest first, holds only stored messages, and no message it
  leaves out because of the limit is newer than one it shows.
\<close>

theorem recent_messages:
  shows "sorted_wrt (\<lambda>x y. \<not> message_recency y x) (GetRecentMessages s limit)
     \<and> mset (GetRecentMessages s limit) \<subseteq># mset (map (copy_message s) (live_addrs s))
     \<and> (\<forall>x y. x \<in> set (GetRecentMessages s limit)
          \<longrightarrow> y \<in># mset (map (copy_message s) (live_addrs s)) - mset (GetRecentMessages s limit)
          \<longrightarrow> \<not> message_recency y x)"
  unfolding GetRecentMessages_def
proof (intro conjI allI impI)
  let ?ms = "map (copy_message s) (live_addrs s)"
  show "sorted_wrt (\<lambda>x y. \<not> message_recency y x) (truncate_limit limit (go_sort message_recency ?ms))"
    by (rule message_order.truncated_sorted)
  show "mset (truncate_limit limit (go_sort message_recency ?ms)) \<subseteq># mset ?ms"
    by (rule mset_truncate_sort)
  fix x y
  assume "x \<in> set (truncate_limit limit (go_sort message_recency ?ms))"
    "y \<in># mset ?ms - mset (truncate_limit limit (go_sort message_recency ?ms))"
  then show "\<not> message_recency y x" by (rule message_order.truncated_top)
qed

section \<open>The store: groups, announcements and people\<close>

text \<open>
  C6. On a well-formed group, a transfer from the owner to another member succeeds, keeps
  the members, makes the new owner the only member with the role owner, and leaves the group
  well-formed.
\<close>

theorem ownership_transfer:
  assumes "groups_inv s" "GetGroup s i = Some grp" "g_OwnerID grp = u"
    and "v \<noteq> u" "isGroupMember s i v"
  shows "\<exists>t grp'. TransferGroupOwnership s i u v = (t, Inr ()) \<and> groups_inv t
     \<and> GetGroup t i = Some grp' \<and> g_OwnerID grp' = v
     \<and> map mb_UserID (g_Members grp') = map mb_UserID (g_Members grp)
     \<and> (\<forall>m \<in> set (g_Members grp'). (mb_Role m = ''owner'') = (mb_UserID m = v))"
proof -
  have g: "gm_get (s_groups s) i = Some grp" using assms(2) by (simp add: GetGroup_def)
  have v: "v \<in> set (map mb_UserID (g_Members grp))"
    using assms(5) g by (auto simp: isGroupMember_def list_ex_iff)
  define grp' where "grp' = grp\<lparr>g_Members := map (transferred u v) (g_Members grp), g_OwnerID := v\<rparr>"
  have run: "TransferGroupOwnership s i u v = (put_group s i grp', Inr ())"
    unfolding grp'_def by (rule TransferGroupOwnership_ok [OF assms(1) g assms(3,4) v])
  have ok: "group_ok grp'"
    unfolding grp'_def using transferred_group_ok [OF groups_inv_get(2) [OF assms(1) g]] assms(3,4) v by auto
  have inv: "groups_inv (put_group s i grp')"
    using TransferGroupOwnership_inv [OF assms(1), of i u v] run by simp
  have "map mb_UserID (g_Members grp') = map mb_UserID (g_Members grp)"
    by (simp add: grp'_def transferred_def)
  then show ?thesis
    using run inv group_ok_role [OF ok]
    by (intro exI [of _ "put_group s i grp'"] exI [of _ grp'])
      (simp add: GetGroup_def put_group_def, simp add: grp'_def)
qed

theorem ownership_transfer_witness:
  "\<exists>t. TransferGroupOwnership sample_group ''group_1'' ''alice'' ''bob'' = (t, Inr ())"
proof -
  have inv: "groups_inv sample_group"
    unfolding sample_group_def
    by (intro group_ops_inv groups_inv_cong [OF groups_inv_init])
      (simp add: sample_eval Let_def)
  obtain grp where "GetGroup sample_group ''group_1'' = Some grp" "g_OwnerID grp = ''alice''"
    "isGroupMember sample_group ''group_1'' ''bob''"
    by (simp add: sample_group_def GetGroup_def AddGroupMember_def CreateGroup_def put_group_def Let_def
        isGroupMember_def)
  from ownership_transfer [OF inv this(1,2) _ this(3)] show ?thesis by auto
qed

text \<open>
  Announcements are listed pinned first and most recently updated first, each of the group's
  announcements exactly once, with the reader's own read flag.
\<close>

theorem announcements_listed:
  shows "sorted_wrt (\<lambda>x y. \<not> announcement_less y x) (GetGroupAnnouncements s g u)
     \<and> mset (map an_ID (GetGroupAnnouncements s g u)) = mset (map an_ID (gm_list (s_groupAnnouncements s) g))
     \<and> (\<forall>a \<in> set (GetGroupAnnouncements s g u). an_IsRead a = announcement_read s (an_ID a) u)"
proof -
  let ?as = "map (\<lambda>a. a\<lparr>an_IsRead := announcement_read s (an_ID a) u\<rparr>) (gm_list (s_groupAnnouncements s) g)"
  have "mset (map an_ID (go_sort announcement_less ?as)) = image_mset an_ID (mset ?as)"
    by (simp only: mset_map mset_go_sort)
  also have "\<dots> = mset (map an_ID (gm_list (s_groupAnnouncements s) g))"
    by (simp add: multiset.map_comp comp_def)
  finally show ?thesis
    unfolding GetGroupAnnouncements_def using announcement_order.go_sort_sorted by auto
qed

text \<open>
  Marking an announcement read sets the flag of exactly that announcement and user; deleting it
  makes it unreachable and forgets its readers.
\<close>

theorem announcement_read_marks:
  assumes "store_inv s" "GetGroupAnnouncement s i = Some a"
  shows "snd (MarkGroupAnnouncementRead s i u) = Inr ()
     \<and> (\<forall>j v. announcement_read (fst (MarkGroupAnnouncementRead s i u)) j v
          \<longleftrightarrow> (j = i \<and> v = u) \<or> announcement_read s j v)
     \<and> GetGroupAnnouncement (fst (DeleteGroupAnnouncement s i)) i = None
     \<and> \<not> announcement_read (fst (DeleteGroupAnnouncement s i)) i u"
proof -
  note ann = store_invD(5) [OF assms(1)]
  have a: "an_ID a = i" "announcement_in s (an_GroupID a) a"
    using assms(2) GetGroupAnnouncement_iff [OF ann] by auto
  let ?as = "gm_list (s_groupAnnouncements s) (an_GroupID a)"
  have slot: "announcement_slot s i = Some (an_GroupID a, ?as)" using slot_Some_iff [OF ann] a by blast
  define t where "t = fst (DeleteGroupAnnouncement s i)"
  have inv_t: "announcement_inv t" unfolding t_def by (rule DeleteGroupAnnouncement_inv [OF ann])
  have lists: "gm_list (s_groupAnnouncements t) g =
      (if g = an_GroupID a then remove_first (\<lambda>a. an_ID a = i) ?as else gm_list (s_groupAnnouncements s) g)" for g
    using slot by (simp add: t_def DeleteGroupAnnouncement_def)
  have "GetGroupAnnouncement t i \<noteq> Some b" for b
  proof
    assume "GetGroupAnnouncement t i = Some b"
    then have b: "an_ID b = i" "announcement_in t (an_GroupID b) b" using GetGroupAnnouncement_iff [OF inv_t] by auto
    show False
    proof (cases "an_GroupID b = an_GroupID a")
      case True
      with b show ?thesis
        using set_remove_member [OF announcement_invD(7) [OF ann], of i "an_GroupID a"]
        by (auto simp: announcement_in_def lists)
    next
      case False
      with b have "announcement_in s (an_GroupID b) b" by (simp add: announcement_in_def lists)
      from announcement_invD(6) [OF ann this a(2)] a(1) b(1) False show ?thesis by auto
    qed
  qed
  then have "GetGroupAnnouncement t i = None" by (cases "GetGroupAnnouncement t i") auto
  then show ?thesis
    using slot
    by (auto simp: t_def MarkGroupAnnouncementRead_def announcement_read_def DeleteGroupAnnouncement_def
        split: option.splits if_splits)
qed

text \<open>
  In every reachable store friendship is symmetric and irreflexive; adding a friend makes both users
  friends and removing one ends it on both sides.
\<close>

theorem friendship_symmetric:
  assumes "store_step\<^sup>*\<^sup>* NewMemoryStore s"
  shows "AreFriends s u v = AreFriends s v u \<and> \<not> AreFriends s u u
     \<and> (u \<noteq> [] \<and> v \<noteq> [] \<and> u \<noteq> v \<longrightarrow> AreFriends (fst (AddFriend s u v now)) v u)
     \<and> \<not> AreFriends (fst (RemoveFriend s u v)) v u"
proof -
  have inv: "social_inv s" using store_system.reachable_inv [OF assms] by (rule store_invD)
  then show ?thesis
    using social_invD(1,2) [OF inv] by (auto simp: AreFriends_AddFriend AreFriends_RemoveFriend)
qed

text \<open>
  C7. A friend request that was decided keeps that decision: every later decision of the
  same request is refused, whatever other requests are decided in between.
\<close>

theorem friend_request_decided_once:
  assumes "HandleFriendRequest s i a = (t, True)" "a \<noteq> ''pending''"
  shows "decided t i a \<and> decided (fst (decide_all ds t)) i a
     \<and> (\<forall>n < length ds. fst (ds ! n) = i \<longrightarrow> \<not> snd (decide_all ds t) ! n)"
proof -
  have d: "decided t i a"
    using assms
    by (auto simp: decided_def HandleFriendRequest_def GetFriendRequest_def split: option.splits if_splits)
  with decide_all_stays [OF d] show ?thesis by simp
qed

theorem friend_request_decided_once_witness:
  "let s = fst (CreateFriendRequest NewMemoryStore ''a'' ''b'' [] 3);
       t = fst (HandleFriendRequest s ''freq_1'' ''accept'')
   in \<not> snd (decide_all [(''freq_1'', ''reject'')] t) ! 0"
proof -
  define s where "s = fst (CreateFriendRequest NewMemoryStore ''a'' ''b'' [] 3)"
  have "snd (HandleFriendRequest s ''freq_1'' ''accept'')"
    by (simp add: s_def HandleFriendRequest_def CreateFriendRequest_def NewMemoryStore_def Let_def
        friend_request_id_def wrap64_def show_int_small)
  then have "HandleFriendRequest s ''freq_1'' ''accept'' = (fst (HandleFriendRequest s ''freq_1'' ''accept''), True)"
    by (metis prod.collapse)
  from friend_request_decided_once [OF this, of "[(''freq_1'', ''reject'')]"]
  show ?thesis by (simp add: Let_def s_def)
qed

text \<open>
  C8. In any run of writes to terminal vaults, the revisions named by the accepted writes of
  one user are consecutive from the starting revision: no accepted write overwrites a
  version its writer had not seen.
\<close>

theorem vault_no_lost_update:
  assumes "0 \<le> vault_revision s u" "vault_revision s u + int (length ws) \<le> max_int64"
  shows "vault.accepted ws s u =
           map (\<lambda>i. vault_revision s u + int i) [0 ..< length (vault.accepted ws s u)]"
  using assms by (rule vault.accepted_chain)

theorem vault_no_lost_update_witness:
  "let ws = [(''a'', (''p'', 1), 0), (''a'', (''q'', 2), 0), (''a'', (''r'', 3), 1)]
   in vault.accepted ws NewMemoryStore ''a'' =
        map (\<lambda>i. int i) [0 ..< length (vault.accepted ws NewMemoryStore ''a'')]"
  using vault_no_lost_update [of NewMemoryStore "''a''"
      "[(''a'', (''p'', 1), 0), (''a'', (''q'', 2), 0), (''a'', (''r'', 3), 1)]"]
  by (simp only: Let_def) (simp add: vault_revision_def NewMemoryStore_def max_int64_def)

text \<open>
  If nobody holds more than five active titles, granting or deleting a title at a later time keeps
  it so.
\<close>

theorem title_limit:
  assumes "\<forall>u. active_titles s u now0 \<le> 5" "now0 \<le> now"
  shows "active_titles (fst (GrantUserTitle s title now)) u now \<le> 5
     \<and> active_titles (fst (DeleteUserTitle s i)) u now \<le> 5"
  using GrantUserTitle_inv [of s now0 now title] DeleteUserTitle_inv [OF titles_inv_later [of s now0 now], of i] assms
  by (auto simp: titles_inv_def)

text \<open>
  Revoking a user's sessions removes all of that user's sessions and no other.
\<close>

theorem sessions_revoked:
  assumes "gm_wf (s_sessions s)"
  shows "GetSession (DeleteSessionsForUser s u) h =
           (case GetSession s h of
              Some ss \<Rightarrow> if ss_UserID ss = u then None else Some ss | None \<Rightarrow> None)"
  using GetSession_DeleteSessionsForUser [OF assms] by (auto split: option.splits)

text \<open>
  Storing a file registers it under a new identifier and the URL that identifier resolves to, with
  its size and uploader, and no other file changes.
\<close>

theorem media_file_stored:
  assumes "file_table_inv s" "ms_counter s < max_int64" "StoreFile s n ty mime d u now = (t, i, url)"
  shows "file_table_inv t \<and> GetFile s i = None \<and> url = GetFileURL t i
     \<and> (\<exists>f. GetFile t i = Some f \<and> mf_URL f = url \<and> mf_Size f = int (length d) \<and> mf_UploaderID f = u)
     \<and> (\<forall>j. j \<noteq> i \<longrightarrow> GetFile t j = GetFile s j)"
  using StoreFile_spec [OF assms] by blast

text \<open>
  After a group is deleted, retrying a message that was stored in it is still answered as a
  successful duplicate although the message is gone: the group deletion leaves the replay records
  behind.
\<close>

theorem dismissed_group_ghost:
  assumes "store_inv s" "GetGroup s g = Some grp" "k \<noteq> []"
    and "gm_get (s_messageIdempotency s) (idem_key u k) = Some r" "H (g, segs) = Some (mi_fingerprint r)"
    and "m_ConversationID (deref s (mi_message r)) = g"
  shows "\<exists>t. DeleteGroup s g = (t, Inr ())
     \<and> GetMessage t (m_ID (deref s (mi_message r))) = None
     \<and> (\<exists>m. StoreMessageIdempotent H t g u n k segs now = (t, Inr (m, True))
            \<and> m_ID m = m_ID (deref s (mi_message r)))"
proof -
  note inv = store_invD(1) [OF assms(1)]
  define t where "t = fst (DeleteGroup s g)"
  have run: "DeleteGroup s g = (t, Inr ())" using assms(2) by (simp add: t_def DeleteGroup_def GetGroup_def)
  have t: "s_messageIdempotency t = s_messageIdempotency s" "deref t = deref s"
    "s_messages t = gm_del g (s_messages s)"
    using assms(2) by (simp_all add: t_def DeleteGroup_def GetGroup_def deref_def fun_eq_iff)
  have "findMessageLocked t (m_ID (deref s (mi_message r))) = None"
    unfolding findMessage_None t(2)
  proof
    fix a
    assume "a \<in> set (live_addrs t)"
    moreover have "gm_wf (s_messages t)" using msg_invD(1) [OF inv] by (simp add: t)
    ultimately obtain c where "a \<in> set (gm_list (s_messages s) c)" "c \<noteq> g"
      using live_iff by (metis t(3) gm_list_del empty_iff list.set(1))
    then have "a < length (s_heap s)" "a \<noteq> mi_message r"
      using msg_invD(7,8) [OF inv] assms(6) by (auto simp: deref_def)
    then show "m_ID (deref s a) \<noteq> m_ID (deref s (mi_message r))"
      using heap_id_inject [OF inv] msg_invD(10) [OF inv assms(4)] by blast
  qed
  moreover have "StoreMessageIdempotent H t g u n k segs now = (t, Inr (copy_message t (mi_message r), True))"
    by (rule store_replay) (use assms t in auto)
  ultimately show ?thesis using run by (auto simp: GetMessage_def copy_message_def t(2))
qed

section \<open>Dynamic content\<close>

text \<open>
  The standard library of the witnesses: a decoder that rejects every text, the number of keys as
  the encoded length, quoting as the identity, no URL; and a message with one dynamic content of
  two nodes.
\<close>

definition sample_std :: go_std where
  "sample_std = \<lparr> gs_decode = \<lambda>_. None, gs_encode_len = length, gs_quote = \<lambda>s. s,
     gs_ParseRequestURI = \<lambda>_. None \<rparr>"

definition sample_schema :: jobject where
  "sample_schema = [(''id'', JStr ''c1''), (''version'', JStr ''1.0''), (''source'', JStr ''ai''),
     (''tree'', JObj [(''id'', JStr ''n''), (''type'', JStr ''row''),
        (''children'', JArr [JObj [(''id'', JStr ''m''), (''type'', JStr ''text'')]])])]"

definition sample_content :: message_segment where
  "sample_content = \<lparr> seg_Type = ''dynamic_content'', seg_Data = sample_schema \<rparr>"

definition sample_patch :: jobject where
  "sample_patch = [(''operation'', JStr ''update''), (''node_id'', JStr ''m''),
     (''props'', JObj [(''text'', JStr ''hi'')])]"

definition sample_update :: jobject where
  "sample_update = [(''message_id'', JStr ''msg_1''), (''content_id'', JStr ''c1''),
     (''patches'', JArr [JObj sample_patch])]"

text \<open>A content whose schema carries a schema of its own under the key \<open>content\<close>.\<close>

definition nested_content :: message_segment where
  "nested_content = \<lparr> seg_Type = ''dynamic_content'',
     seg_Data = [(''content'', JObj (sample_schema @
        [(''content'', JObj [(''id'', JStr ''c1''), (''tree'', JObj [])])]))] \<rparr>"

text \<open>
  C9. A dynamic content segment that passes validation has a tree of at most 100 nodes, at
  most 10 levels deep, whose node identifiers are valid and pairwise different.
\<close>

theorem dynamic_tree_bounds:
  assumes "seg_Type seg = ''dynamic_content''" "validateDynamicContentSegment std seg = Inr ()"
  shows "\<exists>schema tree. dynamicSchemaFromData std (seg_Data seg) = Inr schema
     \<and> jget schema ''tree'' = JObj tree \<and> distinct (node_ids tree)
     \<and> length (node_ids tree) \<le> 100 \<and> node_depth tree \<le> 10
     \<and> list_all validDynamicIdentifier (node_ids tree)"
proof -
  from assms obtain schema where s: "dynamicSchemaFromData std (seg_Data seg) = Inr schema"
    "validateDynamicSchema std schema = Inr ()"
    by (auto simp: validateDynamicContentSegment_def split: if_splits sum.splits)
  from valid_schema_tree [OF s(2)] obtain tree where "jget schema ''tree'' = JObj tree"
    "distinct (node_ids tree)" "length (node_ids tree) \<le> maxDynamicNodes"
    "node_depth tree \<le> maxDynamicDepth" "list_all validDynamicIdentifier (node_ids tree)" by metis
  with s(1) show ?thesis by (auto simp: dynamic_limits)
qed

lemma sample_ids:
  "validDynamicIdentifier ''c1''" "validDynamicIdentifier ''n''" "validDynamicIdentifier ''m''"
  "validDynamicIdentifier ''msg_1''" "\<not> validDynamicIdentifier []"
  "TrimSpace ''1.0'' = ''1.0''" "TrimSpace ''text'' = ''text''" "TrimSpace ''row'' = ''row''"
  by (simp_all add: validDynamicIdentifier_def ascii_eval dynamic_limits)

lemmas schema_eval =
  validateDynamicSchema_def validate_fallback_def validate_metadata_def validateDynamicNode.simps
  validate_node_head_def jget_def jstr_def gm_has_def dynamic_limits rune_count_def Let_def sample_ids

lemmas patch_eval =
  apply_patch_def applyDynamicPatches_def findDynamicNode.simps children_of_def merge_props_def
  set_children_def as_map_def cloneDynamicMap_def jget_def jstr_def

definition updated_schema :: jobject where
  "updated_schema = sample_schema[3 := (''tree'', JObj [(''id'', JStr ''n''), (''type'', JStr ''row''),
     (''children'', JArr [JObj [(''id'', JStr ''m''), (''type'', JStr ''text''),
        (''props'', JObj [(''text'', JStr ''hi'')])]])])]"

lemma sample_schema_read: "dynamicSchemaFromData std sample_schema = Inr sample_schema"
  by (rule schema_of_plain) (simp add: plain_schema_def sample_schema_def jget_def)

lemma sample_schemas_valid:
  "validateDynamicSchema sample_std sample_schema = Inr ()"
  "validateDynamicSchema sample_std updated_schema = Inr ()"
  by (simp_all add: sample_schema_def updated_schema_def schema_eval)

lemma sample_content_valid: "validateDynamicContentSegment sample_std sample_content = Inr ()"
  by (simp add: validateDynamicContentSegment_def sample_content_def sample_schema_read
      sample_schemas_valid) (simp add: sample_std_def sample_schema_def dynamic_limits)

theorem dynamic_tree_bounds_witness:
  "\<exists>schema tree. dynamicSchemaFromData sample_std (seg_Data sample_content) = Inr schema
     \<and> jget schema ''tree'' = JObj tree \<and> distinct (node_ids tree)
     \<and> length (node_ids tree) \<le> 100 \<and> node_depth tree \<le> 10
     \<and> list_all validDynamicIdentifier (node_ids tree)"
  by (rule dynamic_tree_bounds [OF _ sample_content_valid]) (simp add: sample_content_def)

text \<open>
  An applied update finds exactly one dynamic content with the named identifier, replaces exactly
  that segment by the patched schema, which was validated and keeps the identifier, and leaves every
  other segment as it was.
\<close>

theorem dynamic_update_target:
  assumes "applyDynamicUpdateToSegments std segs data = Inr (segs', mid)"
  shows "\<exists>i cid patches schema updated. parseDynamicUpdateData data = Inr (mid, cid, patches)
     \<and> i < length segs \<and> is_content std cid (segs ! i)
     \<and> length (filter (is_content std cid) segs) = 1
     \<and> dynamicSchemaFromData std (seg_Data (segs ! i)) = Inr schema
     \<and> applyDynamicPatches std schema patches = Inr updated
     \<and> validateDynamicSchema std updated = Inr () \<and> jget updated ''id'' = JStr cid
     \<and> segs' = segs[i := DynamicContentSegment updated]"
proof -
  from update_segments_spec [OF assms] obtain i cid patches schema updated where
    u: "parseDynamicUpdateData data = Inr (mid, cid, patches)"
    "i < length segs" "\<forall>l < length segs. is_content std cid (segs ! l) \<longleftrightarrow> l = i"
    "dynamicSchemaFromData std (seg_Data (segs ! i)) = Inr schema"
    "applyDynamicPatches std schema patches = Inr updated" "validateDynamicSchema std updated = Inr ()"
    "jget updated ''id'' = JStr cid" "segs' = segs[i := DynamicContentSegment updated]" by metis
  have "{l. l < length segs \<and> is_content std cid (segs ! l)} = {i}" using u(2,3) by auto
  then have "length (filter (is_content std cid) segs) = 1" by (simp add: length_filter_conv_card)
  with u show ?thesis by blast
qed

lemma sample_update_parses: "parseDynamicUpdateData sample_update = Inr (''msg_1'', ''c1'', [sample_patch])"
  by (simp add: parseDynamicUpdateData_def sample_update_def sample_patch_def parse_patch_def schema_eval)

lemma sample_patched:
  "applyDynamicPatches sample_std sample_schema [sample_patch] = Inr updated_schema"
  by (simp add: sample_schema_def sample_patch_def updated_schema_def patch_eval)

lemma sample_update_applies:
  "applyDynamicUpdateToSegments sample_std [sample_content] sample_update =
     Inr ([DynamicContentSegment updated_schema], ''msg_1'')"
proof -
  have "content_index sample_std [sample_content] ''c1'' ''update'' = Inr (0, sample_schema)"
    by (simp add: content_index_def sample_content_def sample_schema_read)
      (simp add: sample_schema_def jget_def)
  then show ?thesis
    by (simp add: applyDynamicUpdateToSegments_def sample_update_parses sample_patched sample_schemas_valid)
qed

text \<open>
  Each patch changes the nodes it names and no others: an update keeps the nodes, a replace puts the
  new subtree where the named node was, a create inserts a subtree with a new identifier, a remove
  takes out the named subtree and never the root.
\<close>

theorem dynamic_patch_nodes:
  assumes "apply_patch std rt patch = Inr rt'" "parse_patch k (JObj patch) = Inr patch"
  shows "(jstr patch ''operation'' = ''update'' \<and> node_ids rt' = node_ids rt)
     \<or> (\<exists>pre old node post. jstr patch ''operation'' = ''replace'' \<and> jget patch ''node'' = JObj node
          \<and> jstr node ''id'' = jstr patch ''node_id'' \<and> jstr old ''id'' = jstr patch ''node_id''
          \<and> node_ids rt = pre @ node_ids old @ post \<and> node_ids rt' = pre @ node_ids node @ post)
     \<or> (\<exists>pre node post. jstr patch ''operation'' = ''create'' \<and> jget patch ''node'' = JObj node
          \<and> jstr node ''id'' = jstr patch ''node_id'' \<and> jstr patch ''node_id'' \<notin> set (node_ids rt)
          \<and> node_ids rt = pre @ post \<and> node_ids rt' = pre @ node_ids node @ post)
     \<or> (\<exists>pre old post. jstr patch ''operation'' = ''remove'' \<and> jstr old ''id'' = jstr patch ''node_id''
          \<and> pre \<noteq> [] \<and> node_ids rt = pre @ node_ids old @ post \<and> node_ids rt' = pre @ post)"
proof -
  have node: "\<exists>node. jget patch ''node'' = JObj node \<and> jstr node ''id'' = jstr patch ''node_id''"
    if "jstr patch ''operation'' \<in> {''create'', ''replace''}"
    using assms(2) that
    by (auto simp: parse_patch_def Let_def as_obj_iff split: if_splits option.splits sum.splits)
  have "jstr patch ''operation'' \<in> {''create'', ''update'', ''replace'', ''remove''}"
    using assms(2) by (simp add: parse_patch_def Let_def split: if_splits)
  then consider "jstr patch ''operation'' = ''update''" | "jstr patch ''operation'' = ''replace''"
    | "jstr patch ''operation'' = ''create''" | "jstr patch ''operation'' = ''remove''" by blast
  then show ?thesis
  proof cases
    case 1
    with patch_update_ids [OF assms(1)] show ?thesis by blast
  next
    case 2
    with node obtain node where "jget patch ''node'' = JObj node" "jstr node ''id'' = jstr patch ''node_id''" by auto
    with 2 patch_replace_ids [OF assms(1) 2, of node] show ?thesis by blast
  next
    case 3
    with node obtain node where "jget patch ''node'' = JObj node" "jstr node ''id'' = jstr patch ''node_id''" by auto
    with 3 patch_create_ids [OF assms(1) 3, of node] show ?thesis by blast
  next
    case 4
    with patch_remove_ids [OF assms(1) 4] show ?thesis by blast
  qed
qed

text \<open>
  Updating a message whose dynamic contents store their schema directly (no schema nested under
  content or schema) leaves a message whose dynamic contents all pass validation again and again
  store their schema directly.
\<close>

theorem dynamic_update_readable:
  assumes "applyDynamicUpdateToSegments std segs data = Inr (segs', mid)"
    and "list_all (\<lambda>s. seg_Type s = ''dynamic_content'' \<longrightarrow> plain_schema (seg_Data s)) segs"
    and "list_all (\<lambda>s. gs_encode_len std (seg_Data s) \<le> maxDynamicContentBytes) segs'"
    and "list_all (\<lambda>s. validateDynamicContentSegment std s = Inr ()) segs"
  shows "list_all (\<lambda>s. validateDynamicContentSegment std s = Inr ()) segs'
     \<and> list_all (\<lambda>s. seg_Type s = ''dynamic_content'' \<longrightarrow> plain_schema (seg_Data s)) segs'"
proof -
  from update_segments_spec [OF assms(1)] obtain i cid patches schema updated where
    i: "i < length segs" and c: "\<forall>l < length segs. is_content std cid (segs ! l) \<longleftrightarrow> l = i"
    and sch: "dynamicSchemaFromData std (seg_Data (segs ! i)) = Inr schema"
    and up: "applyDynamicPatches std schema patches = Inr updated" "validateDynamicSchema std updated = Inr ()"
    and segs': "segs' = segs[i := DynamicContentSegment updated]" by metis
  have "seg_Type (segs ! i) = ''dynamic_content''" using c i by (auto simp: is_content_def)
  then have "plain_schema (seg_Data (segs ! i))" using assms(2) i by (auto simp: list_all_length)
  with sch have "plain_schema schema" using schema_of_plain by fastforce
  then have p: "plain_schema updated" using up(1) by (rule patches_plain)
  have len: "gs_encode_len std (seg_Data (DynamicContentSegment updated)) \<le> maxDynamicContentBytes"
    using assms(3) i by (auto simp: segs' list_all_length dest!: spec [of _ i])
  have new: "validateDynamicContentSegment std (DynamicContentSegment updated) = Inr ()"
    "plain_schema (seg_Data (DynamicContentSegment updated))"
    using stored_content_valid [OF p up(2) len] stored_plain [OF p] by simp_all
  have "set segs' \<subseteq> insert (DynamicContentSegment updated) (set segs)"
    unfolding segs' by (rule set_update_subset_insert)
  with new assms(2,4) show ?thesis unfolding list_all_iff by blast
qed

text \<open>
  A schema may carry a further schema under its own key content, which validation never looks at;
  after an accepted update the stored segment is read through that key, so the effective schema of
  the stored message is one that validation rejects.
\<close>

theorem dynamic_nested_content:
  "\<exists>segs' schema. validateDynamicContentSegment sample_std nested_content = Inr ()
     \<and> applyDynamicUpdateToSegments sample_std [nested_content] sample_update = Inr ([segs'], ''msg_1'')
     \<and> seg_Type segs' = ''dynamic_content''
     \<and> dynamicSchemaFromData sample_std (seg_Data segs') = Inr schema
     \<and> validateDynamicSchema sample_std schema \<noteq> Inr ()"
proof -
  define inner where "inner = [(''content'', JObj [(''id'', JStr ''c1''), (''tree'', JObj [])])]"
  define outer where "outer = sample_schema @ inner"
  have rd: "dynamicSchemaFromData sample_std (seg_Data nested_content) = Inr outer"
    by (simp add: nested_content_def outer_def inner_def dynamicSchemaFromData_def nested_schema_def
        jget_def schema_keys_def fill_key_def gm_has_def cloneDynamicMap_def sample_schema_def)
  have valid: "validateDynamicSchema sample_std outer = Inr ()"
    "validateDynamicSchema sample_std (updated_schema @ inner) = Inr ()"
    by (simp_all add: outer_def inner_def sample_schema_def updated_schema_def schema_eval)
  have v: "validateDynamicContentSegment sample_std nested_content = Inr ()"
    by (simp add: validateDynamicContentSegment_def rd valid(1))
      (simp add: sample_std_def nested_content_def dynamic_limits)
  have patched: "applyDynamicPatches sample_std outer [sample_patch] = Inr (updated_schema @ inner)"
    by (simp add: outer_def inner_def sample_schema_def sample_patch_def updated_schema_def patch_eval)
  have "content_index sample_std [nested_content] ''c1'' ''update'' = Inr (0, outer)"
    using rd by (simp add: content_index_def) (simp add: nested_content_def outer_def sample_schema_def jget_def)
  then have up: "applyDynamicUpdateToSegments sample_std [nested_content] sample_update =
      Inr ([DynamicContentSegment (updated_schema @ inner)], ''msg_1'')"
    by (simp add: applyDynamicUpdateToSegments_def sample_update_parses patched valid(2))
  define eff where "eff = [(''id'', JStr ''c1''), (''tree'', JObj []), (''version'', JStr ''1.0''), (''source'', JStr ''ai'')]"
  have "dynamicSchemaFromData sample_std (seg_Data (DynamicContentSegment (updated_schema @ inner))) = Inr eff"
    by (simp add: eff_def DynamicContentSegment_def inner_def updated_schema_def sample_schema_def
        dynamicSchemaFromData_def nested_schema_def jget_def schema_keys_def fill_key_def gm_has_def cloneDynamicMap_def)
  moreover have "validateDynamicSchema sample_std eff \<noteq> Inr ()" by (simp add: eff_def schema_eval)
  moreover have "seg_Type (DynamicContentSegment (updated_schema @ inner)) = ''dynamic_content''"
    by (simp add: DynamicContentSegment_def)
  ultimately show ?thesis using v up by blast
qed

section \<open>Capabilities\<close>



text \<open>
  Negotiation offers dynamic content only to a client with the server's protocol and component
  version and a common schema version, keeps the client's own components, which are valid, distinct
  and at most 128, and negotiating twice changes nothing.
\<close>

theorem capabilities_negotiated:
  assumes "parseClientCapabilities std v = Inr caps" "cap_DynamicContent (negotiateCapabilities caps) = Some d"
  shows "cap_ProtocolVersion caps = CurrentProtocolVersion
     \<and> (\<exists>c. cap_DynamicContent caps = Some c \<and> dc_ComponentVersion c = CurrentDynamicComponentVersion
          \<and> dc_Components d = dc_Components c \<and> dc_Events d = dc_Events c
          \<and> dc_NodeIDPatch d = dc_NodeIDPatch c \<and> dc_ContentOperations d = dc_ContentOperations c)
     \<and> dc_SchemaVersions d = [''1.0''] \<and> dc_Components d \<noteq> [] \<and> distinct (dc_Components d)
     \<and> length (dc_Components d) \<le> 128 \<and> list_all validCapabilityName (dc_Components d)
     \<and> negotiateCapabilities (negotiateCapabilities caps) = negotiateCapabilities caps"
proof -
  from assms(2) obtain c where c: "cap_DynamicContent caps = Some c" "cap_ProtocolVersion caps = CurrentProtocolVersion"
    "dc_ComponentVersion c = CurrentDynamicComponentVersion"
    and d: "d = \<lparr> dc_SchemaVersions = intersectCapabilityValues (dc_SchemaVersions c) [''1.0''],
         dc_ComponentVersion = CurrentDynamicComponentVersion, dc_Components = dc_Components c,
         dc_Events = dc_Events c, dc_NodeIDPatch = dc_NodeIDPatch c, dc_ContentOperations = dc_ContentOperations c \<rparr>"
      "intersectCapabilityValues (dc_SchemaVersions c) [''1.0''] \<noteq> []"
    by (auto simp: negotiateCapabilities_def Let_def no_capabilities_def CurrentServerCapabilities_def
        split: if_splits option.splits)
  note p = parsed_capabilities [OF assms(1) c(1)]
  have "dc_SchemaVersions d = [''1.0'']"
    using d p(1) by (simp add: intersectCapabilityValues_def distinct_filter_single)
  with c d p negotiate_idempotent show ?thesis by simp
qed

lemma sample_caps_parsed:
  "parseClientCapabilities sample_std (JObj [(''protocol_version'', JStr ''1.0''),
     (''dynamic_content'', JObj [(''schema_versions'', JArr [JStr ''1.0'']),
        (''component_version'', JStr ''1.0''), (''components'', JArr [JStr ''text''])])])
   = Inr \<lparr> cap_ProtocolVersion = ''1.0'', cap_DynamicContent = Some
       \<lparr> dc_SchemaVersions = [''1.0''], dc_ComponentVersion = ''1.0'', dc_Components = [''text''],
         dc_Events = False, dc_NodeIDPatch = False, dc_ContentOperations = False \<rparr> \<rparr>"
  by (simp add: parseClientCapabilities_def sample_std_def decode_capabilities_def decode_dynamic_def
      struct_field_def fold_key_def fold_rune_def rune_split_ascii ascii_text_def normalizedCapabilityValues_def
      validCapabilityVersion_def validCapabilityName_def ascii_alnum_def sample_ids)

section \<open>The gateway\<close>

text \<open>
  The states the witnesses run on: a gateway on a store with the accounts alice and bob, two
  connections bound to them, and the group and conversation alice has created.
\<close>

definition sample_env :: env where
  "sample_env = \<lparr> env_std = sample_std, env_now = \<lambda>n. sample_time + int n, env_hash = \<lambda>s. s,
     env_checkPassword = \<lambda>h p. h = p, env_token = ''t'',
     env_msgDigest = \<lambda>(i, _). Some i, env_updateDigest = \<lambda>(i, _). Some i, env_eventDigest = \<lambda>(i, _). Some i,
     env_legacyEvent = \<lambda>i u _. i @ u, env_RFC3339 = \<lambda>_. [], env_timeJSON = \<lambda>_. [],
     env_text = \<lparr> gt_ToLower = \<lambda>s. s, gt_ParseFloat = \<lambda>_. None, gt_Sprintf = \<lambda>t _ _. t \<rparr>,
     env_parseRFC3339 = \<lambda>_. None, env_bcrypt = Some, env_base64 = Some, env_ParseIP = \<lambda>_. None,
     env_media = \<lparr> mx_digest = \<lambda>v. v, mx_ParseMediaType = \<lambda>_. True, mx_DetectContentType = \<lambda>_. ''text/plain'',
       mx_DecodeConfig = \<lambda>_. None, mx_Decode = \<lambda>_. None, mx_EncodeJPEG = \<lambda>_. None,
       mx_fault = \<lambda>_ _. False, mx_written = 0, mx_random = ''1'' \<rparr>,
     env_publicKey = [] \<rparr>"

definition sample_accounts :: memory_store where
  "sample_accounts = SetUser (SetUser NewMemoryStore (new_account ''alice'')) (new_account ''bob'')"

definition sample_gateway :: gateway where
  "sample_gateway =
     fst (addClient (fst (addClient (fst (HandleWebSocket (fst (HandleWebSocket (NewGateway sample_accounts False)))))
       0 ''alice'')) 1 ''bob'')"

definition sample_params :: "(string \<times> json) list \<Rightarrow> request" where
  "sample_params ps = \<lparr> rqs_Action = [], rqs_Params = JObj ps, rqs_Echo = [] \<rparr>"

definition sample_talk :: gateway where
  "sample_talk = set_store sample_gateway (SaveConversation (gw_store sample_gateway)
     \<lparr> c_ID = ''talk'', c_Type = ''private'', c_Title = [], c_Avatar = [], c_OwnerID = [],
       c_Participants = [''alice'', ''bob''], c_CreatedAt = sample_time \<rparr>)"

definition sample_circle :: gateway where
  "sample_circle = set_store sample_gateway (synced (put_group (gw_store sample_gateway) ''group_1''
     \<lparr> g_ID = ''group_1'', g_Name = ''G'', g_Avatar = [], g_Announcement = [], g_OwnerID = ''alice'', g_MuteAll = False,
       g_Members = [\<lparr> mb_UserID = ''alice'', mb_Role = ''owner'', mb_JoinedAt = 1, mb_MutedUntil = zero_time \<rparr>,
                    \<lparr> mb_UserID = ''bob'', mb_Role = ''member'', mb_JoinedAt = 2, mb_MutedUntil = zero_time \<rparr>],
       g_CreatedAt = 1 \<rparr>) ''group_1'')"

definition sample_request_store :: memory_store where
  "sample_request_store = fst (CreateFriendRequest sample_accounts ''alice'' ''bob'' [] 1)"

lemmas gateway_eval =
  sample_gateway_def sample_accounts_def NewGateway_def HandleWebSocket_def addClient_def on_conn_def
  on_store_def conn_def new_client_def new_account_def SetUserOnline_def SetUser_def NewMemoryStore_def
  Let_def no_capabilities_def gm_list_def

lemma sample_conns:
  "gw_conns sample_gateway =
     [\<lparr> cl_userID = ''alice'', cl_deviceID = [], cl_terminalSessionID = [], cl_capabilities = no_capabilities,
        cl_send = [], cl_sendDone = False \<rparr>,
      \<lparr> cl_userID = ''bob'', cl_deviceID = [], cl_terminalSessionID = [], cl_capabilities = no_capabilities,
        cl_send = [], cl_sendDone = False \<rparr>]"
  "gw_clients sample_gateway = [(''alice'', [0]), (''bob'', [1])]"
  by (simp_all add: gateway_eval)

lemma sample_users:
  "cl_userID (conn sample_gateway 0) = ''alice''" "cl_userID (conn sample_gateway (Suc 0)) = ''bob''"
  "cl_userID (conn sample_gateway 1) = ''bob''"
  by (simp_all add: conn_def sample_conns)

lemma sample_registry: "registry_inv sample_gateway"
  unfolding sample_gateway_def
  by (intro addClient_registry HandleWebSocket_inv registry_inv_new)
    (simp_all add: HandleWebSocket_def NewGateway_def addClient_def Let_def)

text \<open>
  A broadcast to a conversation appends the event, adapted to the receiver's capabilities, exactly
  once to the queue of every connection of every participant other than the excluded user that has
  room, and to no other queue.
\<close>

theorem broadcast_delivery:
  assumes "registry_inv g" "c < length (gw_conns g)" "distinct (conversation_users (gw_store g) i)"
    and "\<not> cl_sendDone (conn g c)" "length (cl_send (conn g c)) < 256"
  shows "cl_send (conn (broadcastToConversation std g i ev u) c) = cl_send (conn g c) @
     (if cl_userID (conn g c) \<noteq> [] \<and> cl_userID (conn g c) \<noteq> u
         \<and> cl_userID (conn g c) \<in> set (conversation_users (gw_store g) i)
      then (case outgoing_for std (conn g c) ev of None \<Rightarrow> [] | Some data \<Rightarrow> [data]) else [])"
  using assms(4,5)
  by (simp add: broadcast_conn [OF assms(1-3)] receive_def enqueue_def send_capacity_def split: option.split)

section \<open>Groups through the gateway\<close>

text \<open>
  C21. Each of the eleven group requests implements the abstract group rules: it leaves the
  store as it was, or changes exactly one group by an action that the rules allow to the
  user of the connection (create, invite friends as a member, join, leave, kick, mute,
  rename, change roles, transfer, dismiss, mute all).
\<close>

theorem group_requests_authorised:
  assumes "groups_inv (gw_store g)"
    and "h \<in> set [handleCreateGroup e g c req, handleGroupInvite e g c req, handleJoinGroup e g c req,
       handleLeaveGroup e g c req, handleGroupKick e g c req, handleGroupBan e g c req, handleUpdateGroup e g c req,
       handleSetGroupAdmin e g c req, handleTransferGroup e g c req, handleDismissGroup e g c req,
       handleGroupMuteAll e g c req]"
  shows "gw_store h = gw_store g
     \<or> (\<exists>i. (\<forall>j. j \<noteq> i \<longrightarrow> GetGroup (gw_store h) j = GetGroup (gw_store g) j)
          \<and> group_action (gw_store g) (cl_userID (conn g c)) (GetGroup (gw_store g) i) (GetGroup (gw_store h) i))"
proof -
  have "group_change (cl_userID (conn g c)) (gw_store g) (gw_store h)"
    using assms(2) group_handlers_change [OF assms(1)] handleCreateGroup_change handleDismissGroup_change by auto
  then show ?thesis by (rule group_change_groups)
qed

lemma sample_circle_projection: "projection_inv (gw_store sample_circle)"
proof -
  have "s_groups (gw_store sample_gateway) = []" "s_conversations (gw_store sample_gateway) = []"
    by (simp_all add: gateway_eval)
  then have "projection_inv (gw_store sample_gateway)"
    by (intro projection_inv_cong [OF projection_inv_init]) (simp_all add: NewMemoryStore_def)
  then show ?thesis
    unfolding sample_circle_def set_store_fields
    by (rule synced_projection) (simp_all add: group_ok_def)
qed

definition sample_kick :: gateway where
  "sample_kick = handleGroupKick sample_env sample_circle 1
     (sample_params [(''group_id'', JStr ''group_1''), (''user_id'', JStr ''alice'')])"

theorem group_requests_authorised_witness:
  "gw_store sample_kick = gw_store sample_circle
   \<or> (\<exists>i. (\<forall>j. j \<noteq> i \<longrightarrow> GetGroup (gw_store sample_kick) j = GetGroup (gw_store sample_circle) j)
        \<and> group_action (gw_store sample_circle) (cl_userID (conn sample_circle 1))
            (GetGroup (gw_store sample_circle) i) (GetGroup (gw_store sample_kick) i))"
proof (rule group_requests_authorised [OF projection_invD(1) [OF sample_circle_projection],
      where e = sample_env and req = "sample_params [(''group_id'', JStr ''group_1''), (''user_id'', JStr ''alice'')]"])
qed (simp only: sample_kick_def list.set insert_iff simp_thms)

text \<open>
  C22. In every state reached by group requests each group is well-formed and has a
  conversation of type group with the group's name, avatar and owner and exactly its members
  as participants.
\<close>

theorem group_conversations_in_step:
  assumes "group_step\<^sup>*\<^sup>* (NewGateway NewMemoryStore b) g" "GetGroup (gw_store g) i = Some grp"
  shows "group_ok grp
     \<and> (\<exists>conv. GetConversation (gw_store g) i = Some conv \<and> c_ID conv = i \<and> c_Type conv = ''group''
          \<and> c_Title conv = g_Name grp \<and> c_Avatar conv = g_Avatar grp \<and> c_OwnerID conv = g_OwnerID grp
          \<and> mset (c_Participants conv) = mset (map mb_UserID (g_Members grp)))"
proof -
  have inv: "projection_inv (gw_store g)" by (rule group_requests.reachable_inv [OF assms(1)])
  note p = projection_invD [OF inv]
  have "group_ok grp" using groups_inv_get(2) [OF p(1)] assms(2) by (simp add: GetGroup_def)
  with p(2) p(3) [OF assms(2)] show ?thesis by (auto simp: projects_def member_ids_def)
qed

definition created_gateway :: gateway where
  "created_gateway = handleCreateGroup sample_env sample_gateway 0 (sample_params [(''name'', JStr ''G'')])"

lemma created_group: "\<exists>grp. GetGroup (gw_store created_gateway) (''group_'' @ show_int (UnixNano sample_time)) = Some grp"
proof -
  have p: "as_obj (rqs_Params (sample_params ps)) = Some ps" for ps by (simp add: sample_params_def)
  have n: "TrimSpace (jstr [(''name'', JStr ''G'')] ''name'') = ''G''" by (simp add: jstr_def jget_def ascii_eval)
  show ?thesis
    unfolding created_gateway_def handleCreateGroup_def
    by (simp add: with_params_def sample_users p n Let_def validateGroupInviteTargets_def)
      (simp add: jget_def jstr_def CreateGroup_def Let_def sample_env_def put_group_def [symmetric] sync_run)
qed

theorem group_conversations_in_step_witness:
  "\<exists>grp. group_ok grp \<and> GetGroup (gw_store created_gateway) (''group_'' @ show_int (UnixNano sample_time)) = Some grp"
proof -
  have "group_step (NewGateway NewMemoryStore False) sample_gateway"
    by (rule group_step.elsewhere) (simp_all add: gateway_eval)
  moreover have "group_step sample_gateway created_gateway"
    unfolding created_gateway_def by (rule group_step.create)
  ultimately have "group_step\<^sup>*\<^sup>* (NewGateway NewMemoryStore False) created_gateway" by auto
  moreover obtain grp where "GetGroup (gw_store created_gateway) (''group_'' @ show_int (UnixNano sample_time)) = Some grp"
    using created_group by blast
  ultimately show ?thesis using group_conversations_in_step by blast
qed

text \<open>
  C23. Any member of a group may replace the group's conversation by a private one with
  participants of the member's choice: an ensure_conversation request for the group's
  identifier without a type is accepted, and the broadcasts of the group then go to those
  participants, while the group itself is unchanged.
\<close>

theorem group_conversation_taken_over:
  assumes "GetGroup (gw_store g) i = Some grp" "HasPrefix i ''group_''" "GetConversation (gw_store g) i = Some conv"
    and "u = cl_userID (conn g c)" "u \<noteq> []" "u \<in> set (map mb_UserID (g_Members grp))" "v \<noteq> []" "v \<noteq> u"
    and "rqs_Params req = JObj [(''conversation_id'', JStr i), (''participants'', JArr [JStr v])]"
  shows "conversation_users (gw_store (handleEnsureConversation e g c req)) i = [v, u]
     \<and> GetGroup (gw_store (handleEnsureConversation e g c req)) i = Some grp"
proof -
  obtain t where t: "i = ''group_'' @ t" using assms(2) by (auto simp: HasPrefix_iff)
  have mem: "IsGroupMember (gw_store g) i u"
    using assms(1,6) by (auto simp: IsGroupMember_def isGroupMember_def GetGroup_def list_ex_iff)
  have acc: "canAccessConversation (gw_store g) u i"
    using mem assms(2,5) t by (simp add: canAccessConversation_def)
  define params where "params = [(''conversation_id'', JStr i), (''participants'', JArr [JStr v])]"
  have run: "with_params g c req msg k = k params" for msg k
    using assms(4,5,9) by (simp add: with_params_def params_def)
  have ps: "jstr params ''conversation_id'' = i" "jstr params ''type'' = []" "requested_participants params u = [v, u]"
    using assms(7,8) by (simp_all add: params_def jstr_def jget_def requested_participants_def)
  have ag: "\<not> HasPrefix i ''agent_''" using t by (simp add: HasPrefix_iff)
  have ok: "direct_refusal (gw_store g) u i [v, u] = None" using acc assms(3) by (simp add: direct_refusal_def)
  have "gw_store (handleEnsureConversation e g c req) = SaveConversation (gw_store g)
      \<lparr> c_ID = i, c_Type = ''private'', c_Title = (if jstr params ''title'' = [] then i else jstr params ''title''),
        c_Avatar = jstr params ''avatar_url'', c_OwnerID = [], c_Participants = [v, u], c_CreatedAt = env_now e 0 \<rparr>"
    unfolding handleEnsureConversation_def run Let_def assms(4) [symmetric] ps
    using mem ag ok t by simp
  then show ?thesis using assms(1) by (simp add: conversation_users_def)
qed

definition sample_takeover :: gateway where
  "sample_takeover = handleEnsureConversation sample_env sample_circle 1 (sample_params
     [(''conversation_id'', JStr ''group_1''), (''participants'', JArr [JStr ''eve''])])"

lemma sample_circle_group:
  "\<exists>grp. GetGroup (gw_store sample_circle) ''group_1'' = Some grp \<and> map mb_UserID (g_Members grp) = [''alice'', ''bob'']"
  by (simp add: sample_circle_def GetGroup_synced)

lemma sample_circle_user: "cl_userID (conn sample_circle 1) = ''bob''"
  by (simp add: sample_circle_def sample_users)

theorem group_conversation_taken_over_witness:
  "conversation_users (gw_store sample_takeover) ''group_1'' = [''eve'', ''bob'']"
proof -
  obtain grp where grp: "GetGroup (gw_store sample_circle) ''group_1'' = Some grp"
      "map mb_UserID (g_Members grp) = [''alice'', ''bob'']"
    using sample_circle_group by (elim exE conjE)
  obtain conv where "GetConversation (gw_store sample_circle) ''group_1'' = Some conv"
    using projection_invD(3) [OF sample_circle_projection grp(1)] by (auto simp: projects_def)
  note conv = this
  have pre: "HasPrefix ''group_1'' ''group_''" by (simp add: HasPrefix_iff)
  have user: "''bob'' = cl_userID (conn sample_circle 1)" by (rule sample_circle_user [symmetric])
  have mem: "''bob'' \<in> set (map mb_UserID (g_Members grp))" unfolding grp(2) by simp
  show ?thesis
    unfolding sample_takeover_def
    by (rule group_conversation_taken_over [OF grp(1) pre conv user _ mem, THEN conjunct1]) (simp_all add: sample_params_def)
qed

section \<open>Notifications, friendships, blocks and identities\<close>

text \<open>
  The notifications sent for a message are exactly one per push subscription of each participant
  other than the sender whose preference for the conversation is not muted, and who is mentioned, or
  the message important, when the preference is mentions only.
\<close>

theorem push_respects_preferences:
  assumes "gw_jobs (pushToConversation g i m x important) = gw_jobs g @ [job]"
  shows "set (snd (run_push_job expired s job)) =
     {(u, sub). u \<in> set (conversation_users (gw_store g) i) \<and> u \<noteq> [] \<and> u \<noteq> x
        \<and> sub \<in> set (GetPushSubscriptions s u)
        \<and> (case conversationNotificationLevel (GetConversationPreference s i u) of level \<Rightarrow>
             level \<noteq> NotificationLevelMuted
             \<and> (level = NotificationLevelMentionsOnly \<longrightarrow> important \<or> messageMentionsUser (m_Segments m) u))}"
proof -
  have "\<exists>p. job = PushMessage i m (conversationRecipients (gw_store g) i x) important p"
    using assms by (auto simp: pushToConversation_def Let_def split: if_split_asm)
  then show ?thesis
    by (auto simp: run_push_job_def push_users_sent conversationRecipients_spec wants_push_def Let_def image_iff)
qed

definition sample_subscription :: push_subscription where
  "sample_subscription = \<lparr> ps_UserID = ''bob'', ps_Endpoint = ''e'', ps_P256DH = [], ps_Auth = [],
     ps_CreatedAt = 1, ps_UpdatedAt = 1 \<rparr>"

definition sample_push :: gateway where
  "sample_push = sample_talk\<lparr>gw_pushEnabled := True,
     gw_store := UpsertPushSubscription (gw_store sample_talk) sample_subscription 1\<rparr>"

text \<open>
  C24. None of the contact requests makes two users friends, unless it accepts a pending
  friend request between the two that was addressed to the user of the connection, and that
  request is recorded as accepted.
\<close>

theorem friend_added_by_consent:
  assumes "h \<in> set [handleFriendRequest e g c req, handleFriendHandle e g c req, handleRemoveFriend e g c req,
       handleSetUserBlocked e g c req, handleEnsureConversation e g c req]"
    and "AreFriends (gw_store h) x y" "\<not> AreFriends (gw_store g) x y"
  shows "\<exists>flag fr. GetFriendRequest (gw_store g) flag = Some fr \<and> fr_Status fr = ''pending''
     \<and> fr_ToID fr = cl_userID (conn g c) \<and> {fr_FromID fr, fr_ToID fr} = {x, y}
     \<and> GetFriendRequest (gw_store h) flag = Some (fr\<lparr>fr_Status := ''accepted''\<rparr>)"
proof (cases "h = handleFriendHandle e g c req")
  case True
  then show ?thesis using assms(2,3) friendship_by_accepting by blast
next
  case False
  with assms(1) consider "h = handleFriendRequest e g c req" | "h = handleRemoveFriend e g c req"
    | "h = handleSetUserBlocked e g c req" | "h = handleEnsureConversation e g c req" by auto
  then have "AreFriends (gw_store g) x y"
    by cases (use assms(2) in \<open>auto simp only: intro: no_friendship_added\<close>)
  with assms(3) show ?thesis by (rule notE)
qed

definition sample_accept :: gateway where
  "sample_accept = handleFriendHandle sample_env (set_store sample_gateway sample_request_store) 1
     (sample_params [(''flag'', JStr (friend_request_id 1)), (''action'', JStr ''accept'')])"

lemma sample_request_pending:
  "GetFriendRequest sample_request_store (friend_request_id 1) = Some \<lparr> fr_ID = friend_request_id 1, fr_FromID = ''alice'',
     fr_ToID = ''bob'', fr_Comment = [], fr_Status = ''pending'', fr_CreatedAt = 1 \<rparr>"
  "\<not> AreFriends sample_request_store x y"
  by (simp_all add: sample_request_store_def CreateFriendRequest_def Let_def sample_accounts_def SetUser_def
      NewMemoryStore_def wrap64_def GetFriendRequest_def AreFriends_def)

lemma sample_accepted: "AreFriends (gw_store sample_accept) ''alice'' ''bob''"
proof -
  have run: "with_params (set_store sample_gateway sample_request_store) 1 (sample_params ps) msg k = k ps" for msg k ps
    by (simp add: with_params_def sample_users sample_params_def)
  obtain s' where s': "decide_friend_request sample_request_store \<lparr> fr_ID = friend_request_id 1, fr_FromID = ''alice'',
       fr_ToID = ''bob'', fr_Comment = [], fr_Status = ''pending'', fr_CreatedAt = 1 \<rparr>
       (friend_request_id 1) ''accepted'' (env_now sample_env 0) = (s', True)" and f: "AreFriends s' ''alice'' ''bob''"
    using decide_friend_request_spec [OF sample_request_pending(1), of "''accepted''" "env_now sample_env 0"]
    by (auto simp: AreFriends_AddFriend sample_request_pending(2))
  have act: "normalized_action ''accept'' = Some ''accepted''" by (simp add: normalized_action_def)
  have "gw_store sample_accept = s'"
    unfolding sample_accept_def handleFriendHandle_def run Let_def
    by (simp add: jstr_def jget_def sample_request_pending(1) sample_users act s' del: One_nat_def)
  with f show ?thesis by simp
qed

theorem friend_added_by_consent_witness:
  "\<exists>flag fr. GetFriendRequest sample_request_store flag = Some fr \<and> {fr_FromID fr, fr_ToID fr} = {''alice'', ''bob''}
     \<and> GetFriendRequest (gw_store sample_accept) flag = Some (fr\<lparr>fr_Status := ''accepted''\<rparr>)"
proof -
  have "\<not> AreFriends (gw_store (set_store sample_gateway sample_request_store)) ''alice'' ''bob''"
    by (simp add: sample_request_pending(2))
  from friend_added_by_consent [OF _ sample_accepted this, where e = sample_env and c = 1 and
      req = "sample_params [(''flag'', JStr (friend_request_id 1)), (''action'', JStr ''accept'')]"]
  show ?thesis unfolding sample_accept_def [symmetric] set_store_fields list.set by blast
qed




text \<open>
  C26. On a gateway with an access token, a connection gets a user identity only through a
  session token of that user that has not expired, that account's password, or the
  configured access token.
\<close>

theorem identity_needs_credentials:
  assumes "c < length (gw_conns g)" "cl_userID (conn g c) = []" "cl_userID (conn (handleAuth e g c req) c) = u" "u \<noteq> []" "gw_accessToken g \<noteq> []"
  shows "\<exists>params. as_obj (rqs_Params req) = Some params \<and>
     ((\<exists>token sess. token \<in> {jstr params ''session_token'', jstr params ''token''}
             \<and> GetSession (gw_store g) (env_hash e token) = Some sess \<and> ss_UserID sess = u
             \<and> env_now e 0 < ss_ExpiresAt sess)
     \<or> (\<exists>usr. GetUser (gw_store g) u = Some usr \<and> u_PasswordHash usr \<noteq> []
             \<and> env_checkPassword e (u_PasswordHash usr) (jstr params ''password''))
     \<or> gw_accessToken g \<in> {jstr params ''session_token'', jstr params ''token''})"
proof -
  obtain params s1 where p: "as_obj (rqs_Params req) = Some params" "auth_identity e g params = (s1, Inr u)"
    using handleAuth_user [OF assms(1-4)] by (elim exE conjE)
  show ?thesis by (rule exI [of _ params], rule conjI [OF p(1) auth_identity_sound [OF p(2) assms(5)]])
qed

definition sample_locked :: gateway where
  "sample_locked = fst (HandleWebSocket (SetAccessToken (NewGateway NewMemoryStore False) ''key''))"

definition sample_login :: request where
  "sample_login = sample_params [(''token'', JStr ''key''), (''user_id'', JStr ''dave'')]"

lemma sample_logged_in: "cl_userID (conn (handleAuth sample_env sample_locked 0 sample_login) 0) = ''dave''"
proof -
  let ?ps = "[(''token'', JStr ''key''), (''user_id'', JStr ''dave'')]"
  have c: "gw_conns sample_locked \<noteq> []" "cl_userID (conn sample_locked 0) = []" "gw_accessToken sample_locked = ''key''"
      "gw_store sample_locked = NewMemoryStore"
    by (simp_all add: sample_locked_def HandleWebSocket_def SetAccessToken_def NewGateway_def conn_def new_client_def)
  have ps: "jstr ?ps ''session_token'' = []" "jstr ?ps ''token'' = ''key''" "jstr ?ps ''user_id'' = ''dave''"
      "jstr ?ps ''password'' = []" "jstr ?ps ''device_id'' = []" "jget ?ps ''capabilities'' = JNull"
    by (simp_all add: jstr_def jget_def)
  have v: "validUserID ''dave''" by (simp add: validUserID_def ascii_eval unicode_IsControl_def)
  have who: "auth_identity sample_env sample_locked ?ps = (NewMemoryStore, Inr ''dave'')"
    by (simp add: auth_identity_def ps userForSession_def c GetSession_def NewMemoryStore_def credential_verdict_def v)
  have new: "GetUser NewMemoryStore ''dave'' = None" by (simp add: GetUser_def NewMemoryStore_def)
  show ?thesis
    unfolding handleAuth_def Let_def sample_login_def sample_params_def
    by (simp add: ps parseClientCapabilities_def who c TrimSpace_def new bind_connection_user)
qed

theorem identity_needs_credentials_witness:
  "cl_userID (conn (handleAuth sample_env sample_locked 0 sample_login) 0) = ''dave''
   \<and> (\<exists>params. as_obj (rqs_Params sample_login) = Some params)"
  using identity_needs_credentials [OF _ _ sample_logged_in] sample_logged_in
  by (auto simp: sample_locked_def HandleWebSocket_def SetAccessToken_def NewGateway_def conn_def new_client_def)

section \<open>The server as a whole\<close>

text \<open>
  A server that asks for a token: a socket is opened, and a text arrives on it that the decoder reads
  as the login of dave.
\<close>

definition sample_text :: json where
  "sample_text = JObj [(''action'', JStr ''auth''), (''params'', rqs_Params sample_login), (''echo'', JStr ''e1'')]"

definition sample_reader :: env where
  "sample_reader = sample_env\<lparr>env_std := sample_std\<lparr>gs_decode := \<lambda>_. Some sample_text\<rparr>\<rparr>"

definition sample_socket :: gateway where
  "sample_socket = fst (HandleWebSocket (boot NewMemoryStore False ''key'' [] []))"

definition sample_arrived :: gateway where
  "sample_arrived = readPump sample_reader sample_socket 0 []"

lemma sample_text_read:
  "decode_request sample_text = Some \<lparr> rqs_Action = ''auth'', rqs_Params = rqs_Params sample_login, rqs_Echo = ''e1'' \<rparr>"
proof -
  have "sort_key fst [(''action'', a), (''params'', b), (''echo'', c)] = [(''action'', a), (''echo'', c), (''params'', b)]" for a b c :: json
    by (simp add: ascii_eval)
  then show ?thesis by (simp add: sample_text_def struct_field_def fold_key_def fold_rune_def)
qed

lemma sample_arrived_auth:
  "sample_arrived = handleAuth sample_reader sample_socket 0
     \<lparr> rqs_Action = ''auth'', rqs_Params = rqs_Params sample_login, rqs_Echo = ''e1'' \<rparr>"
  by (simp add: sample_arrived_def readPump_def sample_reader_def [THEN arg_cong [of _ _ env_std]] sample_text_read
      handleRequest_def handlers_def)

lemma sample_arrived_user: "cl_userID (conn sample_arrived 0) = ''dave''"
proof -
  let ?ps = "[(''token'', JStr ''key''), (''user_id'', JStr ''dave'')]"
  have c: "gw_conns sample_socket \<noteq> []" "cl_userID (conn sample_socket 0) = []" "gw_accessToken sample_socket = ''key''"
      "gw_store sample_socket = NewMemoryStore"
    by (simp_all add: sample_socket_def HandleWebSocket_def boot_def SetAccessToken_def SetMediaUploader_def SetInviteCode_def
        NewGateway_def conn_def new_client_def)
  have ps: "jstr ?ps ''session_token'' = []" "jstr ?ps ''token'' = ''key''" "jstr ?ps ''user_id'' = ''dave''"
      "jstr ?ps ''password'' = []" "jstr ?ps ''device_id'' = []" "jget ?ps ''capabilities'' = JNull"
    by (simp_all add: jstr_def jget_def)
  have v: "validUserID ''dave''" by (simp add: validUserID_def ascii_eval unicode_IsControl_def)
  have who: "auth_identity sample_reader sample_socket ?ps = (NewMemoryStore, Inr ''dave'')"
    by (simp add: auth_identity_def ps userForSession_def c GetSession_def NewMemoryStore_def credential_verdict_def v)
  have new: "GetUser NewMemoryStore ''dave'' = None" by (simp add: GetUser_def NewMemoryStore_def)
  show ?thesis
    unfolding sample_arrived_auth handleAuth_def Let_def sample_login_def sample_params_def
    by (simp add: ps parseClientCapabilities_def who c TrimSpace_def new bind_connection_user)
qed

lemma sample_arrived_reached: "server_step\<^sup>*\<^sup>* (boot NewMemoryStore False ''key'' [] []) sample_arrived"
proof -
  have "server_step (boot NewMemoryStore False ''key'' [] []) sample_socket"
    unfolding sample_socket_def by (rule server_step.connected)
  moreover have "server_step sample_socket sample_arrived"
    unfolding sample_arrived_def
    by (rule server_step.received) (simp_all add: sample_socket_def HandleWebSocket_def boot_def SetAccessToken_def
        SetMediaUploader_def SetInviteCode_def NewGateway_def counters_free_def NewMemoryStore_def max_int64_def)
  ultimately show ?thesis by (rule converse_rtranclp_into_rtranclp [OF _ r_into_rtranclp])
qed

text \<open>
  C12. In every state the server reaches from a fresh store by sockets opening and closing,
  any texts arriving, writes and late notifications: the account of every bound connection
  exists and is online; without an invite code (no self registration) an account is online
  only while a connection is bound to it; the registry lists exactly the connections of each
  user, once; and no send queue exceeds its capacity of 256.
\<close>

theorem presence_tracks_connections:
  assumes "fresh_store s" "server_step\<^sup>*\<^sup>* (boot s b token code media) g"
  shows "(\<forall>c < length (gw_conns g). cl_userID (conn g c) \<noteq> [] \<longrightarrow>
        (\<exists>usr. GetUser (gw_store g) (cl_userID (conn g c)) = Some usr \<and> u_Online usr))
     \<and> (TrimSpace code = [] \<longrightarrow> (\<forall>u usr. GetUser (gw_store g) u = Some usr \<longrightarrow> u_Online usr \<longrightarrow>
          (\<exists>c < length (gw_conns g). cl_userID (conn g c) = u \<and> u \<noteq> [])))
     \<and> (\<forall>u. distinct (clientsForUser g u) \<and> (\<forall>c. c \<in> set (clientsForUser g u) \<longleftrightarrow>
          c < length (gw_conns g) \<and> cl_userID (conn g c) = u \<and> u \<noteq> []))
     \<and> (\<forall>c < length (gw_conns g). length (cl_send (conn g c)) \<le> 256)"
proof -
  note r = server_reached [OF assms(2) boot_inv [OF assms(1)]]
  have inv: "registry_inv g" "live_inv g" "TrimSpace code = [] \<Longrightarrow> online_inv g"
    using r(1,3) by (simp_all add: server_inv_def boot_def SetMediaUploader_def SetInviteCode_def)
  note reg = registry_invD [OF inv(1)]
  have connected: "gm_list (gw_clients g) u \<noteq> [] \<longleftrightarrow> (\<exists>c < length (gw_conns g). cl_userID (conn g c) = u \<and> u \<noteq> [])" for u
    using reg(4) [of _ u] by (metis list.set_intros(1) empty_iff empty_set neq_Nil_conv)
  have "\<exists>usr. GetUser (gw_store g) (cl_userID (conn g c)) = Some usr \<and> u_Online usr"
    if "c < length (gw_conns g)" "cl_userID (conn g c) \<noteq> []" for c
    using inv(2) connected [of "cl_userID (conn g c)"] that unfolding live_inv_def by blast
  moreover have "\<exists>c < length (gw_conns g). cl_userID (conn g c) = u \<and> u \<noteq> []"
    if "TrimSpace code = []" "GetUser (gw_store g) u = Some usr" "u_Online usr" for u usr
    using inv(3) [OF that(1)] that(2,3) connected [of u] unfolding online_inv_def by blast
  ultimately show ?thesis using reg(3-5) by (simp add: clientsForUser_def send_capacity_def)
qed

theorem presence_tracks_connections_witness:
  "\<exists>usr. GetUser (gw_store sample_arrived) ''dave'' = Some usr \<and> u_Online usr"
proof -
  have "length (gw_conns sample_arrived) = length (gw_conns sample_socket)"
    using answered_message [of 0 sample_reader "[]" sample_socket] by (simp add: answered_def sample_arrived_def)
  then have "0 < length (gw_conns sample_arrived)" by (simp add: sample_socket_def HandleWebSocket_def)
  with presence_tracks_connections [OF fresh_new sample_arrived_reached] show ?thesis
    using sample_arrived_user by fastforce
qed

text \<open>
  C11. Every run of the server (sockets opened and closed, any text arriving on any
  connection, queued entries written, notification jobs delivered late) is a run of the
  store's operations, and the store it leaves satisfies the store invariant.
\<close>

theorem server_refines_store:
  assumes "fresh_store s" "server_step\<^sup>*\<^sup>* (boot s b token code media) g"
  shows "store_step\<^sup>*\<^sup>* s (gw_store g) \<and> store_inv (gw_store g)"
proof -
  have "gw_store (boot s b token code media) = s"
    by (simp add: boot_def SetMediaUploader_def SetInviteCode_def SetAccessToken_def NewGateway_def)
  then show ?thesis
    using server_reached [OF assms(2) boot_inv [OF assms(1)]] by (simp add: server_inv_def)
qed

theorem server_refines_store_witness:
  "store_step\<^sup>*\<^sup>* NewMemoryStore (gw_store sample_arrived)"
  using server_refines_store [OF fresh_new sample_arrived_reached] by simp



text \<open>
  C14. On a connection without a user every action except auth, register, logout and ping is
  refused with an error (not authenticated, or unknown action), and the store stays as it
  was.
\<close>

theorem unauthenticated_refused:
  assumes "cl_userID (conn g c) = []" "rqs_Action req \<notin> {''auth'', ''register'', ''logout'', ''ping''}"
  shows "handleRequest e g c req = sendError g c (rqs_Echo req)
       (if rqs_Action req \<in> fst ` set handlers then ''not authenticated'' else ''unknown action: '' @ rqs_Action req)
     \<and> gw_store (handleRequest e g c req) = gw_store g"
  using refused_request [OF assms(1), of req e] assms(2) by (simp add: open_actions_def)

theorem unauthenticated_refused_witness:
  "gw_store (handleRequest sample_env sample_socket 0 ((sample_params [])\<lparr>rqs_Action := ''send_message''\<rparr>)) = NewMemoryStore"
proof -
  have "gw_conns sample_socket = [new_client]" "gw_store sample_socket = NewMemoryStore"
    by (simp_all add: sample_socket_def HandleWebSocket_def boot_def SetAccessToken_def SetMediaUploader_def
        SetInviteCode_def NewGateway_def)
  then show ?thesis
    using unauthenticated_refused [of sample_socket 0 "(sample_params [])\<lparr>rqs_Action := ''send_message''\<rparr>" sample_env]
    by (simp add: conn_def new_client_def sample_params_def)
qed

section \<open>Media files\<close>

text \<open>An upload on an empty directory, with a digest that is hexadecimal and a disk without faults.\<close>

definition sample_media :: media_env where
  "sample_media = \<lparr> mx_digest = \<lambda>_. replicate 64 CHR ''0'', mx_ParseMediaType = \<lambda>_. True,
     mx_DetectContentType = \<lambda>_. ''text/plain'', mx_DecodeConfig = \<lambda>_. Some (1280, 720), mx_Decode = \<lambda>_. None,
     mx_EncodeJPEG = \<lambda>_. None, mx_fault = \<lambda>_ _. False, mx_written = 0, mx_random = ''1'' \<rparr>"

definition sample_saved :: "disk \<times> memory_store \<times> (media_error + media_file)" where
  "sample_saved = LocalStore_Save sample_media [] NewMemoryStore ''a.txt'' ''file'' ''text/plain'' ''hello'' ''alice'' sample_time"

definition sample_media_file :: media_file where
  "sample_media_file = media_metadata (replicate 64 CHR ''0'') ''a.txt'' ''file'' ''text/plain'' ''hello'' ''alice''
     ([], 0, 0) sample_time"

lemma sample_media_hex: "digest_hex sample_media"
  by (simp add: digest_hex_def sample_media_def list_all_length hex_digit_def)

lemma sample_saved_eval:
  "sample_saved = ([(replicate 64 CHR ''0'', ''hello'')], StoreMedia NewMemoryStore sample_media_file, Inr sample_media_file)"
proof -
  have "makeThumbnail sample_media ''hello'' ''text/plain'' = ([], 0, 0)" by (simp add: makeThumbnail_def HasPrefix_iff)
  moreover have "media_type sample_media ''text/plain'' ''hello'' = ''text/plain''"
    by (simp add: media_type_def sample_media_def)
  moreover have "contentID sample_media ''alice'' ''hello'' = replicate 64 CHR ''0''"
    by (simp add: contentID_def sample_media_def)
  moreover have "safeFileName ''a.txt'' = ''a.txt''" by (simp add: safeFileName_def base_name_def ascii_eval)
  moreover have "GetMedia NewMemoryStore i = None" for i by (simp add: GetMedia_def NewMemoryStore_def)
  ultimately show ?thesis
    by (simp add: sample_saved_def LocalStore_Save_def sample_media_file_def)
      (simp add: write_file_def sample_media_def Let_def)
qed

text \<open>
  C18. In every state of the media directory and table reached by uploads, with disk faults
  anywhere, and metadata changes, every listed file has a valid identifier, its bytes are on
  disk and are the ones its identifier was derived from, and a file with a preview URL has
  the preview on disk.
\<close>

theorem media_never_lost:
  assumes "digest_hex e" "media_reachable (mx_digest e) d s" "GetMedia s ident = Some file"
  shows "validID ident \<and> mf_ID file = ident
     \<and> (\<exists>data. gm_get d ident = Some data \<and> ident = contentID e (mf_UploaderID file) data)
     \<and> (mf_ThumbnailURL file \<noteq> [] \<longrightarrow> gm_get d (thumb_name ident) \<noteq> None)"
proof -
  have inv: "media_inv e d s" by (rule reachable_media_inv [OF assms(2,1)])
  then have "validID ident" by (rule media_inv_validID [OF _ assms(1)]) (simp add: assms(3))
  with inv assms(3) show ?thesis unfolding media_inv_def by simp
qed

theorem media_never_lost_witness:
  "\<exists>data. gm_get (fst sample_saved) (replicate 64 CHR ''0'') = Some data"
proof -
  have "media_reachable (mx_digest sample_media) (fst sample_saved) (fst (snd sample_saved))"
    by (rule media_reachable.media_save [OF media_reachable.media_start refl, of sample_media "''a.txt''" "''file''"
          "''text/plain''" "''hello''" "''alice''" sample_time _ _ "Inr sample_media_file"])
      (simp add: sample_saved_eval sample_saved_eval [unfolded sample_saved_def])
  moreover have "GetMedia (fst (snd sample_saved)) (replicate 64 CHR ''0'') = Some sample_media_file"
    by (simp add: sample_saved_eval GetMedia_def StoreMedia_def sample_media_file_def media_metadata_def)
  ultimately show ?thesis using media_never_lost [OF sample_media_hex] by blast
qed






text \<open>
  The preview of an image that passes the pixel limit measures between 1 and 640 in both directions,
  and every source pixel the scaling loop reads is inside the image.
\<close>

theorem thumbnail_bounds:
  assumes "0 < width" "0 < height" "width \<le> maxDecodedImagePixels div height" "thumbnail_size width height = (w, h)"
  shows "1 \<le> w \<and> w \<le> 640 \<and> 1 \<le> h \<and> h \<le> 640
     \<and> (\<forall>x y. 0 \<le> x \<and> x < w \<and> 0 \<le> y \<and> y < h \<longrightarrow>
          0 \<le> x * width div w \<and> x * width div w < width \<and> 0 \<le> y * height div h \<and> y * height div h < height)"
proof -
  have "maxDecodedImagePixels div height \<le> 2 ^ 26" "width * height \<le> 2 ^ 26"
  proof -
    show "maxDecodedImagePixels div height \<le> 2 ^ 26"
      using assms(2) zdiv_mono2 [of maxDecodedImagePixels 1 height] by (simp add: maxDecodedImagePixels_def)
    have "width * height \<le> maxDecodedImagePixels div height * height" using assms(2,3) by (simp add: mult_right_mono)
    also have "\<dots> \<le> maxDecodedImagePixels"
      using assms(2) pos_mod_sign [of height maxDecodedImagePixels] by (simp add: minus_mod_eq_div_mult [symmetric] del: pos_mod_sign)
    finally show "width * height \<le> 2 ^ 26" by (simp add: maxDecodedImagePixels_def)
  qed
  moreover have "height \<le> width * height" using assms(1,2) by (simp add: mult_le_cancel_right1)
  ultimately have "width \<le> 2 ^ 26" "height \<le> 2 ^ 26" using assms(3) by linarith+
  then have b: "1 \<le> w" "w \<le> 640" "1 \<le> h" "h \<le> 640"
    using thumbnail_size_bounds [of width height w h] assms by (auto simp: maxThumbnailEdge_def)
  with source_index_bounds assms(1,2) show ?thesis by simp
qed

section \<open>Messages and interactions through the gateway\<close>























section \<open>The agent service\<close>

text \<open>A service with one conversation, a disk and a database without faults.\<close>

definition sample_state_env :: state_env where
  "sample_state_env = \<lparr> se_date = \<lambda>t. if t < 100 then ''d1'' else ''d2'', se_scopeKey = concat, se_marshal = \<lambda>_. ''{}'',
     se_decode = \<lambda>_. Some (persisted_json (initial_state\<lparr>ps_QuotaDate := ''d1'', ps_QuotaCalls := 1\<rparr>)),
     se_fault = \<lambda>_. False, se_unreadable = False \<rparr>"

definition sample_opened :: state_store where
  "sample_opened = \<lparr> st_groupDefault = True, st_softDefault = GroupSoftOn, st_state = initial_state, st_file = None \<rparr>"

definition sample_call :: "gotime \<Rightarrow> call_request" where
  "sample_call t = \<lparr> cr_now = t, cr_task = None, cr_fault = \<lambda>_. False \<rparr>"

lemma sample_opened_Open: "OpenStateStoreWithDefaults sample_state_env None True GroupSoftOn = Inr sample_opened"
  by (simp add: OpenStateStoreWithDefaults_def sample_opened_def validGroupSoftMode_def)

text \<open>
  C27. Whatever changes the agent's state went through, with a failing file system at any
  point, opening the state file again succeeds and gives the switches, modes and quota
  counters the running service had last; a change that could not be saved is in neither.
\<close>

theorem state_survives_restart:
  assumes "OpenStateStoreWithDefaults e content groupDefault softDefault = Inr s0" "(state_step e)\<^sup>*\<^sup>* s0 s"
    and "validGroupSoftMode softDefault'" "\<not> se_unreadable e"
    and "\<And>p. state_view p = state_view (st_state s) \<Longrightarrow> se_decode e (state_text e p) = Some (persisted_json p)"
  shows "\<exists>r. OpenStateStoreWithDefaults e (st_file s) groupDefault' softDefault' = Inr r
     \<and> state_view (st_state r) = state_view (st_state s)"
proof -
  have "st_file s0 = content"
    using assms(1) by (auto simp: OpenStateStoreWithDefaults_def Let_def split: if_split_asm option.split_asm)
  from run_file [OF assms(2) Open_ok [OF assms(1)]] show ?thesis
  proof (elim conjE disjE exE)
    assume u: "unchanged s0 s"
    from Open_defaults [OF assms(1,3)] obtain r where "OpenStateStoreWithDefaults e content groupDefault' softDefault' = Inr r"
      "st_state r = st_state s0" by blast
    with u \<open>st_file s0 = content\<close> show ?thesis by (auto simp: unchanged_def)
  next
    fix w assume w: "wrote e w w" "state_ok (st_state w)" "unchanged w s"
    then have "se_decode e (state_text e (st_state w)) = Some (persisted_json (st_state w))"
      by (intro assms(5)) (simp add: unchanged_def)
    from Open_written [OF w(1,2) assms(3,4) this, of groupDefault'] w(3) show ?thesis by (simp add: unchanged_def)
  qed
qed

theorem state_survives_restart_witness:
  "\<exists>r. OpenStateStoreWithDefaults sample_state_env (st_file (fst (TakeModelCall sample_state_env sample_opened 5 3))) True GroupSoftOff = Inr r
     \<and> state_view (st_state r) = state_view (initial_state\<lparr>ps_QuotaDate := ''d1'', ps_QuotaCalls := 1\<rparr>)"
proof -
  let ?s = "fst (TakeModelCall (sample_state_env\<lparr>se_fault := \<lambda>_. False\<rparr>) sample_opened 5 3)"
  have st: "st_state ?s = initial_state\<lparr>ps_QuotaDate := ''d1'', ps_QuotaCalls := 1\<rparr>"
    by (simp add: TakeModelCall_def saveLocked_def sample_state_env_def sample_opened_def initial_state_def save_steps_def wrap64_def Let_def)
  have e: "sample_state_env\<lparr>se_fault := \<lambda>_. False\<rparr> = sample_state_env" by (simp add: sample_state_env_def)
  have "(state_step sample_state_env)\<^sup>*\<^sup>* sample_opened ?s"
    by (rule r_into_rtranclp, rule state_step.call_taken) (simp add: max_int64_def)
  then have "\<exists>r. OpenStateStoreWithDefaults sample_state_env (st_file ?s) True GroupSoftOff = Inr r \<and> state_view (st_state r) = state_view (st_state ?s)"
  proof (rule state_survives_restart [OF sample_opened_Open])
    fix p :: persisted_state assume "state_view p = state_view (st_state ?s)"
    then have "p = initial_state\<lparr>ps_QuotaDate := ''d1'', ps_QuotaCalls := 1\<rparr>"
      by (cases p) (simp add: st state_view_def initial_state_def)
    then show "se_decode sample_state_env (state_text sample_state_env p) = Some (persisted_json p)" by (simp add: sample_state_env_def)
  qed (simp_all add: validGroupSoftMode_def sample_state_env_def)
  then show ?thesis by (simp only: e st [unfolded e])
qed

text \<open>
  C28. Over any run of requests for model calls in the order of time, no date is granted
  more calls than the daily limit, and no task more than its own, also when saving the
  counters fails in between.
\<close>

theorem quota_never_exceeded:
  assumes "OpenStateStoreWithDefaults e None groupDefault softDefault = Inr s" "calendar (se_date e)" "sorted (map cr_now rs)"
    and "0 \<le> limit" "limit \<le> max_int64" "\<And>i. 0 \<le> limits i \<and> limits i \<le> max_int64"
  shows "int (length (filter (\<lambda>r. se_date e (cr_now r) = d) (granted_run (take_call e limit limits) rs s))) \<le> limit
     \<and> int (length (filter (\<lambda>r. cr_task r = Some i \<and> se_date e (cr_now r) = d) (granted_run (take_call e limit limits) rs s))) \<le> limits i"
proof -
  have "counts_ok s" using assms(1)
    by (auto simp: OpenStateStoreWithDefaults_def Let_def counts_ok_def initial_state_def gm_int_def split: if_split_asm)
  then have inv: "quota_inv limit limits s" using assms(5,6) by (simp add: quota_inv_def)
  show ?thesis
    using model_quota.day_bound [OF assms(2) inv assms(3,4)] task_quota.day_bound [OF assms(2) inv assms(3), of i] assms(6) by simp
qed

theorem quota_never_exceeded_witness:
  "length (granted_run (take_call sample_state_env 1 (\<lambda>_. 1)) [sample_call 1, sample_call 2, sample_call 200] sample_opened) = 2
   \<and> length (filter (\<lambda>r. se_date sample_state_env (cr_now r) = ''d1'')
       (granted_run (take_call sample_state_env 1 (\<lambda>_. 1)) [sample_call 1, sample_call 2, sample_call 200] sample_opened)) \<le> 1"
proof
  have "calendar (se_date sample_state_env)" by (simp add: calendar_def sample_state_env_def)
  then show "length (filter (\<lambda>r. se_date sample_state_env (cr_now r) = ''d1'')
       (granted_run (take_call sample_state_env 1 (\<lambda>_. 1)) [sample_call 1, sample_call 2, sample_call 200] sample_opened)) \<le> 1"
    using quota_never_exceeded [OF sample_opened_Open, of "[sample_call 1, sample_call 2, sample_call 200]" 1 "\<lambda>_. 1" "''d1''"]
    by (simp add: sample_call_def max_int64_def)
qed (simp add: sample_call_def take_call_def TakeModelCall_def saveLocked_def sample_state_env_def sample_opened_def
      initial_state_def save_steps_def wrap64_def Let_def)

text \<open>
  C29. Every decision of the message gate has an action, reason and flags that belong
  together and that the trace store accepts, and a preview decides exactly as the committed
  evaluation would.
\<close>

theorem gate_decision_valid:
  "validGateDecision (snd (Evaluate gt st g ev behavior now commit))
   \<and> snd (Evaluate gt st g ev behavior now True) = snd (Evaluate gt st g ev behavior now False)"
  by (simp add: Evaluate_valid Evaluate_commit)

text \<open>A group where a member mentions the agent and goes on writing.\<close>

definition sample_fairy_text :: go_text where
  "sample_fairy_text = \<lparr> gt_ToLower = \<lambda>x. x, gt_ParseFloat = \<lambda>_. None, gt_Sprintf = \<lambda>_ _ _. [] \<rparr>"

definition sample_behavior :: behavior_config where
  "sample_behavior = \<lparr> bc_GroupSoftDefault = GroupSoftOn, bc_FocusTTL = 60, bc_SoftCooldown = 5, bc_ExpressionStyle = [] \<rparr>"

definition sample_fairy_event :: "message_segment list \<Rightarrow> fairy_event" where
  "sample_fairy_event segs = \<lparr> fe_PostType = ''message'', fe_MessageType = ''group'', fe_MessageID = ''m1'', fe_ConversationID = ''c1'',
     fe_Sender = \<lparr> sd_UserID = ''alice'', sd_Nickname = ''Alice'', sd_Avatar = [] \<rparr>, fe_Message = segs, fe_Timestamp = 0,
     fe_LocalAgent = False, fe_FairyOwned = False, fe_DynamicEventAudit = False \<rparr>"

text \<open>
  C30. In any history of evaluations, a soft trigger in a group follows a committed trigger
  of the same sender in that conversation with no other trigger there in between, younger
  than the focus time, and older than the cooldown when that was a soft one.
\<close>

theorem gate_soft_earned:
  assumes "gate_history gt behavior g hs" "0 < bc_FocusTTL behavior"
    and "gd_Reason (snd (Evaluate gt st g ev behavior now commit)) = GateReasonSoftTrigger"
  shows "\<exists>newer t ev0 d0 older. hs = newer @ (t, ev0, True, d0) # older
     \<and> (\<forall>x \<in> set newer. \<not> triggered (fe_ConversationID ev) x) \<and> triggered (fe_ConversationID ev) (t, ev0, True, d0)
     \<and> sd_UserID (fe_Sender ev0) = sd_UserID (fe_Sender ev) \<and> now < t + bc_FocusTTL behavior
     \<and> (gd_Reason d0 = GateReasonSoftTrigger \<and> 0 < bc_SoftCooldown behavior \<and> t \<noteq> zero_time \<longrightarrow> bc_SoftCooldown behavior \<le> now - t)"
proof -
  obtain g' d where e: "Evaluate gt st g ev behavior now commit = (g', d)" by fastforce
  then show ?thesis
  proof (cases rule: Evaluate_cases)
    case (soft f)
    have "earned behavior hs (fe_ConversationID ev) f"
      using gate_history_inv [OF assms(1,2)] soft(4) by (simp add: gate_inv_def soft_allowed_def)
    with soft(4) show ?thesis unfolding earned_def soft_allowed_def by (metis linorder_not_le)
  qed (use assms(3) e in simp_all)
qed

definition sample_at :: message_segment where
  "sample_at = \<lparr> seg_Type = ''at'', seg_Data = [(''qq'', JStr ''fairy'')] \<rparr>"

definition sample_words :: message_segment where
  "sample_words = \<lparr> seg_Type = ''text'', seg_Data = [(''text'', JStr ''hi'')] \<rparr>"

definition sample_mention_result :: "message_gate \<times> gate_decision" where
  "sample_mention_result = Evaluate sample_fairy_text (Some sample_opened) (NewMessageGate ''fairy'')
     (sample_fairy_event [sample_at, sample_words]) sample_behavior 10 True"

definition sample_focused :: message_gate where
  "sample_focused = \<lparr> mg_userID = ''fairy'', mg_focuses = [(''c1'', \<lparr> cf_senderID = ''alice'', cf_expiresAt = 70, cf_lastSoftAt = zero_time \<rparr>)] \<rparr>"

lemma sample_hi: "TrimSpace ''hi'' = ''hi''" "commandTrigger sample_fairy_text ''hi'' = False"
  by (simp_all add: commandTrigger_def command_prefixes_def HasPrefix_iff sample_fairy_text_def ascii_eval)

lemma sample_texts:
  "messageText [sample_at, sample_words] ''fairy'' = (''hi'', True)" "messageText [sample_words] ''fairy'' = (''hi'', False)"
  by (simp_all add: messageText_def sample_at_def sample_words_def jstr_def jget_def)

lemma sample_group: "is_group_event (sample_fairy_event segs)" "GroupEnabled sample_opened i" "GroupSoftMode sample_opened i = GroupSoftOn"
  by (simp_all add: is_group_event_def sample_fairy_event_def GroupEnabled_def GroupSoftMode_def sample_opened_def initial_state_def)

lemma sample_event_sel:
  "sd_UserID (fe_Sender (sample_fairy_event segs)) = ''alice''" "fe_ConversationID (sample_fairy_event segs) = ''c1''"
  "fe_MessageID (sample_fairy_event segs) = ''m1''" "fe_Message (sample_fairy_event segs) = segs"
  by (simp_all add: sample_fairy_event_def)

lemmas sample_gate_eval = Evaluate_def Let_def sample_texts sample_hi sample_group sample_event_sel

lemma sample_mention_gate:
  "sample_mention_result = (sample_focused, (decision GateTrigger GateReasonExplicitMention)\<lparr>gd_Hard := True\<rparr>)"
  by (simp add: sample_mention_result_def sample_gate_eval NewMessageGate_def)
     (simp add: set_focus_def sample_event_sel sample_behavior_def sample_focused_def no_focus_def Let_def)

lemma sample_soft_reason:
  "gd_Reason (snd (Evaluate sample_fairy_text (Some sample_opened) sample_focused (sample_fairy_event [sample_words]) sample_behavior 20 True))
   = GateReasonSoftTrigger"
proof -
  have "mg_userID sample_focused = ''fairy''" by (simp add: sample_focused_def)
  moreover have "GroupSoftOn \<noteq> GroupSoftOff" "GroupSoftOn \<noteq> GroupSoftShadow" by (simp_all add: GroupSoftOn_def GroupSoftOff_def GroupSoftShadow_def)
  ultimately show ?thesis
    by (simp add: sample_gate_eval) (simp add: soft_gate_def sample_focused_def sample_event_sel sample_behavior_def Let_def)
qed

theorem gate_soft_earned_witness:
  "\<exists>t. 20 < t + bc_FocusTTL sample_behavior \<and> t = 10"
proof -
  have h: "gate_history sample_fairy_text sample_behavior sample_focused
      [(10, sample_fairy_event [sample_at, sample_words], True, snd sample_mention_result)]"
    by (rule gate_history.evaluated [OF gate_history.opened [of _ _ "''fairy''"], where st = "Some sample_opened"])
       (simp_all add: sample_mention_gate sample_mention_gate [unfolded sample_mention_result_def])
  from gate_soft_earned [OF h _ sample_soft_reason] obtain newer t ev0 d0 older where
    "[(10, sample_fairy_event [sample_at, sample_words], True, snd sample_mention_result)] = newer @ (t, ev0, True, d0) # older"
    "20 < t + bc_FocusTTL sample_behavior"
    by (force simp: sample_behavior_def)
  then show ?thesis by (auto simp: Cons_eq_append_conv)
qed

text \<open>
  C31. Among any claims made within the retention time, each source and event identifier is
  claimed at most once, whichever statements of the database fail.
\<close>

theorem ingress_claimed_once:
  assumes "gm_wf (ts_ingress s)" "\<forall>r \<in> set rs. t0 \<le> claim_time r \<and> claim_time r \<le> t"
    and "UnixMilli t < UnixMilli (t0 + ts_retention s)"
  shows "length (filter (\<lambda>r. (cm_source r, cm_eventID r) = key) (granted_run do_claim rs s)) \<le> 1"
  by (rule claimed_once [OF assms])

definition sample_trace_env :: trace_env where
  "sample_trace_env = \<lparr> tv_fault = \<lambda>_. False, tv_now = 10, tv_digest = \<lambda>domain value. value, tv_validJSON = \<lambda>_. True \<rparr>"

definition sample_trace_store :: trace_store where
  "sample_trace_store = \<lparr> ts_ingress = [], ts_events = [], ts_outputs = [], ts_ratings = [], ts_retention = defaultIngressRetention,
     ts_nextCleanupAt = 0 \<rparr>"

definition sample_claim :: claim_request where
  "sample_claim = \<lparr> cm_env = sample_trace_env, cm_source = ''qq'', cm_eventID = ''m1'', cm_at = 10 \<rparr>"

theorem ingress_claimed_once_witness:
  "length (granted_run do_claim [sample_claim, sample_claim] sample_trace_store) = 1"
proof -
  have "length (filter (\<lambda>r. (cm_source r, cm_eventID r) = (''qq'', ''m1'')) (granted_run do_claim [sample_claim, sample_claim] sample_trace_store)) \<le> 1"
    by (rule ingress_claimed_once [of _ _ 10 10])
       (simp_all add: sample_trace_store_def sample_claim_def claim_time_def zero_time_def UnixMilli_def defaultIngressRetention_def hour_def
         second_def unix_epoch_def)
  moreover have "granted_run do_claim [sample_claim, sample_claim] sample_trace_store \<noteq> []" by code_simp
  moreover have "\<forall>r \<in> set (granted_run do_claim [sample_claim, sample_claim] sample_trace_store). (cm_source r, cm_eventID r) = (''qq'', ''m1'')"
    by code_simp
  ultimately show ?thesis by (simp add: filter_id_conv [THEN iffD2] le_Suc_eq)
qed

text \<open>
  The runtime statistics accept every row that appending accepted, and count the model attempts,
  tool calls and gate decisions of the time window exactly once each, split into completed and
  failed ones.
\<close>

theorem trace_stats_readable:
  assumes "ts_events s = []" "\<forall>ev \<in> set evs. failure_status ev" "\<not> tv_fault e QueryStats"
  shows "\<exists>st. RuntimeStats e (foldl (\<lambda>s ev. fst (Append e s ev)) s evs) since = Inr st
     \<and> rs_ModelCompleted st + rs_ModelFailed st = rs_ModelAttempts st \<and> rs_ToolCompleted st + rs_ToolFailed st = rs_ToolCalls st
     \<and> length (rs_RecentFailures st) \<le> maxRecentTraceFailures
     \<and> (\<forall>ty \<in> {TraceModelAttempt, TraceToolCall, TraceGateDecision}.
          (if ty = TraceModelAttempt then rs_ModelAttempts st else if ty = TraceToolCall then rs_ToolCalls st else rs_GateDecisions st)
          = length (filter (\<lambda>row. tr_type row = ty \<and> UnixMilli (if since = zero_time then tv_now e - 24 * hour else since) \<le> tr_time_ms row)
              (ts_events (foldl (\<lambda>s ev. fst (Append e s ev)) s evs))))"
proof -
  have "rows_ok e (ts_events (foldl (\<lambda>s ev. fst (Append e s ev)) s evs))"
    using assms(1,2)
  proof (induction evs rule: rev_induct)
    case (snoc ev evs)
    then show ?case using Append_rows_ok [of e _ ev e] by simp
  qed (simp add: rows_ok_def)
  from RuntimeStats_reads [OF this assms(3)] show ?thesis .
qed



definition sample_scheduler :: scheduler where
  "sample_scheduler = NewConversationScheduler 4 2 1 sample_trace_store"







text \<open>
  C34. Once admission is closed, the goroutines take a bounded number of steps, whatever
  else happens in between, and when none of them can go on, all have returned, no queue and
  no pending turn is left and every slot is free.
\<close>

theorem shutdown_drains:
  assumes "labelled_run sched_step (NewConversationScheduler maxPending maxConversation maxConcurrent trace) ls s"
    and "0 < sx_maxConcurrent s" "closed_run (CloseAdmission s) n s'"
  shows "n + work s' \<le> work s
     \<and> ((\<forall>l t. \<not> actor_step s' l t) \<longrightarrow> shutdown_done s' \<and> sx_queues s' = [] \<and> sx_pending s' = 0 \<and> sx_slots s' = 0)"
proof -
  have "sched_inv (CloseAdmission s)" "\<not> sx_accepting (CloseAdmission s)" "work (CloseAdmission s) = work s"
    using turns.run_reaches [OF assms(1)] by (simp_all add: CloseAdmission_def sched_inv_def work_def)
  note b = closed_run_bound [OF assms(3) this(1,2)] and w = this(3)
  have "0 < sx_maxConcurrent s'" using b(4) assms(2) by (simp add: CloseAdmission_def)
  with drained [OF b(2)] b(1) w show ?thesis by simp
qed

theorem shutdown_drains_witness:
  "shutdown_done (CloseAdmission sample_scheduler) \<and> sx_pending (CloseAdmission sample_scheduler) = 0"
proof -
  have "labelled_run sched_step (NewConversationScheduler 4 2 1 sample_trace_store) [] sample_scheduler"
    by (simp add: sample_scheduler_def run_start)
  moreover have "0 < sx_maxConcurrent sample_scheduler" by (simp add: sample_scheduler_def NewConversationScheduler_def)
  moreover have "\<not> actor_step (CloseAdmission sample_scheduler) l t" for l t
    by (auto simp: CloseAdmission_def sample_scheduler_def NewConversationScheduler_def elim!: actor_step.cases)
  ultimately show ?thesis using shutdown_drains [OF _ _ closed_start] by blast
qed

section \<open>Memory, context and replies of the agent\<close>


definition sample_fact_env :: fact_env where
  "sample_fact_env = \<lparr> fv_fault = \<lambda>_. False, fv_now = 10, fv_length = rune_count, fv_sensitive = \<lambda>text. text = ''secret'',
     fv_random = Some ''0a'', fv_marshal = \<lambda>_. [], fv_rfc3339 = \<lambda>_. [], fv_Atoi = \<lambda>_. None \<rparr>"

definition sample_fact_scope :: fact_scope where
  "sample_fact_scope = \<lparr> sc_Type = FactScopeGroup, sc_ID = ''c1'', sc_OwnerUserID = [] \<rparr>"

definition sample_fact_row :: fact_row where
  "sample_fact_row = \<lparr> fr_id = ''fact_0a'', fr_scope = sample_fact_scope, fr_content = ''tea'', fr_source_message_id = ''m1'',
     fr_created_at = UnixMilli 10, fr_expires_at = UnixMilli (10 + 5) \<rparr>"



text \<open>
  C37. In a group, a facts, remember or forget command of a user who is neither owner nor
  administrator, or whose role cannot be read, adds no fact, removes only expired ones and
  leaves the switches as they were.
\<close>

theorem fact_commands_authorised:
  assumes "run_fact_command gt se e members x cmd ev argument = (x', r)" "fx_facts x = Some s"
    and "is_group_event ev" "\<not> group_manager members (sd_UserID (fe_Sender ev))"
  shows "fx_state x' = fx_state x \<and> (\<exists>s'. fx_facts x' = Some s' \<and> (\<forall>row. row \<in> set (fs_rows s') \<longrightarrow> row \<in> set (fs_rows s))
     \<and> (\<forall>row \<in> set (fs_rows s). row \<in> set (fs_rows s') \<or> fr_expires_at row \<le> UnixMilli (fv_now e)))"
  using run_fact_command_change [OF assms(1)] assms(2-4)
  by (auto simp: fact_engine_change_def fact_expiry_def fact_expired_def)

definition sample_members :: "group_member list res" where
  "sample_members = Inr []"

theorem fact_commands_authorised_witness:
  "run_fact_command sample_fairy_text sample_state_env sample_fact_env sample_members
      \<lparr> fx_plugin = True, fx_facts = Some \<lparr> fs_rows = [sample_fact_row], fs_ttl = 5 \<rparr>, fx_state = sample_opened \<rparr>
      ForgetCmd (sample_fairy_event []) ''all''
    = (\<lparr> fx_plugin = True, fx_facts = Some \<lparr> fs_rows = [sample_fact_row], fs_ttl = 5 \<rparr>, fx_state = sample_opened \<rparr>, FactAdminsOnly)
   \<and> \<not> group_manager sample_members (sd_UserID (fe_Sender (sample_fairy_event [])))
   \<and> (\<exists>s'. Some \<lparr> fs_rows = [sample_fact_row], fs_ttl = 5 \<rparr> = Some s' \<and> sample_fact_row \<in> set (fs_rows s'))"
proof -
  let ?x = "\<lparr> fx_plugin = True, fx_facts = Some \<lparr> fs_rows = [sample_fact_row], fs_ttl = 5 \<rparr>, fx_state = sample_opened \<rparr>"
  have run: "run_fact_command sample_fairy_text sample_state_env sample_fact_env sample_members ?x ForgetCmd (sample_fairy_event []) ''all''
      = (?x, FactAdminsOnly)"
    by (simp add: handleForgetCommand_def factMutationAllowed_def sample_members_def is_group_event_def sample_fairy_event_def)
  moreover have no: "is_group_event (sample_fairy_event [])" "\<not> group_manager sample_members (sd_UserID (fe_Sender (sample_fairy_event [])))"
    by (simp_all add: group_manager_def sample_members_def is_group_event_def sample_fairy_event_def)
  ultimately show ?thesis using fact_commands_authorised [OF run _ no] by simp
qed

text \<open>
  C38. After any turns of a conversation that follow each other within the time to live, the
  context holds at most the configured number of messages: the whole history, or the latest
  messages as they were behind one user message that is marked as an untrusted summary, is
  bounded in length and whose source count is that of all older messages, also when
  summaries were summarised again.
\<close>

theorem context_accounts_for_all:
  assumes "2 \<le> n" "cx_maxMessages s = int n" "gm_get (cx_entries s) key = None" "now \<noteq> zero_time" "fresh_turns (cx_ttl s) now turns"
    and "history = messages @ concat (map snd turns)"
    and "kept = ce_messages (context_at (append_all (fst (Context_Append s key now messages)) key turns) key)"
  shows "length kept \<le> n
     \<and> (if length history \<le> n then kept = history
        else (\<exists>summary. kept = summary # drop (length history - (n - 1)) history \<and> xm_Role summary = ''user''
           \<and> HasPrefix (xm_Content summary) memorySummaryPrefix \<and> length (xm_Content summary) \<le> 4803
           \<and> xm_SourceCount summary = (\<Sum>m\<leftarrow>take (length history - (n - 1)) history. chat_count m)))"
proof -
  let ?s = "fst (Context_Append s key now messages)"
  have stale: "context_stale s (context_at s key) now" using assms(3) by (simp add: context_at_def no_entry_def context_stale_def)
  have view: "context_view n history kept"
    unfolding assms(6,7) using assms(1,2,4,5)
    by (intro append_all_view [OF context_view_first [OF stale assms(2,1)] refl]) (simp_all add: Context_Append_frame)
  then have "length kept \<le> n" using assms(1) by (intro context_view_length) simp_all
  with view show ?thesis
    by (simp add: context_view_def summary_of_def last_n_def maxMemorySummaryRunes_def split: if_split_asm) metis
qed

definition sample_turn_message :: "string \<Rightarrow> chat_message" where
  "sample_turn_message text = chat_message0 ''user'' text"

theorem context_accounts_for_all_witness:
  "\<exists>summary. ce_messages (context_at (append_all (fst (Context_Append (NewContextStore 60 2) ''c1'' 10 [sample_turn_message ''a'', sample_turn_message ''b''])) ''c1''
        [(20, [sample_turn_message ''c''])]) ''c1'') = summary # [sample_turn_message ''c''] \<and> xm_SourceCount summary = 2"
  using context_accounts_for_all [of 2 "NewContextStore 60 2" "''c1''" 10 "[(20, [sample_turn_message ''c''])]", OF _ _ _ _ _ refl refl, of "[sample_turn_message ''a'', sample_turn_message ''b'']"]
  by (auto simp: NewContextStore_def zero_time_def chat_count_def sample_turn_message_def chat_message0_def)
















section \<open>Performance reports\<close>

text \<open>
  C35. After any requests to a new collector, with whatever answers, the ring buffer holds,
  read from its next position on, exactly the last accepted samples in the order they came,
  as many as the capacity: it implements a window over the list of accepted samples.
\<close>

theorem perf_ring_last:
  "ring_contents (perf_state xs (New_collector capacity salt))
     = last_n (nat (if capacity \<le> 0 then 500 else capacity)) (accepted_run xs (New_collector capacity salt))
   \<and> mset (co_samples (perf_state xs (New_collector capacity salt)))
     = mset (last_n (nat (if capacity \<le> 0 then 500 else capacity)) (accepted_run xs (New_collector capacity salt)))"
proof -
  have "co_capacity (New_collector capacity salt) = nat (if capacity \<le> 0 then 500 else capacity)"
    "ring_contents (New_collector capacity salt) = []"
    by (simp_all add: New_collector_def defaultCapacity_def ring_contents_def)
  then have "ring_contents (perf_state xs (New_collector capacity salt))
      = last_n (nat (if capacity \<le> 0 then 500 else capacity)) (accepted_run xs (New_collector capacity salt))"
    using perf_state_ring [OF New_ring [of capacity salt], of xs] by simp
  then show ?thesis using mset_ring_contents [of "perf_state xs (New_collector capacity salt)"] by simp
qed

text \<open>
  In any span of one minute, whatever happened before, at most 120 requests of one address get past
  the rate limit of 60 per window, and the table of addresses never has more than 4096 entries.
\<close>

theorem perf_rate_limited:
  assumes "int (length earlier + length xs) \<le> max_int64" "zero_time < t"
    and "\<forall>(e, rq) \<in> set xs. pv_digest e = dg \<and> t \<le> pv_now e \<and> pv_now e < t + rateWindow"
  shows "length (filter (\<lambda>(e, rq, code). (code = 204 \<or> code = 400) \<and> dg salt (clientIP e rq) = key)
       (perf_log xs (perf_state earlier (New_collector capacity salt)))) \<le> 120
     \<and> length (co_rates (perf_state (earlier @ xs) (New_collector capacity salt))) \<le> maxRateClients"
proof -
  let ?c = "New_collector capacity salt" let ?d = "perf_state earlier ?c"
  have new: "rates_ok 0 ?c" "co_rateSalt ?c = salt" by (simp_all add: rates_ok_def New_collector_def)
  have d: "rates_ok (length earlier) ?d" "co_rateSalt ?d = salt"
    using perf_state_rates_ok [OF new(1), of earlier] assms(1) new(2) by simp_all
  have "budget t key ?d \<le> 120"
    using budget_le [OF d(1), of t key] by (simp add: maxReportsPerIP_def)
  moreover have "int (length (filter (\<lambda>(e, rq, code). let_through code \<and> dg salt (clientIP e rq) = key) (perf_log xs ?d))) \<le> budget t key ?d"
    using perf_log_budget [OF d(1) assms] d(2) by simp
  moreover have "rates_ok (length (earlier @ xs)) (perf_state (earlier @ xs) ?c)"
    using perf_state_rates_ok [OF new(1), of "earlier @ xs"] assms(1) by simp
  ultimately show ?thesis by (simp add: rates_ok_def let_through_def)
qed

definition sample_perf_env :: perf_env where
  "sample_perf_env = \<lparr> pv_ToLower = \<lambda>x. x, pv_digest = \<lambda>salt ip. ip, pv_ParseIP = \<lambda>_. False, pv_SplitHostPort = \<lambda>_. None,
     pv_body = \<lambda>_. PerfObject [(''load_kind'', PStr ''cold''), (''interactive_ms'', PInt 100)] True, pv_now = 10 \<rparr>"

definition sample_perf_request :: perf_request where
  "sample_perf_request = \<lparr> rq_Method = ''POST'', rq_SecFetchSite = [], rq_XRealIP = [], rq_RemoteAddr = ''1.2.3.4'', rq_Body = [] \<rparr>"

text \<open>
  The reported percentiles are measured values, and, with the float64 rounding of the code, at least
  95 of 100 samples are not slower than the 95th percentile and at least half are not slower than
  the median.
\<close>

theorem perf_percentiles:
  assumes "samples \<noteq> []" "length samples \<le> 2 ^ 40"
  shows "19 * length samples \<le> 20 * length (filter (\<lambda>x. pr_InteractiveMS x \<le> sm_P95InteractiveMS (summarize samples target)) samples)
     \<and> length samples \<le> 2 * length (filter (\<lambda>x. pr_InteractiveMS x \<le> sm_P50InteractiveMS (summarize samples target)) samples)
     \<and> {sm_P50InteractiveMS (summarize samples target), sm_P95InteractiveMS (summarize samples target)} \<subseteq> pr_InteractiveMS ` set samples"
proof -
  let ?v = "sort (map pr_InteractiveMS samples)"
  have s: "sm_P95InteractiveMS (summarize samples target) = percentile ?v (95 / 100)"
    "sm_P50InteractiveMS (summarize samples target) = percentile ?v (1 / 2)"
    using assms(1) by (simp_all add: summarize_def Let_def)
  have "length ?v = length samples" by simp
  then have v: "?v \<noteq> []" "sorted ?v" "length ?v \<le> 2 ^ 40" using assms by (auto simp flip: length_greater_0_conv)
  have cnt: "length (filter (\<lambda>v. v \<le> k) ?v) = length (filter (\<lambda>x. pr_InteractiveMS x \<le> k) samples)" for k
  proof -
    have "mset (filter (\<lambda>v. v \<le> k) ?v) = mset (filter (\<lambda>v. v \<le> k) (map pr_InteractiveMS samples))" by simp
    then have "length (filter (\<lambda>v. v \<le> k) ?v) = length (filter (\<lambda>v. v \<le> k) (map pr_InteractiveMS samples))" by (rule mset_eq_length)
    then show ?thesis by (simp add: filter_map comp_def)
  qed
  note c95 = percentile_covers [OF v, of "95 / 100"] and c50 = percentile_covers [OF v, of "1 / 2"]
  have "of_nat (length samples) * (95 / 100) - 1 / 20 < (of_nat (length (filter (\<lambda>x. pr_InteractiveMS x \<le> percentile ?v (95 / 100)) samples)) :: rat)"
    "of_nat (length samples) * (1 / 2) - 1 / 20 < (of_nat (length (filter (\<lambda>x. pr_InteractiveMS x \<le> percentile ?v (1 / 2)) samples)) :: rat)"
    using c95(2) c50(2) by (simp_all add: cnt)
  then have "(of_nat (19 * length samples) :: rat) < of_nat (20 * length (filter (\<lambda>x. pr_InteractiveMS x \<le> percentile ?v (95 / 100)) samples) + 1)"
    "(of_nat (length samples) :: rat) < of_nat (2 * length (filter (\<lambda>x. pr_InteractiveMS x \<le> percentile ?v (1 / 2)) samples) + 1)"
    by simp_all
  then show ?thesis using c95(1) c50(1) unfolding s of_nat_less_iff by auto
qed

definition sample_reports :: "perf_sample list" where
  "sample_reports = map (\<lambda>ms. sample_of (empty_report\<lparr>pr_InteractiveMS := ms\<rparr>) 10) [300, 100, 200]"

end
